(* ===== verification/Py_Prelude.thy ===== *)
theory Py_Prelude
  imports Complex_Main "HOL-Library.List_Lexorder" "HOL-Library.Product_Lexorder"
begin

text \<open>
  The fragment of Python the program is written in, shared by every component.

  A Python \<open>str\<close> is the list of its code points (\<open>pystr\<close>), so that lengths, slices and
  regular-expression spans count what Python counts; an ASCII literal is written
  \<open>lit ''abc''\<close>. Comparison of strings is the lexicographic order of
  \<open>HOL-Library.List_Lexorder\<close>. A JSON-like value is a \<open>pyval\<close>; a dictionary is the
  association list of its items in insertion order. A float is the rational its decimal
  literal denotes (the header of Spec2Isabelle says why that is exact here). An exception
  is a value of \<open>pyerr\<close>, and a fallible operation returns \<open>pyerr + 'a\<close>.
\<close>

named_theorems py_simps \<open>unfolding of the Python library operations\<close>

section \<open>Strings\<close>

type_synonym pystr = "nat list"

definition lit :: "string \<Rightarrow> pystr" where
  "lit s = map of_char s"

lemma lit_eq_iff [simp]: "lit s = lit t \<longleftrightarrow> s = t"
  by (simp add: lit_def inj_map_eq_map inj_of_char)

lemma lit_Nil [simp]: "lit [] = []"
  by (simp add: lit_def)

lemma lit_eq_Nil [simp]: "lit s = [] \<longleftrightarrow> s = []" "[] = lit s \<longleftrightarrow> s = []"
  by (auto simp: lit_def)

lemma lit_append: "lit (s @ t) = lit s @ lit t"
  by (simp add: lit_def)

lemma length_lit [simp]: "length (lit s) = length s"
  by (simp add: lit_def)

lemma lit_ascii: "c \<in> set (lit s) \<Longrightarrow> c < 256"
  unfolding lit_def
  by (metis (no_types, lifting) imageE list.set_map nat_of_char_less_256)

text \<open>
  A Hebrew literal, with one ASCII letter per Hebrew letter: the alphabet in the order of its
  code points, each final form before its letter. Any other character stands for itself.
\<close>

definition heb_letters :: string where
  "heb_letters = ''abgdhvzxTyKklMmNnsePpCcqrwt''"

definition heb_letter :: "char \<Rightarrow> nat" where
  "heb_letter c =
     (let k = length (takeWhile (\<lambda>d. d \<noteq> c) heb_letters)
      in if k < 27 then 1488 + k else of_char c)"

definition heb :: "string \<Rightarrow> pystr" where
  "heb s = map heb_letter s"

lemma heb_simps [simp]: "heb [] = []" "heb (c # s) = heb_letter c # heb s"
  by (simp_all add: heb_def)

lemma heb_eq_Nil [simp]: "heb s = [] \<longleftrightarrow> s = []"
  by (simp add: heb_def)

text \<open>\<open>str.isspace\<close> on one code point: what \<open>strip\<close>, \<open>split\<close> and \<open>\s\<close> treat as blank.\<close>

definition is_space :: "nat \<Rightarrow> bool" where
  "is_space c \<longleftrightarrow> (9 \<le> c \<and> c \<le> 13) \<or> (28 \<le> c \<and> c \<le> 32) \<or> c = 133 \<or> c = 160 \<or> c = 5760 \<or>
     (8192 \<le> c \<and> c \<le> 8202) \<or> c = 8232 \<or> c = 8233 \<or> c = 8239 \<or> c = 8287 \<or> c = 12288"

definition py_lstrip :: "pystr \<Rightarrow> pystr" where
  "py_lstrip s = dropWhile is_space s"

definition py_rstrip :: "pystr \<Rightarrow> pystr" where
  "py_rstrip s = rev (dropWhile is_space (rev s))"

definition py_strip :: "pystr \<Rightarrow> pystr" where
  "py_strip s = py_rstrip (py_lstrip s)"

text \<open>\<open>str.split()\<close> without a separator: the maximal runs of non-blank characters.\<close>

function py_split :: "pystr \<Rightarrow> pystr list" where
  "py_split s =
     (let t = dropWhile is_space s in
      if t = [] then []
      else takeWhile (\<lambda>c. \<not> is_space c) t # py_split (dropWhile (\<lambda>c. \<not> is_space c) t))"
  by pat_completeness auto
termination
proof (relation "measure length", goal_cases)
  case (2 s t)
  then obtain c r where t: "dropWhile is_space s = c # r" by (cases "dropWhile is_space s") auto
  then have "\<not> is_space c" by (metis hd_dropWhile list.distinct(1) list.sel(1))
  have "length (dropWhile (\<lambda>c. \<not> is_space c) r) \<le> length r"
    by (rule length_dropWhile_le)
  also have "\<dots> < length s"
    using t length_dropWhile_le [of is_space s] by (metis Suc_le_eq length_Cons)
  finally show ?case using 2 t \<open>\<not> is_space c\<close> by simp
qed simp

declare py_split.simps [simp del]

fun py_join :: "pystr \<Rightarrow> pystr list \<Rightarrow> pystr" where
  "py_join sep [] = []"
| "py_join sep [w] = w"
| "py_join sep (w # v # ws) = w @ sep @ py_join sep (v # ws)"

text \<open>
  \<open>str.lower\<close>. ASCII and Latin-1 capitals, and the two code points outside them whose
  lower case contains an ASCII letter (the Kelvin sign and the dotted capital I); any other
  code point is left alone. The code compares lowered strings with ASCII and Hebrew
  literals only, which no other code point can reach.
\<close>

definition lower_char :: "nat \<Rightarrow> nat list" where
  "lower_char c =
     (if (65 \<le> c \<and> c \<le> 90) \<or> (192 \<le> c \<and> c \<le> 222 \<and> c \<noteq> 215) then [c + 32]
      else if c = 8490 then [107]
      else if c = 304 then [105, 775]
      else [c])"

definition py_lower :: "pystr \<Rightarrow> pystr" where
  "py_lower s = concat (map lower_char s)"

text \<open>\<open>sub in s\<close> for strings.\<close>

fun py_prefix :: "pystr \<Rightarrow> pystr \<Rightarrow> bool" where
  "py_prefix [] s = True"
| "py_prefix (c # cs) [] = False"
| "py_prefix (c # cs) (d # ds) = (c = d \<and> py_prefix cs ds)"

fun py_contains :: "pystr \<Rightarrow> pystr \<Rightarrow> bool" where
  "py_contains sub [] = (sub = [])"
| "py_contains sub (c # cs) = (py_prefix sub (c # cs) \<or> py_contains sub cs)"

lemma py_prefix_append: "py_prefix a (a @ b)"
  by (induction a) auto

lemma py_prefix_iff: "py_prefix a s \<longleftrightarrow> (\<exists>b. s = a @ b)"
  by (induction a s rule: py_prefix.induct) auto

lemma py_contains_iff: "py_contains sub s \<longleftrightarrow> (\<exists>a b. s = a @ sub @ b)"
proof (induction s)
  case Nil
  then show ?case by simp
next
  case (Cons c cs)
  have "(\<exists>a b. c # cs = a @ sub @ b) \<longleftrightarrow>
      (\<exists>b. c # cs = sub @ b) \<or> (\<exists>a b. cs = a @ sub @ b)" (is "?l \<longleftrightarrow> ?r")
  proof
    assume ?l
    then obtain a b where "c # cs = a @ sub @ b" by blast
    then show ?r by (cases a) auto
  next
    assume ?r
    then show ?l by (metis append_Cons append_Nil)
  qed
  then show ?case by (simp add: Cons.IH py_prefix_iff)
qed

section \<open>Decimal numbers\<close>

text \<open>
  The code points of Unicode category Nd come in runs of ten, from digit 0 to digit 9;
  \<open>nd_starts\<close> lists the first of each run. \<open>\d\<close> matches exactly these, and \<open>int()\<close>
  reads them.
\<close>

definition nd_starts :: "nat list" where
  "nd_starts = [1632, 1776, 1984, 2406, 2534, 2662, 2790, 2918, 3046, 3174, 3302, 3430, 3558, 3664,
     3792, 3872, 4160, 4240, 6112, 6160, 6470, 6608, 6784, 6800, 6992, 7088, 7232, 7248,
     42528, 43216, 43264, 43472, 43504, 43600, 44016, 65296, 66720, 68912, 69734, 69872,
     69942, 70096, 70384, 70736, 70864, 71248, 71360, 71472, 71904, 72016, 72784, 73040,
     73120, 73552, 92768, 92864, 93008, 120782, 120792, 120802, 120812, 120822, 123200,
     123632, 124144, 125264, 130032]"

definition is_digit :: "nat \<Rightarrow> bool" where
  "is_digit c \<longleftrightarrow> (48 \<le> c \<and> c \<le> 57) \<or> (1632 \<le> c \<and> list_ex (\<lambda>b. b \<le> c \<and> c \<le> b + 9) nd_starts)"

definition digit_val :: "nat \<Rightarrow> nat" where
  "digit_val c =
     (if 48 \<le> c \<and> c \<le> 57 then c - 48
      else case find (\<lambda>b. b \<le> c \<and> c \<le> b + 9) nd_starts of None \<Rightarrow> 0 | Some b \<Rightarrow> c - b)"

definition nat_of_digits :: "pystr \<Rightarrow> nat" where
  "nat_of_digits s = foldl (\<lambda>a c. 10 * a + digit_val c) 0 s"

text \<open>\<open>str(n)\<close> for a natural number, and the zero-padded \<open>f"{n:0kd}"\<close>.\<close>

fun digits_of_nat :: "nat \<Rightarrow> pystr" where
  "digits_of_nat n = (if n < 10 then [48 + n] else digits_of_nat (n div 10) @ [48 + n mod 10])"

declare digits_of_nat.simps [simp del]

definition str_of_int :: "int \<Rightarrow> pystr" where
  "str_of_int i = (if i < 0 then 45 # digits_of_nat (nat (- i)) else digits_of_nat (nat i))"

definition pad0 :: "nat \<Rightarrow> nat \<Rightarrow> pystr" where
  "pad0 k n = (let d = digits_of_nat n in replicate (k - length d) 48 @ d)"

text \<open>
  \<open>int(s)\<close> on a string: surrounding blanks, one sign, digits with single underscores
  between them, at most 4300 of them; anything else is a \<open>ValueError\<close> (None).
\<close>

fun int_digits :: "pystr \<Rightarrow> pystr option" where
  "int_digits [] = None"
| "int_digits [c] = (if is_digit c then Some [c] else None)"
| "int_digits (c # d # cs) =
     (if \<not> is_digit c then None
      else if d = 95 then map_option ((#) c) (int_digits cs)
      else map_option ((#) c) (int_digits (d # cs)))"

definition int_of_str :: "pystr \<Rightarrow> int option" where
  "int_of_str s =
     (let t = py_strip s;
          neg = (t \<noteq> [] \<and> hd t = 45);
          body = (if t \<noteq> [] \<and> (hd t = 45 \<or> hd t = 43) then tl t else t)
      in case int_digits body of
           None \<Rightarrow> None
         | Some ds \<Rightarrow>
             if length ds > 4300 then None
             else Some (if neg then - int (nat_of_digits ds) else int (nat_of_digits ds)))"

section \<open>Reading back what was written out\<close>

lemma nat_of_digits_snoc: "nat_of_digits (w @ [c]) = 10 * nat_of_digits w + digit_val c"
  by (simp add: nat_of_digits_def)

lemma digit_val_lt: "is_digit c \<Longrightarrow> digit_val c < 10"
  by (auto simp: is_digit_def digit_val_def find_Some_iff split: option.splits)

lemma digit_char: "n < 10 \<Longrightarrow> is_digit (48 + n) \<and> digit_val (48 + n) = n"
  by (auto simp: is_digit_def digit_val_def)

lemma nat_of_digits_of_nat: "nat_of_digits (digits_of_nat n) = n \<and> list_all is_digit (digits_of_nat n)"
proof (induction n rule: digits_of_nat.induct)
  case (1 n)
  show ?case
  proof (cases "n < 10")
    case True
    then show ?thesis using digit_char by (simp add: digits_of_nat.simps [of n] nat_of_digits_def)
  next
    case False
    then show ?thesis using 1 digit_char [of "n mod 10"]
      by (simp add: digits_of_nat.simps [of n] nat_of_digits_snoc)
  qed
qed

lemma length_digits_of_nat: "0 < k \<Longrightarrow> n < 10 ^ k \<Longrightarrow> length (digits_of_nat n) \<le> k"
proof (induction k arbitrary: n)
  case (Suc k)
  show ?case
  proof (cases "n < 10")
    case True
    then show ?thesis by (simp add: digits_of_nat.simps [of n])
  next
    case False
    then have "0 < k" using Suc.prems(2) by (cases k) auto
    moreover have "n div 10 < 10 ^ k" using Suc.prems(2) by (simp add: less_mult_imp_div_less mult.commute)
    ultimately show ?thesis using Suc.IH [of "n div 10"] False by (simp add: digits_of_nat.simps [of n])
  qed
qed simp

lemma digits_of_nat_ascii: "\<forall>c \<in> set (digits_of_nat n). 48 \<le> c \<and> c \<le> 57"
proof (induction n rule: digits_of_nat.induct)
  case (1 n)
  then show ?case by (cases "n < 10") (auto simp: digits_of_nat.simps [of n])
qed

lemma digits_of_nat_not_Nil: "digits_of_nat n \<noteq> []"
  by (subst digits_of_nat.simps) simp

lemma int_digits_digits: "w \<noteq> [] \<Longrightarrow> list_all is_digit w \<Longrightarrow> int_digits w = Some w"
proof (induction w rule: int_digits.induct)
  case (3 c d cs)
  have "d \<noteq> 95" using 3(4) by (auto simp: is_digit_def)
  then show ?case using 3 by simp
qed simp_all

section \<open>Exceptions, values and dictionaries\<close>

datatype pyerr =
    ValueError
  | TypeError
  | KeyError
  | LookupError
  | AttributeError
  | RuntimeError
  | FileNotFoundError
  | ValidationError
  | StopIteration
  | HTTPException nat
  | DatabaseError
  | BackendError pystr

datatype pyval =
    PNone
  | PBool bool
  | PInt int
  | PFloat rat
  | PStr pystr
  | PList "pyval list"
  | PDict "(pystr \<times> pyval) list"

abbreviation PLit :: "string \<Rightarrow> pyval" where
  "PLit s \<equiv> PStr (lit s)"

type_synonym 'v dict = "(pystr \<times> 'v) list"

fun dset :: "'v dict \<Rightarrow> pystr \<Rightarrow> 'v \<Rightarrow> 'v dict" where
  "dset [] k v = [(k, v)]"
| "dset ((k', v') # d) k v = (if k' = k then (k, v) # d else (k', v') # dset d k v)"

definition dget :: "'v dict \<Rightarrow> pystr \<Rightarrow> 'v option" where
  "dget d k = map_of d k"

text \<open>\<open>d.get(k)\<close> on a dictionary of JSON-like values: a missing key reads as \<open>None\<close>.\<close>

definition vget :: "pyval dict \<Rightarrow> pystr \<Rightarrow> pyval" where
  "vget d k = (case dget d k of None \<Rightarrow> PNone | Some v \<Rightarrow> v)"

definition dupdate :: "'v dict \<Rightarrow> 'v dict \<Rightarrow> 'v dict" where
  "dupdate d e = foldl (\<lambda>acc (k, v). dset acc k v) d e"

lemma dget_Nil [simp]: "dget [] k = None"
  by (simp add: dget_def)

lemma dget_Cons [simp]: "dget ((k', v) # d) k = (if k' = k then Some v else dget d k)"
  by (simp add: dget_def)

lemma dget_dset [simp]: "dget (dset d k v) k' = (if k = k' then Some v else dget d k')"
  by (induction d k v rule: dset.induct) auto

lemma dget_append: "dget (d @ e) k = (case dget d k of None \<Rightarrow> dget e k | Some v \<Rightarrow> Some v)"
  by (induction d) (auto split: prod.splits)

lemma vget_Nil [simp]: "vget [] k = PNone"
  by (simp add: vget_def)

lemma vget_Cons [simp]: "vget ((k', v) # d) k = (if k' = k then v else vget d k)"
  by (simp add: vget_def)

lemma vget_dset [simp]: "vget (dset d k v) k' = (if k = k' then v else vget d k')"
  by (simp add: vget_def)

lemma dset_keys: "set (map fst (dset d k v)) = insert k (set (map fst d))"
  by (induction d k v rule: dset.induct) auto

lemma dset_distinct: "distinct (map fst d) \<Longrightarrow> distinct (map fst (dset d k v))"
proof (induction d k v rule: dset.induct)
  case (1 k v)
  then show ?case by simp
next
  case (2 k' v' d k v)
  then show ?case using dset_keys [of d k v] by (cases "k' = k") (simp_all del: set_map)
qed

fun truthy :: "pyval \<Rightarrow> bool" where
  "truthy PNone = False"
| "truthy (PBool b) = b"
| "truthy (PInt i) = (i \<noteq> 0)"
| "truthy (PFloat x) = (x \<noteq> 0)"
| "truthy (PStr s) = (s \<noteq> [])"
| "truthy (PList vs) = (vs \<noteq> [])"
| "truthy (PDict d) = (d \<noteq> [])"

text \<open>\<open>x or y\<close>.\<close>

definition py_or :: "pyval \<Rightarrow> pyval \<Rightarrow> pyval" where
  "py_or x y = (if truthy x then x else y)"

fun num_val :: "pyval \<Rightarrow> rat option" where
  "num_val (PBool b) = Some (if b then 1 else 0)"
| "num_val (PInt i) = Some (of_int i)"
| "num_val (PFloat x) = Some x"
| "num_val _ = None"

text \<open>\<open>==\<close> on scalars: numbers compare by value across \<open>bool\<close>, \<open>int\<close> and \<open>float\<close>.\<close>

definition py_eq :: "pyval \<Rightarrow> pyval \<Rightarrow> bool" where
  "py_eq a b =
     (case num_val a of
        Some x \<Rightarrow> num_val b = Some x
      | None \<Rightarrow> num_val b = None \<and> a = b)"

lemma py_eq_refl [simp]: "py_eq a a"
  by (simp add: py_eq_def split: option.splits)

lemma py_eq_PStr [simp]:
  "py_eq v (PStr s) \<longleftrightarrow> v = PStr s" "py_eq (PStr s) v \<longleftrightarrow> v = PStr s"
  by (cases v; auto simp: py_eq_def)+

lemma py_eq_PNone [simp]: "py_eq v PNone \<longleftrightarrow> v = PNone" "py_eq PNone v \<longleftrightarrow> v = PNone"
  by (cases v; auto simp: py_eq_def)+

text \<open>Lists and dictionaries are unhashable: putting one in a set is a \<open>TypeError\<close>.\<close>

fun hashable :: "pyval \<Rightarrow> bool" where
  "hashable (PList _) = False"
| "hashable (PDict _) = False"
| "hashable _ = True"

text \<open>\<open>int(v)\<close>; a float is truncated towards zero.\<close>

fun py_int :: "pyval \<Rightarrow> pyerr + int" where
  "py_int (PInt i) = Inr i"
| "py_int (PBool b) = Inr (if b then 1 else 0)"
| "py_int (PFloat x) = Inr (if x < 0 then - \<lfloor>- x\<rfloor> else \<lfloor>x\<rfloor>)"
| "py_int (PStr s) = (case int_of_str s of None \<Rightarrow> Inl ValueError | Some i \<Rightarrow> Inr i)"
| "py_int _ = Inl TypeError"

definition of_opt :: "('a \<Rightarrow> pyval) \<Rightarrow> 'a option \<Rightarrow> pyval" where
  "of_opt f x = (case x of None \<Rightarrow> PNone | Some a \<Rightarrow> f a)"

lemma of_opt_simps [simp]: "of_opt f None = PNone" "of_opt f (Some a) = f a"
  by (simp_all add: of_opt_def)

text \<open>\<open>x or None\<close> on strings: the empty string counts as missing.\<close>

definition nonempty :: "pystr \<Rightarrow> pystr option" where
  "nonempty s = (if s = [] then None else Some s)"

lemma nonempty_Some [simp]: "nonempty s = Some t \<longleftrightarrow> s = t \<and> t \<noteq> []"
  by (auto simp: nonempty_def)

text \<open>
  \<open>str(v)\<close>. The text of a float, a list or a dictionary is not modelled: \<open>rp\<close> stands for it.
\<close>

fun py_str :: "(pyval \<Rightarrow> pystr) \<Rightarrow> pyval \<Rightarrow> pystr" where
  "py_str rp PNone = lit ''None''"
| "py_str rp (PBool b) = lit (if b then ''True'' else ''False'')"
| "py_str rp (PInt i) = str_of_int i"
| "py_str rp (PStr s) = s"
| "py_str rp v = rp v"

text \<open>\<open>set(vs)\<close>: hashing comes first, and equal values are kept once.\<close>

fun nub_eq :: "pyval list \<Rightarrow> pyval list" where
  "nub_eq [] = []"
| "nub_eq (v # vs) = v # filter (\<lambda>w. \<not> py_eq v w) (nub_eq vs)"

definition py_set :: "pyval list \<Rightarrow> pyerr + pyval list" where
  "py_set vs = (if list_all hashable vs then Inr (nub_eq vs) else Inl TypeError)"

text \<open>\<open>sorted(vs)\<close> on scalars: numbers among themselves and strings among themselves.\<close>

fun str_val :: "pyval \<Rightarrow> pystr option" where
  "str_val (PStr s) = Some s"
| "str_val _ = None"

definition py_sorted :: "pyval list \<Rightarrow> pyerr + pyval list" where
  "py_sorted vs =
     (if length vs \<le> 1 then Inr vs
      else if list_all (\<lambda>v. str_val v \<noteq> None) vs then Inr (sort_key (the \<circ> str_val) vs)
      else if list_all (\<lambda>v. num_val v \<noteq> None) vs then Inr (sort_key (the \<circ> num_val) vs)
      else Inl TypeError)"

lemma set_nub_eq_PStr: "PStr s \<in> set (nub_eq vs) \<longleftrightarrow> PStr s \<in> set vs"
  by (induction vs) auto

lemma set_nub_eq: "set (nub_eq vs) \<subseteq> set vs"
  by (induction vs) auto

section \<open>Rounding\<close>

text \<open>\<open>round(x, n)\<close> rounds half to even.\<close>

definition round_half_even :: "rat \<Rightarrow> int" where
  "round_half_even x =
     (let f = \<lfloor>x\<rfloor>; d = x - of_int f in
      if d < 1 / 2 then f else if d > 1 / 2 then f + 1 else if even f then f else f + 1)"

definition py_round :: "nat \<Rightarrow> rat \<Rightarrow> rat" where
  "py_round n x = of_int (round_half_even (x * 10 ^ n)) / 10 ^ n"

lemma round_half_even_int [simp]: "round_half_even (of_int i) = i"
  by (simp add: round_half_even_def)

lemma py_round_exact:
  assumes "x * 10 ^ n = of_int i"
  shows "py_round n x = x"
proof -
  have "py_round n x = of_int i / 10 ^ n"
    by (simp add: py_round_def assms)
  also have "\<dots> = x"
    using assms by (simp add: field_simps)
  finally show ?thesis .
qed

lemma round_half_even_mono:
  assumes "x \<le> y" shows "round_half_even x \<le> round_half_even y"
proof (cases "\<lfloor>x\<rfloor> = \<lfloor>y\<rfloor>")
  case True
  then show ?thesis using assms by (auto simp: round_half_even_def Let_def)
next
  case False
  then have "\<lfloor>x\<rfloor> + 1 \<le> \<lfloor>y\<rfloor>" using floor_mono [OF assms] by linarith
  moreover have "round_half_even x \<le> \<lfloor>x\<rfloor> + 1" "\<lfloor>y\<rfloor> \<le> round_half_even y"
    by (auto simp: round_half_even_def Let_def)
  ultimately show ?thesis by linarith
qed

lemma py_round_mono: "x \<le> y \<Longrightarrow> py_round n x \<le> py_round n y"
  unfolding py_round_def
  by (intro divide_right_mono) (auto intro!: round_half_even_mono mult_right_mono)

lemma py_round_0 [simp]: "py_round n 0 = 0"
  using py_round_exact [of 0 n 0] by simp

lemma py_round_1 [simp]: "py_round n 1 = 1"
  using py_round_exact [of 1 n "10 ^ n"] by simp

lemma py_round_unit: "0 \<le> x \<Longrightarrow> x \<le> 1 \<Longrightarrow> 0 \<le> py_round n x \<and> py_round n x \<le> 1"
  using py_round_mono [of 0 x n] py_round_mono [of x 1 n] by simp

section \<open>Steps that may raise\<close>

definition bind_err :: "pyerr + 'a \<Rightarrow> ('a \<Rightarrow> pyerr + 'b) \<Rightarrow> pyerr + 'b" where
  "bind_err r f = (case r of Inl e \<Rightarrow> Inl e | Inr x \<Rightarrow> f x)"

lemma bind_err_simps [simp]: "bind_err (Inl e) f = Inl e" "bind_err (Inr x) f = f x"
  by (simp_all add: bind_err_def)

lemma bind_err_Inr: "bind_err r f = Inr y \<longleftrightarrow> (\<exists>x. r = Inr x \<and> f x = Inr y)"
  by (cases r) auto

text \<open>\<open>v.get(k)\<close> and \<open>v.get(k, d)\<close> on a value that should be a dictionary.\<close>

definition get_default :: "pyval \<Rightarrow> string \<Rightarrow> pyval \<Rightarrow> pyerr + pyval" where
  "get_default v k d =
     (case v of PDict r \<Rightarrow> Inr (case dget r (lit k) of None \<Rightarrow> d | Some x \<Rightarrow> x) | _ \<Rightarrow> Inl AttributeError)"

text \<open>What a \<open>for\<close> loop over a value runs through.\<close>

definition iterate :: "pyval \<Rightarrow> pyerr + pyval list" where
  "iterate v =
     (case v of
        PList vs \<Rightarrow> Inr vs
      | PStr s \<Rightarrow> Inr (map (\<lambda>c. PStr [c]) s)
      | PDict d \<Rightarrow> Inr (map (\<lambda>(k, _). PStr k) d)
      | _ \<Rightarrow> Inl TypeError)"

text \<open>\<open>s in v\<close>.\<close>

definition str_in :: "pystr \<Rightarrow> pyval \<Rightarrow> pyerr + bool" where
  "str_in s v =
     (case v of
        PStr t \<Rightarrow> Inr (py_contains s t)
      | PList vs \<Rightarrow> Inr (PStr s \<in> set vs)
      | PDict d \<Rightarrow> Inr (s \<in> fst ` set d)
      | _ \<Rightarrow> Inl TypeError)"

text \<open>The values a list comprehension keeps, when reading an element may raise or skip it.\<close>

fun collect :: "('a \<Rightarrow> pyerr + 'b option) \<Rightarrow> 'a list \<Rightarrow> pyerr + 'b list" where
  "collect f [] = Inr []"
| "collect f (x # xs) =
     bind_err (f x) (\<lambda>r. bind_err (collect f xs) (\<lambda>rs. Inr (case r of None \<Rightarrow> rs | Some y \<Rightarrow> y # rs)))"

lemma collect_Cons_Inr:
  assumes "collect f (x # xs) = Inr ys"
  obtains r zs where "f x = Inr r" "collect f xs = Inr zs" "ys = (case r of None \<Rightarrow> zs | Some y \<Rightarrow> y # zs)"
  using assms by (auto simp: bind_err_Inr)

lemma collect_length: "collect f xs = Inr ys \<Longrightarrow> length ys \<le> length xs"
  by (induction xs arbitrary: ys) (fastforce simp: bind_err_Inr split: option.splits)+

lemma collect_skipped:
  "collect f xs = Inr ys \<Longrightarrow> x \<in> set xs \<Longrightarrow> f x = Inr None \<Longrightarrow> length ys < length xs"
proof (induction xs arbitrary: ys)
  case (Cons z xs)
  obtain r zs where r: "f z = Inr r" "collect f xs = Inr zs" "ys = (case r of None \<Rightarrow> zs | Some y \<Rightarrow> y # zs)"
    using Cons.prems(1) by (rule collect_Cons_Inr)
  show ?case
  proof (cases "x = z")
    case True
    then show ?thesis using r Cons.prems collect_length [OF r(2)] by simp
  next
    case False
    then have "length zs < length xs" using Cons r by simp
    then show ?thesis using r(3) by (cases r) auto
  qed
qed simp

lemma collect_all:
  "collect f xs = Inr ys \<Longrightarrow> (\<And>x y. x \<in> set xs \<Longrightarrow> f x = Inr (Some y) \<Longrightarrow> P y) \<Longrightarrow> list_all P ys"
proof (induction xs arbitrary: ys)
  case (Cons z xs)
  obtain r zs where r: "f z = Inr r" "collect f xs = Inr zs" "ys = (case r of None \<Rightarrow> zs | Some y \<Rightarrow> y # zs)"
    using Cons.prems(1) by (rule collect_Cons_Inr)
  have "list_all P zs" using Cons.IH [OF r(2)] Cons.prems(2) by auto
  then show ?case using r(1,3) Cons.prems(2) [of z] by (cases r) auto
qed simp

end
