(* ===== verification/Py_Regex_Props.thy ===== *)
theory Py_Regex_Props
  imports Py_Regex
begin

text \<open>
  What the matcher guarantees: it lists exactly the declared matches, it never loses or
  invents text, every captured group is a contiguous piece of the subject, and a pattern
  that requires a character always advances.
\<close>

inductive_cases rmatches_elims:
  "rmatches REps st st'"
  "rmatches (RSet neg cs) st st'"
  "rmatches (RSeq a b) st st'"
  "rmatches (RAlt a b) st st'"
  "rmatches (RRep g lo hi a) st st'"
  "rmatches (RGrp nm a) st st'"
  "rmatches RBol st st'"
  "rmatches REol st st'"
  "rmatches REos st st'"
  "rmatches RWordB st st'"
  "rmatches (RNotAhead cs) st st'"
  "rmatches (RNotBehind cs) st st'"

declare split_paired_All [simp del] split_paired_Ex [simp del]

inductive_cases rounds_elims: "rounds a 0 st st'" "rounds a (Suc n) st st'"
inductive_cases opt_rounds_elims: "opt_rounds a 0 st st'" "opt_rounds a (Suc n) st st'"

section \<open>The matcher lists exactly the declared matches\<close>

lemma rep_min_iff:
  assumes "\<And>st st'. st' \<in> set (f st) \<longleftrightarrow> rmatches a st st'"
  shows "st' \<in> set (rep_min f n st) \<longleftrightarrow> rounds a n st st'"
proof (induction n arbitrary: st)
  case 0
  show ?case by (auto elim: rounds_elims intro: r_0)
next
  case (Suc n)
  show ?case
    by (auto simp: assms Suc.IH elim!: rounds_elims intro: r_Suc)
qed

lemma rep_opt_iff:
  assumes "\<And>st st'. st' \<in> set (f st) \<longleftrightarrow> rmatches a st st'"
  shows "st' \<in> set (rep_opt g f n st) \<longleftrightarrow> (\<exists>k \<le> n. opt_rounds a k st st')"
proof (induction n arbitrary: st)
  case 0
  show ?case by (auto elim: opt_rounds_elims intro: o_0)
next
  case (Suc n)
  have "st' \<in> set (rep_opt g f (Suc n) st) \<longleftrightarrow>
      st' = st \<or> (\<exists>st1. rmatches a st st1 \<and> length (fst (snd st1)) < length (fst (snd st)) \<and>
        (\<exists>k \<le> n. opt_rounds a k st1 st'))"
  proof -
    have "st' \<in> set (rep_opt g f (Suc n) st) \<longleftrightarrow>
        st' = st \<or> (\<exists>st1 \<in> set (f st). length (fst (snd st1)) < length (fst (snd st)) \<and>
          st' \<in> set (rep_opt g f n st1))"
      by (cases g) (force simp: Let_def)+
    then show ?thesis
      by (simp only: Bex_def assms Suc.IH)
  qed
  also have "\<dots> \<longleftrightarrow> (\<exists>k \<le> Suc n. opt_rounds a k st st')" (is "?l \<longleftrightarrow> ?r")
  proof
    assume ?l
    then show ?r by (blast intro: o_0 o_Suc Suc_le_mono [THEN iffD2])
  next
    assume ?r
    then obtain k where k: "k \<le> Suc n" "opt_rounds a k st st'" by blast
    then show ?l by (cases k) (auto elim!: opt_rounds_elims)
  qed
  finally show ?case .
qed

lemma opt_rounds_bound: "opt_rounds a n st st' \<Longrightarrow> n \<le> length (fst (snd st))"
proof (induction n arbitrary: st)
  case 0
  then show ?case by simp
next
  case (Suc n)
  from Suc.prems obtain st1 where "length (fst (snd st1)) < length (fst (snd st))"
    "opt_rounds a n st1 st'" by (auto elim!: opt_rounds_elims)
  with Suc.IH [of st1] show ?case by simp
qed

lemma ms_rep_iff:
  assumes IH: "\<And>st st'. st' \<in> set (ms a st) \<longleftrightarrow> rmatches a st st'"
  shows "st' \<in> set (ms (RRep g lo hi a) st) \<longleftrightarrow> rmatches (RRep g lo hi a) st st'"
proof -
  define lim where "lim = (\<lambda>st :: mstate. case hi of None \<Rightarrow> length (fst (snd st)) | Some h \<Rightarrow> h - lo)"
  have "st' \<in> set (ms (RRep g lo hi a) st) \<longleftrightarrow>
      (\<exists>st1. rounds a lo st st1 \<and> (\<exists>k \<le> lim st1. opt_rounds a k st1 st'))"
    by (auto simp: lim_def rep_min_iff [OF IH] rep_opt_iff [OF IH])
  also have "\<dots> \<longleftrightarrow> (\<exists>st1 k. rounds a lo st st1 \<and> opt_rounds a k st1 st' \<and>
      (case hi of None \<Rightarrow> True | Some h \<Rightarrow> k \<le> h - lo))"
    by (cases hi) (auto simp: lim_def dest: opt_rounds_bound)
  also have "\<dots> \<longleftrightarrow> rmatches (RRep g lo hi a) st st'"
    by (blast elim: rmatches_elims intro: m_rep)
  finally show ?thesis .
qed

lemma ms_iff: "st' \<in> set (ms r st) \<longleftrightarrow> rmatches r st st'"
proof (induction r arbitrary: st st')
  case (RRep g lo hi a)
  then show ?case by (rule ms_rep_iff)
next
  case (RSeq a b)
  have "st' \<in> set (ms (RSeq a b) st) \<longleftrightarrow> (\<exists>st1. rmatches a st st1 \<and> rmatches b st1 st')"
    by (simp only: ms.simps set_concat set_map UN_iff image_iff Bex_def RSeq.IH) (use RSeq.IH in blast)
  then show ?case by (blast elim: rmatches_elims intro: m_seq)
next
  case (RAlt a b)
  then show ?case by (auto elim: rmatches_elims intro: m_altL m_altR)
next
  case (RGrp nm a)
  obtain pre rest k where st: "st = (pre, rest, k)" by (cases st)
  have "st' \<in> set (ms (RGrp nm a) st) \<longleftrightarrow>
      (\<exists>pre' rest' k'. rmatches a (pre, rest, k) (pre', rest', k') \<and>
         st' = (pre', rest', (nm, rev (take (length pre' - length pre) pre')) # k'))"
    unfolding st RGrp.IH [symmetric] by force
  also have "\<dots> \<longleftrightarrow> rmatches (RGrp nm a) st st'"
    unfolding st by (blast elim: rmatches_elims intro: m_grp)
  finally show ?case .
qed (auto elim!: rmatches_elims intro: rmatches_rounds_opt_rounds.intros
      split: list.splits prod.splits if_splits)

section \<open>Text is neither lost nor invented\<close>

text \<open>
  A step reads some text \<open>w\<close> off the input, and every group it adds is a contiguous piece
  of \<open>w\<close>.
\<close>

definition reads :: "pystr \<Rightarrow> mstate \<Rightarrow> mstate \<Rightarrow> bool" where
  "reads w st st' \<longleftrightarrow>
     fst st' = rev w @ fst st \<and> fst (snd st) = w @ fst (snd st') \<and>
     (\<forall>g \<in> set (snd (snd st')). g \<in> set (snd (snd st)) \<or> py_contains (snd g) w)"

definition ms_step_ok :: "mstate \<Rightarrow> mstate \<Rightarrow> bool" where
  "ms_step_ok st st' \<longleftrightarrow> (\<exists>w. reads w st st')"

lemma py_contains_append: "py_contains t v \<Longrightarrow> py_contains t (u @ v)" "py_contains t u \<Longrightarrow> py_contains t (u @ v)"
  unfolding py_contains_iff by (metis append.assoc)+

lemma py_contains_self [simp]: "py_contains w w"
  unfolding py_contains_iff by (metis append_Nil append_Nil2)

lemma reads_append:
  assumes "reads v a b" "reads w b c" shows "reads (v @ w) a c"
proof -
  have "\<forall>g \<in> set (snd (snd c)). g \<in> set (snd (snd a)) \<or> py_contains (snd g) (v @ w)"
    using assms unfolding reads_def by (blast intro: py_contains_append)
  then show ?thesis using assms by (simp add: reads_def)
qed

lemma ms_step_ok_refl: "ms_step_ok st st"
  unfolding ms_step_ok_def by (rule exI [of _ "[]"]) (simp add: reads_def)

lemma ms_step_ok_trans: "ms_step_ok a b \<Longrightarrow> ms_step_ok b c \<Longrightarrow> ms_step_ok a c"
  unfolding ms_step_ok_def by (blast intro: reads_append)

lemma rmatches_step_ok: "rmatches r st st' \<Longrightarrow> ms_step_ok st st'"
  and rounds_step_ok: "rounds r n st st' \<Longrightarrow> ms_step_ok st st'"
  and opt_rounds_step_ok: "opt_rounds r n st st' \<Longrightarrow> ms_step_ok st st'"
proof (induction rule: rmatches_rounds_opt_rounds.inducts)
  case (m_set cs c neg pre rest k)
  then show ?case
    unfolding ms_step_ok_def by (intro exI [of _ "[c]"]) (auto simp: reads_def)
next
  case (m_grp a pre rest k pre' rest' k' nm)
  then obtain w where "reads w (pre, rest, k) (pre', rest', k')" by (auto simp: ms_step_ok_def)
  then have "reads w (pre, rest, k) (pre', rest', (nm, rev (take (length pre' - length pre) pre')) # k')"
    by (auto simp: reads_def)
  then show ?case by (auto simp: ms_step_ok_def)
qed (auto intro: ms_step_ok_refl ms_step_ok_trans)

lemma ms_step_ok: "st' \<in> set (ms r st) \<Longrightarrow> ms_step_ok st st'"
  using ms_iff rmatches_step_ok by blast

section \<open>Patterns that need a character\<close>

primrec consumes :: "re \<Rightarrow> bool" where
  "consumes REps = False"
| "consumes (RSet neg cs) = True"
| "consumes (RSeq a b) = (consumes a \<or> consumes b)"
| "consumes (RAlt a b) = (consumes a \<and> consumes b)"
| "consumes (RRep g lo hi a) = (0 < lo \<and> consumes a)"
| "consumes (RGrp nm a) = consumes a"
| "consumes RBol = False"
| "consumes REol = False"
| "consumes REos = False"
| "consumes RWordB = False"
| "consumes (RNotAhead cs) = False"
| "consumes (RNotBehind cs) = False"

lemma step_ok_le: "ms_step_ok st st' \<Longrightarrow> length (fst st) \<le> length (fst st')"
  by (auto simp: ms_step_ok_def reads_def)

lemma rmatches_advances: "rmatches r st st' \<Longrightarrow> consumes r \<Longrightarrow> length (fst st) < length (fst st')"
proof (induction r arbitrary: st st')
  case (RSeq a b)
  from RSeq.prems(1) obtain st1 where ab: "rmatches a st st1" "rmatches b st1 st'"
    by (auto elim!: rmatches_elims)
  then have "length (fst st) \<le> length (fst st1)" "length (fst st1) \<le> length (fst st')"
    by (auto intro: step_ok_le rmatches_step_ok)
  moreover have "length (fst st) < length (fst st1) \<or> length (fst st1) < length (fst st')"
    using RSeq.IH(1) [OF ab(1)] RSeq.IH(2) [OF ab(2)] RSeq.prems(2) by (auto simp only: consumes.simps)
  ultimately show ?case by linarith
next
  case (RRep g lo hi a)
  then obtain st1 n where r: "rounds a lo st st1" "opt_rounds a n st1 st'" "0 < lo" "consumes a"
    by (auto elim!: rmatches_elims)
  then obtain m st2 where m: "rmatches a st st2" "rounds a m st2 st1"
    by (cases lo) (auto elim!: rounds_elims)
  have "length (fst st2) \<le> length (fst st1)" "length (fst st1) \<le> length (fst st')"
    using m r by (auto intro: step_ok_le rounds_step_ok opt_rounds_step_ok)
  with RRep.IH [OF m(1) r(4)] show ?case by linarith
next
  case (RGrp nm a)
  then show ?case by (auto elim!: rmatches_elims dest!: RGrp.IH)
qed (auto elim!: rmatches_elims)

section \<open>What \<open>finditer\<close> and \<open>search\<close> return\<close>

text \<open>A match of \<open>s\<close>: its span lies in \<open>s\<close>, its text is that slice, and every group is a
  contiguous piece of the slice.\<close>

definition match_of :: "pystr \<Rightarrow> rmatch \<Rightarrow> bool" where
  "match_of s m \<longleftrightarrow>
     m_start m \<le> m_end m \<and> m_end m \<le> length s \<and>
     m_text m = take (m_end m - m_start m) (drop (m_start m) s) \<and>
     (\<forall>g \<in> set (m_groups m). py_contains (snd g) (m_text m))"

lemma mk_match_of:
  assumes "st' \<in> set (ms r (pre, rest, []))" "rev pre @ rest = s"
  shows "match_of s (mk_match pre st')"
proof -
  obtain pre' rest' k where st': "st' = (pre', rest', k)" by (cases st')
  from ms_step_ok [OF assms(1)] obtain w where w: "reads w (pre, rest, []) (pre', rest', k)"
    by (auto simp: ms_step_ok_def st')
  then have eqs: "pre' = rev w @ pre" "rest = w @ rest'" "\<forall>g \<in> set k. py_contains (snd g) w"
    by (auto simp: reads_def)
  then have "s = rev pre @ w @ rest'" using assms(2) by simp
  then show ?thesis
    by (simp add: match_of_def mk_match_def st' eqs)
qed

text \<open>The two ways the scan goes on: past a position where nothing matches, and past a match.\<close>

lemma finditer_from_Nil:
  "ms r (pre, rest, []) = [] \<Longrightarrow>
     finditer_from r pre rest = (case rest of [] \<Rightarrow> [] | c # cs \<Rightarrow> finditer_from r (c # pre) cs)"
  by (simp add: finditer_from.simps [of r pre rest])

lemma finditer_from_Cons:
  "ms r (pre, rest, []) = (pre', rest', k) # sts \<Longrightarrow>
     finditer_from r pre rest = mk_match pre (pre', rest', k) #
       (if length rest' < length rest then finditer_from r pre' rest'
        else case rest of [] \<Rightarrow> [] | c # cs \<Rightarrow> finditer_from r (c # pre) cs)"
  by (simp add: finditer_from.simps [of r pre rest])

lemma finditer_from_match_of:
  "m \<in> set (finditer_from r pre rest) \<Longrightarrow> match_of (rev pre @ rest) m \<and> length pre \<le> m_start m"
proof (induction r pre rest rule: finditer_from.induct)
  case (1 r pre rest)
  show ?case
  proof (cases "ms r (pre, rest, [])")
    case Nil
    with "1.prems" obtain c cs where c: "rest = c # cs" "m \<in> set (finditer_from r (c # pre) cs)"
      by (auto simp: finditer_from_Nil split: list.splits)
    show ?thesis using "1.IH"(1) [OF Nil c] by (simp add: c(1))
  next
    case (Cons st sts)
    obtain pre' rest' k where st: "st = (pre', rest', k)" by (cases st)
    note eq = Cons [unfolded st]
    have inl: "(pre', rest', k) \<in> set (ms r (pre, rest, []))" by (simp add: eq)
    from ms_step_ok [OF inl] have ok: "rev pre' @ rest' = rev pre @ rest" "length pre \<le> length pre'"
      by (auto simp: ms_step_ok_def reads_def)
    have m: "m = mk_match pre (pre', rest', k) \<or>
        (length rest' < length rest \<and> m \<in> set (finditer_from r pre' rest')) \<or>
        (\<not> length rest' < length rest \<and> (\<exists>c cs. rest = c # cs \<and> m \<in> set (finditer_from r (c # pre) cs)))"
      using "1.prems" by (auto simp: finditer_from_Cons [OF eq] split: if_splits list.splits)
    then consider "m = mk_match pre (pre', rest', k)"
      | "length rest' < length rest" "m \<in> set (finditer_from r pre' rest')"
      | c cs where "\<not> length rest' < length rest" "rest = c # cs"
          "m \<in> set (finditer_from r (c # pre) cs)"
      by blast
    then show ?thesis
    proof cases
      case 1
      then show ?thesis using mk_match_of [OF inl refl] by (simp add: mk_match_def)
    next
      case 2
      from "1.IH"(2) [OF eq refl refl 2] show ?thesis
        unfolding ok(1) using ok(2) by simp
    next
      case 3
      from "1.IH"(3) [OF eq refl refl 3] show ?thesis by (simp add: 3(2))
    qed
  qed
qed

lemma finditer_match_of: "m \<in> set (finditer r s) \<Longrightarrow> match_of s m"
  using finditer_from_match_of [of m r "[]" s] by (simp add: finditer_def)

lemma finditer_nonempty:
  assumes "consumes r" "m \<in> set (finditer r s)" shows "m_start m < m_end m"
proof -
  have "m_start m < m_end m" if "m \<in> set (finditer_from r pre rest)" for pre rest
    using that assms(1)
  proof (induction r pre rest rule: finditer_from.induct)
    case (1 r pre rest)
    show ?case
    proof (cases "ms r (pre, rest, [])")
      case Nil
      with 1 show ?thesis by (auto simp: finditer_from_Nil split: list.splits)
    next
      case (Cons st sts)
      obtain pre' rest' k where st: "st = (pre', rest', k)" by (cases st)
      note eq = Cons [unfolded st]
      have "rmatches r (pre, rest, []) (pre', rest', k)" by (simp add: eq flip: ms_iff)
      from rmatches_advances [OF this "1.prems"(2)] have "length pre < length pre'" by simp
      with "1.prems" "1.IH"(2) [OF eq refl refl] "1.IH"(3) [OF eq refl refl] show ?thesis
        by (auto simp: finditer_from_Cons [OF eq] mk_match_def split: if_splits list.splits)
    qed
  qed
  then show ?thesis using assms(2) by (simp add: finditer_def)
qed

lemma search_from_match_of: "search_from r pre rest = Some m \<Longrightarrow> match_of (rev pre @ rest) m"
proof (induction r pre rest rule: search_from.induct)
  case (1 r pre rest)
  note unfolded = "1.prems" [unfolded search_from.simps [of r pre rest]]
  show ?case
  proof (cases "ms r (pre, rest, [])")
    case Nil
    with unfolded obtain c cs where c: "rest = c # cs" "search_from r (c # pre) cs = Some m"
      by (auto split: list.splits)
    from "1.IH" [OF Nil c] show ?thesis by (simp add: c)
  next
    case (Cons st sts)
    with unfolded have "m = mk_match pre st" by simp
    then show ?thesis using mk_match_of [of st r pre rest] Cons by simp
  qed
qed

lemma re_search_match_of: "re_search r s = Some m \<Longrightarrow> match_of s m"
  using search_from_match_of [of r "[]" s m] by (simp add: re_search_def)

lemma re_match_match_of: "re_match r s = Some m \<Longrightarrow> match_of s m"
  using mk_match_of [of _ r "[]" s] by (auto simp: re_match_def split: list.splits)

lemma match_of_group: "match_of s m \<Longrightarrow> group m nm = Some t \<Longrightarrow> py_contains t (m_text m)"
  unfolding match_of_def group_def by (metis map_of_SomeD snd_conv)

lemma consumes_rseq: "consumes (rseq rs) \<longleftrightarrow> list_ex consumes rs"
  by (induction rs rule: rseq.induct) auto

lemma consumes_ralt: "consumes (ralt rs) \<longleftrightarrow> list_all consumes rs"
  by (induction rs rule: ralt.induct) auto

lemma consumes_rword [simp]: "consumes (rword w) \<longleftrightarrow> w \<noteq> []" "consumes (rwordi w) \<longleftrightarrow> w \<noteq> []"
  by (cases w; simp add: rword_def rwordi_def consumes_rseq)+

lemmas consumes_simps = consumes_rseq consumes_ralt

text \<open>Successive matches of \<open>finditer\<close> do not overlap, for a pattern that needs a character.\<close>

lemma finditer_from_disjoint:
  "consumes r \<Longrightarrow> sorted_wrt (\<lambda>a b. m_end a \<le> m_start b) (finditer_from r pre rest)"
proof (induction r pre rest rule: finditer_from.induct)
  case (1 r pre rest)
  show ?case
  proof (cases "ms r (pre, rest, [])")
    case Nil
    with "1.IH"(1) [OF Nil] "1.prems" show ?thesis
      by (auto simp: finditer_from_Nil split: list.splits)
  next
    case (Cons st sts)
    obtain pre' rest' k where st: "st = (pre', rest', k)" by (cases st)
    note eq = Cons [unfolded st]
    have inl: "(pre', rest', k) \<in> set (ms r (pre, rest, []))" by (simp add: eq)
    then have adv: "length pre < length pre'"
      using rmatches_advances [OF _ "1.prems", of "(pre, rest, [])" "(pre', rest', k)"]
      by (simp add: ms_iff)
    from ms_step_ok [OF inl] have "length pre' + length rest' = length pre + length rest"
      by (auto simp: ms_step_ok_def reads_def)
    with adv have less: "length rest' < length rest" by simp
    have "m_end (mk_match pre (pre', rest', k)) = length pre'" by (simp add: mk_match_def)
    moreover have "\<forall>m \<in> set (finditer_from r pre' rest'). length pre' \<le> m_start m"
      using finditer_from_match_of by blast
    ultimately show ?thesis
      using "1.IH"(2) [OF eq refl refl less "1.prems"]
      by (simp add: finditer_from_Cons [OF eq] less)
  qed
qed

section \<open>What a group can hold\<close>

text \<open>
  The texts a pattern can read, the anchors aside, and the sub-patterns of its groups: every
  captured group holds a text that its own sub-pattern accepts, and a group that no
  alternative or optional part can skip is always captured.
\<close>

primrec accepts :: "re \<Rightarrow> pystr \<Rightarrow> bool" where
  "accepts REps w = (w = [])"
| "accepts (RSet neg cs) w = (\<exists>c. w = [c] \<and> in_set cs c \<noteq> neg)"
| "accepts (RSeq a b) w = (\<exists>u v. w = u @ v \<and> accepts a u \<and> accepts b v)"
| "accepts (RAlt a b) w = (accepts a w \<or> accepts b w)"
| "accepts (RRep g lo hi a) w =
     (\<exists>ws. w = concat ws \<and> lo \<le> length ws \<and>
        (case hi of None \<Rightarrow> True | Some h \<Rightarrow> length ws \<le> lo + (h - lo)) \<and>
        list_all (accepts a) ws)"
| "accepts (RGrp nm a) w = accepts a w"
| "accepts RBol w = (w = [])"
| "accepts REol w = (w = [])"
| "accepts REos w = (w = [])"
| "accepts RWordB w = (w = [])"
| "accepts (RNotAhead cs) w = (w = [])"
| "accepts (RNotBehind cs) w = (w = [])"

primrec groups_of :: "re \<Rightarrow> (string \<times> re) set" where
  "groups_of REps = {}"
| "groups_of (RSet neg cs) = {}"
| "groups_of (RSeq a b) = groups_of a \<union> groups_of b"
| "groups_of (RAlt a b) = groups_of a \<union> groups_of b"
| "groups_of (RRep g lo hi a) = groups_of a"
| "groups_of (RGrp nm a) = insert (nm, a) (groups_of a)"
| "groups_of RBol = {}"
| "groups_of REol = {}"
| "groups_of REos = {}"
| "groups_of RWordB = {}"
| "groups_of (RNotAhead cs) = {}"
| "groups_of (RNotBehind cs) = {}"

primrec always :: "re \<Rightarrow> string set" where
  "always REps = {}"
| "always (RSet neg cs) = {}"
| "always (RSeq a b) = always a \<union> always b"
| "always (RAlt a b) = always a \<inter> always b"
| "always (RRep g lo hi a) = (if 0 < lo then always a else {})"
| "always (RGrp nm a) = insert nm (always a)"
| "always RBol = {}"
| "always REol = {}"
| "always REos = {}"
| "always RWordB = {}"
| "always (RNotAhead cs) = {}"
| "always (RNotBehind cs) = {}"

definition captures :: "(string \<times> re) set \<Rightarrow> pystr \<Rightarrow> mstate \<Rightarrow> mstate \<Rightarrow> bool" where
  "captures gs w st st' \<longleftrightarrow>
     fst st' = rev w @ fst st \<and> set (snd (snd st)) \<subseteq> set (snd (snd st')) \<and>
     (\<forall>g \<in> set (snd (snd st')). g \<in> set (snd (snd st)) \<or> (\<exists>a. (fst g, a) \<in> gs \<and> accepts a (snd g)))"

lemma captures_refl: "captures gs [] st st"
  by (simp add: captures_def)

lemma captures_mono: "captures gs w a b \<Longrightarrow> gs \<subseteq> gs' \<Longrightarrow> captures gs' w a b"
  unfolding captures_def by blast

lemma captures_append: "captures gs v a b \<Longrightarrow> captures gs w b c \<Longrightarrow> captures gs (v @ w) a c"
  unfolding captures_def by (simp, blast)

lemma rmatches_captures: "rmatches r st st' \<Longrightarrow> \<exists>w. accepts r w \<and> captures (groups_of r) w st st'"
  and "rounds r n st st' \<Longrightarrow>
    \<exists>ws. length ws = n \<and> list_all (accepts r) ws \<and> captures (groups_of r) (concat ws) st st'"
  and "opt_rounds r n st st' \<Longrightarrow>
    \<exists>ws. length ws = n \<and> list_all (accepts r) ws \<and> captures (groups_of r) (concat ws) st st'"
proof (induction rule: rmatches_rounds_opt_rounds.inducts)
  case (m_set cs c neg pre rest k)
  then show ?case by (intro exI [of _ "[c]"]) (auto simp: captures_def)
next
  case (m_seq a st st' b st'')
  then obtain u v where "accepts a u" "captures (groups_of a) u st st'"
    "accepts b v" "captures (groups_of b) v st' st''" by blast
  then show ?case
    by (intro exI [of _ "u @ v"]) (auto intro: captures_append captures_mono)
next
  case (m_altL a st st' b)
  then show ?case by (auto intro: captures_mono)
next
  case (m_altR b st st' a)
  then show ?case by (auto intro: captures_mono)
next
  case (m_rep a lo st st' n st'' hi g)
  then obtain us vs where "length us = lo" "list_all (accepts a) us"
    "captures (groups_of a) (concat us) st st'" "length vs = n" "list_all (accepts a) vs"
    "captures (groups_of a) (concat vs) st' st''" by blast
  then show ?case using m_rep
    by (intro exI [of _ "concat us @ concat vs"] conjI)
      (auto intro!: exI [of _ "us @ vs"] captures_append split: option.splits)
next
  case (m_grp a pre rest k pre' rest' k' nm)
  then obtain w where "accepts a w" "captures (groups_of a) w (pre, rest, k) (pre', rest', k')"
    by blast
  then show ?case by (intro exI [of _ w]) (auto simp: captures_def)
next
  case (r_Suc a st st' n st'')
  then obtain u vs where "accepts a u" "captures (groups_of a) u st st'"
    "length vs = n" "list_all (accepts a) vs" "captures (groups_of a) (concat vs) st' st''" by blast
  then show ?case by (intro exI [of _ "u # vs"]) (auto intro: captures_append)
next
  case (o_Suc a st st' n st'')
  then obtain u vs where "accepts a u" "captures (groups_of a) u st st'"
    "length vs = n" "list_all (accepts a) vs" "captures (groups_of a) (concat vs) st' st''" by blast
  then show ?case by (intro exI [of _ "u # vs"]) (auto intro: captures_append)
qed (auto intro: captures_refl)

definition cap_names :: "mstate \<Rightarrow> string set" where
  "cap_names st = fst ` set (snd (snd st))"

lemma cap_names_simps [simp]:
  "cap_names (p, q, []) = {}" "cap_names (p, q, g # k) = insert (fst g) (cap_names (p', q', k))"
  by (simp_all add: cap_names_def)

lemma rmatches_always: "rmatches r st st' \<Longrightarrow> cap_names st \<union> always r \<subseteq> cap_names st'"
  and "rounds r n st st' \<Longrightarrow> cap_names st \<union> (if 0 < n then always r else {}) \<subseteq> cap_names st'"
  and "opt_rounds r n st st' \<Longrightarrow> cap_names st \<subseteq> cap_names st'"
proof (induction rule: rmatches_rounds_opt_rounds.inducts)
  case (m_set cs c neg pre rest k)
  show ?case by (simp add: cap_names_def)
next
  case (m_grp a pre rest k pre' rest' k' nm)
  then show ?case by (auto simp: cap_names_def)
next
  case (m_rep a lo st st' n st'' hi g)
  then show ?case by (cases "lo = 0") (simp_all, blast+)
next
  case (r_Suc a st st' n st'')
  then show ?case by (cases "n = 0") (simp_all, blast+)
qed (simp_all, (blast+)?)

text \<open>The same for the match object that \<open>search\<close> returns.\<close>

definition m_of :: "re \<Rightarrow> rmatch \<Rightarrow> bool" where
  "m_of r m \<longleftrightarrow>
     (\<forall>g \<in> set (m_groups m). \<exists>a. (fst g, a) \<in> groups_of r \<and> accepts a (snd g)) \<and>
     always r \<subseteq> fst ` set (m_groups m) \<and> accepts r (m_text m)"

lemma mk_match_m_of:
  assumes "st' \<in> set (ms r (pre, rest, []))" shows "m_of r (mk_match pre st')"
proof -
  obtain pre' rest' k where st': "st' = (pre', rest', k)" by (cases st')
  have r: "rmatches r (pre, rest, []) (pre', rest', k)" using assms by (simp add: st' ms_iff)
  obtain w where "accepts r w" "captures (groups_of r) w (pre, rest, []) (pre', rest', k)"
    using rmatches_captures(1) [OF r] by blast
  with rmatches_always(1) [OF r] show ?thesis
    by (auto simp: m_of_def captures_def mk_match_def st' cap_names_def)
qed

lemma search_from_m_of: "search_from r pre rest = Some m \<Longrightarrow> m_of r m"
proof (induction r pre rest rule: search_from.induct)
  case (1 r pre rest)
  note unfolded = "1.prems" [unfolded search_from.simps [of r pre rest]]
  show ?case
  proof (cases "ms r (pre, rest, [])")
    case Nil
    with unfolded "1.IH" [OF Nil] show ?thesis by (auto split: list.splits)
  next
    case (Cons st sts)
    with unfolded mk_match_m_of [of st r pre rest] show ?thesis by simp
  qed
qed

lemma re_search_m_of: "re_search r s = Some m \<Longrightarrow> m_of r m"
  by (simp add: re_search_def search_from_m_of)

lemma re_match_m_of: "re_match r s = Some m \<Longrightarrow> m_of r m"
  using mk_match_m_of [of _ r "[]" s] by (auto simp: re_match_def split: list.splits)

lemma finditer_from_m_of: "m \<in> set (finditer_from r pre rest) \<Longrightarrow> m_of r m"
proof (induction r pre rest rule: finditer_from.induct)
  case (1 r pre rest)
  show ?case
  proof (cases "ms r (pre, rest, [])")
    case Nil
    with 1 show ?thesis by (auto simp: finditer_from_Nil split: list.splits)
  next
    case (Cons st sts)
    obtain pre' rest' k where st: "st = (pre', rest', k)" by (cases st)
    note eq = Cons [unfolded st]
    have "(pre', rest', k) \<in> set (ms r (pre, rest, []))" by (simp add: eq)
    then have "m_of r (mk_match pre (pre', rest', k))" by (rule mk_match_m_of)
    with "1.prems" "1.IH"(2) [OF eq refl refl] "1.IH"(3) [OF eq refl refl] show ?thesis
      by (auto simp: finditer_from_Cons [OF eq] split: if_splits list.splits)
  qed
qed

lemma finditer_m_of: "m \<in> set (finditer r s) \<Longrightarrow> m_of r m"
  by (auto simp: finditer_def dest: finditer_from_m_of)

lemma m_of_group:
  "m_of r m \<Longrightarrow> group m nm = Some t \<Longrightarrow> \<exists>a. (nm, a) \<in> groups_of r \<and> accepts a t"
  unfolding m_of_def group_def by (force dest: map_of_SomeD)

lemma m_of_group_always: "m_of r m \<Longrightarrow> nm \<in> always r \<Longrightarrow> group m nm \<noteq> None"
  unfolding m_of_def group_def map_of_eq_None_iff by blast

lemma accepts_rseq:
  "accepts (rseq []) w \<longleftrightarrow> w = []"
  "accepts (rseq (r # rs)) w \<longleftrightarrow> (\<exists>u v. w = u @ v \<and> accepts r u \<and> accepts (rseq rs) v)"
  by (cases rs; auto)+

lemma accepts_ralt: "accepts (ralt rs) w \<longleftrightarrow> list_ex (\<lambda>r. accepts r w) rs"
  by (induction rs rule: ralt.induct) (auto simp: in_set_def)

lemma accepts_rword [simp]: "accepts (rword x) w \<longleftrightarrow> w = x"
proof (induction x arbitrary: w)
  case Nil
  show ?case by (simp add: rword_def)
next
  case (Cons c x)
  then show ?case by (auto simp: rword_def accepts_rseq in_set_def)
qed

lemma accepts_set_times:
  "accepts (RRep g n (Some n) (RSet False cs)) w \<longleftrightarrow> length w = n \<and> list_all (in_set cs) w"
proof
  assume "accepts (RRep g n (Some n) (RSet False cs)) w"
  then obtain ws where ws: "w = concat ws" "length ws = n" "list_all (accepts (RSet False cs)) ws"
    by auto
  have "length (concat ws) = length ws \<and> list_all (in_set cs) (concat ws)"
    using ws(3) by (induction ws) auto
  with ws show "length w = n \<and> list_all (in_set cs) w" by simp
next
  assume "length w = n \<and> list_all (in_set cs) w"
  then have "w = concat (map (\<lambda>c. [c]) w)" "length (map (\<lambda>c. [c]) w) = n"
    "list_all (accepts (RSet False cs)) (map (\<lambda>c. [c]) w)" by (auto simp: list_all_iff)
  then show "accepts (RRep g n (Some n) (RSet False cs)) w"
    unfolding accepts.simps(5) by (intro exI [of _ "map (\<lambda>c. [c]) w"]) simp
qed

lemma groups_of_rseq: "groups_of (rseq rs) = (\<Union>r \<in> set rs. groups_of r)"
  by (induction rs rule: rseq.induct) auto

lemma groups_of_ralt: "groups_of (ralt rs) = (\<Union>r \<in> set rs. groups_of r)"
  by (induction rs rule: ralt.induct) auto

lemma groups_of_rword [simp]: "groups_of (rword w) = {}" "groups_of (rwordi w) = {}"
  by (auto simp: rword_def rwordi_def groups_of_rseq)

lemma always_rseq: "always (rseq rs) = (\<Union>r \<in> set rs. always r)"
  by (induction rs rule: rseq.induct) auto

declare accepts.simps(5) [simp del]

section \<open>Runs of a character set\<close>

text \<open>What a repeated character set can read.\<close>

lemma rmatches_seq: "rmatches (RSeq a b) st st' \<longleftrightarrow> (\<exists>st1. rmatches a st st1 \<and> rmatches b st1 st')"
  by (auto elim: rmatches_elims intro: m_seq)

lemma rmatches_set:
  "rmatches (RSet False cs) (pre, rest, k) st' \<longleftrightarrow>
     (\<exists>c r. rest = c # r \<and> in_set cs c \<and> st' = (c # pre, r, k))"
  by (auto elim!: rmatches_elims intro: m_set [where neg = False, simplified])

lemma rounds_set:
  "rounds (RSet False cs) n (pre, rest, k) st' \<longleftrightarrow>
     (\<exists>w r. rest = w @ r \<and> length w = n \<and> list_all (in_set cs) w \<and> st' = (rev w @ pre, r, k))"
proof (induction n arbitrary: pre rest)
  case 0
  then show ?case by (auto elim: rounds_elims intro: r_0)
next
  case (Suc n)
  have "rounds (RSet False cs) (Suc n) (pre, rest, k) st' \<longleftrightarrow>
      (\<exists>c r. rest = c # r \<and> in_set cs c \<and> rounds (RSet False cs) n (c # pre, r, k) st')"
    by (auto elim!: rounds_elims simp: rmatches_set intro: r_Suc)
  also have "\<dots> \<longleftrightarrow> (\<exists>c w r. rest = c # w @ r \<and> in_set cs c \<and> length w = n \<and> list_all (in_set cs) w \<and>
      st' = (rev w @ c # pre, r, k))"
    unfolding Suc.IH by blast
  also have "\<dots> \<longleftrightarrow> (\<exists>w r. rest = w @ r \<and> length w = Suc n \<and> list_all (in_set cs) w \<and>
      st' = (rev w @ pre, r, k))"
  proof
    assume "\<exists>c w r. rest = c # w @ r \<and> in_set cs c \<and> length w = n \<and> list_all (in_set cs) w \<and>
      st' = (rev w @ c # pre, r, k)"
    then obtain c w r where "rest = c # w @ r" "in_set cs c" "length w = n" "list_all (in_set cs) w"
      "st' = (rev w @ c # pre, r, k)" by blast
    then show "\<exists>w r. rest = w @ r \<and> length w = Suc n \<and> list_all (in_set cs) w \<and> st' = (rev w @ pre, r, k)"
      by (intro exI [of _ "c # w"] exI [of _ r]) simp
  qed (auto simp: length_Suc_conv)
  finally show ?case .
qed

lemma opt_rounds_set:
  "opt_rounds (RSet False cs) n (pre, rest, k) st' \<longleftrightarrow> rounds (RSet False cs) n (pre, rest, k) st'"
proof (induction n arbitrary: pre rest)
  case 0
  then show ?case by (auto elim: rounds_elims opt_rounds_elims intro: r_0 o_0)
next
  case (Suc n)
  have "opt_rounds (RSet False cs) (Suc n) (pre, rest, k) st' \<longleftrightarrow>
      (\<exists>st1. rmatches (RSet False cs) (pre, rest, k) st1 \<and> opt_rounds (RSet False cs) n st1 st')"
    by (auto elim!: opt_rounds_elims simp: rmatches_set intro: o_Suc)
  also have "\<dots> \<longleftrightarrow> (\<exists>st1. rmatches (RSet False cs) (pre, rest, k) st1 \<and> rounds (RSet False cs) n st1 st')"
    by (auto simp: rmatches_set Suc.IH)
  also have "\<dots> \<longleftrightarrow> rounds (RSet False cs) (Suc n) (pre, rest, k) st'"
    by (blast elim: rounds_elims intro: r_Suc)
  finally show ?case .
qed

definition in_range :: "nat \<Rightarrow> nat option \<Rightarrow> nat \<Rightarrow> bool" where
  "in_range lo hi n \<longleftrightarrow> lo \<le> n \<and> (case hi of None \<Rightarrow> True | Some h \<Rightarrow> n \<le> lo + (h - lo))"

lemma rmatches_run:
  "rmatches (RRep g lo hi (RSet False cs)) (pre, rest, k) st' \<longleftrightarrow>
     (\<exists>w r. rest = w @ r \<and> in_range lo hi (length w) \<and> list_all (in_set cs) w \<and> st' = (rev w @ pre, r, k))"
proof
  assume "rmatches (RRep g lo hi (RSet False cs)) (pre, rest, k) st'"
  then obtain st1 n where "rounds (RSet False cs) lo (pre, rest, k) st1" "opt_rounds (RSet False cs) n st1 st'"
    and n: "case hi of None \<Rightarrow> True | Some h \<Rightarrow> n \<le> h - lo"
    by (blast elim: rmatches_elims)
  then obtain u r v q where "rest = u @ r" "length u = lo" "list_all (in_set cs) u" "r = v @ q"
    "length v = n" "list_all (in_set cs) v" "st' = (rev v @ rev u @ pre, q, k)"
    by (auto simp: rounds_set opt_rounds_set)
  with n show "\<exists>w r. rest = w @ r \<and> in_range lo hi (length w) \<and> list_all (in_set cs) w \<and> st' = (rev w @ pre, r, k)"
    by (intro exI [of _ "u @ v"] exI [of _ q]) (auto simp: in_range_def split: option.splits)
next
  assume "\<exists>w r. rest = w @ r \<and> in_range lo hi (length w) \<and> list_all (in_set cs) w \<and> st' = (rev w @ pre, r, k)"
  then obtain w r where w: "rest = w @ r" "in_range lo hi (length w)" "list_all (in_set cs) w"
    "st' = (rev w @ pre, r, k)" by blast
  let ?u = "take lo w" and ?v = "drop lo w"
  have lr: "list_all (in_set cs) ?u" "list_all (in_set cs) ?v"
    using w(3) by (auto simp: list_all_iff dest: in_set_takeD in_set_dropD)
  have a: "rounds (RSet False cs) lo (pre, rest, k) (rev ?u @ pre, ?v @ r, k)"
    unfolding rounds_set using w lr by (intro exI [of _ ?u] exI [of _ "?v @ r"]) (auto simp: in_range_def)
  have b: "opt_rounds (RSet False cs) (length w - lo) (rev ?u @ pre, ?v @ r, k) st'"
    unfolding opt_rounds_set rounds_set using w lr
    by (intro exI [of _ ?v] exI [of _ r]) (simp flip: rev_append append_assoc)
  show "rmatches (RRep g lo hi (RSet False cs)) (pre, rest, k) st'"
    using w(2) by (intro m_rep [OF a b]) (auto simp: in_range_def split: option.splits)
qed


lemma rmatches_word:
  "rmatches (rword w) (pre, rest, k) st' \<longleftrightarrow> (\<exists>r. rest = w @ r \<and> st' = (rev w @ pre, r, k))"
proof (induction w arbitrary: pre rest)
  case Nil
  then show ?case by (auto simp: rword_def elim: rmatches_elims intro: m_eps)
next
  case (Cons c w)
  show ?case
  proof (cases w)
    case Nil
    then show ?thesis by (auto simp: rword_def rmatches_set in_set_def)
  next
    case (Cons d v)
    have "rmatches (rword (c # w)) (pre, rest, k) st' \<longleftrightarrow>
        (\<exists>r. rest = c # r \<and> rmatches (rword w) (c # pre, r, k) st')"
      unfolding Cons by (auto simp: rword_def rmatches_seq rmatches_set in_set_def)
    then show ?thesis unfolding Cons.IH by auto
  qed
qed

lemma rmatches_grp:
  "rmatches (RGrp nm a) (pre, rest, k) st' \<longleftrightarrow>
     (\<exists>pre' rest' k'. rmatches a (pre, rest, k) (pre', rest', k') \<and>
        st' = (pre', rest', (nm, rev (take (length pre' - length pre) pre')) # k'))"
  by (auto elim!: rmatches_elims intro: m_grp)

lemma rmatches_bol: "rmatches RBol (pre, rest, k) st' \<longleftrightarrow> pre = [] \<and> st' = (pre, rest, k)"
  by (auto elim!: rmatches_elims intro: m_bol)

lemma rmatches_eol:
  "rmatches REol (pre, rest, k) st' \<longleftrightarrow> (rest = [] \<or> rest = [10]) \<and> st' = (pre, rest, k)"
  by (auto elim!: rmatches_elims intro: m_eol)

end
