(* ===== verification/Claim_Slots.thy ===== *)
theory Claim_Slots
  imports Py_Prelude
begin

text \<open>
  \<open>packages/ontology/src/civic_ontology/claim_slots.py\<close>: which slots of a claim are
  required, optional or forbidden for each claim type, and the validator that every
  candidate claim passes through. A frozenset is the distinct list of its members; the
  order in which Python iterates it is unspecified, so every statement below is about the
  set of violations, never their order.
\<close>

definition ALL_SLOTS :: "pystr list" where
  "ALL_SLOTS = map lit
     [''speaker_person_id'', ''target_person_id'', ''bill_id'', ''committee_id'', ''office_id'',
      ''vote_value'', ''party_id'', ''expected_seats'', ''expect_passed_threshold'',
      ''government_decision_id'']"

record slot_template =
  st_claim_type :: pystr
  required :: "pystr list"
  optional :: "pystr list"

definition forbidden :: "slot_template \<Rightarrow> pystr list" where
  "forbidden t = filter (\<lambda>s. s \<notin> set (required t) \<and> s \<notin> set (optional t)) ALL_SLOTS"

definition mk_template :: "string \<Rightarrow> string list \<Rightarrow> string list \<Rightarrow> pystr \<times> slot_template" where
  "mk_template ct req opt =
     (lit ct, \<lparr>st_claim_type = lit ct, required = map lit req, optional = map lit opt\<rparr>)"

definition SLOT_TEMPLATES :: "slot_template dict" where
  "SLOT_TEMPLATES =
     [mk_template ''vote_cast'' [''speaker_person_id'', ''bill_id'', ''vote_value'']
        [''target_person_id''],
      mk_template ''bill_sponsorship'' [''speaker_person_id'', ''bill_id'']
        [''target_person_id''],
      mk_template ''office_held'' [''speaker_person_id'', ''office_id'']
        [''target_person_id''],
      mk_template ''committee_membership'' [''speaker_person_id'', ''committee_id'']
        [''target_person_id''],
      mk_template ''committee_attendance'' [''speaker_person_id'', ''committee_id'']
        [''target_person_id''],
      mk_template ''statement_about_formal_action'' [''speaker_person_id'']
        [''target_person_id'', ''bill_id'', ''committee_id'', ''office_id'', ''vote_value''],
      mk_template ''election_result'' [''party_id'']
        [''speaker_person_id'', ''target_person_id'', ''expected_seats'',
         ''expect_passed_threshold''],
      mk_template ''government_decision'' [''government_decision_id'']
        [''speaker_person_id'', ''target_person_id'', ''office_id'']]"

text \<open>\<open>ClaimType\<close> of \<open>models/atomic_claim.py\<close>.\<close>

definition CLAIM_TYPES :: "pystr list" where
  "CLAIM_TYPES = map lit
     [''vote_cast'', ''bill_sponsorship'', ''office_held'', ''committee_membership'',
      ''committee_attendance'', ''statement_about_formal_action'', ''election_result'',
      ''government_decision'']"

text \<open>One constructor per f-string of \<open>validate_slots\<close>.\<close>

datatype violation =
    UnknownClaimType pystr
  | RequiredEmpty pystr pystr
  | ForbiddenSet pystr pystr

text \<open>\<open>v in (None, "")\<close>.\<close>

definition empty_slot :: "pyval \<Rightarrow> bool" where
  "empty_slot v \<longleftrightarrow> v = PNone \<or> v = PStr []"

definition validate_slots :: "pystr \<Rightarrow> pyval dict \<Rightarrow> violation list" where
  "validate_slots claim_type slots =
     (case dget SLOT_TEMPLATES claim_type of
        None \<Rightarrow> [UnknownClaimType claim_type]
      | Some tmpl \<Rightarrow>
          map (\<lambda>s. RequiredEmpty s claim_type)
            (filter (\<lambda>s. empty_slot (vget slots s)) (required tmpl)) @
          map (\<lambda>s. ForbiddenSet s claim_type)
            (filter (\<lambda>s. \<not> empty_slot (vget slots s)) (forbidden tmpl)))"

lemmas slot_table_simps =
  SLOT_TEMPLATES_def mk_template_def forbidden_def ALL_SLOTS_def CLAIM_TYPES_def

lemma empty_slot_simps [simp]:
  "empty_slot PNone" "empty_slot (PStr s) \<longleftrightarrow> s = []" "\<not> empty_slot (PBool b)"
  "\<not> empty_slot (PInt i)" "\<not> empty_slot (PFloat x)" "\<not> empty_slot (PList vs)"
  "\<not> empty_slot (PDict d)"
  by (simp_all add: empty_slot_def)

lemma SLOT_TEMPLATES_keys: "map fst SLOT_TEMPLATES = CLAIM_TYPES"
  by (simp add: slot_table_simps)

lemma SLOT_TEMPLATES_dom: "dget SLOT_TEMPLATES ct = None \<longleftrightarrow> ct \<notin> set CLAIM_TYPES"
  by (simp add: dget_def map_of_eq_None_iff flip: SLOT_TEMPLATES_keys)

text \<open>
  Every template classifies each of the ten slots exactly once: required, optional and
  forbidden are pairwise disjoint, have no duplicates, and together are all the slots.
\<close>

definition partitions_slots :: "slot_template \<Rightarrow> bool" where
  "partitions_slots t \<longleftrightarrow>
     distinct (required t @ optional t @ forbidden t) \<and>
     set (required t @ optional t @ forbidden t) = set ALL_SLOTS"

lemma partitions_slotsI:
  assumes "distinct (required t @ optional t)" "set (required t @ optional t) \<subseteq> set ALL_SLOTS"
  shows "partitions_slots t"
proof -
  have "distinct ALL_SLOTS" by (simp add: ALL_SLOTS_def)
  then show ?thesis using assms by (auto simp: partitions_slots_def forbidden_def)
qed

lemma template_partition: "\<forall>(ct, t) \<in> set SLOT_TEMPLATES. partitions_slots t \<and> st_claim_type t = ct"
  unfolding SLOT_TEMPLATES_def mk_template_def
  by (simp del: set_append, intro conjI partitions_slotsI; simp add: ALL_SLOTS_def)

lemma dget_template_partition:
  "dget SLOT_TEMPLATES ct = Some t \<Longrightarrow> partitions_slots t \<and> st_claim_type t = ct"
  using template_partition by (auto simp: dget_def dest!: map_of_SomeD)

lemma forbidden_iff:
  assumes "dget SLOT_TEMPLATES ct = Some t"
  shows "s \<in> set (forbidden t) \<longleftrightarrow> s \<in> set ALL_SLOTS \<and> s \<notin> set (required t) \<and> s \<notin> set (optional t)"
  by (auto simp: forbidden_def)

lemma validate_slots_Nil_iff:
  "validate_slots ct slots = [] \<longleftrightarrow>
     (\<exists>t. dget SLOT_TEMPLATES ct = Some t \<and>
        (\<forall>s \<in> set (required t). \<not> empty_slot (vget slots s)) \<and>
        (\<forall>s \<in> set (forbidden t). empty_slot (vget slots s)))"
  by (auto simp: validate_slots_def filter_empty_conv split: option.splits)

lemma validate_slots_required:
  assumes "validate_slots ct slots = []" "dget SLOT_TEMPLATES ct = Some t" "s \<in> set (required t)"
  shows "\<not> empty_slot (vget slots s)"
  using assms by (auto simp: validate_slots_Nil_iff)

lemma validate_slots_known: "validate_slots ct slots = [] \<Longrightarrow> ct \<in> set CLAIM_TYPES"
  by (metis SLOT_TEMPLATES_dom option.distinct(1) validate_slots_Nil_iff)

text \<open>The validator reads the ten slots only: a key outside them (\<open>government_number\<close>)
  never causes or hides a violation.\<close>

lemma validate_slots_cong:
  assumes "\<And>s. s \<in> set ALL_SLOTS \<Longrightarrow> vget slots s = vget slots' s"
  shows "validate_slots ct slots = validate_slots ct slots'"
proof (cases "dget SLOT_TEMPLATES ct")
  case None
  then show ?thesis by (simp add: validate_slots_def)
next
  case (Some t)
  from dget_template_partition [OF Some]
  have "\<And>s. s \<in> set (required t) \<union> set (forbidden t) \<Longrightarrow> vget slots s = vget slots' s"
    using assms by (auto simp: partitions_slots_def)
  then show ?thesis by (simp add: validate_slots_def Some cong: filter_cong)
qed

text \<open>
  A claim passes the validator exactly when its type is one of the eight claim types
  and, among the ten slots, every required one is filled and every filled one is required
  or optional for that type.
\<close>

theorem validate_slots_spec:
  "validate_slots ct slots = [] \<longleftrightarrow>
     (\<exists>t. dget SLOT_TEMPLATES ct = Some t \<and>
        set (required t) \<subseteq> {s \<in> set ALL_SLOTS. \<not> empty_slot (vget slots s)} \<and>
        {s \<in> set ALL_SLOTS. \<not> empty_slot (vget slots s)} \<subseteq> set (required t) \<union> set (optional t))"
proof -
  have "(\<forall>s \<in> set (required t). \<not> empty_slot (vget slots s)) \<and>
        (\<forall>s \<in> set (forbidden t). empty_slot (vget slots s)) \<longleftrightarrow>
        set (required t) \<subseteq> {s \<in> set ALL_SLOTS. \<not> empty_slot (vget slots s)} \<and>
        {s \<in> set ALL_SLOTS. \<not> empty_slot (vget slots s)} \<subseteq> set (required t) \<union> set (optional t)"
    if "dget SLOT_TEMPLATES ct = Some t" for t
    using dget_template_partition [OF that] forbidden_iff [OF that]
    unfolding partitions_slots_def by auto
  then show ?thesis
    unfolding validate_slots_Nil_iff by blast
qed

end
