(* ===== verification/Claim_Rules.thy ===== *)
theory Claim_Rules
  imports Py_Regex_Props Claim_Slots
begin

text \<open>
  \<open>services/claim_decomposition/src/civic_claim_decomp/rules.py\<close>: the seventeen rule
  templates, one regular expression per claim type and language, and \<open>iter_matches\<close>.

  A Hebrew literal is written with \<open>heb\<close>, an English literal with \<open>lit\<close>. \<open>rword\<close> matches a literal, \<open>rwordi\<close> a literal under \<open>re.IGNORECASE\<close>; the
  blanks of a verbose pattern are dropped, as \<open>re.VERBOSE\<close> drops them. The character
  classes and the two time tails that several patterns repeat are named once.
\<close>

section \<open>Shared pattern parts\<close>

definition he_name :: "citem list" where
  "he_name = [CR 1424 1535, CR 65 90, CR 97 122, CR 39 39, CR 34 34, CR 45 45, CSpace]"

definition he_only :: "citem list" where
  "he_only = [CR 1424 1535, CR 45 45, CSpace]"

definition he_title :: "citem list" where
  "he_title = [CR 1424 1535, CR 48 57, CR 65 90, CR 97 122, CR 39 39, CR 34 34, CR 45 45,
     CSpace, CR 44 44]"

text \<open>
  The English classes, and their forms under \<open>re.IGNORECASE\<close> (suffix \<open>_i\<close>), which accept
  the other case of each letter and the dotless and dotted i, the long s and the Kelvin sign.
\<close>

definition en_cap :: "citem list" where
  "en_cap = [CR 65 90]"

definition en_name :: "citem list" where
  "en_name = [CR 65 90, CR 97 122, CR 39 39, CR 45 45, CSpace]"

definition en_committee :: "citem list" where
  "en_committee = [CR 65 90, CR 97 122, CR 48 57, CR 45 45, CSpace, CR 44 44]"

definition az_i :: "citem list" where
  "az_i = [CR 65 90, CR 97 122, CR 304 305, CR 383 383, CR 8490 8490]"

definition en_cap_i :: "citem list" where
  "en_cap_i = az_i"

definition en_name_i :: "citem list" where
  "en_name_i = az_i @ [CR 39 39, CR 45 45, CSpace]"

definition en_only_i :: "citem list" where
  "en_only_i = az_i @ [CSpace]"

definition en_title_i :: "citem list" where
  "en_title_i = az_i @ [CR 48 57, CR 39 39, CR 34 34, CR 45 45, CSpace, CR 44 44]"

definition year4 :: re where
  "year4 = RRep True 4 (Some 4) (RSet False [CDigit])"

definition he_knesset :: re where
  "he_knesset = rseq
    [rword (heb ''knst''),
     ropt (rseq [spaces1, rword (heb ''h''), ropt (RSet False [CR 45 45]),
       rplus (RSet False [CDigit])])]"

definition he_time_tail :: re where
  "he_time_tail = ropt (rseq
    [spaces1,
     rseq [rword (heb ''b''), ropt (rword (lit ''-'')),
       RGrp ''time'' (ralt [year4,
         rseq [rword (heb ''hqdncyh''), ropt (rseq [spaces1, rword (heb ''hqvdmt'')])],
         he_knesset])]])"

definition en_time_tail :: "(pystr \<Rightarrow> re) \<Rightarrow> re" where
  "en_time_tail word = ropt (rseq
    [spaces1, word (lit ''in''), spaces1,
     RGrp ''time'' (ralt [year4,
       rseq [word (lit ''the''), spaces1, rplus (RSet False [CDigit]),
         ralt [word (lit ''st''), word (lit ''nd''), word (lit ''rd''), word (lit ''th'')],
         spaces1, word (lit ''Knesset'')],
       rseq [word (lit ''last''), spaces1, word (lit ''term'')]])])"

definition decision_no :: re where
  "decision_no = RGrp ''decision_number''
    (rseq [RSet False [CDigit], rstar (RSet False [CDigit, CR 47 47, CR 45 45])])"

text \<open>\<open>[\.\?\!]?\s*\Z\<close>.\<close>

definition sentence_end :: re where
  "sentence_end = rseq [ropt (RSet False [CR 46 46, CR 63 63, CR 33 33]), spaces0, REos]"

section \<open>The patterns\<close>

definition HE_VOTE :: re where
  "HE_VOTE = rseq
    [RGrp ''subject'' (RRep False 2 (Some 40) (RSet False he_name)), spaces1,
     ralt [rseq [rword (heb ''hcbye''), ropt (rword (heb ''h''))], rseq [rword (heb ''tmK''),
       ropt (rword (heb ''h''))], rseq [rword (heb ''htngd''), ropt (rword (heb ''h''))],
       rseq [rword (heb ''nmne''), ropt (rword (heb ''h''))]], spaces1,
     ropt (RGrp ''vote_value'' (ralt [rword (heb ''bed''), rword (heb ''ngd''),
       rseq [rword (heb ''nmne''), ropt (rword (heb ''h''))]])), spaces0,
     ropt (rseq [ralt [rseq [rword (heb ''b''), ropt (rword (heb ''ed''))], rword (heb ''el''),
       rword (heb ''ngd''), rword (heb ''lgby'')], spaces1]),
     ralt [rword (heb ''xvq''), rseq [rword (heb ''hcet''), spaces1, rword (heb ''xvq'')]],
     spaces1, RGrp ''bill'' (RRep False 2 (Some 120) (RSet False he_title)), he_time_tail,
     sentence_end]"

definition HE_SPONSOR :: re where
  "HE_SPONSOR = rseq
    [RGrp ''subject'' (RRep False 2 (Some 40) (RSet False he_name)), spaces1,
     ralt [rseq [rword (heb ''yzM''), ropt (rword (heb ''h''))], rseq [rword (heb ''hgyw''),
       ropt (rword (heb ''h''))], rseq [rword (heb ''xtM''), ropt (rword (heb ''h'')), spaces1,
       rword (heb ''el'')], rseq [rword (heb ''hcye''), ropt (rword (heb ''h''))]], spaces1,
     ropt (rseq [rword (heb ''at''), spaces1]),
     ralt [rseq [rword (heb ''hcet''), spaces1, rword (heb ''xvq'')], rword (heb ''xvq'')],
     spaces1, RGrp ''bill'' (RRep False 2 (Some 120) (RSet False he_title)), he_time_tail,
     sentence_end]"

definition HE_OFFICE :: re where
  "HE_OFFICE = rseq
    [RGrp ''subject'' (RRep False 2 (Some 40) (RSet False he_name)), spaces1,
     ralt [rseq [rword (heb ''kyhN''), ropt (rword (heb ''h''))], rseq [rword (heb ''wymw''),
       ropt (rword (heb ''h''))], rword (heb ''mvnh''), rword (heb ''hyh''),
       rword (heb ''hyyth'')], spaces1, ropt (rword (heb ''k'')),
     RGrp ''office'' (ralt [rseq [rword (heb ''wr''), ropt (rword (heb ''t'')),
       ropt (rseq [spaces1, rplus (RSet False he_only)])], rseq [rword (heb ''sgN''),
       ropt (rword (heb ''yt'')), spaces1, rword (heb ''wr''), ropt (rword (heb ''t'')),
       ropt (rseq [spaces1, rplus (RSet False he_only)])], rseq [rword (heb ''raw''), spaces1,
       rword (heb ''hmmwlh'')], rseq [rword (heb ''xbr''), ropt (rword (heb ''t'')), spaces1,
       rword (heb ''knst'')], rseq [rword (heb ''yv''), rword [34], rword (heb ''r''), spaces1,
       rplus (RSet False he_only)]]), he_time_tail, sentence_end]"

definition HE_COMMITTEE_MEM :: re where
  "HE_COMMITTEE_MEM = rseq
    [RGrp ''subject'' (RRep False 2 (Some 40) (RSet False he_name)), spaces1,
     ralt [rword (heb ''hyh''), rword (heb ''hyyth''), rseq [rword (heb ''kyhN''),
       ropt (rword (heb ''h''))], rseq [rword (heb ''xbr''), ropt (rword (heb ''h'')),
       ropt (rseq [spaces1, rword (heb ''b'')])]], spaces1,
     ropt (rseq [rword (heb ''xbr''), ropt (rword (heb ''h'')), spaces1]),
     ropt (rword (heb ''b'')), rword (heb ''ved''),
     ralt [rword (heb ''t''), rword (heb ''h'')], spaces1,
     RGrp ''committee'' (RRep False 2 (Some 80) (RSet False he_title)), he_time_tail,
     sentence_end]"

definition HE_COMMITTEE_ATT :: re where
  "HE_COMMITTEE_ATT = rseq
    [RGrp ''subject'' (RRep False 2 (Some 40) (RSet False he_name)), spaces1,
     ralt [rseq [rword (heb ''nkx''), ropt (rword (heb ''h''))], rseq [rword (heb ''hwttP''),
       ropt (rword (heb ''h''))], rseq [rword (heb ''pqd''), ropt (rword (heb ''h''))]],
     spaces1, ralt [rword (heb ''bywybt''), rword (heb ''b'')],
     ralt [rword (heb ''vedt''), rword (heb ''vedh'')], spaces1,
     RGrp ''committee'' (RRep False 2 (Some 80) (RSet False he_title)), he_time_tail,
     sentence_end]"

definition EN_VOTE :: re where
  "EN_VOTE = rseq
    [RGrp ''subject'' (rseq [RSet False en_cap_i,
       RRep False 2 (Some 50) (RSet False en_name_i)]), spaces1,
     ralt [rwordi (lit ''voted''), rseq [rwordi (lit ''cast''), spaces1,
       ralt [rwordi (lit ''a''), rwordi (lit ''their'')], spaces1, rwordi (lit ''vote'')]],
     spaces1,
     RGrp ''vote_value'' (ralt [rwordi (lit ''for''), rwordi (lit ''against''),
       rseq [rwordi (lit ''in''), spaces1, rwordi (lit ''favo''), ropt (rwordi (lit ''u'')),
       rwordi (lit ''r''), spaces1, rwordi (lit ''of'')], rwordi (lit ''opposed''),
       rwordi (lit ''abstained''), rseq [rwordi (lit ''to''), spaces1,
       rwordi (lit ''abstain'')]]), spaces1,
     ropt (ralt [rseq [rwordi (lit ''on''), spaces1], rseq [rwordi (lit ''the''), spaces1]]),
     ropt (rseq [rwordi (lit ''the''), spaces1]),
     RGrp ''bill'' (RRep False 3 (Some 120) (RSet False en_title_i)), spaces1,
     rwordi (lit ''bill''), en_time_tail rwordi, sentence_end]"

definition EN_SPONSOR :: re where
  "EN_SPONSOR = rseq
    [RGrp ''subject'' (rseq [RSet False en_cap_i,
       RRep False 2 (Some 50) (RSet False en_name_i)]), spaces1,
     ralt [rwordi (lit ''sponsored''), rwordi (lit ''initiated''), rwordi (lit ''introduced''),
       rseq [rwordi (lit ''co''), ropt (rwordi (lit ''-'')), rwordi (lit ''sponsored'')]],
     spaces1, ropt (rseq [rwordi (lit ''the''), spaces1]),
     RGrp ''bill'' (RRep False 3 (Some 120) (RSet False en_title_i)), spaces1,
     rwordi (lit ''bill''), en_time_tail rwordi, sentence_end]"

definition EN_OFFICE :: re where
  "EN_OFFICE = rseq
    [RGrp ''subject'' (rseq [RSet False en_cap_i,
       RRep False 2 (Some 50) (RSet False en_name_i)]), spaces1,
     ralt [rseq [rwordi (lit ''served''), spaces1, rwordi (lit ''as'')],
       rseq [rwordi (lit ''held''), spaces1, rwordi (lit ''the''), spaces1,
       rwordi (lit ''office''), spaces1, rwordi (lit ''of'')], rseq [rwordi (lit ''was''),
       spaces1, rwordi (lit ''appointed'')]], spaces1,
     ropt (rseq [rwordi (lit ''the''), spaces1]),
     RGrp ''office'' (ralt [rseq [rwordi (lit ''Prime''), spaces1, rwordi (lit ''Minister'')],
       rseq [rwordi (lit ''Minister''), spaces1, rwordi (lit ''of''), spaces1,
       rplus (RSet False en_only_i)], rseq [rwordi (lit ''Deputy''), spaces1,
       rwordi (lit ''Minister''), ropt (rseq [spaces1, rwordi (lit ''of''), spaces1,
       rplus (RSet False en_only_i)])], rseq [rwordi (lit ''Member''), spaces1,
       rwordi (lit ''of''), spaces1, rwordi (lit ''Knesset'')], rseq [rwordi (lit ''Chair''),
       ropt (rwordi (lit ''person'')), spaces1, rwordi (lit ''of''), spaces1,
       rplus (RSet False en_only_i)]]), en_time_tail rwordi, sentence_end]"

definition EN_COMMITTEE_MEM :: re where
  "EN_COMMITTEE_MEM = rseq
    [RGrp ''subject'' (rseq [RSet False en_cap, RRep False 2 (Some 50) (RSet False en_name)]),
     spaces1,
     ralt [rseq [rword (lit ''was''), spaces1, rword (lit ''a''), spaces1,
       rword (lit ''member''), spaces1, rword (lit ''of'')], rseq [rword (lit ''served''),
       spaces1, rword (lit ''on'')], rseq [rword (lit ''sat''), spaces1, rword (lit ''on'')]],
     spaces1, ropt (rseq [rword (lit ''the''), spaces1]),
     RGrp ''committee'' (RRep False 2 (Some 80) (RSet False en_committee)), spaces1,
     RSet False [CR 67 67, CR 99 99], rword (lit ''ommittee''), en_time_tail rword, sentence_end]"

definition EN_COMMITTEE_ATT :: re where
  "EN_COMMITTEE_ATT = rseq
    [RGrp ''subject'' (rseq [RSet False en_cap, RRep False 2 (Some 50) (RSet False en_name)]),
     spaces1,
     ralt [rword (lit ''attended''), rseq [rword (lit ''was''), spaces1,
       rword (lit ''present''), spaces1, rword (lit ''at'')]], spaces1,
     ropt (ralt [rseq [rword (lit ''a''), spaces1], rseq [rword (lit ''the''), spaces1]]),
     ropt (rseq [rword (lit ''session''), spaces1, rword (lit ''of''), spaces1]),
     ropt (rseq [rword (lit ''the''), spaces1]),
     RGrp ''committee'' (RRep False 2 (Some 80) (RSet False en_committee)), spaces1,
     RSet False [CR 67 67, CR 99 99], rword (lit ''ommittee''), en_time_tail rword, sentence_end]"

definition HE_ELECTION_SEATS :: re where
  "HE_ELECTION_SEATS = rseq
    [RGrp ''party'' (RRep False 2 (Some 50) (RSet False he_name)), spaces1,
     ralt [rseq [rword (heb ''zkh''), ropt (rword (heb ''h''))], rseq [rword (heb ''qybl''),
       ropt (rword (heb ''h''))], rword (heb ''zkth''), rword (heb ''qyblh'')], spaces1,
     ropt (rseq [rword (heb ''b''), ropt (rword (lit ''-''))]),
     RGrp ''seats'' (RRep True 1 (Some 3) (RSet False [CDigit])), spaces1,
     ralt [rword (heb ''mndTyM''), rword (heb ''mvwbyM'')], he_time_tail, sentence_end]"

definition HE_ELECTION_THRESHOLD_BELOW :: re where
  "HE_ELECTION_THRESHOLD_BELOW = rseq
    [RGrp ''party'' (RRep False 2 (Some 45) (RSet False he_name)), spaces1, rword (heb ''la''),
     spaces1, rword (heb ''ebr''), ropt (rword (heb ''h'')), spaces1,
     ropt (rseq [rword (heb ''at''), spaces1]), rword (heb ''axvz''), spaces1,
     rword (heb ''hxsymh''),
     ropt (rseq [spaces1, rseq [rword (heb ''b''), ropt (rword (lit ''-'')),
       RGrp ''time'' (ralt [year4, he_knesset])]]),
     sentence_end]"

definition EN_ELECTION_SEATS :: re where
  "EN_ELECTION_SEATS = rseq
    [RGrp ''party'' (rseq [RSet False en_cap_i,
       RRep False 2 (Some 50) (RSet False en_name_i)]), spaces1,
     ralt [rwordi (lit ''won''), rwordi (lit ''received''), rwordi (lit ''got'')], spaces1,
     RGrp ''seats'' (RRep True 1 (Some 3) (RSet False [CDigit])), spaces1,
     rwordi (lit ''seats''), en_time_tail rwordi, sentence_end]"

definition EN_ELECTION_THRESHOLD_BELOW :: re where
  "EN_ELECTION_THRESHOLD_BELOW = rseq
    [RGrp ''party'' (rseq [RSet False en_cap_i,
       RRep False 2 (Some 50) (RSet False en_name_i)]), spaces1, rwordi (lit ''did''), spaces1,
     rwordi (lit ''not''), spaces1, rwordi (lit ''pass''), spaces1,
     ropt (rseq [rwordi (lit ''the''), spaces1]), rwordi (lit ''electoral''), spaces1,
     rwordi (lit ''threshold''), en_time_tail rwordi, sentence_end]"

definition HE_GOV_DECISION_NUMBER :: re where
  "HE_GOV_DECISION_NUMBER = rseq
    [ralt [rseq [rword (heb ''hmmwlh''), spaces1, rword (heb ''hxlyTh'')],
       rseq [rword (heb ''bhxlT''), ropt (rword (heb ''t'')), spaces1, rword (heb ''mmwlh'')],
       rseq [rword (heb ''hxlT''), ropt (rword (heb ''t'')), spaces1, rword (heb ''mmwlh'')]],
     spaces0,
     ropt (ralt [rword (heb ''mspr''), rseq [rword (heb ''ms''), ropt (rword [39])],
       rseq [rword (heb ''ms''), ropt (rword (lit ''.''))]]), spaces0, decision_no,
     ropt (rseq [spaces1, ropt (rseq [rword (heb ''wl''), spaces1]),
       ropt (rseq [rword (heb ''hmmwlh''), spaces1]), ropt (rseq [rword (heb ''h''),
       ropt (rword (lit ''-'')), spaces0]),
       RGrp ''government_number'' (RRep True 1 (Some 2) (RSet False [CDigit]))]),
     ropt (RSet False [CR 46 46, CR 63 63, CR 33 33, CR 44 44]), spaces0]"

definition HE_GOV_DECISION_REF :: re where
  "HE_GOV_DECISION_REF = rseq
    [ralt [rword (heb ''bhxlTh''), rword (heb ''lhxlTh''), rword (heb ''hxlTh'')], spaces1,
     ralt [rword (heb ''mspr''), rseq [rword (heb ''ms''), ropt (rword [39])],
       rseq [rword (heb ''ms''), ropt (rword (lit ''.''))]], spaces0, decision_no,
     ropt (RSet False [CR 46 46, CR 63 63, CR 33 33, CR 44 44]), spaces0]"

definition EN_GOV_DECISION_NUMBER :: re where
  "EN_GOV_DECISION_NUMBER = rseq
    [ralt [rseq [rwordi (lit ''government''), spaces1, ralt [rwordi (lit ''decision''),
       rwordi (lit ''resolution'')], ropt (rseq [spaces1, rwordi (lit ''number'')])],
       rseq [rwordi (lit ''cabinet''), spaces1, ralt [rwordi (lit ''decision''),
       rwordi (lit ''resolution'')], ropt (rseq [spaces1, rwordi (lit ''number'')])],
       rseq [rwordi (lit ''the''), spaces1, rwordi (lit ''cabinet''), spaces1,
       rwordi (lit ''decided'')]], spaces0, ropt (rseq [rwordi (lit ''number''), spaces1]),
     ropt (rseq [rwordi (lit ''no''), ropt (rwordi (lit ''.'')), spaces1]), decision_no,
     ropt (RSet False [CR 46 46, CR 63 63, CR 33 33, CR 44 44]), spaces0]"

section \<open>The table and \<open>iter_matches\<close>\<close>

datatype language = HE | EN

record rule_template =
  rt_claim_type :: pystr
  rt_language :: language
  rt_pattern :: re
  rt_description :: pystr
  election_threshold_below :: bool

text \<open>\<open>groups\<close> is a dictionary read by key only; it holds the groups that took part.\<close>

record rule_match =
  rm_template :: rule_template
  rm_groups :: caps
  rm_start :: nat
  rm_end :: nat

definition mk_rule :: "string \<Rightarrow> language \<Rightarrow> re \<Rightarrow> pystr \<Rightarrow> bool \<Rightarrow> rule_template" where
  "mk_rule ct lang r d below =
     \<lparr>rt_claim_type = lit ct, rt_language = lang, rt_pattern = r, rt_description = d,
      election_threshold_below = below\<rparr>"

definition RULE_TEMPLATES :: "rule_template list" where
  "RULE_TEMPLATES =
     [mk_rule ''vote_cast'' HE HE_VOTE
        (lit ''Hebrew vote_cast template'') False,
      mk_rule ''bill_sponsorship'' HE HE_SPONSOR
        (lit ''Hebrew sponsorship'') False,
      mk_rule ''office_held'' HE HE_OFFICE
        (lit ''Hebrew office_held'') False,
      mk_rule ''committee_membership'' HE HE_COMMITTEE_MEM
        (lit ''Hebrew committee membership'') False,
      mk_rule ''committee_attendance'' HE HE_COMMITTEE_ATT
        (lit ''Hebrew committee attendance'') False,
      mk_rule ''vote_cast'' EN EN_VOTE
        (lit ''English vote_cast template'') False,
      mk_rule ''bill_sponsorship'' EN EN_SPONSOR
        (lit ''English sponsorship'') False,
      mk_rule ''office_held'' EN EN_OFFICE
        (lit ''English office_held'') False,
      mk_rule ''committee_membership'' EN EN_COMMITTEE_MEM
        (lit ''English committee membership'') False,
      mk_rule ''committee_attendance'' EN EN_COMMITTEE_ATT
        (lit ''English committee attendance'') False,
      mk_rule ''election_result'' HE HE_ELECTION_SEATS
        (lit ''Hebrew election seats'') False,
      mk_rule ''election_result'' HE HE_ELECTION_THRESHOLD_BELOW
        (lit ''Hebrew election below threshold'') True,
      mk_rule ''election_result'' EN EN_ELECTION_SEATS
        (lit ''English election seats'') False,
      mk_rule ''election_result'' EN EN_ELECTION_THRESHOLD_BELOW
        (lit ''English election below threshold'') True,
      mk_rule ''government_decision'' HE HE_GOV_DECISION_NUMBER
        (lit ''Hebrew government decision by number ('' @ heb ''mmwlh hxlyTh / hxlTt mmwlh mspr'' @ lit '')'') False,
      mk_rule ''government_decision'' HE HE_GOV_DECISION_REF
        (lit ''Hebrew government decision reference ('' @ heb ''bhxlTh mspr / lhxlTh mspr'' @ lit '')'') False,
      mk_rule ''government_decision'' EN EN_GOV_DECISION_NUMBER
        (lit ''English government decision by number'') False]"

definition mk_rule_match :: "rule_template \<Rightarrow> rmatch \<Rightarrow> rule_match" where
  "mk_rule_match t m =
     \<lparr>rm_template = t, rm_groups = m_groups m, rm_start = m_start m, rm_end = m_end m\<rparr>"

definition iter_matches :: "pystr \<Rightarrow> language \<Rightarrow> rule_match list" where
  "iter_matches statement lang =
     concat (map
       (\<lambda>t. if rt_language t \<noteq> lang then []
            else map (mk_rule_match t) (finditer (rt_pattern t) statement))
       RULE_TEMPLATES)"

definition rm_group :: "rule_match \<Rightarrow> string \<Rightarrow> pystr option" where
  "rm_group m nm = map_of (rm_groups m) nm"

definition rm_text :: "pystr \<Rightarrow> rule_match \<Rightarrow> pystr" where
  "rm_text statement m = take (rm_end m - rm_start m) (drop (rm_start m) statement)"

section \<open>What the rules guarantee\<close>

lemmas pattern_defs =
  he_knesset_def he_time_tail_def en_time_tail_def decision_no_def sentence_end_def
  year4_def HE_VOTE_def HE_SPONSOR_def HE_OFFICE_def HE_COMMITTEE_MEM_def
  HE_COMMITTEE_ATT_def EN_VOTE_def EN_SPONSOR_def EN_OFFICE_def EN_COMMITTEE_MEM_def
  EN_COMMITTEE_ATT_def HE_ELECTION_SEATS_def HE_ELECTION_THRESHOLD_BELOW_def
  EN_ELECTION_SEATS_def EN_ELECTION_THRESHOLD_BELOW_def HE_GOV_DECISION_NUMBER_def
  HE_GOV_DECISION_REF_def EN_GOV_DECISION_NUMBER_def

lemma template_consumes: "\<forall>t \<in> set RULE_TEMPLATES. consumes (rt_pattern t)"
  unfolding RULE_TEMPLATES_def mk_rule_def pattern_defs
  by (simp add: consumes_simps)

lemma template_claim_types: "\<forall>t \<in> set RULE_TEMPLATES. rt_claim_type t \<in> set CLAIM_TYPES"
  by (simp add: RULE_TEMPLATES_def mk_rule_def CLAIM_TYPES_def)

lemma iter_matches_elim:
  assumes "m \<in> set (iter_matches statement lang)"
  obtains t x where "t \<in> set RULE_TEMPLATES" "rt_language t = lang"
    "x \<in> set (finditer (rt_pattern t) statement)" "m = mk_rule_match t x"
  using assms by (auto simp: iter_matches_def split: if_splits)

text \<open>What holds of one match: its template, its span and its groups.\<close>

definition rule_match_ok :: "pystr \<Rightarrow> language \<Rightarrow> rule_match \<Rightarrow> bool" where
  "rule_match_ok statement lang m \<longleftrightarrow>
     rm_template m \<in> set RULE_TEMPLATES \<and> rt_language (rm_template m) = lang \<and>
     rm_start m < rm_end m \<and> rm_end m \<le> length statement \<and>
     list_all (\<lambda>g. py_contains (snd g) (rm_text statement m)) (rm_groups m)"

lemma iter_matches_ok:
  assumes "m \<in> set (iter_matches statement lang)"
  shows "rule_match_ok statement lang m"
proof -
  obtain t x where m: "t \<in> set RULE_TEMPLATES" "rt_language t = lang"
    "x \<in> set (finditer (rt_pattern t) statement)" "m = mk_rule_match t x"
    by (rule iter_matches_elim [OF assms])
  have "consumes (rt_pattern t)" using template_consumes m(1) by blast
  then have "m_start x < m_end x" using finditer_nonempty m(3) by blast
  with finditer_match_of [OF m(3)] m show ?thesis
    by (auto simp: rule_match_ok_def mk_rule_match_def rm_text_def match_of_def list_all_iff)
qed

lemma rm_group_contains:
  assumes "rule_match_ok statement lang m" "rm_group m nm = Some t"
  shows "py_contains t statement"
proof -
  from assms have "py_contains t (rm_text statement m)"
    unfolding rule_match_ok_def rm_group_def list_all_iff by (metis map_of_SomeD snd_conv)
  moreover have "py_contains (rm_text statement m) statement"
    unfolding rm_text_def py_contains_iff by (metis append_take_drop_id)
  ultimately show ?thesis unfolding py_contains_iff by (metis append.assoc)
qed

text \<open>
  Claim C7. Every match that the rules report on a statement comes from a template of the asked
  language, spans a non-empty slice of the statement, and every group it hands to the
  decomposer is a contiguous piece of that slice: the rules never invent slot text.
\<close>

theorem iter_matches_verbatim:
  "set (iter_matches statement lang) \<subseteq> {m. rule_match_ok statement lang m}"
  using iter_matches_ok by blast

text \<open>
  The matches of one template never overlap: each starts at or after the end of the one
  before it, whatever the statement.
\<close>

theorem template_matches_disjoint:
  assumes "t \<in> set RULE_TEMPLATES"
  shows "sorted_wrt (\<lambda>a b. rm_end a \<le> rm_start b)
     (map (mk_rule_match t) (finditer (rt_pattern t) statement))"
  using finditer_from_disjoint [of "rt_pattern t" "[]" statement] template_consumes assms
  by (auto simp: sorted_wrt_map mk_rule_match_def finditer_def)

end
