(* ===== verification/Decomposer.thy ===== *)
theory Decomposer
  imports Claim_Rules Claim_Slots
begin

text \<open>
  \<open>services/claim_decomposition/src/civic_claim_decomp/decomposer.py\<close>: rules first, then
  an optional LLM provider, every candidate through the slot validator. \<open>uuid.uuid4()\<close> is
  the parameter \<open>uuid4\<close>, a supply of identifiers read at a counter that the code threads;
  the provider is a parameter that may raise.
\<close>

section \<open>Data\<close>

datatype claim_method = Rules | Llm

record decomposed_claim =
  dc_claim_id :: pystr
  dc_raw_text :: pystr
  dc_normalized_text :: pystr
  dc_claim_type :: pystr
  dc_slots :: "pyval dict"
  dc_time_phrase :: pyval
  dc_method :: claim_method
  dc_source_rule :: "pystr option"

datatype decomp_error = SlotError violation | LlmRejected

record decomposition_result =
  dr_claims :: "decomposed_claim list"
  dr_rule_matches :: nat
  dr_llm_invoked :: bool
  dr_validation_errors :: "decomp_error list"

definition empty_result :: decomposition_result where
  "empty_result =
     \<lparr>dr_claims = [], dr_rule_matches = 0, dr_llm_invoked = False, dr_validation_errors = []\<rparr>"

text \<open>
  A provider returns raw slot dictionaries, or raises. The call may take any dictionary of
  JSON-like values as an item.
\<close>

type_synonym llm_provider = "pystr \<Rightarrow> language \<Rightarrow> pyerr + pyval dict list"

section \<open>Rule matches to claims\<close>

definition str_or_none :: "pystr \<Rightarrow> pyval" where
  "str_or_none s = (if s = [] then PNone else PStr s)"

text \<open>\<open>groups.get(k, "").strip() or None\<close> (also written \<open>(groups.get(k) or "").strip() or None\<close>).\<close>

definition stripped_group :: "rule_match \<Rightarrow> string \<Rightarrow> pyval" where
  "stripped_group m k =
     str_or_none (py_strip (case rm_group m k of None \<Rightarrow> [] | Some t \<Rightarrow> t))"

definition vote_word :: "pystr \<Rightarrow> pyval" where
  "vote_word raw =
     (let val = py_lower (py_strip raw) in
      if val \<in> {heb ''bed'', lit ''for'', lit ''in favor of'', lit ''in favour of''}
      then PLit ''for''
      else if val \<in> {heb ''ngd'', lit ''against'', lit ''opposed''} then PLit ''against''
      else if val \<in> {heb ''nmne'', heb ''nmneh'', lit ''abstained'', lit ''to abstain''}
      then PLit ''abstain''
      else PNone)"

text \<open>\<open>raw.strip()\<close> on a value that is not a string is an \<open>AttributeError\<close>.\<close>

definition normalize_vote_value :: "pyval \<Rightarrow> pyerr + pyval" where
  "normalize_vote_value raw =
     (case raw of PNone \<Rightarrow> Inr PNone | PStr s \<Rightarrow> Inr (vote_word s) | _ \<Rightarrow> Inl AttributeError)"

definition rule_slots :: "rule_match \<Rightarrow> pyval dict" where
  "rule_slots m =
     [(lit ''speaker_person_id'', stripped_group m ''subject''),
      (lit ''target_person_id'', PNone),
      (lit ''bill_id'', stripped_group m ''bill''),
      (lit ''committee_id'', stripped_group m ''committee''),
      (lit ''office_id'', stripped_group m ''office''),
      (lit ''vote_value'',
        (case rm_group m ''vote_value'' of None \<Rightarrow> PNone | Some t \<Rightarrow> vote_word t)),
      (lit ''party_id'', stripped_group m ''party''),
      (lit ''expected_seats'', stripped_group m ''seats''),
      (lit ''expect_passed_threshold'',
        (if election_threshold_below (rm_template m) then PLit ''false'' else PNone)),
      (lit ''government_decision_id'', stripped_group m ''decision_number''),
      (lit ''government_number'', stripped_group m ''government_number'')]"

definition rule_match_to_claim :: "pystr \<Rightarrow> rule_match \<Rightarrow> pystr \<Rightarrow> decomposed_claim" where
  "rule_match_to_claim uid m statement =
     \<lparr>dc_claim_id = uid, dc_raw_text = statement,
      dc_normalized_text = py_strip (rm_text statement m),
      dc_claim_type = rt_claim_type (rm_template m), dc_slots = rule_slots m,
      dc_time_phrase = of_opt PStr (rm_group m ''time''), dc_method = Rules,
      dc_source_rule = Some (rt_description (rm_template m))\<rparr>"

section \<open>LLM output to claims\<close>

text \<open>
  \<open>claim_type not in SLOT_TEMPLATES\<close> hashes the value first. The result is \<open>Inr None\<close> where
  the code returns \<open>None\<close>.
\<close>

definition llm_slots :: "pyval dict \<Rightarrow> pyval \<Rightarrow> pyval dict" where
  "llm_slots raw vote =
     map (\<lambda>k. (lit k, if k = ''vote_value'' then vote else vget raw (lit k)))
       [''speaker_person_id'', ''target_person_id'', ''bill_id'', ''committee_id'', ''office_id'',
        ''vote_value'', ''party_id'', ''expected_seats'', ''expect_passed_threshold'',
        ''government_decision_id'', ''government_number'']"

definition llm_raw_to_claim ::
    "pystr \<Rightarrow> pystr \<Rightarrow> pyval dict \<Rightarrow> pyerr + decomposed_claim option" where
  "llm_raw_to_claim uid statement raw =
     (let claim_type = vget raw (lit ''claim_type'') in
      if \<not> hashable claim_type then Inl TypeError
      else
        (case claim_type of
           PStr ct \<Rightarrow>
             if dget SLOT_TEMPLATES ct = None then Inr None
             else
               (case normalize_vote_value (vget raw (lit ''vote_value'')) of
                  Inl e \<Rightarrow> Inl e
                | Inr vote \<Rightarrow>
                    (let slots = llm_slots raw vote in
                     if validate_slots ct slots \<noteq> [] then Inr None
                     else
                       (case py_or (vget raw (lit ''normalized_text'')) (PStr statement) of
                          PStr text \<Rightarrow>
                            Inr (Some
                              \<lparr>dc_claim_id = uid, dc_raw_text = statement,
                               dc_normalized_text = py_strip text, dc_claim_type = ct,
                               dc_slots = slots, dc_time_phrase = vget raw (lit ''time_phrase''),
                               dc_method = Llm, dc_source_rule = None\<rparr>)
                        | _ \<Rightarrow> Inl AttributeError)))
         | _ \<Rightarrow> Inr None))"

section \<open>\<open>decompose\<close>\<close>

definition overlaps :: "rule_match \<Rightarrow> rule_match \<Rightarrow> bool" where
  "overlaps a b \<longleftrightarrow> \<not> (rm_end a \<le> rm_start b \<or> rm_end b \<le> rm_start a)"

text \<open>The sort key: longer spans first, then earlier ones; the sort is stable.\<close>

definition span_key :: "rule_match \<Rightarrow> int \<times> nat" where
  "span_key m = (- (int (rm_end m) - int (rm_start m)), rm_start m)"

fun select :: "rule_match list \<Rightarrow> rule_match list \<Rightarrow> rule_match list" where
  "select used [] = []"
| "select used (m # rest) =
     (if list_ex (overlaps m) used then select used rest else m # select (used @ [m]) rest)"

definition selected :: "pystr \<Rightarrow> language \<Rightarrow> rule_match list" where
  "selected statement lang = select [] (sort_key span_key (iter_matches statement lang))"

text \<open>Every selected match draws an identifier, the rejected ones too.\<close>

fun rule_stage ::
    "(nat \<Rightarrow> pystr) \<Rightarrow> nat \<Rightarrow> pystr \<Rightarrow> rule_match list \<Rightarrow>
     nat \<times> decomposed_claim list \<times> decomp_error list" where
  "rule_stage uuid4 n statement [] = (n, [], [])"
| "rule_stage uuid4 n statement (m # rest) =
     (let claim = rule_match_to_claim (uuid4 n) m statement;
          violations = validate_slots (dc_claim_type claim) (dc_slots claim);
          (n', claims, errors) = rule_stage uuid4 (Suc n) statement rest
      in if violations \<noteq> [] then (n', claims, map SlotError violations @ errors)
         else (n', claim # claims, errors))"

fun llm_stage ::
    "(nat \<Rightarrow> pystr) \<Rightarrow> nat \<Rightarrow> pystr \<Rightarrow> pyval dict list \<Rightarrow>
     pyerr + nat \<times> decomposed_claim list \<times> decomp_error list" where
  "llm_stage uuid4 n statement [] = Inr (n, [], [])"
| "llm_stage uuid4 n statement (raw # raws) =
     (case llm_raw_to_claim (uuid4 n) statement raw of
        Inl e \<Rightarrow> Inl e
      | Inr None \<Rightarrow>
          (case llm_stage uuid4 n statement raws of
             Inl e \<Rightarrow> Inl e
           | Inr (n', claims, errors) \<Rightarrow> Inr (n', claims, LlmRejected # errors))
      | Inr (Some claim) \<Rightarrow>
          (case llm_stage uuid4 (Suc n) statement raws of
             Inl e \<Rightarrow> Inl e
           | Inr (n', claims, errors) \<Rightarrow> Inr (n', claim # claims, errors)))"

definition decompose ::
    "(nat \<Rightarrow> pystr) \<Rightarrow> nat \<Rightarrow> pystr \<Rightarrow> language \<Rightarrow> llm_provider option \<Rightarrow>
     pyerr + nat \<times> decomposition_result" where
  "decompose uuid4 n statement0 lang llm_provider =
     (let statement = py_strip statement0 in
      if statement = [] then Inr (n, empty_result)
      else
        (let sel = selected statement lang;
             (n1, claims, errors) = rule_stage uuid4 n statement sel
         in
         (case (if claims = [] then llm_provider else None) of
            None \<Rightarrow>
              Inr (n1, \<lparr>dr_claims = claims, dr_rule_matches = length sel, dr_llm_invoked = False,
                       dr_validation_errors = errors\<rparr>)
          | Some provider \<Rightarrow>
              (case provider statement lang of
                 Inl e \<Rightarrow> Inl e
               | Inr raws \<Rightarrow>
                   (case llm_stage uuid4 n1 statement raws of
                      Inl e \<Rightarrow> Inl e
                    | Inr (n2, llm_claims, llm_errors) \<Rightarrow>
                        Inr (n2, \<lparr>dr_claims = claims @ llm_claims, dr_rule_matches = length sel,
                                 dr_llm_invoked = True,
                                 dr_validation_errors = errors @ llm_errors\<rparr>))))))"

definition dr_ok :: "decomposition_result \<Rightarrow> bool" where
  "dr_ok r \<longleftrightarrow> dr_claims r \<noteq> []"

section \<open>Overlap resolution\<close>

lemma overlaps_sym: "overlaps a b \<longleftrightarrow> overlaps b a"
  by (auto simp: overlaps_def)

lemma select_sub: "set (select used rest) \<subseteq> set rest"
  by (induction used rest rule: select.induct) auto

lemma select_avoids: "m \<in> set (select used rest) \<Longrightarrow> u \<in> set used \<Longrightarrow> \<not> overlaps m u"
  by (induction used rest rule: select.induct) (auto simp: list_ex_iff split: if_splits)

lemma select_disjoint: "sorted_wrt (\<lambda>a b. \<not> overlaps a b) (select used rest)"
proof (induction used rest rule: select.induct)
  case (2 used m rest)
  then show ?case using select_avoids [of _ "used @ [m]" rest m] overlaps_sym by auto
qed simp

lemma select_covers:
  assumes "sorted_wrt (\<lambda>a b. span_key a \<le> span_key b) rest" "m \<in> set rest"
  shows "(\<exists>u \<in> set used. overlaps m u) \<or>
    (\<exists>s \<in> set (select used rest). s = m \<or> overlaps m s \<and> span_key s \<le> span_key m)"
  using assms
proof (induction used rest rule: select.induct)
  case (2 used x rest)
  show ?case
  proof (cases "m = x")
    case True
    then show ?thesis by (auto simp: list_ex_iff)
  next
    case False
    with "2.prems" have m: "m \<in> set rest" "span_key x \<le> span_key m"
      "sorted_wrt (\<lambda>a b. span_key a \<le> span_key b) rest" by auto
    show ?thesis
    proof (cases "list_ex (overlaps x) used")
      case True
      with "2.IH"(1) [OF True m(3,1)] show ?thesis by simp
    next
      case False
      from "2.IH"(2) [OF False m(3,1)] False m(2) show ?thesis by auto
    qed
  qed
qed simp

lemma sorted_spans: "sorted_wrt (\<lambda>a b. span_key a \<le> span_key b) (sort_key span_key rest)"
  using sorted_sort_key [of span_key rest] by (simp add: sorted_map)

text \<open>What it means to keep the longer of two overlapping matches, the earlier on a tie.\<close>

definition beaten_by :: "rule_match \<Rightarrow> rule_match \<Rightarrow> bool" where
  "beaten_by m s \<longleftrightarrow> overlaps m s \<and>
     (rm_end s - rm_start s > rm_end m - rm_start m \<or>
      rm_end s - rm_start s = rm_end m - rm_start m \<and> rm_start s \<le> rm_start m)"

lemma beaten_by_key:
  assumes "rm_start m \<le> rm_end m" "rm_start s \<le> rm_end s"
  shows "beaten_by m s \<longleftrightarrow> overlaps m s \<and> span_key s \<le> span_key m"
  using assms by (auto simp: beaten_by_def span_key_def)

text \<open>
  The decomposer keeps a set of matches no two of which overlap, and every match it drops
  overlaps a kept one that is longer, or as long and starting no later.
\<close>

theorem selected_spec:
  "set (selected statement lang) \<subseteq> set (iter_matches statement lang) \<and>
   sorted_wrt (\<lambda>a b. \<not> overlaps a b) (selected statement lang) \<and>
   set (iter_matches statement lang) \<subseteq>
     set (selected statement lang) \<union> {m. \<exists>s \<in> set (selected statement lang). beaten_by m s}"
proof (intro conjI subsetI)
  show "sorted_wrt (\<lambda>a b. \<not> overlaps a b) (selected statement lang)"
    unfolding selected_def by (rule select_disjoint)
  fix m assume m: "m \<in> set (iter_matches statement lang)"
  then have in_sort: "m \<in> set (sort_key span_key (iter_matches statement lang))" by simp
  have span: "rm_start x \<le> rm_end x" if "x \<in> set (iter_matches statement lang)" for x
    using iter_matches_ok [OF that] by (simp add: rule_match_ok_def)
  have sub: "s \<in> set (iter_matches statement lang)" if "s \<in> set (selected statement lang)" for s
    using that select_sub unfolding selected_def by fastforce
  from select_covers [OF sorted_spans in_sort, of "[]"]
  show "m \<in> set (selected statement lang) \<union> {m. \<exists>s \<in> set (selected statement lang). beaten_by m s}"
    using beaten_by_key span m sub unfolding selected_def [symmetric] by auto
qed (use select_sub in \<open>fastforce simp: selected_def\<close>)

section \<open>Every emitted claim is valid\<close>

definition claim_valid :: "pystr \<Rightarrow> decomposed_claim \<Rightarrow> bool" where
  "claim_valid statement c \<longleftrightarrow>
     validate_slots (dc_claim_type c) (dc_slots c) = [] \<and> dc_raw_text c = statement"

lemma rule_stage_valid:
  "rule_stage uuid4 n statement rest = (n', claims, errors) \<Longrightarrow>
     list_all (\<lambda>c. claim_valid statement c \<and> dc_method c = Rules) claims"
  by (induction rest arbitrary: n n' claims errors)
    (auto simp: Let_def claim_valid_def rule_match_to_claim_def split: prod.splits if_splits)

lemma rule_stage_origin:
  "rule_stage uuid4 n statement rest = (n', claims, errors) \<Longrightarrow>
     list_all (\<lambda>c. \<exists>m \<in> set rest. \<exists>i. c = rule_match_to_claim (uuid4 i) m statement) claims"
proof (induction rest arbitrary: n n' claims errors)
  case (Cons m rest)
  obtain n1 cs es where r: "rule_stage uuid4 (Suc n) statement rest = (n1, cs, es)"
    by (cases "rule_stage uuid4 (Suc n) statement rest") auto
  from Cons.IH [OF r] have
    "list_all (\<lambda>c. \<exists>m' \<in> set (m # rest). \<exists>i. c = rule_match_to_claim (uuid4 i) m' statement) cs"
    by (auto simp: list_all_iff)
  moreover have "claims = cs \<or> claims = rule_match_to_claim (uuid4 n) m statement # cs"
    using Cons.prems by (auto simp: r Let_def split: if_splits)
  ultimately show ?case by auto
qed simp

lemma llm_raw_valid:
  "llm_raw_to_claim uid statement raw = Inr (Some c) \<Longrightarrow>
     claim_valid statement c \<and> dc_method c = Llm"
  by (auto simp: llm_raw_to_claim_def Let_def claim_valid_def
      split: if_splits pyval.splits sum.splits)

lemma llm_stage_valid:
  "llm_stage uuid4 n statement raws = Inr (n', claims, errors) \<Longrightarrow>
     list_all (\<lambda>c. claim_valid statement c \<and> dc_method c = Llm) claims"
  by (induction raws arbitrary: n n' claims errors)
    (auto split: sum.splits option.splits prod.splits dest: llm_raw_valid)

lemma decompose_claims_ok:
  assumes "decompose uuid4 n statement lang llm = Inr (n', r)"
  shows "list_all (claim_valid (py_strip statement)) (dr_claims r) \<and>
    (if dr_llm_invoked r then list_all (\<lambda>c. dc_method c = Llm) (dr_claims r) \<and> llm \<noteq> None
     else list_all (\<lambda>c. dc_method c = Rules) (dr_claims r))"
proof (cases "py_strip statement = []")
  case True
  with assms show ?thesis by (auto simp: decompose_def empty_result_def)
next
  case False
  obtain n1 cs es where rs: "rule_stage uuid4 n (py_strip statement)
      (selected (py_strip statement) lang) = (n1, cs, es)"
    by (cases "rule_stage uuid4 n (py_strip statement) (selected (py_strip statement) lang)") auto
  from rule_stage_valid [OF rs] assms False show ?thesis
    by (auto simp: decompose_def rs Let_def list_all_iff dest!: llm_stage_valid
        split: if_splits option.splits sum.splits prod.splits)
qed

text \<open>
  Claim C5. Whenever \<open>decompose\<close> returns, every claim of the result passed the slot validator and
  carries the stripped statement as its raw text; the claims come from the rules when any rule
  claim survives, and otherwise from the provider, which is recorded as invoked.
\<close>

theorem decompose_claims_valid:
  assumes "decompose uuid4 n statement lang llm = Inr (n', r)"
  shows "list_all (claim_valid (py_strip statement)) (dr_claims r) \<and>
    (if dr_llm_invoked r then list_all (\<lambda>c. dc_method c = Llm) (dr_claims r) \<and> llm \<noteq> None
     else list_all (\<lambda>c. dc_method c = Rules) (dr_claims r))"
  by (rule decompose_claims_ok [OF assms])

lemmas run_pattern =
  iter_matches_def RULE_TEMPLATES_def mk_rule_def finditer_def finditer_from.simps
  pattern_defs rword_def rwordi_def en_cap_i_def en_cap_def en_name_i_def en_name_def az_i_def
  in_set_def lit_def

lemma no_rule_matches_x: "iter_matches (lit ''x'') EN = []"
  by (simp add: run_pattern ci_def is_space_def is_digit_def nd_starts_def)

lemma strip_x: "py_strip (lit ''x'') = lit ''x''"
  by (simp add: py_strip_def py_lstrip_def py_rstrip_def lit_def is_space_def)

definition sample_provider :: llm_provider where
  "sample_provider statement lang =
     Inr [[(lit ''claim_type'', PLit ''office_held''), (lit ''speaker_person_id'', PLit ''dana''),
           (lit ''office_id'', PLit ''mayor'')]]"

definition sample_claim :: decomposed_claim where
  "sample_claim =
     \<lparr>dc_claim_id = [0], dc_raw_text = lit ''x'', dc_normalized_text = lit ''x'',
      dc_claim_type = lit ''office_held'',
      dc_slots = llm_slots [(lit ''claim_type'', PLit ''office_held''),
        (lit ''speaker_person_id'', PLit ''dana''), (lit ''office_id'', PLit ''mayor'')] PNone,
      dc_time_phrase = PNone, dc_method = Llm, dc_source_rule = None\<rparr>"

lemma decompose_sample:
  "decompose (\<lambda>i. [i]) 0 (lit ''x'') EN (Some sample_provider) =
     Inr (1, \<lparr>dr_claims = [sample_claim], dr_rule_matches = 0, dr_llm_invoked = True,
             dr_validation_errors = []\<rparr>)"
proof -
  have "validate_slots (lit ''office_held'') (dc_slots sample_claim) = []"
    by (simp add: validate_slots_def slot_table_simps sample_claim_def llm_slots_def)
  then show ?thesis
    by (simp add: decompose_def Let_def strip_x selected_def no_rule_matches_x sample_provider_def
        llm_raw_to_claim_def normalize_vote_value_def SLOT_TEMPLATES_dom CLAIM_TYPES_def
        py_or_def sample_claim_def)
qed

lemma decompose_claims_valid_witness:
  "let r = snd (projr (decompose (\<lambda>i. [i]) 0 (lit ''x'') EN (Some sample_provider))) in
     dr_claims r = [sample_claim] \<and> list_all (claim_valid (lit ''x'')) (dr_claims r) \<and>
     dr_llm_invoked r"
  using decompose_claims_valid [OF decompose_sample]
  by (simp add: decompose_sample strip_x)

section \<open>The rules never invent slot text\<close>

lemma dropWhile_contains: "py_contains (dropWhile P s) s"
  unfolding py_contains_iff by (metis append.right_neutral takeWhile_dropWhile_id)

lemma py_contains_trans: "py_contains a b \<Longrightarrow> py_contains b c \<Longrightarrow> py_contains a c"
  unfolding py_contains_iff by (metis append.assoc)

lemma py_contains_rev: "py_contains (rev a) (rev b) \<longleftrightarrow> py_contains a b"
proof -
  have "py_contains a b \<Longrightarrow> py_contains (rev a) (rev b)" for a b :: pystr
    unfolding py_contains_iff by (metis append.assoc rev_append)
  from this [of a b] this [of "rev a" "rev b"] show ?thesis by auto
qed

lemma py_strip_contains: "py_contains (py_strip s) s"
proof -
  have "py_contains (py_rstrip t) t" for t
    using dropWhile_contains [of is_space "rev t"] py_contains_rev [of "py_rstrip t" t]
    by (simp add: py_rstrip_def)
  then show ?thesis
    unfolding py_strip_def py_lstrip_def using dropWhile_contains py_contains_trans by blast
qed

text \<open>A slot the rules read off the statement; the vote value and the threshold flag are words
  of the code's own vocabulary instead.\<close>

definition verbatim_slot :: "pystr \<Rightarrow> pystr \<times> pyval \<Rightarrow> bool" where
  "verbatim_slot statement kv =
     (case snd kv of
        PNone \<Rightarrow> True
      | PStr t \<Rightarrow>
          if fst kv = lit ''vote_value'' then t \<in> {lit ''for'', lit ''against'', lit ''abstain''}
          else if fst kv = lit ''expect_passed_threshold'' then t = lit ''false''
          else t \<noteq> [] \<and> py_contains t statement
      | _ \<Rightarrow> False)"

lemma stripped_group_verbatim:
  assumes "rule_match_ok statement lang m" "k \<noteq> ''vote_value''" "k \<noteq> ''expect_passed_threshold''"
  shows "verbatim_slot statement (lit k, stripped_group m g)"
proof (cases "rm_group m g")
  case (Some t)
  have "py_contains (py_strip t) statement"
    using rm_group_contains [OF assms(1) Some] py_strip_contains py_contains_trans by blast
  then show ?thesis
    using assms(2,3) by (simp add: verbatim_slot_def stripped_group_def str_or_none_def Some)
qed (simp add: verbatim_slot_def stripped_group_def str_or_none_def py_strip_def py_lstrip_def
    py_rstrip_def)

lemma vote_word_verbatim: "verbatim_slot statement (lit ''vote_value'', vote_word t)"
  by (simp add: verbatim_slot_def vote_word_def Let_def)

lemma rule_slots_verbatim:
  assumes "rule_match_ok statement lang m"
  shows "list_all (verbatim_slot statement) (rule_slots m)"
  using stripped_group_verbatim [OF assms] vote_word_verbatim
  by (simp add: rule_slots_def split: option.splits) (simp add: verbatim_slot_def)

lemma decompose_no_llm:
  "\<exists>n' r. decompose uuid4 n statement lang None = Inr (n', r) \<and> \<not> dr_llm_invoked r \<and>
     list_all (\<lambda>c. list_all (verbatim_slot (py_strip statement)) (dc_slots c)) (dr_claims r)"
proof (cases "py_strip statement = []")
  case True
  then show ?thesis by (simp add: decompose_def empty_result_def)
next
  case False
  let ?s = "py_strip statement"
  obtain n1 cs es where rs: "rule_stage uuid4 n ?s (selected ?s lang) = (n1, cs, es)"
    by (cases "rule_stage uuid4 n ?s (selected ?s lang)") auto
  have "list_all (verbatim_slot ?s) (dc_slots c)" if "c \<in> set cs" for c
  proof -
    from that rule_stage_origin [OF rs] obtain m i where m: "m \<in> set (selected ?s lang)"
      "c = rule_match_to_claim (uuid4 i) m ?s" by (auto simp: list_all_iff)
    then have "m \<in> set (iter_matches ?s lang)"
      using select_sub unfolding selected_def by fastforce
    then show ?thesis
      using rule_slots_verbatim [OF iter_matches_ok] m(2) by (simp add: rule_match_to_claim_def)
  qed
  then show ?thesis
    using False by (simp add: decompose_def rs list_all_iff)
qed

text \<open>
  Without a provider \<open>decompose\<close> never raises, and it never invents slot text: every
  filled slot of every claim is a non-empty contiguous piece of the statement, except the vote
  value and the threshold flag, which are words of a fixed vocabulary.
\<close>

theorem decompose_rules_only:
  "\<exists>n' r. decompose uuid4 n statement lang None = Inr (n', r) \<and> \<not> dr_llm_invoked r \<and>
     list_all (\<lambda>c. list_all (verbatim_slot (py_strip statement)) (dc_slots c)) (dr_claims r)"
  by (rule decompose_no_llm)

end
