(* ===== verification/Temporal.thy ===== *)
theory Temporal
  imports Py_Regex_Props
begin

text \<open>
  \<open>services/normalization/src/civic_temporal/\<close> (\<open>knesset_terms.py\<close>, \<open>normalizer.py\<close>)
  and \<open>temporal_scope_extractor.py\<close> of \<open>civic_claim_decomp\<close>: the table of Knesset terms,
  the part of \<open>datetime.date\<close> the code uses, and the normalizer that turns a raw time
  phrase into a \<open>TimeScope\<close>. \<open>date.today()\<close> is the parameter \<open>today\<close>.
\<close>

section \<open>Calendar dates\<close>

text \<open>A date is the triple of its year, month and day; dates compare lexicographically.\<close>

type_synonym date = "nat \<times> nat \<times> nat"

definition leap :: "nat \<Rightarrow> bool" where
  "leap y \<longleftrightarrow> (4 dvd y \<and> \<not> 100 dvd y) \<or> 400 dvd y"

definition days_in_month :: "nat \<Rightarrow> nat \<Rightarrow> nat" where
  "days_in_month y m =
     (if m = 2 then if leap y then 29 else 28
      else if m \<in> {4, 6, 9, 11} then 30 else 31)"

fun valid_date :: "date \<Rightarrow> bool" where
  "valid_date (y, m, d) \<longleftrightarrow>
     1 \<le> y \<and> y \<le> 9999 \<and> 1 \<le> m \<and> m \<le> 12 \<and> 1 \<le> d \<and> d \<le> days_in_month y m"

definition mk_date :: "nat \<Rightarrow> nat \<Rightarrow> nat \<Rightarrow> pyerr + date" where
  "mk_date y m d = (if valid_date (y, m, d) then Inr (y, m, d) else Inl ValueError)"

text \<open>\<open>d - timedelta(days=1)\<close>; the first day of year 1 has no predecessor.\<close>

fun prev_day :: "date \<Rightarrow> pyerr + date" where
  "prev_day (y, m, d) =
     (if 1 < d then Inr (y, m, d - 1)
      else if 1 < m then Inr (y, m - 1, days_in_month y (m - 1))
      else if 1 < y then Inr (y - 1, 12, 31) else Inl ValueError)"

text \<open>
  \<open>date.fromisoformat\<close> on a text of the shape \<open>dddd-dd-dd\<close>, the only shape the code hands
  it. A digit outside ASCII is a \<open>ValueError\<close>.
\<close>

definition ascii_digits :: "pystr \<Rightarrow> bool" where
  "ascii_digits s \<longleftrightarrow> list_all (\<lambda>c. 48 \<le> c \<and> c \<le> 57) s"

definition fromisoformat :: "pystr \<Rightarrow> pyerr + date" where
  "fromisoformat s =
     (if length s = 10 \<and> s ! 4 = 45 \<and> s ! 7 = 45 \<and>
         ascii_digits (take 4 s @ take 2 (drop 5 s) @ drop 8 s)
      then mk_date (nat_of_digits (take 4 s)) (nat_of_digits (take 2 (drop 5 s)))
             (nat_of_digits (drop 8 s))
      else Inl ValueError)"

section \<open>Knesset terms\<close>

record knesset_term =
  kt_number :: nat
  start_iso :: pystr
  end_iso :: "pystr option"

definition mk_term :: "nat \<Rightarrow> string \<Rightarrow> string option \<Rightarrow> knesset_term" where
  "mk_term n s e = \<lparr>kt_number = n, start_iso = lit s, end_iso = map_option lit e\<rparr>"

definition KNESSET_TERMS :: "knesset_term list" where
  "KNESSET_TERMS =
     [mk_term 1 ''1949-02-14'' (Some ''1951-08-20''),
      mk_term 2 ''1951-08-20'' (Some ''1955-08-15''),
      mk_term 3 ''1955-08-15'' (Some ''1959-12-04''),
      mk_term 4 ''1959-12-04'' (Some ''1961-09-04''),
      mk_term 5 ''1961-09-04'' (Some ''1965-11-22''),
      mk_term 6 ''1965-11-22'' (Some ''1969-11-17''),
      mk_term 7 ''1969-11-17'' (Some ''1974-01-21''),
      mk_term 8 ''1974-01-21'' (Some ''1977-06-13''),
      mk_term 9 ''1977-06-13'' (Some ''1981-07-20''),
      mk_term 10 ''1981-07-20'' (Some ''1984-08-13''),
      mk_term 11 ''1984-08-13'' (Some ''1988-11-21''),
      mk_term 12 ''1988-11-21'' (Some ''1992-07-13''),
      mk_term 13 ''1992-07-13'' (Some ''1996-06-17''),
      mk_term 14 ''1996-06-17'' (Some ''1999-06-07''),
      mk_term 15 ''1999-06-07'' (Some ''2003-02-17''),
      mk_term 16 ''2003-02-17'' (Some ''2006-04-17''),
      mk_term 17 ''2006-04-17'' (Some ''2009-02-24''),
      mk_term 18 ''2009-02-24'' (Some ''2013-02-05''),
      mk_term 19 ''2013-02-05'' (Some ''2015-03-31''),
      mk_term 20 ''2015-03-31'' (Some ''2019-04-30''),
      mk_term 21 ''2019-04-30'' (Some ''2019-10-03''),
      mk_term 22 ''2019-10-03'' (Some ''2020-03-16''),
      mk_term 23 ''2020-03-16'' (Some ''2020-12-22''),
      mk_term 24 ''2020-12-22'' (Some ''2022-11-15''),
      mk_term 25 ''2022-11-15'' None]"

definition term_by_number :: "nat \<Rightarrow> knesset_term option" where
  "term_by_number n = find (\<lambda>t. kt_number t = n) KNESSET_TERMS"

section \<open>Time scopes\<close>

datatype granularity = Day | Month | Year | Term | Unknown

record time_scope =
  ts_start :: "pystr option"
  ts_end :: "pystr option"
  ts_granularity :: granularity

definition unknown_scope :: time_scope where
  "unknown_scope = \<lparr>ts_start = None, ts_end = None, ts_granularity = Unknown\<rparr>"

text \<open>\<open>f"{y:04d}-{m:02d}-{d:02d}"\<close> and the two instants of a day.\<close>

definition iso_date :: "nat \<Rightarrow> nat \<Rightarrow> nat \<Rightarrow> pystr" where
  "iso_date y m d = pad0 4 y @ lit ''-'' @ pad0 2 m @ lit ''-'' @ pad0 2 d"

definition day_start :: "pystr \<Rightarrow> pystr" where
  "day_start s = s @ lit ''T00:00:00+00:00''"

definition day_end :: "pystr \<Rightarrow> pystr" where
  "day_end s = s @ lit ''T23:59:59+00:00''"

definition year_bounds :: "nat \<Rightarrow> time_scope" where
  "year_bounds y =
     \<lparr>ts_start = Some (day_start (pad0 4 y @ lit ''-01-01'')),
      ts_end = Some (day_end (pad0 4 y @ lit ''-12-31'')), ts_granularity = Year\<rparr>"

definition month_bounds :: "nat \<Rightarrow> nat \<Rightarrow> pyerr + time_scope" where
  "month_bounds y m =
     (case (if m = 12 then mk_date (y + 1) 1 1 else mk_date y (m + 1) 1) of
        Inl e \<Rightarrow> Inl e
      | Inr next_start \<Rightarrow>
          (case prev_day next_start of
             Inl e \<Rightarrow> Inl e
           | Inr (ey, em, ed) \<Rightarrow>
               Inr \<lparr>ts_start = Some (day_start (pad0 4 y @ lit ''-'' @ pad0 2 m @ lit ''-01'')),
                    ts_end = Some (day_end (iso_date ey em ed)), ts_granularity = Month\<rparr>))"

definition day_scope :: "nat \<Rightarrow> nat \<Rightarrow> nat \<Rightarrow> time_scope" where
  "day_scope y m d =
     \<lparr>ts_start = Some (day_start (iso_date y m d)), ts_end = Some (day_end (iso_date y m d)),
      ts_granularity = Day\<rparr>"

definition term_scope :: "nat \<Rightarrow> time_scope option" where
  "term_scope n =
     map_option (\<lambda>t. \<lparr>ts_start = Some (day_start (start_iso t)),
       ts_end = map_option day_end (end_iso t), ts_granularity = Term\<rparr>) (term_by_number n)"

section \<open>The patterns\<close>

definition year_re :: re where
  "year_re = rseq [ralt [rword (lit ''19''), rword (lit ''20'')],
     RRep True 2 (Some 2) (RSet False [CDigit])]"

definition ISO_DATE :: re where
  "ISO_DATE = rseq
    [RBol, RGrp ''y'' (RRep True 4 (Some 4) (RSet False [CDigit])), rword (lit ''-''),
     RGrp ''m'' (RRep True 2 (Some 2) (RSet False [CDigit])), rword (lit ''-''),
     RGrp ''d'' (RRep True 2 (Some 2) (RSet False [CDigit])), REol]"

definition YEAR :: re where
  "YEAR = rseq [RNotBehind [CDigit], RGrp ''y'' year_re, RNotAhead [CDigit]]"

definition HE_TERM :: re where
  "HE_TERM = rseq
    [rword (heb ''knst''), ropt (rseq [spaces1, rword (heb ''h''), ropt (RSet False [CR 45 45])]),
     spaces0, RGrp ''n'' (RRep True 1 (Some 2) (RSet False [CDigit]))]"

definition EN_TERM :: re where
  "EN_TERM = rseq
    [RGrp ''n'' (RRep True 1 (Some 2) (RSet False [CDigit])),
     ropt (ralt [rword (lit ''st''), rword (lit ''nd''), rword (lit ''rd''), rword (lit ''th'')]),
     spaces1, RSet False [CR 75 75, CR 107 107], rword (lit ''nesset'')]"

definition HE_MONTHS :: "nat dict" where
  "HE_MONTHS =
     [(heb ''ynvar'', 1), (heb ''pbrvar'', 2), (heb ''mrC'', 3), (heb ''apryl'', 4),
      (heb ''may'', 5), (heb ''yvny'', 6), (heb ''yvly'', 7), (heb ''avgvsT'', 8),
      (heb ''spTmbr'', 9), (heb ''avqTvbr'', 10), (heb ''nvbmbr'', 11), (heb ''dcmbr'', 12)]"

definition HE_MONTH :: re where
  "HE_MONTH = rseq
    [RGrp ''m'' (ralt (map (rword \<circ> fst) HE_MONTHS)), spaces1, RGrp ''y'' year_re]"

definition HE_LAST_YEAR :: re where
  "HE_LAST_YEAR = rseq [rword (heb ''bwnh''), spaces1, rword (heb ''webrh'')]"

definition HE_LAST_TERM :: re where
  "HE_LAST_TERM = rseq
    [ropt (rword (heb ''h'')), rword (heb ''qdncyh''), spaces1, rword (heb ''hqvdmt'')]"

definition EN_LAST_YEAR :: re where
  "EN_LAST_YEAR = rseq
    [RWordB, rwordi (lit ''last''), spaces1, rwordi (lit ''year''), RWordB]"

definition EN_LAST_TERM :: re where
  "EN_LAST_TERM = rseq
    [RWordB, rwordi (lit ''last''), spaces1, rwordi (lit ''term''), RWordB]"

section \<open>\<open>normalize_time_scope\<close>\<close>

text \<open>\<open>int(m[nm])\<close>: a group of decimal digits that took part.\<close>

definition int_group :: "rmatch \<Rightarrow> string \<Rightarrow> nat" where
  "int_group m nm = (case group m nm of None \<Rightarrow> 0 | Some t \<Rightarrow> nat_of_digits t)"

text \<open>The loop over the terms: the first one whose span contains the reference date.\<close>

fun current_term :: "date \<Rightarrow> knesset_term list \<Rightarrow> pyerr + knesset_term option" where
  "current_term ref [] = Inr None"
| "current_term ref (t # ts) =
     (case fromisoformat (start_iso t) of
        Inl e \<Rightarrow> Inl e
      | Inr s \<Rightarrow>
          (case (case end_iso t of None \<Rightarrow> Inr ref | Some e \<Rightarrow> fromisoformat e) of
             Inl e \<Rightarrow> Inl e
           | Inr e \<Rightarrow> if s \<le> ref \<and> ref \<le> e then Inr (Some t) else current_term ref ts))"

definition numbered_term :: "re \<Rightarrow> pystr \<Rightarrow> time_scope option" where
  "numbered_term r text =
     (case re_search r text of None \<Rightarrow> None | Some m \<Rightarrow> term_scope (int_group m ''n''))"

definition last_term :: "date \<Rightarrow> pyerr + time_scope option" where
  "last_term ref =
     (case current_term ref KNESSET_TERMS of
        Inl e \<Rightarrow> Inl e
      | Inr None \<Rightarrow> Inr None
      | Inr (Some t) \<Rightarrow> Inr (if 1 < kt_number t then term_scope (kt_number t - 1) else None))"

definition bare_year :: "pystr \<Rightarrow> time_scope" where
  "bare_year text =
     (case re_search YEAR text of
        None \<Rightarrow> unknown_scope
      | Some m \<Rightarrow> year_bounds (int_group m ''y''))"

definition relative_scope :: "date \<Rightarrow> pystr \<Rightarrow> pyerr + time_scope" where
  "relative_scope ref text =
     (if re_search HE_LAST_YEAR text \<noteq> None \<or> re_search EN_LAST_YEAR text \<noteq> None
      then Inr (year_bounds (fst ref - 1))
      else if re_search HE_LAST_TERM text \<noteq> None \<or> re_search EN_LAST_TERM text \<noteq> None
      then (case last_term ref of
              Inl e \<Rightarrow> Inl e
            | Inr (Some scope) \<Rightarrow> Inr scope
            | Inr None \<Rightarrow> Inr (bare_year text))
      else Inr (bare_year text))"

definition month_scope :: "rmatch \<Rightarrow> pyerr + time_scope" where
  "month_scope m =
     (case group m ''m'' of
        None \<Rightarrow> Inl KeyError
      | Some name \<Rightarrow>
          (case dget HE_MONTHS name of
             None \<Rightarrow> Inl KeyError
           | Some k \<Rightarrow> month_bounds (int_group m ''y'') k))"

definition normalize_time_scope :: "date \<Rightarrow> pystr option \<Rightarrow> date option \<Rightarrow> pyerr + time_scope" where
  "normalize_time_scope today phrase reference_date =
     (case phrase of
        None \<Rightarrow> Inr unknown_scope
      | Some p \<Rightarrow>
          (let text = py_strip p in
           if text = [] then Inr unknown_scope
           else
             (case re_match ISO_DATE text of
                Some m \<Rightarrow> Inr (day_scope (int_group m ''y'') (int_group m ''m'') (int_group m ''d''))
              | None \<Rightarrow>
                  (case re_search HE_MONTH text of
                     Some m \<Rightarrow> month_scope m
                   | None \<Rightarrow>
                       (case numbered_term HE_TERM text of
                          Some scope \<Rightarrow> Inr scope
                        | None \<Rightarrow>
                            (case numbered_term EN_TERM text of
                               Some scope \<Rightarrow> Inr scope
                             | None \<Rightarrow>
                                 relative_scope
                                   (case reference_date of None \<Rightarrow> today | Some d \<Rightarrow> d) text))))))"

section \<open>\<open>temporal_scope_extractor.py\<close>\<close>

definition ISO_DATE_ANYWHERE :: re where
  "ISO_DATE_ANYWHERE = RGrp ''1''
    (rseq [RRep True 4 (Some 4) (RSet False [CDigit]), rword (lit ''-''),
       RRep True 2 (Some 2) (RSet False [CDigit]), rword (lit ''-''),
       RRep True 2 (Some 2) (RSet False [CDigit])])"

definition YEAR_ANYWHERE :: re where
  "YEAR_ANYWHERE = rseq [RNotBehind [CDigit], RGrp ''1'' year_re, RNotAhead [CDigit]]"

definition utterance_year :: "pystr \<Rightarrow> pyerr + date option" where
  "utterance_year text =
     (case re_search YEAR_ANYWHERE text of
        None \<Rightarrow> Inr None
      | Some m \<Rightarrow> map_sum id Some (mk_date (int_group m ''1'') 1 1))"

definition extract_utterance_time :: "pystr \<Rightarrow> pyerr + date option" where
  "extract_utterance_time utterance_text =
     (let text = py_strip utterance_text in
      case re_search ISO_DATE_ANYWHERE text of
        None \<Rightarrow> utterance_year text
      | Some m \<Rightarrow>
          (case fromisoformat (case group m ''1'' of None \<Rightarrow> [] | Some t \<Rightarrow> t) of
             Inr d \<Rightarrow> Inr (Some d)
           | Inl _ \<Rightarrow> utterance_year text))"

definition extract_time_scope :: "date \<Rightarrow> pystr option \<Rightarrow> pyerr + time_scope" where
  "extract_time_scope today time_phrase = normalize_time_scope today time_phrase None"

section \<open>Correctness of the calendar and of the term table\<close>

lemma digit_val_le: "digit_val c \<le> 9"
  by (auto simp: digit_val_def find_Some_iff split: option.splits)

lemma nat_of_digits_append:
  "nat_of_digits (s @ [c]) = 10 * nat_of_digits s + digit_val c"
  by (simp add: nat_of_digits_def)

lemma accepts_year_re:
  assumes "accepts year_re t" shows "1900 \<le> nat_of_digits t \<and> nat_of_digits t \<le> 2099"
proof -
  from assms obtain u v where t: "t = u @ v" "u = lit ''19'' \<or> u = lit ''20''" "length v = 2"
    unfolding year_re_def by (auto simp: accepts_rseq accepts_ralt accepts_set_times)
  then obtain c d where v: "v = [c, d]" by (auto simp: numeral_2_eq_2 length_Suc_conv)
  have eq: "nat_of_digits t = 10 * (10 * nat_of_digits u + digit_val c) + digit_val d"
    using nat_of_digits_append [of "u @ [c]" d] nat_of_digits_append [of u c]
    by (simp add: t(1) v)
  have u: "nat_of_digits u = 19 \<or> nat_of_digits u = 20"
    using t(2) by (auto simp: nat_of_digits_def lit_def digit_val_def)
  show ?thesis unfolding eq using u digit_val_le [of c] digit_val_le [of d] by auto
qed

lemma days_in_month_pos: "1 \<le> days_in_month y m" "28 \<le> days_in_month y m"
  by (simp_all add: days_in_month_def)

text \<open>Going back one day from the first of the next month is the last day of the month.\<close>

definition month_of :: "nat \<Rightarrow> nat \<Rightarrow> time_scope" where
  "month_of y m =
     \<lparr>ts_start = Some (day_start (iso_date y m 1)), ts_end = Some (day_end (iso_date y m (days_in_month y m))),
      ts_granularity = Month\<rparr>"

lemma pad0_1: "pad0 2 (Suc 0) = lit ''01''"
  by (simp add: pad0_def digits_of_nat.simps lit_def)

lemma month_bounds_month_of:
  assumes "1 \<le> y" "y \<le> 9998" "1 \<le> m" "m \<le> 12"
  shows "month_bounds y m = Inr (month_of y m)"
proof (cases "m = 12")
  case True
  with assms show ?thesis
    by (simp add: month_bounds_def mk_date_def month_of_def iso_date_def pad0_1 days_in_month_def lit_append)
      (simp add: lit_def)
next
  case False
  with assms show ?thesis
    using days_in_month_pos [of y "m + 1"]
    by (simp add: month_bounds_def mk_date_def month_of_def iso_date_def pad0_1) (simp add: lit_def)
qed

text \<open>
  For every month of the years 1 to 9998, leap years included, the month scope runs from
  the first of the month to its last day, which the code finds by stepping back one day from
  the first of the following month.
\<close>

theorem month_bounds_calendar:
  assumes "1 \<le> y" "y \<le> 9998" "1 \<le> m" "m \<le> 12"
  shows "month_bounds y m =
     Inr \<lparr>ts_start = Some (day_start (iso_date y m 1)),
          ts_end = Some (day_end (iso_date y m (days_in_month y m))), ts_granularity = Month\<rparr>"
  using month_bounds_month_of [OF assms] by (simp add: month_of_def)

text \<open>The dates of the table, parsed.\<close>

definition term_from :: "knesset_term \<Rightarrow> date" where
  "term_from t = projr (fromisoformat (start_iso t))"

definition term_to :: "knesset_term \<Rightarrow> date option" where
  "term_to t = map_option (projr \<circ> fromisoformat) (end_iso t)"

definition parses :: "knesset_term \<Rightarrow> bool" where
  "parses t \<longleftrightarrow> isl (fromisoformat (start_iso t)) = False \<and>
     (case end_iso t of None \<Rightarrow> True | Some e \<Rightarrow> isl (fromisoformat e) = False)"

definition ends_by :: "knesset_term \<Rightarrow> date \<Rightarrow> bool" where
  "ends_by t d \<longleftrightarrow> (case term_to t of None \<Rightarrow> False | Some e \<Rightarrow> e \<le> d)"

lemmas iso_eval =
  fromisoformat_def ascii_digits_def nat_of_digits_def digit_val_def mk_date_def days_in_month_def
  leap_def lit_def

lemma terms_parse: "list_all parses KNESSET_TERMS"
  unfolding KNESSET_TERMS_def mk_term_def parses_def by (simp add: iso_eval)

lemma terms_ordered: "sorted_wrt (\<lambda>a b. ends_by a (term_from b)) KNESSET_TERMS"
proof -
  have chain: "sorted_wrt (\<lambda>a b. ends_by a (term_from b)) ts"
    if "successively (\<lambda>a b. term_to a = Some (term_from b)) ts"
      "\<forall>t \<in> set ts. \<forall>e. term_to t = Some e \<longrightarrow> term_from t \<le> e" for ts
    using that
  proof (induction ts)
    case (Cons t ts)
    have tail: "sorted_wrt (\<lambda>a b. ends_by a (term_from b)) ts"
      using Cons by (auto simp: successively_Cons)
    have "ends_by t (term_from b)" if "b \<in> set ts" for b
    proof -
      from that obtain h r where ts: "ts = h # r" by (cases ts) auto
      with Cons.prems have h: "term_to t = Some (term_from h)" by simp
      show ?thesis
      proof (cases "b = h")
        case False
        with that ts tail have hb: "ends_by h (term_from b)" by auto
        then obtain e where e: "term_to h = Some e" "e \<le> term_from b"
          by (auto simp: ends_by_def split: option.splits)
        with Cons.prems(2) ts have "term_from h \<le> e" by auto
        then show ?thesis using h e by (simp add: ends_by_def)
      qed (simp add: h ends_by_def)
    qed
    with tail show ?case by simp
  qed simp
  show ?thesis
  proof (rule chain)
    show "successively (\<lambda>a b. term_to a = Some (term_from b)) KNESSET_TERMS"
      unfolding KNESSET_TERMS_def mk_term_def term_to_def term_from_def by (simp add: iso_eval)
    show "\<forall>t \<in> set KNESSET_TERMS. \<forall>e. term_to t = Some e \<longrightarrow> term_from t \<le> e"
      unfolding KNESSET_TERMS_def mk_term_def term_to_def term_from_def by (simp add: iso_eval)
  qed
qed

lemma terms_numbered: "map kt_number KNESSET_TERMS = [1..<26]"
  by (simp add: KNESSET_TERMS_def mk_term_def upt_rec)

definition in_term :: "date \<Rightarrow> knesset_term \<Rightarrow> bool" where
  "in_term ref t \<longleftrightarrow> term_from t \<le> ref \<and> ref \<le> (case term_to t of None \<Rightarrow> ref | Some e \<Rightarrow> e)"

lemma current_term_find: "list_all parses ts \<Longrightarrow> current_term ref ts = Inr (find (in_term ref) ts)"
proof (induction ts)
  case (Cons t ts)
  then obtain s where s: "fromisoformat (start_iso t) = Inr s"
    by (cases "fromisoformat (start_iso t)") (auto simp: parses_def)
  show ?case
  proof (cases "end_iso t")
    case None
    with Cons s show ?thesis by (simp add: in_term_def term_from_def term_to_def)
  next
    case (Some x)
    with Cons.prems obtain e where "fromisoformat x = Inr e"
      by (cases "fromisoformat x") (auto simp: parses_def)
    with Cons s Some show ?thesis by (simp add: in_term_def term_from_def term_to_def)
  qed
qed simp

lemma find_in_term:
  assumes "sorted_wrt (\<lambda>a b. ends_by a (term_from b)) ts" "t \<in> set ts"
    "term_from t < ref" "case term_to t of None \<Rightarrow> True | Some e \<Rightarrow> ref \<le> e"
  shows "find (in_term ref) ts = Some t"
  using assms(1,2)
proof (induction ts)
  case (Cons x ts)
  show ?case
  proof (cases "t = x")
    case True
    then show ?thesis using assms(3,4) by (auto simp: in_term_def split: option.splits)
  next
    case False
    with Cons.prems have "ends_by x (term_from t)" "t \<in> set ts" by auto
    then have "\<not> in_term ref x" using assms(3)
      by (auto simp: ends_by_def in_term_def split: option.splits)
    with Cons False show ?thesis by simp
  qed
qed simp

text \<open>
  Whatever day \<open>ref\<close> falls in a Knesset term after its first day, "last term" is the scope
  of the term before it; the fallback to a bare year is never taken then.
\<close>

theorem last_term_previous:
  assumes "t \<in> set KNESSET_TERMS" "1 < kt_number t" "term_from t < ref"
    "case term_to t of None \<Rightarrow> True | Some e \<Rightarrow> ref \<le> e"
  shows "last_term ref = Inr (term_scope (kt_number t - 1))"
  using find_in_term [OF terms_ordered assms(1,3,4)] assms(2)
  by (simp add: last_term_def current_term_find [OF terms_parse])

section \<open>The normalizer never raises\<close>

text \<open>
  What a scope looks like, granularity by granularity. A day scope carries the three numbers
  of the phrase as they are: the code does not check that they form a date.
\<close>

definition scope_ok :: "time_scope \<Rightarrow> bool" where
  "scope_ok ts \<longleftrightarrow>
     (case ts_granularity ts of
        Unknown \<Rightarrow> ts_start ts = None \<and> ts_end ts = None
      | Term \<Rightarrow> (\<exists>n \<in> {1..25}. term_scope n = Some ts)
      | Year \<Rightarrow> (\<exists>y. ts = year_bounds y)
      | Month \<Rightarrow> (\<exists>y \<in> {1900..2099}. \<exists>m \<in> {1..12}. ts = month_of y m)
      | Day \<Rightarrow> (\<exists>y m d. ts = day_scope y m d))"

lemma scope_ok_simps [simp]:
  "scope_ok unknown_scope" "scope_ok (year_bounds y)" "scope_ok (day_scope y m d)"
  by (auto simp: scope_ok_def unknown_scope_def year_bounds_def day_scope_def)

lemma scope_ok_term: "term_scope n = Some ts \<Longrightarrow> scope_ok ts"
proof -
  assume ts: "term_scope n = Some ts"
  then obtain t where t: "t \<in> set KNESSET_TERMS" "kt_number t = n"
    unfolding term_scope_def term_by_number_def find_Some_iff map_option_eq_Some
    by (metis nth_mem)
  then have "n \<in> set (map kt_number KNESSET_TERMS)" by auto
  then have "n \<in> {1..25}" by (simp add: terms_numbered)
  moreover have "ts_granularity ts = Term" using ts by (auto simp: term_scope_def)
  ultimately show "scope_ok ts" using ts by (auto simp: scope_ok_def)
qed

lemma numbered_term_ok: "numbered_term r text = Some ts \<Longrightarrow> scope_ok ts"
  by (auto simp: numbered_term_def scope_ok_term split: option.splits)

lemma bare_year_ok: "scope_ok (bare_year text)"
  by (simp add: bare_year_def split: option.splits)

lemma relative_scope_ok: "\<exists>ts. relative_scope ref text = Inr ts \<and> scope_ok ts"
proof -
  have "\<exists>x. last_term ref = Inr x \<and> pred_option scope_ok x"
    by (auto simp: last_term_def current_term_find [OF terms_parse] pred_option_def
        dest: scope_ok_term split: option.splits)
  then obtain x where "last_term ref = Inr x" "pred_option scope_ok x" by blast
  then show ?thesis
    by (auto simp: relative_scope_def bare_year_ok split: option.splits)
qed

lemma scope_ok_month: "y \<in> {1900..2099} \<Longrightarrow> m \<in> {1..12} \<Longrightarrow> scope_ok (month_of y m)"
proof -
  assume "y \<in> {1900..2099}" "m \<in> {1..12}"
  moreover have "ts_granularity (month_of y m) = Month" by (simp add: month_of_def)
  ultimately show "scope_ok (month_of y m)"
    unfolding scope_ok_def by (simp only: granularity.case) blast
qed

lemma month_scope_ok:
  assumes "m_of HE_MONTH m" shows "\<exists>ts. month_scope m = Inr ts \<and> scope_ok ts"
proof -
  have gs: "groups_of HE_MONTH = {(''m'', ralt (map (rword \<circ> fst) HE_MONTHS)), (''y'', year_re)}"
    by (auto simp: HE_MONTH_def groups_of_rseq groups_of_ralt year_re_def)
  have al: "''m'' \<in> always HE_MONTH" "''y'' \<in> always HE_MONTH"
    by (simp_all add: HE_MONTH_def always_rseq)
  obtain name where name: "group m ''m'' = Some name" using m_of_group_always [OF assms al(1)] by auto
  obtain y where y: "group m ''y'' = Some y" using m_of_group_always [OF assms al(2)] by auto
  have "accepts year_re y" using m_of_group [OF assms y] gs by auto
  then have yr: "int_group m ''y'' \<in> {1900..2099}"
    using accepts_year_re by (simp add: int_group_def y)
  have "accepts (ralt (map (rword \<circ> fst) HE_MONTHS)) name" using m_of_group [OF assms name] gs by auto
  then have "name \<in> set (map fst HE_MONTHS)"
    by (auto simp: accepts_ralt list_ex_iff)
  then obtain k where k: "dget HE_MONTHS name = Some k"
    by (metis dget_def map_of_eq_None_iff not_Some_eq list.set_map)
  moreover have "\<forall>(n, j) \<in> set HE_MONTHS. j \<in> {1..12}" by (simp add: HE_MONTHS_def)
  ultimately have "k \<in> {1..12}" by (auto simp: dget_def dest!: map_of_SomeD)
  with yr have "month_bounds (int_group m ''y'') k = Inr (month_of (int_group m ''y'') k)"
    "scope_ok (month_of (int_group m ''y'') k)"
    by (auto simp: month_bounds_month_of intro: scope_ok_month)
  then show ?thesis by (simp add: month_scope_def name k)
qed

lemma normalize_time_scope_ok:
  "\<exists>ts. normalize_time_scope today phrase ref = Inr ts \<and> scope_ok ts"
proof (cases phrase)
  case None
  then show ?thesis by (simp add: normalize_time_scope_def)
next
  case (Some p)
  show ?thesis
    using Some relative_scope_ok month_scope_ok [OF re_search_m_of] numbered_term_ok
    by (auto simp: normalize_time_scope_def Let_def split: option.splits)
qed

text \<open>
  Claim C8. \<open>normalize_time_scope\<close> never raises, whatever the phrase and the reference date, and its
  result is always one of the five shapes: no bounds for an unknown phrase, the table's dates
  for a term, 1 January to 31 December for a year, first to last day for a month.
\<close>

theorem normalize_time_scope_total:
  "\<exists>ts. normalize_time_scope today phrase ref = Inr ts \<and> scope_ok ts"
  by (rule normalize_time_scope_ok)

lemma fromisoformat_valid: "fromisoformat s = Inr d \<Longrightarrow> valid_date d"
  by (auto simp: fromisoformat_def mk_date_def split: if_splits)

text \<open>
  \<open>extract_utterance_time\<close> never raises either, and the date it reports is a calendar date:
  an ISO literal that is not a date is passed over in favour of a bare year.
\<close>

theorem extract_utterance_time_total:
  "\<exists>d. extract_utterance_time text = Inr d \<and> pred_option valid_date d"
proof -
  have year: "\<exists>d. utterance_year s = Inr d \<and> pred_option valid_date d" for s
  proof (cases "re_search YEAR_ANYWHERE s")
    case None
    then show ?thesis by (simp add: utterance_year_def)
  next
    case (Some m)
    note m = re_search_m_of [OF this]
    have gs: "groups_of YEAR_ANYWHERE = {(''1'', year_re)}" "''1'' \<in> always YEAR_ANYWHERE"
      by (auto simp: YEAR_ANYWHERE_def groups_of_rseq groups_of_ralt always_rseq year_re_def)
    then obtain y where y: "group m ''1'' = Some y" using m_of_group_always [OF m] by auto
    then have "accepts year_re y" using m_of_group [OF m y] gs by auto
    then have "1900 \<le> nat_of_digits y \<and> nat_of_digits y \<le> 2099" by (rule accepts_year_re)
    then show ?thesis
      using Some by (auto simp: utterance_year_def mk_date_def int_group_def y days_in_month_def)
  qed
  show ?thesis
    using year by (auto simp: extract_utterance_time_def Let_def dest: fromisoformat_valid
        split: option.splits sum.splits)
qed

text \<open>An ISO-shaped phrase is not validated: month 13 and day 45 give a day scope.\<close>

lemma iso_phrase_unvalidated:
  "normalize_time_scope today (Some (lit ''2024-13-45'')) None =
     Inr \<lparr>ts_start = Some (lit ''2024-13-45T00:00:00+00:00''),
          ts_end = Some (lit ''2024-13-45T23:59:59+00:00''), ts_granularity = Day\<rparr>"
proof -
  have strip: "py_strip (lit ''2024-13-45'') = lit ''2024-13-45''"
    by (simp add: py_strip_def py_lstrip_def py_rstrip_def lit_def is_space_def)
  have m: "re_match ISO_DATE (lit ''2024-13-45'') =
      Some \<lparr>m_start = 0, m_end = 10, m_text = lit ''2024-13-45'',
        m_groups = [(''d'', lit ''45''), (''m'', lit ''13''), (''y'', lit ''2024'')]\<rparr>"
    by (simp add: re_match_def ISO_DATE_def rword_def lit_def in_set_def is_digit_def mk_match_def
        eval_nat_numeral)
  show ?thesis
    by (simp add: normalize_time_scope_def strip m day_scope_def int_group_def group_def)
      (simp add: iso_date_def pad0_def digits_of_nat.simps nat_of_digits_def digit_val_def day_start_def
        day_end_def lit_def)
qed

end
