(* ===== verification/Checkability.thy ===== *)
theory Checkability
  imports Decomposer Temporal
begin

text \<open>
  \<open>checkability.py\<close>, \<open>claim_family_classifier.py\<close>, \<open>declaration_checkability.py\<close> and
  \<open>declaration_decomposer.py\<close> of \<open>civic_claim_decomp\<close>: whether one claim can be checked,
  what family an utterance belongs to, how the claims of an utterance add up, and the
  wrapper that turns every utterance into a \<open>Declaration\<close>.
\<close>

section \<open>Per-claim checkability\<close>

datatype checkability =
    Checkable
  | NonCheckable
  | InsufficientTimeScope
  | InsufficientEntityResolution

datatype resolver_status = Resolved | Ambiguous | Unresolved | NotApplicable

definition TIME_REQUIRED_CLAIM_TYPES :: "pystr list" where
  "TIME_REQUIRED_CLAIM_TYPES = map lit [''vote_cast'', ''committee_attendance'']"

record checkability_inputs =
  ci_claim_type :: pystr
  ci_slots :: "pyval dict"
  ci_slot_resolver_status :: "resolver_status dict"
  ci_time_granularity :: granularity

definition slot_status :: "checkability_inputs \<Rightarrow> pystr \<Rightarrow> resolver_status" where
  "slot_status inputs slot =
     (case dget (ci_slot_resolver_status inputs) slot of None \<Rightarrow> NotApplicable | Some s \<Rightarrow> s)"

definition classify :: "checkability_inputs \<Rightarrow> checkability" where
  "classify inputs =
     (case dget SLOT_TEMPLATES (ci_claim_type inputs) of
        None \<Rightarrow> NonCheckable
      | Some tmpl \<Rightarrow>
          if validate_slots (ci_claim_type inputs) (ci_slots inputs) \<noteq> []
          then InsufficientEntityResolution
          else if list_ex (\<lambda>slot. slot_status inputs slot \<notin> {Resolved, NotApplicable})
                 (required tmpl)
          then InsufficientEntityResolution
          else if ci_claim_type inputs \<in> set TIME_REQUIRED_CLAIM_TYPES \<and>
                 ci_time_granularity inputs = Unknown
          then InsufficientTimeScope
          else Checkable)"

text \<open>
  A claim is checkable exactly when the slot validator accepts it, no required slot is
  ambiguous or unresolved, and a vote or an attendance has a known time scope.
\<close>

lemma classify_checkable_iff:
  "classify inputs = Checkable \<longleftrightarrow>
     (\<exists>tmpl. dget SLOT_TEMPLATES (ci_claim_type inputs) = Some tmpl \<and>
        validate_slots (ci_claim_type inputs) (ci_slots inputs) = [] \<and>
        slot_status inputs ` set (required tmpl) \<subseteq> {Resolved, NotApplicable} \<and>
        \<not> (ci_claim_type inputs \<in> set TIME_REQUIRED_CLAIM_TYPES \<and>
           ci_time_granularity inputs = Unknown))"
  by (auto simp: classify_def list_ex_iff split: option.splits)

section \<open>Claim families\<close>

datatype claim_family =
    FormalAction
  | PositionClaim
  | ElectoralClaim
  | PolicyClaim
  | Rhetorical
  | UnknownFamily

definition FORMAL_ACTION_CLAIM_TYPES :: "pystr list" where
  "FORMAL_ACTION_CLAIM_TYPES =
     map lit [''vote_cast'', ''bill_sponsorship'', ''committee_attendance'']"

definition POSITION_CLAIM_TYPES :: "pystr list" where
  "POSITION_CLAIM_TYPES = map lit [''office_held'', ''committee_membership'']"

definition ELECTORAL_CLAIM_TYPES :: "pystr list" where
  "ELECTORAL_CLAIM_TYPES = map lit [''election_result'']"

definition classify_from_types :: "pystr list \<Rightarrow> claim_family" where
  "classify_from_types claim_types =
     (if claim_types = [] then UnknownFamily
      else if set claim_types \<inter> set FORMAL_ACTION_CLAIM_TYPES \<noteq> {} then FormalAction
      else if set claim_types \<inter> set POSITION_CLAIM_TYPES \<noteq> {} then PositionClaim
      else if set claim_types \<inter> set ELECTORAL_CLAIM_TYPES \<noteq> {} then ElectoralClaim
      else UnknownFamily)"

definition classify_family :: "decomposition_result \<Rightarrow> claim_family" where
  "classify_family result = classify_from_types (map dc_claim_type (dr_claims result))"

section \<open>Declaration checkability\<close>

datatype declaration_checkability =
    CheckableFormalAction
  | PartiallyCheckable
  | NotCheckable
  | DeclInsufficientTimeScope
  | DeclInsufficientEntityResolution

definition classify_declaration_checkability ::
    "checkability list \<Rightarrow> declaration_checkability" where
  "classify_declaration_checkability cs =
     (if cs = [] then NotCheckable
      else if count_list cs Checkable > 0 then CheckableFormalAction
      else
        (let non_checkable = count_list cs NonCheckable;
             insuf_time = count_list cs InsufficientTimeScope;
             insuf_entity = count_list cs InsufficientEntityResolution;
             total = length cs
         in if insuf_time = total then DeclInsufficientTimeScope
            else if insuf_entity = total then DeclInsufficientEntityResolution
            else if non_checkable = total then NotCheckable
            else if insuf_time > 0 \<or> insuf_entity > 0 then PartiallyCheckable
            else NotCheckable))"

lemma count_list_all: "count_list xs x = length xs \<longleftrightarrow> set xs \<subseteq> {x}"
proof (induction xs)
  case (Cons y xs)
  have "count_list xs x \<le> length xs" by (rule count_le_length)
  with Cons show ?case by auto
qed simp

lemma count_list_pos: "count_list xs x > 0 \<longleftrightarrow> x \<in> set xs"
  by (metis count_list_0_iff gr0I less_numeral_extra(3))

lemma all_checkability:
  "(\<forall>x. P x) \<longleftrightarrow> P Checkable \<and> P NonCheckable \<and> P InsufficientTimeScope \<and>
     P InsufficientEntityResolution"
  by (metis checkability.exhaust)

lemma declaration_table:
  "classify_declaration_checkability cs =
     (if Checkable \<in> set cs then CheckableFormalAction
      else if set cs = {InsufficientTimeScope} then DeclInsufficientTimeScope
      else if set cs = {InsufficientEntityResolution} then DeclInsufficientEntityResolution
      else if set cs \<subseteq> {NonCheckable} then NotCheckable
      else PartiallyCheckable)"
proof (cases "cs = []")
  case True
  then show ?thesis by (simp add: classify_declaration_checkability_def)
next
  case False
  then have ne: "set cs \<noteq> {}" by simp
  have single: "set cs = {x} \<longleftrightarrow> set cs \<subseteq> {x}" for x
    using ne by (metis order_refl subset_singletonD)
  have some: "\<not> (Checkable \<notin> set cs \<and> NonCheckable \<notin> set cs \<and> InsufficientTimeScope \<notin> set cs \<and>
      InsufficientEntityResolution \<notin> set cs)"
    using ne all_checkability [of "\<lambda>x. x \<notin> set cs"] by (metis all_not_in_conv)
  show ?thesis
    unfolding classify_declaration_checkability_def Let_def count_list_all count_list_pos single
    using False some by (simp add: subset_iff all_checkability)
qed

text \<open>
  The decision table of the module, read off the set of per-claim results: any checkable
  claim wins, a single kind of failure is reported as such, a mixture is partially checkable,
  and an empty list is not checkable.
\<close>

theorem declaration_checkability_table:
  "classify_declaration_checkability cs =
     (if Checkable \<in> set cs then CheckableFormalAction
      else if set cs = {InsufficientTimeScope} then DeclInsufficientTimeScope
      else if set cs = {InsufficientEntityResolution} then DeclInsufficientEntityResolution
      else if set cs \<subseteq> {NonCheckable} then NotCheckable
      else PartiallyCheckable)"
  by (rule declaration_table)

section \<open>\<open>DeclarationDecomposer\<close>\<close>

text \<open>The caller's timestamp is opaque; one read off the text is midnight UTC of a date.\<close>

datatype utterance_time = GivenTime pystr | MidnightUTC date

record declared =
  dl_declaration_id :: pystr
  dl_speaker_person_id :: "pystr option"
  dl_utterance_text :: pystr
  dl_utterance_language :: language
  dl_utterance_time :: "utterance_time option"
  dl_source_document_id :: pystr
  dl_source_kind :: pystr
  dl_quoted_span :: "pystr option"
  dl_canonicalized_text :: "pystr option"
  dl_claim_family :: claim_family
  dl_checkability :: declaration_checkability
  dl_derived_atomic_claim_ids :: "pystr list"
  dl_created_at :: pystr

record declaration_result =
  ddr_declaration :: declared
  ddr_claims :: "decomposed_claim list"
  ddr_decomposition :: decomposition_result
  ddr_family :: claim_family
  ddr_checkability :: declaration_checkability

definition time_granularity :: "date \<Rightarrow> pyval \<Rightarrow> pyerr + granularity" where
  "time_granularity today time_phrase =
     (if \<not> truthy time_phrase then Inr Unknown
      else
        (case time_phrase of
           PStr p \<Rightarrow> map_sum id ts_granularity (extract_time_scope today (Some p))
         | _ \<Rightarrow> Inl AttributeError))"

fun offline_checkabilities ::
    "date \<Rightarrow> decomposed_claim list \<Rightarrow> pyerr + checkability list" where
  "offline_checkabilities today [] = Inr []"
| "offline_checkabilities today (c # cs) =
     (case time_granularity today (dc_time_phrase c) of
        Inl e \<Rightarrow> Inl e
      | Inr g \<Rightarrow>
          (case offline_checkabilities today cs of
             Inl e \<Rightarrow> Inl e
           | Inr rest \<Rightarrow>
               Inr (classify \<lparr>ci_claim_type = dc_claim_type c, ci_slots = dc_slots c,
                             ci_slot_resolver_status = [], ci_time_granularity = g\<rparr> # rest)))"

text \<open>What the caller passes besides the text.\<close>

record utterance_meta =
  um_source_document_id :: pystr
  um_source_kind :: pystr
  um_speaker_person_id :: "pystr option"
  um_utterance_time :: "utterance_time option"
  um_quoted_span :: "pystr option"
  um_canonicalized_text :: "pystr option"

definition declaration_decompose ::
    "(nat \<Rightarrow> pystr) \<Rightarrow> nat \<Rightarrow> date \<Rightarrow> pystr \<Rightarrow> llm_provider option \<Rightarrow> pystr \<Rightarrow> language \<Rightarrow>
     utterance_meta \<Rightarrow> pyerr + nat \<times> declaration_result" where
  "declaration_decompose uuid4 n today now llm text lang meta =
     (case decompose uuid4 n (py_strip text) lang llm of
        Inl e \<Rightarrow> Inl e
      | Inr (n1, decomp) \<Rightarrow>
          (case offline_checkabilities today (dr_claims decomp) of
             Inl e \<Rightarrow> Inl e
           | Inr checks \<Rightarrow>
               (let family = classify_family decomp;
                    check = classify_declaration_checkability checks
                in
                (case (case um_utterance_time meta of
                         Some t \<Rightarrow> Inr (Some t)
                       | None \<Rightarrow> map_sum id (map_option MidnightUTC) (extract_utterance_time text)) of
                   Inl e \<Rightarrow> Inl e
                 | Inr resolved_time \<Rightarrow>
                     Inr (Suc n1,
                       \<lparr>ddr_declaration =
                          \<lparr>dl_declaration_id = uuid4 n1,
                           dl_speaker_person_id = um_speaker_person_id meta,
                           dl_utterance_text = text, dl_utterance_language = lang,
                           dl_utterance_time = resolved_time,
                           dl_source_document_id = um_source_document_id meta,
                           dl_source_kind = um_source_kind meta,
                           dl_quoted_span = um_quoted_span meta,
                           dl_canonicalized_text = um_canonicalized_text meta,
                           dl_claim_family = family, dl_checkability = check,
                           dl_derived_atomic_claim_ids = map dc_claim_id (dr_claims decomp),
                           dl_created_at = now\<rparr>,
                        ddr_claims = dr_claims decomp, ddr_decomposition = decomp,
                        ddr_family = family, ddr_checkability = check\<rparr>)))))"

section \<open>Offline checkability of an utterance\<close>

lemma py_strip_idem: "py_strip (py_strip s) = py_strip s"
proof -
  have drop: "dropWhile P (dropWhile P xs) = dropWhile P xs" for P and xs :: "nat list"
    by (induction xs) auto
  have hd_rstrip: "dropWhile is_space (py_rstrip t) = py_rstrip t"
    if "dropWhile is_space t = t" for t
  proof (cases "py_rstrip t")
    case (Cons c r)
    obtain b where "t = py_rstrip t @ b"
      unfolding py_rstrip_def by (metis rev_append rev_rev_ident takeWhile_dropWhile_id)
    with Cons have "t = c # (r @ b)" by simp
    with that have "\<not> is_space c"
      by (metis dropWhile.simps(2) hd_dropWhile list.sel(1) list.simps(3))
    with Cons show ?thesis by simp
  qed simp
  have "py_lstrip (py_rstrip (py_lstrip s)) = py_rstrip (py_lstrip s)"
    using hd_rstrip [of "py_lstrip s"] drop by (simp add: py_lstrip_def)
  moreover have "py_rstrip (py_rstrip t) = py_rstrip t" for t
    by (simp add: py_rstrip_def drop)
  ultimately show ?thesis by (simp add: py_strip_def)
qed

lemma classify_valid_offline:
  assumes "validate_slots (dc_claim_type c) (dc_slots c) = []"
  shows "classify \<lparr>ci_claim_type = dc_claim_type c, ci_slots = dc_slots c,
      ci_slot_resolver_status = [], ci_time_granularity = g\<rparr> =
    (if dc_claim_type c \<in> set TIME_REQUIRED_CLAIM_TYPES \<and> g = Unknown
     then InsufficientTimeScope else Checkable)"
proof -
  obtain tmpl where "dget SLOT_TEMPLATES (dc_claim_type c) = Some tmpl"
    using assms by (auto simp: validate_slots_Nil_iff)
  with assms show ?thesis by (auto simp: classify_def slot_status_def list_ex_iff)
qed

lemma offline_checkabilities_valid:
  assumes "offline_checkabilities today claims = Inr checks"
    "list_all (\<lambda>c. validate_slots (dc_claim_type c) (dc_slots c) = []) claims"
  shows "set checks \<subseteq> {Checkable, InsufficientTimeScope} \<and> length checks = length claims"
  using assms
proof (induction claims arbitrary: checks)
  case (Cons c cs)
  then obtain g rest where "time_granularity today (dc_time_phrase c) = Inr g"
    "offline_checkabilities today cs = Inr rest"
    "checks = classify \<lparr>ci_claim_type = dc_claim_type c, ci_slots = dc_slots c,
       ci_slot_resolver_status = [], ci_time_granularity = g\<rparr> # rest"
    by (auto split: sum.splits)
  with Cons classify_valid_offline [of c g] show ?case by auto
qed simp

lemma declaration_decompose_elim:
  assumes "declaration_decompose uuid4 n today now llm text lang meta = Inr (n', r)"
  obtains n1 checks where
    "decompose uuid4 n (py_strip text) lang llm = Inr (n1, ddr_decomposition r)"
    "offline_checkabilities today (ddr_claims r) = Inr checks"
    "ddr_claims r = dr_claims (ddr_decomposition r)" "n' = Suc n1"
    "ddr_checkability r = classify_declaration_checkability checks"
    "dl_checkability (ddr_declaration r) = ddr_checkability r"
    "dl_claim_family (ddr_declaration r) = classify_family (ddr_decomposition r)"
    "dl_derived_atomic_claim_ids (ddr_declaration r) = map dc_claim_id (ddr_claims r)"
    "dl_utterance_text (ddr_declaration r) = text"
  using assms unfolding declaration_decompose_def Let_def
  by (auto split: sum.splits prod.splits)

text \<open>
  The declaration of an utterance is never partially checkable and never fails on entity
  resolution: without a resolver it is not checkable exactly when no claim was derived, and
  otherwise it is checkable or lacks a time scope. It lists the derived claims in order and
  keeps the utterance text unchanged.
\<close>

theorem declaration_offline_checkability:
  assumes "declaration_decompose uuid4 n today now llm text lang meta = Inr (n', r)"
  shows "dl_checkability (ddr_declaration r) \<in>
      {CheckableFormalAction, DeclInsufficientTimeScope, NotCheckable} \<and>
    (dl_checkability (ddr_declaration r) = NotCheckable \<longleftrightarrow> ddr_claims r = []) \<and>
    dl_derived_atomic_claim_ids (ddr_declaration r) = map dc_claim_id (ddr_claims r) \<and>
    dl_utterance_text (ddr_declaration r) = text"
proof -
  obtain n1 checks where d: "decompose uuid4 n (py_strip text) lang llm = Inr (n1, ddr_decomposition r)"
    "offline_checkabilities today (ddr_claims r) = Inr checks"
    "ddr_claims r = dr_claims (ddr_decomposition r)"
    "ddr_checkability r = classify_declaration_checkability checks"
    "dl_checkability (ddr_declaration r) = ddr_checkability r"
    "dl_derived_atomic_claim_ids (ddr_declaration r) = map dc_claim_id (ddr_claims r)"
    "dl_utterance_text (ddr_declaration r) = text"
    by (rule declaration_decompose_elim [OF assms])
  have "list_all (\<lambda>c. validate_slots (dc_claim_type c) (dc_slots c) = []) (ddr_claims r)"
    using decompose_claims_ok [OF d(1)] d(3) by (simp add: list_all_iff claim_valid_def)
  from offline_checkabilities_valid [OF d(2) this]
  have sub: "set checks \<subseteq> {Checkable, InsufficientTimeScope}"
    and ne: "set checks = {} \<longleftrightarrow> ddr_claims r = []" by (auto simp flip: length_0_conv)
  have res: "dl_checkability (ddr_declaration r) = classify_declaration_checkability checks"
    by (simp add: d(4,5))
  from sub consider "set checks = {}" | "Checkable \<in> set checks"
    | "set checks = {InsufficientTimeScope}"
    by (metis subset_insert subset_singletonD)
  then show ?thesis
  proof cases
    case 1
    with ne res d(6,7) show ?thesis by (simp add: declaration_table)
  next
    case 2
    with ne res d(6,7) show ?thesis by (auto simp: declaration_table)
  next
    case 3
    with ne res d(6,7) show ?thesis by (auto simp: declaration_table)
  qed
qed

definition sample_meta :: utterance_meta where
  "sample_meta =
     \<lparr>um_source_document_id = lit ''doc'', um_source_kind = lit ''other'',
      um_speaker_person_id = None, um_utterance_time = Some (GivenTime (lit ''2024'')),
      um_quoted_span = None, um_canonicalized_text = None\<rparr>"

lemma declaration_sample:
  "\<exists>r. declaration_decompose (\<lambda>i. [i]) 0 (2024, 1, 1) [] (Some sample_provider) (lit ''x'') EN
      sample_meta = Inr (2, r) \<and> ddr_claims r = [sample_claim]"
  by (simp add: declaration_decompose_def Let_def strip_x decompose_sample sample_claim_def
      time_granularity_def sample_meta_def)

end
