(* ===== verification/Persistence.thy ===== *)
theory Persistence
  imports Checkability
begin

text \<open>
  \<open>persistence.py\<close> of \<open>civic_claim_decomp\<close> over the tables of migration
  \<open>infra/migrations/versions/0006_statements.py\<close>: the \<open>CHECK\<close> constraints, the unique keys
  and \<open>ON CONFLICT DO NOTHING\<close>. PostgreSQL evaluates the check constraints of a row before it
  looks for a conflict; a violated one raises, and the caller's transaction rolls back. A
  \<open>jsonb\<close> column holds the value it is given.
\<close>

record statement_row =
  sr_statement_id :: pystr
  sr_raw_text :: pystr
  sr_language :: pystr
  sr_speaker_hint :: "pystr option"
  sr_source_url :: "pystr option"
  sr_source_family :: "pystr option"
  sr_metadata :: "pyval dict"

record statement_claim_row =
  scr_statement_id :: pystr
  scr_claim_id :: pystr
  scr_claim_type :: pystr
  scr_checkability :: pystr
  scr_method :: pystr
  scr_slots :: "pyval dict"
  scr_time_scope :: "pyval dict"

record statement_db =
  statements :: "statement_row list"
  statement_claims :: "statement_claim_row list"

definition statements_check :: "statement_row \<Rightarrow> bool" where
  "statements_check r \<longleftrightarrow> sr_language r \<in> {lit ''he'', lit ''en''}"

definition statement_claims_check :: "statement_claim_row \<Rightarrow> bool" where
  "statement_claims_check r \<longleftrightarrow>
     scr_claim_type r \<in> set (map lit
       [''vote_cast'', ''bill_sponsorship'', ''office_held'', ''committee_membership'',
        ''committee_attendance'', ''statement_about_formal_action'']) \<and>
     scr_checkability r \<in> set (map lit
       [''checkable'', ''non_checkable'', ''insufficient_time_scope'',
        ''insufficient_entity_resolution'']) \<and>
     scr_method r \<in> set (map lit [''rules'', ''llm'', ''rules+llm''])"

text \<open>\<open>INSERT ... ON CONFLICT (key) DO NOTHING\<close>.\<close>

definition insert_absent :: "('r \<Rightarrow> 'k) \<Rightarrow> 'r \<Rightarrow> 'r list \<Rightarrow> 'r list" where
  "insert_absent key r rows = (if key r \<in> key ` set rows then rows else rows @ [r])"

definition insert_statement :: "statement_row \<Rightarrow> statement_db \<Rightarrow> pyerr + statement_db" where
  "insert_statement r db =
     (if \<not> statements_check r then Inl DatabaseError
      else Inr (db\<lparr>statements := insert_absent sr_statement_id r (statements db)\<rparr>))"

definition claim_key :: "statement_claim_row \<Rightarrow> pystr \<times> pystr" where
  "claim_key r = (scr_statement_id r, scr_claim_id r)"

definition insert_claim :: "statement_claim_row \<Rightarrow> statement_db \<Rightarrow> pyerr + statement_db" where
  "insert_claim r db =
     (if \<not> statement_claims_check r then Inl DatabaseError
      else Inr (db\<lparr>statement_claims := insert_absent claim_key r (statement_claims db)\<rparr>))"

fun method_name :: "claim_method \<Rightarrow> pystr" where
  "method_name Rules = lit ''rules''"
| "method_name Llm = lit ''llm''"

definition claim_row ::
    "pystr \<Rightarrow> pystr dict \<Rightarrow> pyval dict dict \<Rightarrow> decomposed_claim \<Rightarrow> statement_claim_row" where
  "claim_row sid checks scopes c =
     \<lparr>scr_statement_id = sid, scr_claim_id = dc_claim_id c, scr_claim_type = dc_claim_type c,
      scr_checkability =
        (case dget checks (dc_claim_id c) of None \<Rightarrow> lit ''non_checkable'' | Some s \<Rightarrow> s),
      scr_method = method_name (dc_method c), scr_slots = dc_slots c,
      scr_time_scope = (case dget scopes (dc_claim_id c) of None \<Rightarrow> [] | Some s \<Rightarrow> s)\<rparr>"

fun insert_claims ::
    "statement_claim_row list \<Rightarrow> nat \<Rightarrow> statement_db \<Rightarrow> pyerr + statement_db \<times> nat" where
  "insert_claims [] n db = Inr (db, n)"
| "insert_claims (r # rs) n db =
     (case insert_claim r db of Inl e \<Rightarrow> Inl e | Inr db' \<Rightarrow> insert_claims rs (Suc n) db')"

text \<open>The result is the database and the \<open>claims_persisted\<close> of the summary.\<close>

definition persist_statement ::
    "statement_db \<Rightarrow> statement_row \<Rightarrow> decomposed_claim list \<Rightarrow> pystr dict \<Rightarrow> pyval dict dict \<Rightarrow>
     pyerr + statement_db \<times> nat" where
  "persist_statement db statement claims checkability_by_claim time_scope_by_claim =
     (case insert_statement statement db of
        Inl e \<Rightarrow> Inl e
      | Inr db1 \<Rightarrow>
          insert_claims
            (map (claim_row (sr_statement_id statement) checkability_by_claim time_scope_by_claim)
              claims) 0 db1)"

section \<open>Idempotence and retrieval\<close>

lemma insert_absent_key: "key r \<in> key ` set (insert_absent key r rows)"
  by (simp add: insert_absent_def)

lemma insert_absent_mono: "set rows \<subseteq> set (insert_absent key r rows)"
  by (auto simp: insert_absent_def)

lemma insert_absent_present: "key r \<in> key ` set rows \<Longrightarrow> insert_absent key r rows = rows"
  by (simp add: insert_absent_def)

lemma insert_claims_spec:
  "insert_claims rs n db = Inr (db', k) \<Longrightarrow>
     k = n + length rs \<and> statements db' = statements db \<and> list_all statement_claims_check rs \<and>
     claim_key ` set rs \<union> claim_key ` set (statement_claims db) \<subseteq> claim_key ` set (statement_claims db') \<and>
     set (statement_claims db) \<subseteq> set (statement_claims db')"
proof (induction rs arbitrary: n db)
  case (Cons r rs)
  then obtain db1 where db1: "insert_claim r db = Inr db1" "insert_claims rs (Suc n) db1 = Inr (db', k)"
    by (auto split: sum.splits)
  then have ins: "statement_claims_check r" "statements db1 = statements db"
    "statement_claims db1 = insert_absent claim_key r (statement_claims db)"
    by (auto simp: insert_claim_def split: if_splits)
  from Cons.IH [OF db1(2)] ins insert_absent_key [of claim_key r "statement_claims db"]
    insert_absent_mono [of "statement_claims db" claim_key r]
  show ?case by auto
qed simp

lemma insert_claims_again:
  "list_all statement_claims_check rs \<Longrightarrow>
     claim_key ` set rs \<subseteq> claim_key ` set (statement_claims db) \<Longrightarrow>
     insert_claims rs n db = Inr (db, n + length rs)"
  by (induction rs arbitrary: n) (simp_all add: insert_claim_def insert_absent_present)

text \<open>
  Claim C9. Persisting a statement is idempotent: after a successful call, the same call succeeds
  again with the same count and changes nothing; the count is the number of claims, every
  claim has a row under its key, and no earlier row is lost.
\<close>

theorem persist_statement_idempotent:
  assumes "persist_statement db st claims checks scopes = Inr (db', k)"
  shows "persist_statement db' st claims checks scopes = Inr (db', k) \<and> k = length claims \<and>
    (\<lambda>c. (sr_statement_id st, dc_claim_id c)) ` set claims \<subseteq> claim_key ` set (statement_claims db') \<and>
    set (statements db) \<subseteq> set (statements db') \<and>
    set (statement_claims db) \<subseteq> set (statement_claims db')"
proof -
  let ?rows = "map (claim_row (sr_statement_id st) checks scopes) claims"
  obtain db1 where db1: "insert_statement st db = Inr db1" "insert_claims ?rows 0 db1 = Inr (db', k)"
    using assms by (auto simp: persist_statement_def split: sum.splits)
  then have st: "statements_check st" "statement_claims db1 = statement_claims db"
    "statements db1 = insert_absent sr_statement_id st (statements db)"
    by (auto simp: insert_statement_def split: if_splits)
  have spec: "k = length claims" "statements db' = statements db1"
    "list_all statement_claims_check ?rows"
    "claim_key ` set ?rows \<union> claim_key ` set (statement_claims db1) \<subseteq> claim_key ` set (statement_claims db')"
    "set (statement_claims db1) \<subseteq> set (statement_claims db')"
    using insert_claims_spec [OF db1(2)] by auto
  have "sr_statement_id st \<in> sr_statement_id ` set (statements db')"
    using insert_absent_key [of sr_statement_id st "statements db"] st spec by simp
  then have "insert_statement st db' = Inr db'"
    using st by (simp add: insert_statement_def insert_absent_present)
  moreover have "insert_claims ?rows 0 db' = Inr (db', k)"
    using insert_claims_again [OF spec(3), of db' 0] spec(1,4) by simp
  moreover have "set (statements db) \<subseteq> set (statements db')"
    using insert_absent_mono [of "statements db" sr_statement_id st] st spec by simp
  moreover have "(\<lambda>c. (sr_statement_id st, dc_claim_id c)) ` set claims = claim_key ` set ?rows"
    by (auto simp: claim_key_def claim_row_def image_iff)
  ultimately show ?thesis using spec st by (auto simp: persist_statement_def)
qed

definition sample_statement :: statement_row where
  "sample_statement =
     \<lparr>sr_statement_id = lit ''s1'', sr_raw_text = lit ''x'', sr_language = lit ''en'',
      sr_speaker_hint = None, sr_source_url = None, sr_source_family = None, sr_metadata = []\<rparr>"

lemma persist_sample:
  "persist_statement \<lparr>statements = [], statement_claims = []\<rparr> sample_statement [sample_claim] [] [] =
     Inr (\<lparr>statements = [sample_statement],
           statement_claims = [claim_row (lit ''s1'') [] [] sample_claim]\<rparr>, 1)"
  by (simp add: persist_statement_def insert_statement_def statements_check_def insert_absent_def
      insert_claim_def statement_claims_check_def claim_row_def sample_claim_def
      sample_statement_def)

lemma persist_statement_idempotent_witness:
  "let db' = \<lparr>statements = [sample_statement],
              statement_claims = [claim_row (lit ''s1'') [] [] sample_claim]\<rparr> in
     persist_statement db' sample_statement [sample_claim] [] [] = Inr (db', 1)"
  using persist_statement_idempotent [OF persist_sample] by simp

section \<open>The table rejects two of the eight claim types\<close>

lemma insert_claims_fails:
  "\<not> list_all statement_claims_check rs \<Longrightarrow> insert_claims rs n db = Inl DatabaseError"
  by (induction rs arbitrary: n db) (auto simp: insert_claim_def)

text \<open>
  A statement with an election result or a government decision among its claims is never
  persisted: the check constraint of \<open>statement_claims\<close> lists six claim types, while the
  decomposer emits claims of all eight.
\<close>

theorem persist_rejects_electoral_claims:
  assumes "c \<in> set claims" "dc_claim_type c \<in> {lit ''election_result'', lit ''government_decision''}"
  shows "persist_statement db st claims checks scopes = Inl DatabaseError"
proof -
  have "\<not> statement_claims_check (claim_row (sr_statement_id st) checks scopes c)"
    using assms(2) by (auto simp: statement_claims_check_def claim_row_def)
  then have "\<not> list_all statement_claims_check (map (claim_row (sr_statement_id st) checks scopes) claims)"
    using assms(1) by (auto simp: list_all_iff)
  then show ?thesis
    by (auto simp: persist_statement_def insert_claims_fails insert_statement_def split: sum.splits)
qed

end
