(* ===== verification/Job_Queue.thy ===== *)
theory Job_Queue
  imports Py_Prelude "HOL-Library.Product_Lexorder"
begin

text \<open>
  The Postgres job queue (\<open>services/ingestion/_common/src/civic_ingest/queue.py\<close> over the table
  of migration 0003), the handler registry (\<open>handlers.py\<close>) and the worker tick
  (\<open>apps/worker/src/worker/main.py\<close>), then the system of many workers as a step relation.

  The table is a list of rows in insertion order; time is in microseconds. \<open>FOR UPDATE SKIP
  LOCKED\<close> is the set of row ids other transactions hold. \<open>ORDER BY priority, run_after\<close> leaves
  the order of equal rows open; the model takes the first in the table.
\<close>

section \<open>The table\<close>

datatype job_status = Queued | Running | Done | Failed | DeadLetter

record job_row =
  j_id :: nat
  j_job_id :: pystr
  j_kind :: pystr
  j_payload :: pyval
  j_status :: job_status
  j_priority :: int
  j_attempts :: int
  j_last_error :: "pystr option"
  j_run_after :: int
  j_ingest_run_id :: "pystr option"
  j_updated_at :: int

record job =
  jb_id :: nat
  jb_job_id :: pystr
  jb_kind :: pystr
  jb_payload :: pyval
  jb_priority :: int
  jb_attempts :: int
  jb_run_after :: int
  jb_ingest_run_id :: "pystr option"

type_synonym jobs = "job_row list"

definition jobs_kind_check :: "pystr \<Rightarrow> bool" where
  "jobs_kind_check k \<longleftrightarrow> k \<in> {lit ''fetch'', lit ''parse'', lit ''normalize'', lit ''upsert''}"

definition smallint :: "int \<Rightarrow> bool" where
  "smallint i \<longleftrightarrow> - 32768 \<le> i \<and> i \<le> 32767"

definition enqueue ::
    "pystr \<Rightarrow> int \<Rightarrow> pystr \<Rightarrow> pyval \<Rightarrow> int \<Rightarrow> int option \<Rightarrow> pystr option \<Rightarrow> jobs \<Rightarrow> jobs \<times> (pyerr + pystr)"
where
  "enqueue uid now kind payload priority run_after ingest_run_id db =
     (if \<not> jobs_kind_check kind \<or> \<not> smallint priority \<or> uid \<in> j_job_id ` set db
      then (db, Inl DatabaseError)
      else
        (db @ [\<lparr>j_id = Suc (length db), j_job_id = uid, j_kind = kind, j_payload = payload,
           j_status = Queued, j_priority = priority, j_attempts = 0, j_last_error = None,
           j_run_after = (case run_after of None \<Rightarrow> now | Some t \<Rightarrow> t),
           j_ingest_run_id = ingest_run_id, j_updated_at = now\<rparr>],
         Inr uid))"

definition runnable :: "int \<Rightarrow> pystr list \<Rightarrow> job_row \<Rightarrow> bool" where
  "runnable now kinds r \<longleftrightarrow> j_status r = Queued \<and> j_run_after r \<le> now \<and> j_kind r \<in> set kinds"

definition claim_key :: "job_row \<Rightarrow> int \<times> int" where
  "claim_key r = (j_priority r, j_run_after r)"

definition next_job :: "int \<Rightarrow> pystr list \<Rightarrow> nat set \<Rightarrow> jobs \<Rightarrow> job_row option" where
  "next_job now kinds locked db =
     (case sort_key claim_key (filter (\<lambda>r. runnable now kinds r \<and> j_id r \<notin> locked) db) of
        [] \<Rightarrow> None
      | r # _ \<Rightarrow> Some r)"

definition claimed_row :: "int \<Rightarrow> job_row \<Rightarrow> job_row" where
  "claimed_row now r = r\<lparr>j_status := Running, j_attempts := j_attempts r + 1, j_updated_at := now\<rparr>"

definition claim_update :: "int \<Rightarrow> nat \<Rightarrow> jobs \<Rightarrow> jobs" where
  "claim_update now i db = map (\<lambda>r. if j_id r = i then claimed_row now r else r) db"

definition job_of :: "job_row \<Rightarrow> job" where
  "job_of r = \<lparr>jb_id = j_id r, jb_job_id = j_job_id r, jb_kind = j_kind r,
     jb_payload = py_or (j_payload r) (PDict []), jb_priority = j_priority r,
     jb_attempts = j_attempts r, jb_run_after = j_run_after r, jb_ingest_run_id = j_ingest_run_id r\<rparr>"

definition claim_one ::
    "int \<Rightarrow> pystr list \<Rightarrow> nat set \<Rightarrow> jobs \<Rightarrow> jobs \<times> (pyerr + job option)" where
  "claim_one now kinds locked db =
     (if kinds = [] then (db, Inl ValueError)
      else
        (case next_job now kinds locked db of
           None \<Rightarrow> (db, Inr None)
         | Some r \<Rightarrow>
             if \<not> smallint (j_attempts r + 1) then (db, Inl DatabaseError)
             else (claim_update now (j_id r) db, Inr (Some (job_of (claimed_row now r))))))"

definition mark_done :: "int \<Rightarrow> pystr \<Rightarrow> jobs \<Rightarrow> jobs" where
  "mark_done now job_id db =
     map (\<lambda>r. if j_job_id r = job_id
            then r\<lparr>j_status := Done, j_updated_at := now, j_last_error := None\<rparr> else r) db"

text \<open>\<open>attempts * attempts\<close> is a product of two \<open>smallint\<close>s and fails when it leaves the type.\<close>

definition failed_row :: "int \<Rightarrow> pystr \<Rightarrow> int \<Rightarrow> job_row \<Rightarrow> pyerr + job_row" where
  "failed_row now err max_attempts r =
     (if max_attempts \<le> j_attempts r
      then Inr (r\<lparr>j_status := DeadLetter, j_last_error := Some err, j_updated_at := now\<rparr>)
      else if \<not> smallint (j_attempts r * j_attempts r) then Inl DatabaseError
      else Inr (r\<lparr>j_status := Queued, j_last_error := Some err,
             j_run_after := now + 1000000 * (j_attempts r * j_attempts r), j_updated_at := now\<rparr>))"

fun mark_failed :: "int \<Rightarrow> pystr \<Rightarrow> pystr \<Rightarrow> int \<Rightarrow> jobs \<Rightarrow> pyerr + jobs" where
  "mark_failed now job_id err max_attempts [] = Inr []"
| "mark_failed now job_id err max_attempts (r # db) =
     (case (if j_job_id r = job_id then failed_row now err max_attempts r else Inr r) of
        Inl e \<Rightarrow> Inl e
      | Inr r' \<Rightarrow>
          (case mark_failed now job_id err max_attempts db of
             Inl e \<Rightarrow> Inl e
           | Inr db' \<Rightarrow> Inr (r' # db')))"

section \<open>The handler registry\<close>

type_synonym handler = "job \<Rightarrow> pyerr + unit"
type_synonym registry = "pystr \<times> pystr option \<Rightarrow> handler option"

definition register :: "pystr \<Rightarrow> pystr option \<Rightarrow> handler \<Rightarrow> registry \<Rightarrow> registry" where
  "register kind adapter fn reg = reg((kind, adapter) \<mapsto> fn)"

text \<open>
  The adapter is whatever the payload holds under \<open>adapter\<close>: a list or dict cannot be a key and
  raises, any other value that is not a string finds nothing.
\<close>

definition lookup_handler :: "registry \<Rightarrow> pystr \<Rightarrow> pyval \<Rightarrow> pyerr + handler option" where
  "lookup_handler reg kind adapter =
     (if \<not> hashable adapter then Inl TypeError
      else
        (let specific = (case adapter of
               PStr s \<Rightarrow> reg (kind, Some s) | PNone \<Rightarrow> reg (kind, None) | _ \<Rightarrow> None)
         in Inr (case specific of Some h \<Rightarrow> Some h | None \<Rightarrow> reg (kind, None))))"

definition job_adapter :: "job \<Rightarrow> pyval" where
  "job_adapter job =
     (case jb_payload job of
        PDict d \<Rightarrow> vget d (lit ''adapter'')
      | _ \<Rightarrow> PNone)"

definition dispatch :: "registry \<Rightarrow> job \<Rightarrow> pyerr + unit" where
  "dispatch reg job =
     (case lookup_handler reg (jb_kind job) (job_adapter job) of
        Inl e \<Rightarrow> Inl e
      | Inr None \<Rightarrow> Inl LookupError
      | Inr (Some h) \<Rightarrow> h job)"

section \<open>The worker tick\<close>

record tick_status =
  ts_job :: "pystr option option"
  ts_job_status :: "pystr option"

text \<open>
  The body of \<open>run_once\<close> over the three queue operations: claim and commit, dispatch, then
  \<open>mark_done\<close>, or on any exception roll back and \<open>mark_failed\<close>. An exception of the claim or of
  \<open>mark_failed\<close> leaves the tick after the connection is closed.
\<close>

definition run_tick ::
    "('q \<Rightarrow> 'q \<times> (pyerr + job option)) \<Rightarrow> (job \<Rightarrow> pyerr + unit) \<Rightarrow> (pystr \<Rightarrow> 'q \<Rightarrow> pyerr + 'q) \<Rightarrow>
     (pystr \<Rightarrow> pyerr \<Rightarrow> 'q \<Rightarrow> pyerr + 'q) \<Rightarrow> 'q \<Rightarrow> 'q \<times> (pyerr + tick_status)" where
  "run_tick claim disp finish fail q =
     (case claim q of
        (q', Inl e) \<Rightarrow> (q, Inl e)
      | (q', Inr None) \<Rightarrow> (q', Inr \<lparr>ts_job = Some None, ts_job_status = None\<rparr>)
      | (q', Inr (Some job)) \<Rightarrow>
          (case (case disp job of Inl e \<Rightarrow> Inl e | Inr _ \<Rightarrow> finish (jb_job_id job) q') of
             Inr q2 \<Rightarrow>
               (q2, Inr \<lparr>ts_job = Some (Some (jb_job_id job)), ts_job_status = Some (lit ''done'')\<rparr>)
           | Inl e \<Rightarrow>
               (case fail (jb_job_id job) e q' of
                  Inl e' \<Rightarrow> (q', Inl e')
                | Inr q2 \<Rightarrow>
                    (q2, Inr \<lparr>ts_job = Some (Some (jb_job_id job)),
                       ts_job_status = Some (lit ''failed'')\<rparr>))))"

definition DISPATCHABLE_KINDS :: "pystr list" where
  "DISPATCHABLE_KINDS = map lit [''fetch'', ''parse'', ''normalize'', ''upsert'']"

datatype queue_statement = ClaimJob | MarkDone | MarkFailed

text \<open>One tick's surroundings: connectivity, locks, the two clock readings, failing statements.\<close>

record tick_env =
  tk_connected :: bool
  tk_locked :: "nat set"
  tk_claim_time :: int
  tk_close_time :: int
  tk_fault :: "queue_statement \<Rightarrow> bool"

definition claim_job :: "tick_env \<Rightarrow> jobs \<Rightarrow> jobs \<times> (pyerr + job option)" where
  "claim_job env db =
     (if tk_fault env ClaimJob then (db, Inl DatabaseError)
      else claim_one (tk_claim_time env) DISPATCHABLE_KINDS (tk_locked env) db)"

definition finish_job :: "tick_env \<Rightarrow> pystr \<Rightarrow> jobs \<Rightarrow> pyerr + jobs" where
  "finish_job env job_id db =
     (if tk_fault env MarkDone then Inl DatabaseError else Inr (mark_done (tk_close_time env) job_id db))"

definition MAX_ATTEMPTS :: int where
  "MAX_ATTEMPTS = 5"

definition fail_job :: "(pyerr \<Rightarrow> pystr) \<Rightarrow> tick_env \<Rightarrow> pystr \<Rightarrow> pyerr \<Rightarrow> jobs \<Rightarrow> pyerr + jobs" where
  "fail_job rp env job_id e db =
     (if tk_fault env MarkFailed then Inl DatabaseError
      else mark_failed (tk_close_time env) job_id (rp e) MAX_ATTEMPTS db)"

definition run_once ::
    "(pyerr \<Rightarrow> pystr) \<Rightarrow> tick_env \<Rightarrow> registry \<Rightarrow> jobs \<Rightarrow> jobs \<times> (pyerr + tick_status)" where
  "run_once rp env reg db =
     (if \<not> tk_connected env then (db, Inr \<lparr>ts_job = None, ts_job_status = None\<rparr>)
      else run_tick (claim_job env) (dispatch reg) (finish_job env) (fail_job rp env) db)"

section \<open>One row at a time\<close>

definition ids_ok :: "jobs \<Rightarrow> bool" where
  "ids_ok db \<longleftrightarrow> map j_id db = [1..<Suc (length db)] \<and> distinct (map j_job_id db)"

text \<open>The table after a step that touches at most the row with id \<open>i\<close>, in a way \<open>P\<close> allows.\<close>

definition row_step :: "nat \<Rightarrow> (job_row \<Rightarrow> job_row \<Rightarrow> bool) \<Rightarrow> jobs \<Rightarrow> jobs \<Rightarrow> bool" where
  "row_step i P db db' \<longleftrightarrow>
     list_all2 (\<lambda>r r'. if j_id r = i
         then j_id r' = i \<and> j_job_id r' = j_job_id r \<and> j_kind r' = j_kind r \<and> P r r'
         else r' = r) db db'"

lemma row_step_ids: "row_step i P db db' \<Longrightarrow>
    map j_id db' = map j_id db \<and> map j_job_id db' = map j_job_id db"
  unfolding row_step_def by (induction rule: list_all2_induct) (auto split: if_splits)

lemma row_step_ids_ok: "row_step i P db db' \<Longrightarrow> ids_ok db \<Longrightarrow> ids_ok db'"
  using row_step_ids [of i P db db'] by (metis ids_ok_def length_map)

lemma row_step_other: "row_step i P db db' \<Longrightarrow> r \<in> set db \<Longrightarrow> j_id r \<noteq> i \<Longrightarrow> r \<in> set db'"
  unfolding row_step_def by (induction rule: list_all2_induct) (auto split: if_splits)

lemma row_step_forth:
  "row_step i P db db' \<Longrightarrow> r \<in> set db \<Longrightarrow> j_id r = i \<Longrightarrow>
     \<exists>r' \<in> set db'. j_id r' = i \<and> j_job_id r' = j_job_id r \<and> P r r'"
  unfolding row_step_def by (induction rule: list_all2_induct) (auto split: if_splits)

lemma row_step_back:
  "row_step i P db db' \<Longrightarrow> r' \<in> set db' \<Longrightarrow> r' \<in> set db \<or>
     (\<exists>r \<in> set db. j_id r = i \<and> j_id r' = i \<and> j_job_id r' = j_job_id r \<and> j_kind r' = j_kind r \<and> P r r')"
  unfolding row_step_def by (induction rule: list_all2_induct) (auto split: if_splits)

lemma ids_ok_unique:
  assumes "ids_ok db" "r \<in> set db" "r' \<in> set db"
  shows "j_id r = j_id r' \<Longrightarrow> r = r'" and "j_job_id r = j_job_id r' \<Longrightarrow> r = r'"
proof -
  have "distinct (map j_id db)" "distinct (map j_job_id db)"
    using assms(1) by (simp_all add: ids_ok_def)
  then show "j_id r = j_id r' \<Longrightarrow> r = r'" and "j_job_id r = j_job_id r' \<Longrightarrow> r = r'"
    using assms(2,3) by (auto simp: distinct_map dest: inj_onD)
qed

lemma claim_update_step: "row_step i (\<lambda>r r'. r' = claimed_row now r) db (claim_update now i db)"
  by (auto simp: row_step_def claim_update_def list_all2_conv_all_nth claimed_row_def)

lemma mark_failed_rows:
  "mark_failed now jid err m db = Inr db' \<Longrightarrow>
     list_all2 (\<lambda>r r'. if j_job_id r = jid then failed_row now err m r = Inr r' else r' = r) db db'"
proof (induction db arbitrary: db')
  case (Cons r db)
  then show ?case by (cases "j_job_id r = jid") (auto split: sum.split_asm split del: if_split)
qed simp

lemma failed_row_keeps:
  "failed_row now err m r = Inr r' \<Longrightarrow>
     j_id r' = j_id r \<and> j_job_id r' = j_job_id r \<and> j_kind r' = j_kind r \<and> j_attempts r' = j_attempts r \<and>
     j_status r' = (if m \<le> j_attempts r then DeadLetter else Queued)"
  by (auto simp: failed_row_def split: if_splits)

lemma mark_done_step:
  assumes "ids_ok db" "r \<in> set db"
  shows "row_step (j_id r) (\<lambda>u u'. u' = u\<lparr>j_status := Done, j_updated_at := now, j_last_error := None\<rparr>)
    db (mark_done now (j_job_id r) db)"
proof -
  have "(j_id u = j_id r) = (j_job_id u = j_job_id r)" if "u \<in> set db" for u
    using ids_ok_unique [OF assms(1) that assms(2)] by auto
  then show ?thesis
    by (simp add: row_step_def mark_done_def list_all2_conv_all_nth)
qed

lemma mark_failed_step:
  assumes "ids_ok db" "r \<in> set db" "mark_failed now (j_job_id r) err m db = Inr db'"
  shows "row_step (j_id r) (\<lambda>u u'. failed_row now err m u = Inr u') db db'"
proof -
  have same: "(j_id u = j_id r) = (j_job_id u = j_job_id r)" if "u \<in> set db" for u
    using ids_ok_unique [OF assms(1) that assms(2)] by auto
  show ?thesis
    unfolding row_step_def
    using mark_failed_rows [OF assms(3)]
    by (rule list.rel_mono_strong) (auto simp: same dest: failed_row_keeps split: if_splits)
qed

lemma next_job_some:
  assumes "next_job now kinds locked db = Some r"
  shows "r \<in> set db" "runnable now kinds r" "j_id r \<notin> locked"
    "list_all (\<lambda>u. \<not> (runnable now kinds u \<and> j_id u \<notin> locked) \<or> claim_key r \<le> claim_key u) db"
proof -
  let ?c = "filter (\<lambda>r. runnable now kinds r \<and> j_id r \<notin> locked) db"
  obtain us where us: "sort_key claim_key ?c = r # us"
    using assms by (auto simp: next_job_def split: list.splits)
  then have "set ?c = set (r # us)" by (metis set_sort)
  moreover have "sorted (map claim_key (r # us))" using us by (metis sorted_sort_key)
  ultimately have "r \<in> set ?c" "\<forall>u \<in> set ?c. claim_key r \<le> claim_key u" by auto
  then show "r \<in> set db" "runnable now kinds r" "j_id r \<notin> locked"
    "list_all (\<lambda>u. \<not> (runnable now kinds u \<and> j_id u \<notin> locked) \<or> claim_key r \<le> claim_key u) db"
    by (auto simp: list_all_iff)
qed

lemma next_job_none:
  "next_job now kinds locked db = None \<longleftrightarrow> list_all (\<lambda>u. \<not> (runnable now kinds u \<and> j_id u \<notin> locked)) db"
proof -
  let ?c = "filter (\<lambda>r. runnable now kinds r \<and> j_id r \<notin> locked) db"
  have "length (sort_key claim_key ?c) = length ?c" by simp
  then have "sort_key claim_key ?c = [] \<longleftrightarrow> ?c = []" by (cases "sort_key claim_key ?c"; cases ?c) simp_all
  moreover have "next_job now kinds locked db = None \<longleftrightarrow> sort_key claim_key ?c = []"
    unfolding next_job_def by (cases "sort_key claim_key ?c") simp_all
  ultimately show ?thesis by (simp add: list_all_iff filter_empty_conv)
qed

section \<open>Many workers\<close>

text \<open>
  A worker is idle, has a claim it has not committed (it holds the row lock), or runs a job. The
  claim becomes visible when it commits; until then a crash undoes it. A worker that dies while
  running a job leaves the row as it is.
\<close>

datatype phase = Idle | Claiming job int | Working job

record sys =
  sys_jobs :: jobs
  sys_workers :: "nat \<Rightarrow> phase"

fun held :: "phase \<Rightarrow> job option" where
  "held Idle = None"
| "held (Claiming j t) = Some j"
| "held (Working j) = Some j"

definition locks :: "sys \<Rightarrow> nat set" where
  "locks s = {i. \<exists>w j t. sys_workers s w = Claiming j t \<and> i = jb_id j}"

definition set_phase :: "nat \<Rightarrow> phase \<Rightarrow> sys \<Rightarrow> sys" where
  "set_phase w ph s = s\<lparr>sys_workers := (sys_workers s)(w := ph)\<rparr>"

text \<open>A step yields the id of the job it starts to run, if any.\<close>

inductive queue_step :: "sys \<Rightarrow> pystr option \<Rightarrow> sys \<Rightarrow> bool" where
  step_enqueue: "enqueue uid now kind payload priority ra ir (sys_jobs s) = (db', r) \<Longrightarrow>
     queue_step s None (s\<lparr>sys_jobs := db'\<rparr>)"
| step_claim: "sys_workers s w = Idle \<Longrightarrow>
     claim_one now DISPATCHABLE_KINDS (locks s) (sys_jobs s) = (db', Inr (Some job)) \<Longrightarrow>
     queue_step s None (set_phase w (Claiming job now) s)"
| step_commit: "sys_workers s w = Claiming job now \<Longrightarrow>
     queue_step s (Some (jb_job_id job))
       (set_phase w (Working job) (s\<lparr>sys_jobs := claim_update now (jb_id job) (sys_jobs s)\<rparr>))"
| step_done: "sys_workers s w = Working job \<Longrightarrow>
     queue_step s None (set_phase w Idle (s\<lparr>sys_jobs := mark_done now (jb_job_id job) (sys_jobs s)\<rparr>))"
| step_fail: "sys_workers s w = Working job \<Longrightarrow>
     mark_failed now (jb_job_id job) err MAX_ATTEMPTS (sys_jobs s) = Inr db' \<Longrightarrow>
     queue_step s None (set_phase w Idle (s\<lparr>sys_jobs := db'\<rparr>))"
| step_crash: "queue_step s None (set_phase w Idle s)"

inductive queue_run :: "sys \<Rightarrow> pystr list \<Rightarrow> sys \<Rightarrow> bool" where
  run_none: "queue_run s [] s"
| run_more: "queue_run s evs s' \<Longrightarrow> queue_step s' ev s'' \<Longrightarrow>
     queue_run s (evs @ (case ev of None \<Rightarrow> [] | Some i \<Rightarrow> [i])) s''"

definition initial_sys :: "sys \<Rightarrow> bool" where
  "initial_sys s \<longleftrightarrow> sys_jobs s = [] \<and> sys_workers s = (\<lambda>w. Idle)"

definition row_wf :: "job_row \<Rightarrow> bool" where
  "row_wf r \<longleftrightarrow> jobs_kind_check (j_kind r) \<and> 0 \<le> j_attempts r \<and>
     (case j_status r of
        Queued \<Rightarrow> j_attempts r < MAX_ATTEMPTS
      | Running \<Rightarrow> 0 < j_attempts r \<and> j_attempts r \<le> MAX_ATTEMPTS
      | Done \<Rightarrow> 0 < j_attempts r \<and> j_attempts r \<le> MAX_ATTEMPTS
      | DeadLetter \<Rightarrow> j_attempts r = MAX_ATTEMPTS
      | Failed \<Rightarrow> False)"

definition backed :: "job_status \<Rightarrow> job \<Rightarrow> jobs \<Rightarrow> bool" where
  "backed st job db \<longleftrightarrow>
     list_ex (\<lambda>r. j_id r = jb_id job \<and> j_job_id r = jb_job_id job \<and> j_status r = st) db"

fun phase_ok :: "jobs \<Rightarrow> phase \<Rightarrow> bool" where
  "phase_ok db Idle = True"
| "phase_ok db (Claiming job t) = backed Queued job db"
| "phase_ok db (Working job) = backed Running job db"

definition exclusive :: "sys \<Rightarrow> bool" where
  "exclusive s \<longleftrightarrow> (\<forall>w w' j j'. held (sys_workers s w) = Some j \<longrightarrow> held (sys_workers s w') = Some j' \<longrightarrow>
     jb_id j = jb_id j' \<longrightarrow> w = w')"

definition sys_wf :: "sys \<Rightarrow> bool" where
  "sys_wf s \<longleftrightarrow> ids_ok (sys_jobs s) \<and> list_all row_wf (sys_jobs s) \<and>
     (\<forall>w. phase_ok (sys_jobs s) (sys_workers s w)) \<and> exclusive s"

lemma phase_ok_held: "phase_ok db ph \<Longrightarrow> held ph = Some j \<Longrightarrow>
    \<exists>r \<in> set db. j_id r = jb_id j \<and> j_job_id r = jb_job_id j"
  by (cases ph) (auto simp: backed_def list_ex_iff)

lemma backed_keep:
  assumes "row_step i P db db'" "backed st job db" "jb_id job \<noteq> i"
  shows "backed st job db'"
  using assms row_step_other [OF assms(1)] unfolding backed_def list_ex_iff by metis

lemma phase_keep:
  "row_step i P db db' \<Longrightarrow> phase_ok db ph \<Longrightarrow> (\<And>j. held ph = Some j \<Longrightarrow> jb_id j \<noteq> i) \<Longrightarrow> phase_ok db' ph"
  by (cases ph) (auto intro: backed_keep)

text \<open>Worker \<open>w\<close> acts on the row it holds: everything else stays as it was.\<close>

lemma sys_wf_row_step:
  assumes "sys_wf s" "row_step i P (sys_jobs s) db'"
    "held (sys_workers s w) = Some job" "jb_id job = i"
    "\<And>r r'. P r r' \<Longrightarrow> r \<in> set (sys_jobs s) \<Longrightarrow> j_id r = i \<Longrightarrow> j_kind r' = j_kind r \<Longrightarrow> row_wf r'"
    "phase_ok db' ph" "held ph = None \<or> held ph = Some job"
  shows "sys_wf (set_phase w ph (s\<lparr>sys_jobs := db'\<rparr>))"
proof -
  have ex: "exclusive s" using assms(1) by (simp add: sys_wf_def)
  have other: "jb_id j \<noteq> i" if "held (sys_workers s w') = Some j" "w' \<noteq> w" for w' j
    using ex assms(3,4) that unfolding exclusive_def by metis
  have "phase_ok db' (if w' = w then ph else sys_workers s w')" for w'
    using phase_keep [OF assms(2)] assms(1,6) other [of w'] by (auto simp: sys_wf_def)
  moreover have "list_all row_wf db'"
    using assms(1,5) row_step_back [OF assms(2)] unfolding sys_wf_def list_all_iff by metis
  moreover have "exclusive (set_phase w ph (s\<lparr>sys_jobs := db'\<rparr>))"
    using ex assms(3,7) unfolding exclusive_def set_phase_def by auto
  ultimately show ?thesis
    using assms(1) row_step_ids_ok [OF assms(2)] by (simp add: sys_wf_def set_phase_def)
qed

text \<open>The row a worker holds, and what it looks like after the worker has acted.\<close>

lemma backed_row:
  assumes "ids_ok db" "backed st job db"
  obtains r where "r \<in> set db" "j_id r = jb_id job" "j_job_id r = jb_job_id job" "j_status r = st"
    "\<And>u. u \<in> set db \<Longrightarrow> j_id u = jb_id job \<Longrightarrow> u = r"
proof -
  obtain r where r: "r \<in> set db" "j_id r = jb_id job" "j_job_id r = jb_job_id job" "j_status r = st"
    using assms(2) by (auto simp: backed_def list_ex_iff)
  show ?thesis by (rule that [OF r]) (use ids_ok_unique(1) [OF assms(1)] r in metis)
qed

lemma backed_step:
  assumes "row_step (jb_id job) P db db'" "backed st job db" "ids_ok db"
    "\<And>r r'. P r r' \<Longrightarrow> j_status r' = st'"
  shows "backed st' job db'"
proof -
  obtain r where "r \<in> set db" "j_id r = jb_id job" "j_job_id r = jb_job_id job"
    using backed_row [OF assms(3,2)] by metis
  then show ?thesis
    using row_step_forth [OF assms(1)] assms(4) unfolding backed_def list_ex_iff by metis
qed

lemma enqueue_rows:
  assumes "enqueue uid now kind payload priority ra ir db = (db', r)" "ids_ok db" "list_all row_wf db"
  obtains xs where "db' = db @ xs" "ids_ok db'" "list_all row_wf db'"
    "list_all (\<lambda>r. j_status r = Queued \<and> j_attempts r = 0 \<and> j_job_id r \<notin> j_job_id ` set db) xs"
proof (cases "db' = db")
  case False
  then obtain row where row: "db' = db @ [row]" "j_id row = Suc (length db)" "j_status row = Queued"
    "jobs_kind_check (j_kind row)" "j_attempts row = 0" "j_job_id row \<notin> j_job_id ` set db"
    using assms(1) by (auto simp: enqueue_def split: if_splits)
  then have "ids_ok db'" "list_all row_wf db'"
    using assms(2,3) by (auto simp: ids_ok_def row_wf_def MAX_ATTEMPTS_def)
  then show ?thesis using that row by auto
qed (use that [of "[]"] assms in auto)

lemma phase_ok_append: "phase_ok db ph \<Longrightarrow> phase_ok (db @ xs) ph"
  by (cases ph) (auto simp: backed_def)

lemma claimed_free:
  assumes "sys_wf s" "next_job now kinds (locks s) (sys_jobs s) = Some r"
    "held (sys_workers s w) = Some j"
  shows "jb_id j \<noteq> j_id r"
proof (cases "sys_workers s w")
  case (Claiming j' t)
  then have "jb_id j \<in> locks s" using assms(3) by (auto simp: locks_def)
  then show ?thesis using next_job_some(3) [OF assms(2)] by metis
next
  case (Working j')
  then have b: "backed Running j (sys_jobs s)" using assms(1,3) by (metis sys_wf_def held.simps(3)
        option.inject phase_ok.simps(3))
  have ids: "ids_ok (sys_jobs s)" using assms(1) by (simp add: sys_wf_def)
  have "j_status r = Queued" using next_job_some(2) [OF assms(2)] by (simp add: runnable_def)
  then show ?thesis using backed_row [OF ids b] next_job_some(1) [OF assms(2)] by (metis job_status.distinct(1))
qed (use assms(3) in simp)

lemma claim_one_some:
  assumes "claim_one now kinds locked db = (db', Inr (Some job))"
  obtains r where "next_job now kinds locked db = Some r" "job = job_of (claimed_row now r)"
    "db' = claim_update now (j_id r) db"
  using assms by (auto simp: claim_one_def split: if_splits option.splits)

lemma job_of_simps [simp]: "jb_id (job_of r) = j_id r" "jb_job_id (job_of r) = j_job_id r"
  by (simp_all add: job_of_def)

lemma claimed_row_simps [simp]:
  "j_id (claimed_row now r) = j_id r" "j_job_id (claimed_row now r) = j_job_id r"
  "j_kind (claimed_row now r) = j_kind r" "j_status (claimed_row now r) = Running"
  "j_attempts (claimed_row now r) = j_attempts r + 1"
  by (simp_all add: claimed_row_def)

lemma step_claim_wf:
  assumes "sys_wf s" "claim_one now DISPATCHABLE_KINDS (locks s) (sys_jobs s) = (db', Inr (Some job))"
  shows "sys_wf (set_phase w (Claiming job now) s)"
proof -
  obtain r where r: "next_job now DISPATCHABLE_KINDS (locks s) (sys_jobs s) = Some r"
    "job = job_of (claimed_row now r)" using claim_one_some [OF assms(2)] by metis
  have free: "jb_id j \<noteq> jb_id job" if "held (sys_workers s w') = Some j" for w' j
    using claimed_free [OF assms(1) r(1) that] r(2) by simp
  have "backed Queued job (sys_jobs s)"
    using next_job_some(1,2) [OF r(1)] r(2) by (auto simp: backed_def list_ex_iff runnable_def)
  moreover have "exclusive (set_phase w (Claiming job now) s)"
    using assms(1) free free [symmetric] unfolding sys_wf_def exclusive_def set_phase_def
    by (simp split: if_split)
  ultimately show ?thesis using assms(1) by (simp add: sys_wf_def set_phase_def)
qed

lemma step_commit_wf:
  assumes "sys_wf s" "sys_workers s w = Claiming job now"
  shows "sys_wf (set_phase w (Working job) (s\<lparr>sys_jobs := claim_update now (jb_id job) (sys_jobs s)\<rparr>))"
proof (rule sys_wf_row_step [OF assms(1) claim_update_step])
  have b: "backed Queued job (sys_jobs s)" and ids: "ids_ok (sys_jobs s)"
    using assms by (auto simp: sys_wf_def dest: spec [of _ w])
  show "held (sys_workers s w) = Some job" by (simp add: assms(2))
  show "row_wf r'" if "r' = claimed_row now r" "r \<in> set (sys_jobs s)" "j_id r = jb_id job" for r r'
  proof -
    have "j_status r = Queued" using backed_row [OF ids b] that(2,3) by metis
    then show ?thesis
      using assms(1) that by (auto simp: sys_wf_def list_all_iff row_wf_def)
  qed
  show "phase_ok (claim_update now (jb_id job) (sys_jobs s)) (Working job)"
    using backed_step [OF claim_update_step b ids] by simp
qed simp_all

lemma held_running:
  assumes "sys_wf s" "sys_workers s w = Working job"
  obtains r where "r \<in> set (sys_jobs s)" "j_id r = jb_id job" "j_job_id r = jb_job_id job"
    "j_status r = Running" "\<And>u. u \<in> set (sys_jobs s) \<Longrightarrow> j_id u = jb_id job \<Longrightarrow> u = r"
    "ids_ok (sys_jobs s)"
proof -
  have "backed Running job (sys_jobs s)" "ids_ok (sys_jobs s)"
    using assms by (auto simp: sys_wf_def dest: spec [of _ w])
  then show ?thesis using that backed_row by metis
qed

lemma step_done_wf:
  assumes "sys_wf s" "sys_workers s w = Working job"
  shows "sys_wf (set_phase w Idle (s\<lparr>sys_jobs := mark_done now (jb_job_id job) (sys_jobs s)\<rparr>))"
proof -
  obtain r where r: "r \<in> set (sys_jobs s)" "j_id r = jb_id job" "j_job_id r = jb_job_id job"
    "j_status r = Running" "\<And>u. u \<in> set (sys_jobs s) \<Longrightarrow> j_id u = jb_id job \<Longrightarrow> u = r"
    "ids_ok (sys_jobs s)" using held_running [OF assms] by metis
  have st: "row_step (jb_id job) (\<lambda>u u'. u' = u\<lparr>j_status := Done, j_updated_at := now, j_last_error := None\<rparr>)
      (sys_jobs s) (mark_done now (jb_job_id job) (sys_jobs s))"
    using mark_done_step [OF r(6,1)] r(2,3) by metis
  have "row_wf r" using assms(1) r(1) by (simp add: sys_wf_def list_all_iff)
  show ?thesis
    by (rule sys_wf_row_step [OF assms(1) st, of _ job])
      (use assms(2) r(4,5) \<open>row_wf r\<close> in \<open>auto simp: row_wf_def\<close>)
qed

lemma step_fail_wf:
  assumes "sys_wf s" "sys_workers s w = Working job"
    "mark_failed now (jb_job_id job) err MAX_ATTEMPTS (sys_jobs s) = Inr db'"
  shows "sys_wf (set_phase w Idle (s\<lparr>sys_jobs := db'\<rparr>))"
proof -
  obtain r where r: "r \<in> set (sys_jobs s)" "j_id r = jb_id job" "j_job_id r = jb_job_id job"
    "j_status r = Running" "\<And>u. u \<in> set (sys_jobs s) \<Longrightarrow> j_id u = jb_id job \<Longrightarrow> u = r"
    "ids_ok (sys_jobs s)" using held_running [OF assms(1,2)] by metis
  have st: "row_step (jb_id job) (\<lambda>u u'. failed_row now err MAX_ATTEMPTS u = Inr u') (sys_jobs s) db'"
    using mark_failed_step [OF r(6,1)] assms(3) r(2,3) by metis
  have wf: "row_wf r" using assms(1) r(1) by (simp add: sys_wf_def list_all_iff)
  have "row_wf r'" if "failed_row now err MAX_ATTEMPTS r = Inr r'" for r'
    using failed_row_keeps [OF that] wf r(4) by (auto simp: row_wf_def split: if_splits)
  then show ?thesis
    by (intro sys_wf_row_step [OF assms(1) st, of _ job]) (use assms(2) r(5) in auto)
qed

lemma queue_step_wf: "queue_step s ev s' \<Longrightarrow> sys_wf s \<Longrightarrow> sys_wf s'"
proof (induction rule: queue_step.induct)
  case (step_enqueue uid now kind payload priority ra ir s db' r)
  then obtain xs where "db' = sys_jobs s @ xs" "ids_ok db'" "list_all row_wf db'"
    using enqueue_rows [OF step_enqueue(1)] by (metis sys_wf_def)
  then show ?case using step_enqueue(2)
    by (auto simp: sys_wf_def exclusive_def intro: phase_ok_append)
next
  case (step_crash s w)
  then show ?case by (auto simp: sys_wf_def set_phase_def exclusive_def)
qed (auto intro: step_claim_wf step_commit_wf step_done_wf step_fail_wf)

lemma initial_wf: "initial_sys s \<Longrightarrow> sys_wf s"
  by (simp add: initial_sys_def sys_wf_def ids_ok_def exclusive_def)

lemma queue_run_wf: "queue_run s evs s' \<Longrightarrow> sys_wf s \<Longrightarrow> sys_wf s'"
  by (induction rule: queue_run.induct) (auto intro: queue_step_wf)

section \<open>What the queue guarantees\<close>

text \<open>
  Claim C12. A job runs on at most one worker at a time: in every state any number of workers can reach
  from an empty queue, with crashes and failures at any point, two workers never hold the same
  job, and the row of a job being run is \<open>running\<close>.
\<close>

theorem jobs_exclusive:
  assumes "queue_run s0 evs s" "initial_sys s0"
    "held (sys_workers s w) = Some j" "held (sys_workers s w') = Some j'"
  shows "(jb_job_id j = jb_job_id j' \<longrightarrow> w = w') \<and>
    (case sys_workers s w of Working job \<Rightarrow> backed Running job (sys_jobs s) | _ \<Rightarrow> True)"
proof -
  have wf: "sys_wf s" using queue_run_wf [OF assms(1) initial_wf [OF assms(2)]] .
  then have ok: "phase_ok (sys_jobs s) (sys_workers s v)" for v by (simp add: sys_wf_def)
  have "w = w'" if "jb_job_id j = jb_job_id j'"
  proof -
    have "jb_id j = jb_id j'"
      using phase_ok_held [OF ok assms(3)] phase_ok_held [OF ok assms(4)] that wf ids_ok_unique(2)
      unfolding sys_wf_def by metis
    then show ?thesis using wf assms(3,4) unfolding sys_wf_def exclusive_def by metis
  qed
  then show ?thesis using ok [of w] by (auto split: phase.split)
qed

definition counted :: "pystr list \<Rightarrow> jobs \<Rightarrow> bool" where
  "counted evs db \<longleftrightarrow> list_all (\<lambda>r. int (count_list evs (j_job_id r)) = j_attempts r) db \<and>
     set evs \<subseteq> j_job_id ` set db"

lemma counted_row_step:
  assumes "counted evs db" "row_step i P db db'" "\<And>r r'. P r r' \<Longrightarrow> j_attempts r' = j_attempts r"
  shows "counted evs db'"
proof -
  have "j_job_id ` set db' = j_job_id ` set db" using row_step_ids [OF assms(2)] by (metis list.set_map)
  moreover have "int (count_list evs (j_job_id r')) = j_attempts r'" if "r' \<in> set db'" for r'
    using row_step_back [OF assms(2) that] assms(1,3) unfolding counted_def list_all_iff by metis
  ultimately show ?thesis using assms(1) by (simp add: counted_def list_all_iff)
qed

lemma counted_commit:
  assumes "counted evs db" "ids_ok db" "backed st job db"
  shows "counted (evs @ [jb_job_id job]) (claim_update now (jb_id job) db)"
proof -
  obtain r where r: "r \<in> set db" "j_id r = jb_id job" "j_job_id r = jb_job_id job"
    using backed_row [OF assms(2,3)] by metis
  have same: "(j_id u = jb_id job) = (j_job_id u = jb_job_id job)" if "u \<in> set db" for u
    using ids_ok_unique [OF assms(2) that r(1)] r by auto
  have keys: "j_job_id ` set (claim_update now (jb_id job) db) = j_job_id ` set db"
  proof -
    have "map j_job_id (claim_update now (jb_id job) db) = map j_job_id db"
      by (simp add: claim_update_def)
    then show ?thesis by (metis list.set_map)
  qed
  have "int (count_list (evs @ [jb_job_id job]) (j_job_id u')) = j_attempts u'"
    if mem: "u' \<in> set (claim_update now (jb_id job) db)" for u'
  proof -
    obtain u where u: "u \<in> set db" "u' = (if j_id u = jb_id job then claimed_row now u else u)"
      using mem unfolding claim_update_def set_map image_iff by blast
    have "int (count_list evs (j_job_id u)) = j_attempts u"
      using assms(1) u(1) by (simp add: counted_def list_all_iff)
    then show ?thesis using same [OF u(1)] u(2) by (cases "j_id u = jb_id job") simp_all
  qed
  moreover have "set (evs @ [jb_job_id job]) \<subseteq> j_job_id ` set db"
    using assms(1) r(1) r(3) [symmetric] by (simp add: counted_def)
  ultimately show ?thesis unfolding counted_def list_all_iff keys by blast
qed

lemma counted_append:
  assumes "counted evs db"
    "list_all (\<lambda>r. j_status r = Queued \<and> j_attempts r = 0 \<and> j_job_id r \<notin> j_job_id ` set db) xs"
  shows "counted evs (db @ xs)"
proof -
  have "count_list evs (j_job_id r) = 0" if "r \<in> set xs" for r
    using that assms unfolding counted_def list_all_iff count_list_0_iff by blast
  then show ?thesis using assms by (auto simp: counted_def list_all_iff)
qed

lemma counted_step:
  assumes "queue_step s ev s'" "sys_wf s" "counted evs (sys_jobs s)"
  shows "counted (evs @ (case ev of None \<Rightarrow> [] | Some i \<Rightarrow> [i])) (sys_jobs s')"
  using assms
proof (induction rule: queue_step.induct)
  case (step_enqueue uid now kind payload priority ra ir s db' r)
  then have ok: "ids_ok (sys_jobs s)" "list_all row_wf (sys_jobs s)" by (simp_all add: sys_wf_def)
  show ?case
    by (rule enqueue_rows [OF step_enqueue(1) ok]) (use step_enqueue(3) counted_append in simp)
next
  case (step_commit s w job now)
  then have "backed Queued job (sys_jobs s)" by (auto simp: sys_wf_def dest: spec [of _ w])
  then show ?case using step_commit counted_commit by (simp add: sys_wf_def set_phase_def)
next
  case (step_done s w job now)
  then obtain r where r: "r \<in> set (sys_jobs s)" "j_job_id r = jb_job_id job" "ids_ok (sys_jobs s)"
    using held_running by metis
  show ?case
    using counted_row_step [OF step_done(3) mark_done_step [OF r(3,1), of now]] r(2)
    by (simp add: set_phase_def)
next
  case (step_fail s w job now err db')
  then obtain r where r: "r \<in> set (sys_jobs s)" "j_job_id r = jb_job_id job" "ids_ok (sys_jobs s)"
    using held_running by metis
  show ?case
    using counted_row_step [OF step_fail(4) mark_failed_step [OF r(3,1)]] step_fail(2) r(2)
    by (simp add: set_phase_def failed_row_keeps)
qed (simp_all add: set_phase_def)

lemma counted_run: "queue_run s evs s' \<Longrightarrow> sys_wf s \<Longrightarrow> sys_jobs s = [] \<Longrightarrow> counted evs (sys_jobs s')"
proof (induction rule: queue_run.induct)
  case (run_more s evs s' ev s'')
  then show ?case using counted_step queue_run_wf by blast
qed (simp add: counted_def)

text \<open>
  Claim C13. No job is started more than five times, over any run of the system: the attempts
  counter of its row is the number of times it has been started, and is bounded by \<open>MAX_ATTEMPTS\<close>.
\<close>

theorem starts_bounded:
  assumes "queue_run s0 evs s" "initial_sys s0"
  shows "int (count_list evs i) \<le> MAX_ATTEMPTS \<and>
    list_all (\<lambda>r. int (count_list evs (j_job_id r)) = j_attempts r) (sys_jobs s)"
proof -
  have c: "counted evs (sys_jobs s)"
    using counted_run [OF assms(1) initial_wf [OF assms(2)]] assms(2) by (simp add: initial_sys_def)
  have "sys_wf s" using queue_run_wf [OF assms(1) initial_wf [OF assms(2)]] .
  then have "j_attempts r \<le> MAX_ATTEMPTS" if "r \<in> set (sys_jobs s)" for r
  proof -
    have "row_wf r" using \<open>sys_wf s\<close> that by (simp add: sys_wf_def list_all_iff)
    then show ?thesis by (cases "j_status r") (simp_all add: row_wf_def)
  qed
  then have "int (count_list evs i) \<le> MAX_ATTEMPTS" if "i \<in> set evs"
    using c that by (auto simp: counted_def list_all_iff)
  moreover have "int (count_list evs i) \<le> MAX_ATTEMPTS" if "i \<notin> set evs"
    using that by (simp add: MAX_ATTEMPTS_def)
  ultimately have "int (count_list evs i) \<le> MAX_ATTEMPTS" by blast
  then show ?thesis using c by (simp add: counted_def)
qed

definition unheld :: "sys \<Rightarrow> job_row \<Rightarrow> bool" where
  "unheld s r \<longleftrightarrow> (\<forall>w j. held (sys_workers s w) = Some j \<longrightarrow> jb_id j \<noteq> j_id r)"

lemma frozen_step:
  assumes "queue_step s ev s'" "sys_wf s" "r \<in> set (sys_jobs s)" "j_status r \<noteq> Queued" "unheld s r"
  shows "r \<in> set (sys_jobs s') \<and> unheld s' r"
  using assms
proof (induction rule: queue_step.induct)
  case (step_enqueue uid now kind payload priority ra ir s db' r')
  then obtain xs where "db' = sys_jobs s @ xs" using enqueue_rows [OF step_enqueue(1)] by (metis sys_wf_def)
  then show ?case using step_enqueue by (simp add: unheld_def)
next
  case (step_claim s w now db' job)
  obtain u where u: "next_job now DISPATCHABLE_KINDS (locks s) (sys_jobs s) = Some u"
    "job = job_of (claimed_row now u)" using claim_one_some [OF step_claim(2)] by metis
  have "j_status u = Queued" using next_job_some(2) [OF u(1)] by (simp add: runnable_def)
  then have "jb_id job \<noteq> j_id r"
    using u next_job_some(1) [OF u(1)] step_claim(3,4,5) ids_ok_unique(1) unfolding sys_wf_def
    by (metis claimed_row_simps(1) job_of_simps(1))
  then show ?case using step_claim by (auto simp: unheld_def set_phase_def)
next
  case (step_commit s w job now)
  then have "jb_id job \<noteq> j_id r" unfolding unheld_def by (metis held.simps(2))
  then have "r \<in> set (claim_update now (jb_id job) (sys_jobs s))"
    using row_step_other [OF claim_update_step] step_commit by metis
  moreover have "unheld (set_phase w (Working job)
      (s\<lparr>sys_jobs := claim_update now (jb_id job) (sys_jobs s)\<rparr>)) r"
    using step_commit(5) \<open>jb_id job \<noteq> j_id r\<close> by (simp add: unheld_def set_phase_def)
  ultimately show ?case by (simp add: set_phase_def)
next
  case (step_done s w job now)
  then obtain u where u: "u \<in> set (sys_jobs s)" "j_job_id u = jb_job_id job" "j_id u = jb_id job"
    "ids_ok (sys_jobs s)" using held_running by metis
  have "j_id u \<noteq> j_id r" using step_done(1,5) u(3) unfolding unheld_def by (metis held.simps(3))
  then have "r \<in> set (mark_done now (jb_job_id job) (sys_jobs s))"
    using row_step_other [OF mark_done_step [OF u(4,1)]] step_done(3) u(2) by metis
  then show ?case using step_done by (auto simp: unheld_def set_phase_def)
next
  case (step_fail s w job now err db')
  then obtain u where u: "u \<in> set (sys_jobs s)" "j_job_id u = jb_job_id job" "j_id u = jb_id job"
    "ids_ok (sys_jobs s)" using held_running by metis
  have "j_id u \<noteq> j_id r" using step_fail(1,6) u(3) unfolding unheld_def by (metis held.simps(3))
  then have "r \<in> set db'"
    using row_step_other [OF mark_failed_step [OF u(4,1)]] step_fail(2,4) u(2) by metis
  then show ?case using step_fail by (auto simp: unheld_def set_phase_def)
qed (auto simp: unheld_def set_phase_def)

lemma frozen_run:
  "queue_run s evs s' \<Longrightarrow> sys_wf s \<Longrightarrow> r \<in> set (sys_jobs s) \<Longrightarrow> j_status r \<noteq> Queued \<Longrightarrow> unheld s r \<Longrightarrow>
     r \<in> set (sys_jobs s') \<and> unheld s' r"
proof (induction rule: queue_run.induct)
  case (run_more s evs s' ev s'')
  then show ?case using frozen_step queue_run_wf by blast
qed simp

lemma terminal_unheld:
  assumes "sys_wf s" "r \<in> set (sys_jobs s)" "j_status r \<in> {Done, DeadLetter}"
  shows "unheld s r"
  unfolding unheld_def
proof (intro allI impI)
  fix w j assume h: "held (sys_workers s w) = Some j"
  have ids: "ids_ok (sys_jobs s)" and ok: "phase_ok (sys_jobs s) (sys_workers s w)"
    using assms(1) by (simp_all add: sys_wf_def)
  obtain st where st: "backed st j (sys_jobs s)" "st \<in> {Queued, Running}"
    using h ok by (cases "sys_workers s w") auto
  then show "jb_id j \<noteq> j_id r" using backed_row [OF ids st(1)] assms(2,3) by force
qed

lemma mark_done_wf:
  assumes "ids_ok db" "list_all row_wf db" "r \<in> set db" "j_status r = Running"
  shows "list_all row_wf (mark_done now (j_job_id r) db)"
  unfolding list_all_iff
proof
  fix u assume "u \<in> set (mark_done now (j_job_id r) db)"
  then obtain v where v: "v \<in> set db" "u = (if j_job_id v = j_job_id r
      then v\<lparr>j_status := Done, j_updated_at := now, j_last_error := None\<rparr> else v)"
    unfolding mark_done_def set_map image_iff by blast
  have "row_wf v" using assms(2) v(1) by (simp add: list_all_iff)
  moreover have "v = r" if "j_job_id v = j_job_id r"
    using ids_ok_unique(2) [OF assms(1) v(1) assms(3) that] .
  ultimately show "row_wf u" using v(2) assms(4) by (auto simp: row_wf_def)
qed

lemma mark_failed_wf:
  assumes "ids_ok db" "list_all row_wf db" "r \<in> set db" "j_status r = Running"
    "mark_failed now (j_job_id r) err MAX_ATTEMPTS db = Inr db'"
  shows "list_all row_wf db'"
  unfolding list_all_iff
proof
  fix u assume u: "u \<in> set db'"
  have wf: "row_wf v" if "v \<in> set db" for v using assms(2) that by (simp add: list_all_iff)
  consider "u \<in> set db" | v where "v \<in> set db" "j_id v = j_id r" "failed_row now err MAX_ATTEMPTS v = Inr u"
    using row_step_back [OF mark_failed_step [OF assms(1,3,5)] u] by blast
  then show "row_wf u"
  proof cases
    case 2
    then have "v = r" using ids_ok_unique(1) [OF assms(1)] assms(3) by metis
    then show ?thesis
      using failed_row_keeps [OF 2(3)] wf [OF 2(1)] assms(4) by (auto simp: row_wf_def split: if_splits)
  qed (rule wf)
qed

lemma claim_update_wf:
  assumes "ids_ok db" "list_all row_wf db" "r \<in> set db" "j_status r = Queued"
  shows "list_all row_wf (claim_update now (j_id r) db)"
  unfolding list_all_iff
proof
  fix u assume "u \<in> set (claim_update now (j_id r) db)"
  then obtain v where v: "v \<in> set db" "u = (if j_id v = j_id r then claimed_row now v else v)"
    unfolding claim_update_def set_map image_iff by blast
  have "row_wf v" using assms(2) v(1) by (simp add: list_all_iff)
  moreover have "v = r" if "j_id v = j_id r" using ids_ok_unique(1) [OF assms(1) v(1) assms(3) that] .
  ultimately show "row_wf u" using v(2) assms(4) by (auto simp: row_wf_def)
qed

section \<open>The queue as the worker sees it\<close>

definition state_of :: "jobs \<Rightarrow> pystr \<Rightarrow> job_status option" where
  "state_of db = map_of (map (\<lambda>r. (j_job_id r, j_status r)) db)"

lemma state_of_rows:
  "list_all2 (\<lambda>u u'. j_job_id u' = j_job_id u \<and>
       j_status u' = (if j_job_id u = k then st else j_status u)) db db' \<Longrightarrow>
   state_of db' i = (if i = k \<and> k \<in> j_job_id ` set db then Some st else state_of db i)"
  unfolding state_of_def by (induction rule: list_all2_induct) auto

lemma state_of_step:
  assumes "row_step (j_id r) P db db'" "ids_ok db" "r \<in> set db" "\<And>u u'. P u u' \<Longrightarrow> j_status u' = st"
  shows "state_of db' = (state_of db)(j_job_id r \<mapsto> st)"
proof
  fix i
  have same: "(j_id u = j_id r) = (j_job_id u = j_job_id r)" if "u \<in> set db" for u
    using ids_ok_unique [OF assms(2) that assms(3)] by auto
  have "list_all2 (\<lambda>u u'. j_job_id u' = j_job_id u \<and>
       j_status u' = (if j_job_id u = j_job_id r then st else j_status u)) db db'"
    using assms(1) unfolding row_step_def
    by (rule list.rel_mono_strong) (auto simp: same dest: assms(4) split: if_split_asm)
  from state_of_rows [OF this, of i] show "state_of db' i = ((state_of db)(j_job_id r \<mapsto> st)) i"
    using assms(3) by simp
qed

lemma state_of_row:
  "ids_ok db \<Longrightarrow> r \<in> set db \<Longrightarrow> state_of db (j_job_id r) = Some (j_status r)"
  unfolding state_of_def by (rule map_of_is_SomeI) (auto simp: ids_ok_def comp_def)

lemma state_of_Some: "state_of db i = Some st \<Longrightarrow> \<exists>r \<in> set db. j_job_id r = i \<and> j_status r = st"
  unfolding state_of_def by (drule map_of_SomeD) auto

definition queue_inv :: "jobs \<Rightarrow> bool" where
  "queue_inv db \<longleftrightarrow> ids_ok db \<and> list_all row_wf db"

text \<open>What one tick may have done to the states of the jobs, given what it reported.\<close>

definition tick_outcome ::
    "('q \<Rightarrow> pystr \<Rightarrow> job_status option) \<Rightarrow> 'q \<Rightarrow> 'q \<Rightarrow> pyerr + tick_status \<Rightarrow> bool" where
  "tick_outcome state q q' r \<longleftrightarrow>
     (case r of
        Inl e \<Rightarrow> q' = q \<or> (\<exists>i. state q i = Some Queued \<and> state q' = (state q)(i \<mapsto> Running))
      | Inr st \<Rightarrow>
          (case ts_job st of
             Some (Some i) \<Rightarrow> state q i = Some Queued \<and>
               (if ts_job_status st = Some (lit ''done'') then state q' = (state q)(i \<mapsto> Done)
                else state q' = (state q)(i \<mapsto> Queued) \<or> state q' = (state q)(i \<mapsto> DeadLetter))
           | _ \<Rightarrow> q' = q))"

locale job_queue =
  fixes inv :: "'q \<Rightarrow> bool"
    and state :: "'q \<Rightarrow> pystr \<Rightarrow> job_status option"
    and claim :: "'q \<Rightarrow> 'q \<times> (pyerr + job option)"
    and finish :: "pystr \<Rightarrow> 'q \<Rightarrow> pyerr + 'q"
    and fail :: "pystr \<Rightarrow> pyerr \<Rightarrow> 'q \<Rightarrow> pyerr + 'q"
  assumes claim_none: "inv q \<Longrightarrow> claim q = (q', Inr None) \<Longrightarrow> q' = q"
    and claim_some: "inv q \<Longrightarrow> claim q = (q', Inr (Some j)) \<Longrightarrow>
      inv q' \<and> state q (jb_job_id j) = Some Queued \<and> state q' = (state q)(jb_job_id j \<mapsto> Running)"
    and finish: "inv q \<Longrightarrow> state q i = Some Running \<Longrightarrow> finish i q = Inr q' \<Longrightarrow>
      inv q' \<and> state q' = (state q)(i \<mapsto> Done)"
    and fail: "inv q \<Longrightarrow> state q i = Some Running \<Longrightarrow> fail i e q = Inr q' \<Longrightarrow>
      inv q' \<and> (state q' = (state q)(i \<mapsto> Queued) \<or> state q' = (state q)(i \<mapsto> DeadLetter))"
begin

lemma tick_settles:
  assumes "inv q" "run_tick claim disp finish fail q = (q', r)"
  shows "inv q' \<and> tick_outcome state q q' r"
proof (cases "claim q")
  case (Pair q1 c)
  consider e where "c = Inl e" | "c = Inr None" | job where "c = Inr (Some job)"
    by (metis old.sum.exhaust option.exhaust)
  then show ?thesis
  proof cases
    case 3
    let ?i = "jb_job_id job"
    from claim_some [OF assms(1)] have c: "inv q1" "state q ?i = Some Queued"
      "state q1 = (state q)(?i \<mapsto> Running)" using Pair 3 by auto
    then have run: "state q1 ?i = Some Running" by simp
    show ?thesis
    proof (cases "case disp job of Inl e \<Rightarrow> Inl e | Inr _ \<Rightarrow> finish ?i q1")
      case (Inr q2)
      then have "finish ?i q1 = Inr q2" by (simp split: sum.splits)
      then show ?thesis using finish [OF c(1) run] assms(2) Pair 3 Inr c by (auto simp: run_tick_def tick_outcome_def)
    next
      case (Inl e)
      then show ?thesis
        using fail [OF c(1) run, of e] assms(2) Pair 3 c
        by (cases "fail ?i e q1") (auto simp: run_tick_def tick_outcome_def)
    qed
  qed (use assms Pair claim_none in \<open>auto simp: run_tick_def tick_outcome_def\<close>)
qed

end

interpretation pg_queue: job_queue queue_inv state_of "claim_job env" "finish_job env" "fail_job rp env"
proof unfold_locales
  fix db db' j assume inv: "queue_inv db" and c: "claim_job env db = (db', Inr (Some j))"
  obtain r where r: "next_job (tk_claim_time env) DISPATCHABLE_KINDS (tk_locked env) db = Some r"
    "j = job_of (claimed_row (tk_claim_time env) r)" "db' = claim_update (tk_claim_time env) (j_id r) db"
    using c claim_one_some unfolding claim_job_def by (metis Pair_inject sum.distinct(1))
  have q: "j_status r = Queued" using next_job_some(2) [OF r(1)] by (simp add: runnable_def)
  have m: "r \<in> set db" by (rule next_job_some(1) [OF r(1)])
  have i: "ids_ok db" "list_all row_wf db" using inv by (simp_all add: queue_inv_def)
  show "queue_inv db' \<and> state_of db (jb_job_id j) = Some Queued \<and>
      state_of db' = (state_of db)(jb_job_id j \<mapsto> Running)"
    using claim_update_wf [OF i m q] row_step_ids_ok [OF claim_update_step i(1)]
      state_of_row [OF i(1) m] state_of_step [OF claim_update_step i(1) m] q r(2,3)
    by (simp add: queue_inv_def)
next
  fix db db' i assume inv: "queue_inv db" and run: "state_of db i = Some Running"
    and f: "finish_job env i db = Inr db'"
  obtain r where r: "r \<in> set db" "j_job_id r = i" "j_status r = Running" using state_of_Some [OF run] by blast
  have i: "ids_ok db" "list_all row_wf db" using inv by (simp_all add: queue_inv_def)
  have "db' = mark_done (tk_close_time env) (j_job_id r) db"
    using f r(2) by (simp add: finish_job_def split: if_splits)
  then show "queue_inv db' \<and> state_of db' = (state_of db)(i \<mapsto> Done)"
    using mark_done_wf [OF i r(1,3)] row_step_ids_ok [OF mark_done_step [OF i(1) r(1)] i(1)]
      state_of_step [OF mark_done_step [OF i(1) r(1)] i(1) r(1)] r(2) by (simp add: queue_inv_def)
next
  fix db db' i e assume inv: "queue_inv db" and run: "state_of db i = Some Running"
    and f: "fail_job rp env i e db = Inr db'"
  obtain r where r: "r \<in> set db" "j_job_id r = i" "j_status r = Running" using state_of_Some [OF run] by blast
  have i: "ids_ok db" "list_all row_wf db" using inv by (simp_all add: queue_inv_def)
  have m: "mark_failed (tk_close_time env) (j_job_id r) (rp e) MAX_ATTEMPTS db = Inr db'"
    using f r(2) by (simp add: fail_job_def split: if_splits)
  obtain st where st: "st = (if MAX_ATTEMPTS \<le> j_attempts r then DeadLetter else Queued)" by blast
  have new: "j_status u' = st"
    if "u \<in> set db" "j_id u = j_id r" "failed_row (tk_close_time env) (rp e) MAX_ATTEMPTS u = Inr u'" for u u'
    using failed_row_keeps [OF that(3)] ids_ok_unique(1) [OF i(1) that(1) r(1) that(2)] st by simp
  have rs: "row_step (j_id r) (\<lambda>u u'. j_status u' = st) db db'"
    using mark_failed_step [OF i(1) r(1) m] unfolding row_step_def
    by (rule list.rel_mono_strong) (auto dest: new split: if_split_asm)
  have "state_of db' = (state_of db)(i \<mapsto> st)"
    using state_of_step [OF rs i(1) r(1)] r(2) by simp
  moreover have "queue_inv db'"
    using mark_failed_wf [OF i r(1,3) m] row_step_ids_ok [OF rs i(1)] by (simp add: queue_inv_def)
  moreover have "st = Queued \<or> st = DeadLetter" using st by simp
  ultimately show "queue_inv db' \<and>
      (state_of db' = (state_of db)(i \<mapsto> Queued) \<or> state_of db' = (state_of db)(i \<mapsto> DeadLetter))"
    by blast
qed (auto simp: claim_job_def claim_one_def split: if_splits option.splits)

text \<open>
  Claim C14. One worker tick settles the job it claims: if it returns, either the table is unchanged or
  exactly the reported job, queued before, is now done, queued again or dead-lettered, and no
  other job changed its state; if it raises, at most one queued job was moved to \<open>running\<close>.
\<close>

theorem run_once_settles:
  assumes "queue_inv db" "run_once rp env reg db = (db', r)"
  shows "queue_inv db' \<and> tick_outcome state_of db db' r"
proof (cases "tk_connected env")
  case True
  then show ?thesis
    using pg_queue.tick_settles [OF assms(1)] assms(2) by (simp add: run_once_def)
next
  case False
  then show ?thesis using assms by (auto simp: run_once_def tick_outcome_def)
qed

text \<open>
  \<open>claim_one\<close> picks the right job: it claims a runnable, unlocked row than which no runnable,
  unlocked row has a smaller priority and \<open>run_after\<close>, marks only that row running with one more
  attempt, and finds nothing exactly when no row is runnable and unlocked.
\<close>

theorem claim_one_spec:
  assumes "kinds \<noteq> []" "queue_inv db"
  shows "case snd (claim_one now kinds locked db) of
      Inl e \<Rightarrow> False
    | Inr None \<Rightarrow> list_all (\<lambda>u. \<not> (runnable now kinds u \<and> j_id u \<notin> locked)) db \<and>
        fst (claim_one now kinds locked db) = db
    | Inr (Some job) \<Rightarrow> list_ex (\<lambda>r. job = job_of (claimed_row now r) \<and> runnable now kinds r \<and>
          j_id r \<notin> locked \<and>
          list_all (\<lambda>u. \<not> (runnable now kinds u \<and> j_id u \<notin> locked) \<or> claim_key r \<le> claim_key u) db \<and>
          fst (claim_one now kinds locked db) =
            map (\<lambda>u. if j_id u = j_id r then claimed_row now u else u) db) db"
proof (cases "next_job now kinds locked db")
  case None
  then show ?thesis using assms(1) next_job_none [of now kinds locked db] by (simp add: claim_one_def)
next
  case (Some r)
  note n = next_job_some [OF Some]
  have "row_wf r" using assms(2) n(1) by (simp add: queue_inv_def list_all_iff)
  then have "smallint (j_attempts r + 1)"
    using n(2) by (simp add: row_wf_def runnable_def smallint_def MAX_ATTEMPTS_def)
  then show ?thesis using assms(1) Some n unfolding claim_one_def claim_update_def list_ex_iff by auto
qed

text \<open>
  A finished job stays finished: along any run of the system from a reachable state, the row
  of a job that is done or dead-lettered is never changed again, by any worker.
\<close>

theorem finished_jobs_final:
  assumes "queue_run s0 evs s" "initial_sys s0" "queue_run s evs' s'"
  shows "{r \<in> set (sys_jobs s). j_status r = Done \<or> j_status r = DeadLetter} \<subseteq> set (sys_jobs s')"
proof
  fix r assume "r \<in> {r \<in> set (sys_jobs s). j_status r = Done \<or> j_status r = DeadLetter}"
  then have r: "r \<in> set (sys_jobs s)" "j_status r \<in> {Done, DeadLetter}" by auto
  have wf: "sys_wf s" using queue_run_wf [OF assms(1) initial_wf [OF assms(2)]] .
  have "j_status r \<noteq> Queued" using r(2) by auto
  then show "r \<in> set (sys_jobs s')" using frozen_run [OF assms(3) wf r(1)] terminal_unheld [OF wf r] by blast
qed

text \<open>
  A job whose worker died is lost: nothing in the system ever requeues a \<open>running\<close> row that no
  worker holds, so along any run from a reachable state it stays running and is never started
  again.
\<close>

theorem orphaned_job_lost:
  assumes "queue_run s0 evs s" "initial_sys s0" "r \<in> set (sys_jobs s)" "j_status r = Running"
    "unheld s r" "queue_run s evs' s'"
  shows "r \<in> set (sys_jobs s')"
  using frozen_run [OF assms(6) queue_run_wf [OF assms(1) initial_wf [OF assms(2)]] assms(3)] assms(4,5)
  by simp

section \<open>The worker loop and a job that always fails\<close>

text \<open>\<open>run_forever\<close> over a finite number of ticks; an exception of a tick ends the process.\<close>

fun run_forever ::
    "(pyerr \<Rightarrow> pystr) \<Rightarrow> registry \<Rightarrow> tick_env list \<Rightarrow> jobs \<Rightarrow> jobs \<times> pyerr option" where
  "run_forever rp reg [] db = (db, None)"
| "run_forever rp reg (env # envs) db =
     (case run_once rp env reg db of
        (db', Inl e) \<Rightarrow> (db', Some e)
      | (db', Inr _) \<Rightarrow> run_forever rp reg envs db')"

text \<open>
  Ticks of a single worker, each connected and without failing statements, that leave the longest back-off of 16 seconds
  between one tick and the next.
\<close>

definition calm :: "tick_env \<Rightarrow> bool" where
  "calm env \<longleftrightarrow> tk_connected env \<and> tk_fault env = (\<lambda>_. False) \<and> tk_locked env = {}"

fun timely :: "int \<Rightarrow> tick_env list \<Rightarrow> bool" where
  "timely t [] = True"
| "timely t (env # envs) =
     (t \<le> tk_claim_time env \<and> tk_claim_time env \<le> tk_close_time env \<and> timely (tk_close_time env + 16000000) envs)"

definition due :: "int \<Rightarrow> jobs \<Rightarrow> bool" where
  "due t db \<longleftrightarrow> list_all (\<lambda>u. j_status u = Queued \<longrightarrow> j_run_after u \<le> t) db"

text \<open>The attempts the queued jobs have left.\<close>

definition attempts_left :: "job_row \<Rightarrow> nat" where
  "attempts_left u = (if j_status u = Queued then nat (MAX_ATTEMPTS - j_attempts u) else 0)"

definition remaining :: "jobs \<Rightarrow> nat" where
  "remaining db = sum_list (map attempts_left db)"

text \<open>What one attempt makes of the row of a job.\<close>

definition retried :: "int \<Rightarrow> pystr \<Rightarrow> job_row \<Rightarrow> job_row" where
  "retried now err c =
     (if MAX_ATTEMPTS \<le> j_attempts c then c\<lparr>j_status := DeadLetter, j_last_error := Some err, j_updated_at := now\<rparr>
      else c\<lparr>j_status := Queued, j_last_error := Some err, j_run_after := now + 1000000 * (j_attempts c * j_attempts c), j_updated_at := now\<rparr>)"

definition attempted :: "(pyerr \<Rightarrow> pystr) \<Rightarrow> tick_env \<Rightarrow> registry \<Rightarrow> job_row \<Rightarrow> job_row" where
  "attempted rp env reg u =
     (let c = claimed_row (tk_claim_time env) u in
      case dispatch reg (job_of c) of
        Inr _ \<Rightarrow> c\<lparr>j_status := Done, j_updated_at := tk_close_time env, j_last_error := None\<rparr>
      | Inl e \<Rightarrow> retried (tk_close_time env) (rp e) c)"

lemma failed_row_retried:
  assumes "0 \<le> j_attempts c" "j_attempts c \<le> MAX_ATTEMPTS"
  shows "failed_row now err MAX_ATTEMPTS c = Inr (retried now err c)"
proof -
  have "j_attempts c \<in> {0, 1, 2, 3, 4, 5}" using assms by (auto simp: MAX_ATTEMPTS_def)
  then show ?thesis by (auto simp: failed_row_def retried_def MAX_ATTEMPTS_def smallint_def)
qed

lemma mark_failed_map:
  "list_all (\<lambda>u. j_job_id u = i \<longrightarrow> 0 \<le> j_attempts u \<and> j_attempts u \<le> MAX_ATTEMPTS) db \<Longrightarrow>
     mark_failed now i err MAX_ATTEMPTS db = Inr (map (\<lambda>u. if j_job_id u = i then retried now err u else u) db)"
  by (induction db) (auto simp: failed_row_retried)

text \<open>With something to claim, a calm tick makes one attempt at the first job, and touches nothing else.\<close>

lemma calm_attempt:
  assumes "queue_inv db" "calm env" "next_job (tk_claim_time env) DISPATCHABLE_KINDS {} db = Some r"
  shows "\<exists>st. run_once rp env reg db = (map (\<lambda>u. if j_id u = j_id r then attempted rp env reg u else u) db, Inr st)"
proof -
  note n = next_job_some [OF assms(3)]
  have ids: "ids_ok db" using assms(1) by (simp add: queue_inv_def)
  have wf: "row_wf r" using assms(1) n(1) by (simp add: queue_inv_def list_all_iff)
  have a: "0 \<le> j_attempts r" "j_attempts r < MAX_ATTEMPTS"
    using wf n(2) by (auto simp: row_wf_def runnable_def)
  let ?c = "claimed_row (tk_claim_time env) r"
  have same: "(j_job_id u = j_job_id r) = (j_id u = j_id r)" "j_id u = j_id r \<Longrightarrow> u = r" if "u \<in> set db" for u
    using ids_ok_unique [OF ids that n(1)] by auto
  have c: "claim_job env db = (claim_update (tk_claim_time env) (j_id r) db, Inr (Some (job_of ?c)))"
    using assms(2,3) a by (simp add: claim_job_def calm_def claim_one_def DISPATCHABLE_KINDS_def smallint_def MAX_ATTEMPTS_def)
  have finished: "finish_job env (j_job_id r) (claim_update (tk_claim_time env) (j_id r) db) =
      Inr (map (\<lambda>u. if j_id u = j_id r then ?c\<lparr>j_status := Done, j_updated_at := tk_close_time env, j_last_error := None\<rparr> else u) db)"
    using assms(2) same by (auto simp: finish_job_def calm_def mark_done_def claim_update_def)
  have failed: "fail_job rp env (j_job_id r) e (claim_update (tk_claim_time env) (j_id r) db) =
      Inr (map (\<lambda>u. if j_id u = j_id r then retried (tk_close_time env) (rp e) ?c else u) db)" for e
  proof -
    have "list_all (\<lambda>u. j_job_id u = j_job_id r \<longrightarrow> 0 \<le> j_attempts u \<and> j_attempts u \<le> MAX_ATTEMPTS) (claim_update (tk_claim_time env) (j_id r) db)"
      unfolding list_all_iff claim_update_def by (auto simp: same a) (use same(2) a in fastforce)+
    then show ?thesis
      using assms(2) same by (auto simp: fail_job_def calm_def mark_failed_map claim_update_def)
  qed
  have "map (\<lambda>u. if j_id u = j_id r then attempted rp env reg u else u) db =
      map (\<lambda>u. if j_id u = j_id r then attempted rp env reg r else u) db"
    using same(2) by auto
  then show ?thesis
    using assms(2) c finished failed by (cases "dispatch reg (job_of ?c)") (simp_all add: run_once_def run_tick_def calm_def attempted_def Let_def)
qed

text \<open>The rows of a tick: nothing but queued jobs change, into queued, done or dead ones, and each attempt counts.\<close>

definition kept :: "job_row \<Rightarrow> job_row \<Rightarrow> bool" where
  "kept u u' \<longleftrightarrow> (if j_status u = Queued then j_job_id u' = j_job_id u \<and> j_status u' \<in> {Queued, Done, DeadLetter} else u' = u)"

lemma kept_refl: "list_all row_wf db \<Longrightarrow> list_all2 kept db db"
  by (auto simp: list_all2_same kept_def)

lemma kept_trans: "list_all2 kept db db' \<Longrightarrow> list_all2 kept db' db'' \<Longrightarrow> list_all2 kept db db''"
  by (rule list_all2_trans [of kept kept kept]) (auto simp: kept_def split: if_splits)

text \<open>The job that always fails: queued, or dead with its error.\<close>

definition doomed :: "pystr \<Rightarrow> pystr \<Rightarrow> job_row \<Rightarrow> bool" where
  "doomed i err u \<longleftrightarrow> (j_job_id u = i \<longrightarrow>
     j_status u = Queued \<or> (j_status u = DeadLetter \<and> j_attempts u = MAX_ATTEMPTS \<and> j_last_error u = Some err))"

lemma attempted_row:
  assumes "row_wf u" "j_status u = Queued"
  shows "kept u (attempted rp env reg u)" "attempts_left (attempted rp env reg u) < attempts_left u"
    and "j_status (attempted rp env reg u) = Queued \<Longrightarrow> j_run_after (attempted rp env reg u) \<le> tk_close_time env + 16000000"
    and "(\<And>job. jb_job_id job = i \<Longrightarrow> dispatch reg job = Inl e) \<Longrightarrow> doomed i (rp e) (attempted rp env reg u)"
proof -
  have a: "0 \<le> j_attempts u" "j_attempts u < MAX_ATTEMPTS" using assms by (simp_all add: row_wf_def)
  then have sq: "(j_attempts u + 1) * (j_attempts u + 1) \<le> 16" if "\<not> MAX_ATTEMPTS \<le> j_attempts u + 1"
  proof -
    have "j_attempts u \<in> {0, 1, 2, 3}" using a that by (auto simp: MAX_ATTEMPTS_def)
    then show ?thesis by auto
  qed
  show "kept u (attempted rp env reg u)"
    using assms(2) by (auto simp: kept_def attempted_def retried_def Let_def split: sum.split)
  show "attempts_left (attempted rp env reg u) < attempts_left u"
    using assms(2) a by (auto simp: attempts_left_def attempted_def retried_def Let_def split: sum.split)
  show "j_status (attempted rp env reg u) = Queued \<Longrightarrow> j_run_after (attempted rp env reg u) \<le> tk_close_time env + 16000000"
    using sq by (auto simp: attempted_def retried_def Let_def split: sum.splits if_splits)
  show "doomed i (rp e) (attempted rp env reg u)" if "\<And>job. jb_job_id job = i \<Longrightarrow> dispatch reg job = Inl e"
    using that a by (auto simp: doomed_def attempted_def retried_def Let_def split: sum.split)
qed

lemma remaining_zero: "queue_inv db \<Longrightarrow> remaining db = 0 \<longleftrightarrow> list_all (\<lambda>u. j_status u \<noteq> Queued) db"
proof -
  have "attempts_left u = 0 \<longleftrightarrow> j_status u \<noteq> Queued" if "row_wf u" for u
    using that by (auto simp: attempts_left_def row_wf_def)
  moreover assume "queue_inv db"
  ultimately show ?thesis by (auto simp: remaining_def queue_inv_def list_all_iff)
qed

lemma remaining_map_less:
  assumes "r \<in> set db" "attempts_left (f r) < attempts_left r" "\<And>u. u \<in> set db \<Longrightarrow> attempts_left (f u) \<le> attempts_left u"
  shows "remaining (map f db) < remaining db"
proof -
  obtain xs ys where db: "db = xs @ r # ys" using split_list [OF assms(1)] by blast
  have "sum_list (map (attempts_left \<circ> f) zs) \<le> sum_list (map attempts_left zs)" if "set zs \<subseteq> set db" for zs
    using that assms(3) by (induction zs) (auto intro: add_mono)
  from this [of xs] this [of ys] have "sum_list (map (attempts_left \<circ> f) xs) \<le> sum_list (map attempts_left xs)"
    "sum_list (map (attempts_left \<circ> f) ys) \<le> sum_list (map attempts_left ys)" by (auto simp: db)
  then show ?thesis using assms(2) by (simp add: remaining_def db)
qed

text \<open>A calm tick that comes in time uses up an attempt, or there is nothing queued.\<close>

lemma calm_tick:
  assumes "queue_inv db" "calm env" "due (tk_claim_time env) db" "tk_claim_time env \<le> tk_close_time env"
    "list_all (doomed i (rp e)) db" "\<And>job. jb_job_id job = i \<Longrightarrow> dispatch reg job = Inl e"
  shows "\<exists>db' st. run_once rp env reg db = (db', Inr st) \<and> queue_inv db' \<and> list_all2 kept db db' \<and>
    due (tk_close_time env + 16000000) db' \<and> list_all (doomed i (rp e)) db' \<and> (remaining db' < remaining db \<or> remaining db = 0 \<and> db' = db)"
proof (cases "next_job (tk_claim_time env) DISPATCHABLE_KINDS {} db")
  case None
  have "\<not> runnable (tk_claim_time env) DISPATCHABLE_KINDS u" if "u \<in> set db" for u
    using None that unfolding next_job_none by (simp add: list_all_iff)
  then have none: "list_all (\<lambda>u. j_status u \<noteq> Queued) db"
    using assms(1,3) by (auto simp: list_all_iff runnable_def due_def queue_inv_def row_wf_def jobs_kind_check_def DISPATCHABLE_KINDS_def)
  have "claim_job env db = (db, Inr None)" using None assms(2) by (simp add: claim_job_def calm_def claim_one_def DISPATCHABLE_KINDS_def)
  then have "run_once rp env reg db = (db, Inr \<lparr>ts_job = Some None, ts_job_status = None\<rparr>)"
    using assms(2) by (simp add: run_once_def run_tick_def calm_def)
  moreover have "due (tk_close_time env + 16000000) db" using none by (auto simp: due_def list_all_iff)
  ultimately show ?thesis
    using assms(1,5) none remaining_zero [OF assms(1)] kept_refl [of db] by (auto simp: queue_inv_def)
next
  case (Some r)
  note n = next_job_some [OF Some]
  have q: "j_status r = Queued" using n(2) by (simp add: runnable_def)
  have ids: "ids_ok db" and rows: "list_all row_wf db" using assms(1) by (simp_all add: queue_inv_def)
  have wf: "row_wf r" using rows n(1) by (simp add: list_all_iff)
  let ?f = "\<lambda>u. if j_id u = j_id r then attempted rp env reg u else u"
  obtain st where run: "run_once rp env reg db = (map ?f db, Inr st)" using calm_attempt [OF assms(1,2) Some] by blast
  have only: "u = r" if "u \<in> set db" "j_id u = j_id r" for u using ids_ok_unique(1) [OF ids that(1) n(1) that(2)] .
  note att = attempted_row [OF wf q, where rp = rp and env = env and reg = reg]
  have "attempts_left (?f u) \<le> attempts_left u" if "u \<in> set db" for u
    using only [OF that] att(2) by (cases "j_id u = j_id r") (simp_all add: less_imp_le)
  moreover have "attempts_left (?f r) < attempts_left r" using att(2) by simp
  ultimately have less: "remaining (map ?f db) < remaining db" using remaining_map_less [OF n(1), of ?f] by blast
  have "queue_inv (map ?f db)" using pg_queue.tick_settles [OF assms(1)] run assms(2) by (simp add: run_once_def calm_def)
  moreover have "kept u (?f u)" if "u \<in> set db" for u
    using only [OF that] att(1) by (cases "j_id u = j_id r") (simp_all add: kept_def)
  then have "list_all2 kept db (map ?f db)" by (simp add: list_all2_map2 list_all2_same)
  moreover have "j_status (?f u) = Queued \<longrightarrow> j_run_after (?f u) \<le> tk_close_time env + 16000000" if "u \<in> set db" for u
    using only [OF that] att(3) assms(3,4) that by (cases "j_id u = j_id r") (auto simp: due_def list_all_iff)
  then have "due (tk_close_time env + 16000000) (map ?f db)" unfolding due_def list_all_iff set_map by blast
  moreover have "doomed i (rp e) (?f u)" if "u \<in> set db" for u
    using only [OF that] att(4) [OF assms(6)] assms(5) that by (cases "j_id u = j_id r") (auto simp: list_all_iff)
  then have "list_all (doomed i (rp e)) (map ?f db)" unfolding list_all_iff set_map by blast
  ultimately show ?thesis using run less by blast
qed

lemma due_mono: "due t db \<Longrightarrow> t \<le> t' \<Longrightarrow> due t' db"
  by (auto simp: due_def list_all_iff)

lemma queue_drained:
  assumes "queue_inv db" "list_all calm envs" "timely t envs" "due t db" "remaining db \<le> length envs"
    "list_all (doomed i (rp e)) db" "\<And>job. jb_job_id job = i \<Longrightarrow> dispatch reg job = Inl e"
  shows "\<exists>db'. run_forever rp reg envs db = (db', None) \<and> list_all2 kept db db' \<and> list_all (\<lambda>u. j_status u \<noteq> Queued) db' \<and>
    list_all (doomed i (rp e)) db'"
  using assms(1-6)
proof (induction envs arbitrary: db t)
  case Nil
  then show ?case using remaining_zero [of db] kept_refl [of db] by (auto simp: queue_inv_def)
next
  case (Cons env envs)
  have "due (tk_claim_time env) db" using Cons.prems(3,4) by (auto elim: due_mono)
  then obtain db1 st where one: "run_once rp env reg db = (db1, Inr st)" "queue_inv db1" "list_all2 kept db db1"
    "due (tk_close_time env + 16000000) db1" "list_all (doomed i (rp e)) db1" "remaining db1 < remaining db \<or> remaining db = 0 \<and> db1 = db"
    using calm_tick [of db env i rp e reg] Cons.prems assms(7) by auto
  have "remaining db1 \<le> length envs" using one(6) Cons.prems(5) by auto
  then obtain db' where "run_forever rp reg envs db1 = (db', None)" "list_all2 kept db1 db'" "list_all (\<lambda>u. j_status u \<noteq> Queued) db'"
    "list_all (doomed i (rp e)) db'"
    using Cons.IH [of db1 "tk_close_time env + 16000000"] one(2,4,5) Cons.prems(2,3) by auto
  then show ?case using one(1,3) kept_trans by auto
qed

text \<open>
  Claim C15. A worker that ticks in time drains its queue, and a job in it that always fails ends in the dead-letter state.
  The queue holds any jobs, of any priorities; there are as many ticks as the queued jobs have attempts left, each a
  back-off time after the one before. Then the worker is still alive, the failing job was started \<open>MAX_ATTEMPTS\<close>
  times and is dead-lettered with its error, every other queued job is done or dead-lettered too, and no other row was touched.
\<close>

theorem failing_job_dead_lettered:
  assumes "queue_inv db" "r \<in> set db" "j_status r = Queued" "\<And>job. jb_job_id job = j_job_id r \<Longrightarrow> dispatch reg job = Inl err"
    "list_all calm envs" "timely t envs" "due t db" "remaining db \<le> length envs"
  shows "\<exists>db'. run_forever rp reg envs db = (db', None) \<and>
    (\<exists>r' \<in> set db'. j_job_id r' = j_job_id r \<and> j_status r' = DeadLetter \<and> j_attempts r' = MAX_ATTEMPTS \<and> j_last_error r' = Some (rp err)) \<and>
    list_all2 (\<lambda>u u'. if j_status u = Queued then j_job_id u' = j_job_id u \<and> j_status u' \<in> {Done, DeadLetter} else u' = u) db db'"
proof -
  have "list_all (doomed (j_job_id r) (rp err)) db"
    using assms(1-3) ids_ok_unique(2) [of db _ r] by (auto simp: list_all_iff doomed_def queue_inv_def)
  then obtain db' where d: "run_forever rp reg envs db = (db', None)" "list_all2 kept db db'" "list_all (\<lambda>u. j_status u \<noteq> Queued) db'"
    "list_all (doomed (j_job_id r) (rp err)) db'"
    using queue_drained [OF assms(1,5-8), of "j_job_id r" rp err reg] assms(4) by blast
  obtain r' where r': "r' \<in> set db'" "kept r r'"
    using d(2) assms(2) by (metis in_set_conv_nth list_all2_conv_all_nth)
  then have "j_job_id r' = j_job_id r" using assms(3) by (simp add: kept_def)
  moreover have "j_status r' \<noteq> Queued" "doomed (j_job_id r) (rp err) r'" using r'(1) d(3,4) by (simp_all add: list_all_iff)
  ultimately have "\<exists>r' \<in> set db'. j_job_id r' = j_job_id r \<and> j_status r' = DeadLetter \<and> j_attempts r' = MAX_ATTEMPTS \<and> j_last_error r' = Some (rp err)"
    using r'(1) by (auto simp: doomed_def)
  moreover have "list_all2 (\<lambda>u u'. if j_status u = Queued then j_job_id u' = j_job_id u \<and> j_status u' \<in> {Done, DeadLetter} else u' = u) db db'"
    using d(2,3) by (auto simp: list_all2_conv_all_nth list_all_length kept_def)
  ultimately show ?thesis using d(1) by blast
qed

section \<open>A concrete run\<close>

text \<open>One job is queued, claimed by worker 0 and committed; then the worker finishes it or dies.\<close>

definition sys0 :: sys where
  "sys0 = \<lparr>sys_jobs = [], sys_workers = (\<lambda>w. Idle)\<rparr>"

definition row1 :: job_row where
  "row1 = \<lparr>j_id = 1, j_job_id = lit ''j1'', j_kind = lit ''fetch'', j_payload = PDict [],
     j_status = Queued, j_priority = 5, j_attempts = 0, j_last_error = None, j_run_after = 0,
     j_ingest_run_id = None, j_updated_at = 0\<rparr>"

definition job1 :: job where
  "job1 = job_of (claimed_row 1 row1)"

definition sys_running :: sys where
  "sys_running = \<lparr>sys_jobs = [claimed_row 1 row1], sys_workers = (\<lambda>w. Idle)(0 := Working job1)\<rparr>"

definition sys_done :: sys where
  "sys_done = \<lparr>sys_jobs = mark_done 2 (lit ''j1'') [claimed_row 1 row1], sys_workers = (\<lambda>w. Idle)\<rparr>"

lemma sys0_initial: "initial_sys sys0"
  by (simp add: initial_sys_def sys0_def)

lemma row1_simps [simp]:
  "j_id row1 = 1" "j_job_id row1 = lit ''j1''" "j_kind row1 = lit ''fetch''" "j_status row1 = Queued"
  "j_attempts row1 = 0" "j_run_after row1 = 0"
  by (simp_all add: row1_def)

lemma job1_simps [simp]: "jb_id job1 = 1" "jb_job_id job1 = lit ''j1''"
  by (simp_all add: job1_def)

lemma run_to_running: "queue_run sys0 [lit ''j1''] sys_running"
proof -
  let ?s1 = "sys0\<lparr>sys_jobs := [row1]\<rparr>"
  let ?s2 = "set_phase 0 (Claiming job1 1) ?s1"
  have e: "enqueue (lit ''j1'') 0 (lit ''fetch'') (PDict []) 5 None None (sys_jobs sys0) =
      ([row1], Inr (lit ''j1''))"
    by (simp add: enqueue_def sys0_def row1_def jobs_kind_check_def smallint_def)
  have c: "claim_one 1 DISPATCHABLE_KINDS (locks ?s1) (sys_jobs ?s1) = ([claimed_row 1 row1], Inr (Some job1))"
    by (simp add: claim_one_def next_job_def runnable_def DISPATCHABLE_KINDS_def locks_def sys0_def
        job1_def claim_update_def smallint_def)
  have s3: "sys_running = set_phase 0 (Working job1)
      (?s2\<lparr>sys_jobs := claim_update 1 (jb_id job1) (sys_jobs ?s2)\<rparr>)"
    by (simp add: sys_running_def set_phase_def sys0_def claim_update_def)
  have w: "sys_workers ?s1 0 = Idle" "sys_workers ?s2 0 = Claiming job1 1"
    by (simp_all add: sys0_def set_phase_def)
  have "queue_run sys0 [] ?s1"
    using run_more [OF run_none step_enqueue [OF e]] by simp
  then have "queue_run sys0 [] ?s2"
    using run_more [OF _ step_claim [OF w(1) c]] by force
  then show ?thesis
    using run_more [OF _ step_commit [OF w(2)]] s3 by force
qed

lemma run_to_done: "queue_run sys0 [lit ''j1''] sys_done"
proof -
  have "sys_workers sys_running 0 = Working job1" by (simp add: sys_running_def)
  from step_done [OF this, of 2] have "queue_step sys_running None
      (set_phase 0 Idle (sys_running\<lparr>sys_jobs := mark_done 2 (jb_job_id job1) (sys_jobs sys_running)\<rparr>))" .
  moreover have "sys_done =
      set_phase 0 Idle (sys_running\<lparr>sys_jobs := mark_done 2 (jb_job_id job1) (sys_jobs sys_running)\<rparr>)"
    by (simp add: sys_done_def sys_running_def set_phase_def fun_eq_iff)
  ultimately have "queue_step sys_running None sys_done" by simp
  then show ?thesis using run_more [OF run_to_running] by force
qed

lemma jobs_exclusive_witness:
  "held (sys_workers sys_running 0) = Some job1 \<and> backed Running job1 (sys_jobs sys_running)"
  using jobs_exclusive [OF run_to_running sys0_initial, of 0 job1 0 job1] by (simp add: sys_running_def)

lemma starts_bounded_witness:
  "int (count_list [lit ''j1''] (lit ''j1'')) \<le> MAX_ATTEMPTS \<and> map j_attempts (sys_jobs sys_running) = [1]"
  using starts_bounded [OF run_to_running sys0_initial, of "lit ''j1''"] by (simp add: sys_running_def)

definition quiet_env :: "int \<Rightarrow> tick_env" where
  "quiet_env t = \<lparr>tk_connected = True, tk_locked = {}, tk_claim_time = t, tk_close_time = t,
     tk_fault = (\<lambda>_. False)\<rparr>"

lemma row1_inv: "queue_inv [row1]"
  by (simp add: queue_inv_def ids_ok_def row_wf_def jobs_kind_check_def MAX_ATTEMPTS_def)

lemma failed_tick:
  "run_once (\<lambda>_. lit ''err'') (quiet_env 0) (\<lambda>_. Some (\<lambda>_. Inl RuntimeError)) [row1] =
     ([row1\<lparr>j_attempts := 1, j_last_error := Some (lit ''err''), j_run_after := 1000000\<rparr>],
      Inr \<lparr>ts_job = Some (Some (lit ''j1'')), ts_job_status = Some (lit ''failed'')\<rparr>)"
  by (simp add: run_once_def run_tick_def claim_job_def claim_one_def next_job_def runnable_def quiet_env_def
      DISPATCHABLE_KINDS_def smallint_def claim_update_def dispatch_def lookup_handler_def job_adapter_def
      job_of_def claimed_row_def fail_job_def MAX_ATTEMPTS_def failed_row_def Let_def py_or_def row1_def)

lemma run_once_settles_witness:
  "tick_outcome state_of [row1] [row1\<lparr>j_attempts := 1, j_last_error := Some (lit ''err''),
      j_run_after := 1000000\<rparr>]
     (Inr \<lparr>ts_job = Some (Some (lit ''j1'')), ts_job_status = Some (lit ''failed'')\<rparr>)"
  using run_once_settles [OF row1_inv failed_tick] by blast

text \<open>A job that fails, of the lower priority, beside one that succeeds and one whose worker died.\<close>

definition row2 :: job_row where
  "row2 = row1\<lparr>j_id := 2, j_job_id := lit ''j2'', j_kind := lit ''parse'', j_priority := 1\<rparr>"

definition row3 :: job_row where
  "row3 = row1\<lparr>j_id := 3, j_job_id := lit ''j3'', j_status := Running, j_attempts := 1\<rparr>"

definition mixed_registry :: registry where
  "mixed_registry k = Some (\<lambda>job. if jb_job_id job = lit ''j1'' then Inl TypeError else Inr ())"

definition ten_ticks :: "tick_env list" where
  "ten_ticks = map (\<lambda>k. quiet_env (16000000 * k)) [0, 1, 2, 3, 4, 5, 6, 7, 8, 9]"

lemma failing_job_dead_lettered_witness:
  "\<exists>db'. run_forever (\<lambda>_. lit ''err'') mixed_registry ten_ticks [row1, row2, row3] = (db', None) \<and> row3 \<in> set db' \<and>
     (\<exists>r' \<in> set db'. j_job_id r' = lit ''j1'' \<and> j_status r' = DeadLetter)"
proof -
  have inv: "queue_inv [row1, row2, row3]"
    by (simp add: queue_inv_def ids_ok_def row_wf_def row2_def row3_def jobs_kind_check_def MAX_ATTEMPTS_def)
  have d: "dispatch mixed_registry job = Inl TypeError" if "jb_job_id job = lit ''j1''" for job
    using that by (simp add: mixed_registry_def dispatch_def lookup_handler_def job_adapter_def vget_def Let_def
        split: pyval.split option.split)
  have t: "list_all calm ten_ticks" "timely 0 ten_ticks" "remaining [row1, row2, row3] \<le> length ten_ticks" "due 0 [row1, row2, row3]"
    by (simp_all add: ten_ticks_def quiet_env_def calm_def remaining_def attempts_left_def row2_def row3_def due_def MAX_ATTEMPTS_def)
  obtain db' where "run_forever (\<lambda>_. lit ''err'') mixed_registry ten_ticks [row1, row2, row3] = (db', None)"
    "\<exists>r' \<in> set db'. j_job_id r' = lit ''j1'' \<and> j_status r' = DeadLetter"
    "list_all2 (\<lambda>u u'. if j_status u = Queued then j_job_id u' = j_job_id u \<and> j_status u' \<in> {Done, DeadLetter} else u' = u) [row1, row2, row3] db'"
    using failing_job_dead_lettered [OF inv, of row1 mixed_registry TypeError ten_ticks 0 "\<lambda>_. lit ''err''"] d t by auto
  then show ?thesis by (auto simp: list_all2_Cons1 row3_def)
qed

end
