(* ===== verification/Retrieval.thy ===== *)
theory Retrieval
  imports Py_Prelude "HOL-Library.Multiset"
begin

text \<open>
  \<open>services/retrieval/src/civic_retrieval/\<close>: the evidence records of the graph and the
  lexical layer, how rows and hits are turned into them (\<open>graph.py\<close>, \<open>lexical.py\<close>), and the
  reranker (\<open>rerank.py\<close>). The Neo4j driver and the OpenSearch client are parameters: a row
  and a hit have the shape their templates and responses promise, with \<open>None\<close> for a missing
  or null field. Cypher text is opaque.

  Every axis score and every weight is a multiple of 1/20, so an overall score is a multiple of
  1/400 and has at most four decimals: \<open>round(x, 4)\<close> then returns it unchanged, and comparing
  two of them as rationals agrees with comparing the floats nearest to them.
\<close>

section \<open>Graph evidence\<close>

record graph_evidence =
  ge_claim_type :: pystr
  ge_node_ids :: "pystr dict"
  ge_properties :: "pyval dict"
  ge_source_document_ids :: "pystr list"
  ge_source_tier :: int

record graph_row =
  gr_node_ids :: "pyval dict option"
  gr_properties :: "pyval dict option"
  gr_source_document_ids :: "pyval list option"
  gr_source_tier :: "int option"

definition or_default :: "'a option \<Rightarrow> 'a \<Rightarrow> 'a" where
  "or_default x d = (case x of None \<Rightarrow> d | Some a \<Rightarrow> a)"

definition record_to_evidence :: "(pyval \<Rightarrow> pystr) \<Rightarrow> pystr \<Rightarrow> graph_row \<Rightarrow> graph_evidence" where
  "record_to_evidence rp claim_type row =
     \<lparr>ge_claim_type = claim_type,
      ge_node_ids = map (\<lambda>(k, v). (k, py_str rp v)) (or_default (gr_node_ids row) []),
      ge_properties = or_default (gr_properties row) [],
      ge_source_document_ids = map (py_str rp) (or_default (gr_source_document_ids row) []),
      ge_source_tier = or_default (gr_source_tier row) 1\<rparr>"

text \<open>
  \<open>templates\<close> is the directory of Cypher files, \<open>run\<close> the driver: a session that runs a
  template with parameters, or raises.
\<close>

type_synonym graph_driver = "pystr \<Rightarrow> pyval dict \<Rightarrow> pyerr + graph_row list"

definition graph_retrieve ::
    "(pyval \<Rightarrow> pystr) \<Rightarrow> pystr dict \<Rightarrow> graph_driver \<Rightarrow> pystr \<Rightarrow> pyval dict \<Rightarrow>
     pyerr + graph_evidence list" where
  "graph_retrieve rp templates run claim_type params =
     (case dget templates claim_type of
        None \<Rightarrow> Inl FileNotFoundError
      | Some template \<Rightarrow> map_sum id (map (record_to_evidence rp claim_type)) (run template params))"

section \<open>Lexical evidence\<close>

record lexical_evidence =
  le_span_id :: pystr
  le_document_id :: pystr
  le_text :: pystr
  le_source_tier :: int
  le_score :: rat
  le_properties :: "pyval dict"

record search_hit =
  h_source :: "pyval dict option"
  h_id :: pyval
  h_score :: "rat option"

definition span_field :: "pystr \<Rightarrow> bool" where
  "span_field k \<longleftrightarrow> k \<in> {lit ''span_id'', lit ''document_id'', lit ''text'', lit ''source_tier''}"

definition unpack_hit :: "(pyval \<Rightarrow> pystr) \<Rightarrow> search_hit \<Rightarrow> pyerr + lexical_evidence" where
  "unpack_hit rp hit =
     (let src = or_default (h_source hit) [] in
      case py_int (py_or (vget src (lit ''source_tier'')) (PInt 2)) of
        Inl e \<Rightarrow> Inl e
      | Inr tier \<Rightarrow>
          Inr \<lparr>le_span_id =
                 py_str rp (py_or (vget src (lit ''span_id'')) (py_or (h_id hit) (PStr []))),
               le_document_id = py_str rp (py_or (vget src (lit ''document_id'')) (PStr [])),
               le_text = py_str rp (py_or (vget src (lit ''text'')) (PStr [])),
               le_source_tier = tier, le_score = or_default (h_score hit) 0,
               le_properties = filter (\<lambda>(k, v). \<not> span_field k) src\<rparr>)"

fun unpack_hits :: "(pyval \<Rightarrow> pystr) \<Rightarrow> search_hit list \<Rightarrow> pyerr + lexical_evidence list" where
  "unpack_hits rp [] = Inr []"
| "unpack_hits rp (h # hs) =
     (case unpack_hit rp h of
        Inl e \<Rightarrow> Inl e
      | Inr x \<Rightarrow> (case unpack_hits rp hs of Inl e \<Rightarrow> Inl e | Inr xs \<Rightarrow> Inr (x # xs)))"

definition build_body ::
    "(pystr \<Rightarrow> rat list) option \<Rightarrow> bool \<Rightarrow> pystr \<Rightarrow> int \<Rightarrow> pyval dict \<Rightarrow> pyval" where
  "build_body embedder vector_enabled query_text top_k filters =
     (let must = (if query_text = [] then []
            else [PDict [(lit ''multi_match'', PDict
                   [(lit ''query'', PStr query_text),
                    (lit ''fields'', PList [PLit ''text^2'', PLit ''normalized_text'']),
                    (lit ''type'', PLit ''best_fields'')])]]);
          filter_clauses = map (\<lambda>(k, v). PDict [(lit ''term'', PDict [(k, v)])])
            (filter (\<lambda>(k, v). v \<noteq> PNone) filters);
          body = [(lit ''size'', PInt top_k),
            (lit ''query'', PDict [(lit ''bool'', PDict
              [(lit ''must'', PList (if must = [] then [PDict [(lit ''match_all'', PDict [])]] else must)),
               (lit ''filter'', PList filter_clauses)])])]
      in PDict
        (case embedder of
           Some emb \<Rightarrow>
             if vector_enabled \<and> query_text \<noteq> []
             then dset body (lit ''knn'') (PDict
                    [(lit ''field'', PLit ''embedding''),
                     (lit ''query_vector'', PList (map PFloat (emb query_text))),
                     (lit ''k'', PInt top_k),
                     (lit ''num_candidates'', PInt (max (top_k * 4) 100))])
             else body
         | None \<Rightarrow> body))"

text \<open>The client answers with its hits, or raises; a response without hits has none.\<close>

type_synonym search_client = "pystr \<Rightarrow> pyval \<Rightarrow> pyerr + search_hit list"

definition lexical_search ::
    "(pyval \<Rightarrow> pystr) \<Rightarrow> search_client \<Rightarrow> pystr \<Rightarrow> (pystr \<Rightarrow> rat list) option \<Rightarrow> bool \<Rightarrow>
     pystr \<Rightarrow> int \<Rightarrow> pyval dict \<Rightarrow> pyerr + lexical_evidence list" where
  "lexical_search rp client index embedder vector_enabled query_text top_k filters =
     (case client index (build_body embedder vector_enabled query_text top_k filters) of
        Inl e \<Rightarrow> Inl e
      | Inr hits \<Rightarrow> unpack_hits rp hits)"

section \<open>Axis scores\<close>

datatype evidence = Graph graph_evidence | Lexical lexical_evidence

datatype axis =
    SourceTier
  | Directness
  | TemporalAlignment
  | EntityResolution
  | CrossSourceConsistency

definition axes :: "axis list" where
  "axes = [SourceTier, Directness, TemporalAlignment, EntityResolution, CrossSourceConsistency]"

fun WEIGHTS :: "axis \<Rightarrow> rat" where
  "WEIGHTS SourceTier = 30 / 100"
| "WEIGHTS Directness = 25 / 100"
| "WEIGHTS TemporalAlignment = 20 / 100"
| "WEIGHTS EntityResolution = 15 / 100"
| "WEIGHTS CrossSourceConsistency = 10 / 100"

record rerank_score =
  rs_axis :: "axis \<Rightarrow> rat"
  rs_overall :: rat
  rs_evidence :: evidence

definition source_tier_score :: "int \<Rightarrow> rat" where
  "source_tier_score tier =
     (if tier = 1 then 1 else if tier = 2 then 6 / 10 else if tier = 3 then 3 / 10 else 1 / 10)"

fun directness_score :: "evidence \<Rightarrow> pystr \<Rightarrow> rat" where
  "directness_score (Graph e) claim_type = (if ge_claim_type e = claim_type then 1 else 6 / 10)"
| "directness_score (Lexical e) claim_type =
     (let text = py_strip (le_text e) in
      if text = [] then 0 else if length text < 160 then 75 / 100 else 5 / 10)"

text \<open>A claim's time scope is a mapping with \<open>start\<close> and \<open>end\<close>; an empty one counts as absent.\<close>

definition bound :: "pystr option dict \<Rightarrow> string \<Rightarrow> pystr option" where
  "bound scope k = (case dget scope (lit k) of None \<Rightarrow> None | Some x \<Rightarrow> x)"

definition before_start :: "pystr option dict \<Rightarrow> pystr \<Rightarrow> bool" where
  "before_start scope t \<longleftrightarrow>
     (case bound scope ''start'' of None \<Rightarrow> False | Some s \<Rightarrow> s \<noteq> [] \<and> t < s)"

definition after_end :: "pystr option dict \<Rightarrow> pystr \<Rightarrow> bool" where
  "after_end scope t \<longleftrightarrow>
     (case bound scope ''end'' of None \<Rightarrow> False | Some e \<Rightarrow> e \<noteq> [] \<and> t > e)"

fun temporal_score :: "(pyval \<Rightarrow> pystr) \<Rightarrow> evidence \<Rightarrow> pystr option dict \<Rightarrow> rat" where
  "temporal_score rp (Graph e) scope =
     (if scope = [] then 5 / 10
      else
        (let occurred = py_str rp (py_or (vget (ge_properties e) (lit ''occurred_at'')) (PStr [])) in
         if occurred = [] then 6 / 10
         else if before_start scope occurred then 2 / 10
         else if after_end scope occurred then 2 / 10
         else 1))"
| "temporal_score rp (Lexical e) scope =
     (if scope = [] then 5 / 10
      else
        (let captured = py_str rp (py_or (vget (le_properties e) (lit ''captured_at'')) (PStr [])) in
         if captured = [] then 5 / 10
         else if before_start scope captured then 4 / 10
         else if after_end scope captured then 4 / 10
         else 8 / 10))"

fun entity_score :: "evidence \<Rightarrow> pystr dict \<Rightarrow> rat" where
  "entity_score (Graph e) resolved_ids =
     (if resolved_ids = [] then 5 / 10
      else
        (let hits = length (filter (\<lambda>(slot, v). dget (ge_node_ids e) slot = Some v) resolved_ids) in
         if hits = 0 then 2 / 10 else min 1 (5 / 10 + 25 / 100 * of_nat hits)))"
| "entity_score (Lexical e) resolved_ids = (if resolved_ids = [] then 5 / 10 else 6 / 10)"

definition cross_source_score :: "nat \<Rightarrow> rat" where
  "cross_source_score n = (if n \<le> 1 then 3 / 10 else if n = 2 then 7 / 10 else 1)"

fun evidence_docs :: "evidence \<Rightarrow> pystr list" where
  "evidence_docs (Graph e) = ge_source_document_ids e"
| "evidence_docs (Lexical e) = (if le_document_id e = [] then [] else [le_document_id e])"

definition distinct_docs :: "evidence list \<Rightarrow> pystr list" where
  "distinct_docs es = remdups (concat (map evidence_docs es))"

fun evidence_tier :: "evidence \<Rightarrow> int" where
  "evidence_tier (Graph e) = ge_source_tier e"
| "evidence_tier (Lexical e) = le_source_tier e"

section \<open>The reranker\<close>

definition weighted :: "(axis \<Rightarrow> rat) \<Rightarrow> rat" where
  "weighted parts = sum_list (map (\<lambda>a. WEIGHTS a * parts a) axes)"

fun axis_score ::
    "(pyval \<Rightarrow> pystr) \<Rightarrow> pystr \<Rightarrow> pystr option dict \<Rightarrow> pystr dict \<Rightarrow> nat \<Rightarrow> evidence \<Rightarrow> axis \<Rightarrow> rat" where
  "axis_score rp ct scope ids cross e SourceTier = source_tier_score (evidence_tier e)"
| "axis_score rp ct scope ids cross e Directness = directness_score e ct"
| "axis_score rp ct scope ids cross e TemporalAlignment = temporal_score rp e scope"
| "axis_score rp ct scope ids cross e EntityResolution = entity_score e ids"
| "axis_score rp ct scope ids cross e CrossSourceConsistency = cross_source_score cross"

definition score_one ::
    "(pyval \<Rightarrow> pystr) \<Rightarrow> pystr \<Rightarrow> pystr option dict \<Rightarrow> pystr dict \<Rightarrow> nat \<Rightarrow> evidence \<Rightarrow> rerank_score" where
  "score_one rp ct scope ids cross e =
     (let parts = axis_score rp ct scope ids cross e in
      \<lparr>rs_axis = parts, rs_overall = py_round 4 (weighted parts), rs_evidence = e\<rparr>)"

fun stable_key :: "evidence \<Rightarrow> pystr" where
  "stable_key (Graph e) = lit ''g:'' @ py_join (lit '':'') (sort (map snd (ge_node_ids e)))"
| "stable_key (Lexical e) = lit ''l:'' @ le_span_id e"

definition rank_key :: "rerank_score \<Rightarrow> rat \<times> pystr" where
  "rank_key s = (- rs_overall s, stable_key (rs_evidence s))"

definition rerank ::
    "(pyval \<Rightarrow> pystr) \<Rightarrow> pystr \<Rightarrow> pystr option dict \<Rightarrow> pystr dict \<Rightarrow> evidence list \<Rightarrow>
     rerank_score list" where
  "rerank rp claim_type scope resolved_ids es =
     sort_key rank_key
       (map (score_one rp claim_type scope resolved_ids (length (distinct_docs es))) es)"

section \<open>Weighted means\<close>

text \<open>
  What the reranker and the confidence rubric rely on: weights that are non-negative and add up
  to one. Both modules share \<open>WEIGHTS\<close>, the only instance in the program.
\<close>

locale weighting =
  fixes w :: "'k \<Rightarrow> rat" and ks :: "'k list"
  assumes nonneg: "k \<in> set ks \<Longrightarrow> 0 \<le> w k"
    and total: "sum_list (map w ks) = 1"
begin

lemma mean_mono:
  assumes "\<And>k. k \<in> set ks \<Longrightarrow> f k \<le> g k"
  shows "sum_list (map (\<lambda>k. w k * f k) ks) \<le> sum_list (map (\<lambda>k. w k * g k) ks)"
  by (rule sum_list_mono) (use assms nonneg in \<open>auto intro: mult_left_mono\<close>)

lemma mean_const: "sum_list (map (\<lambda>k. w k * c) ks) = c"
  using total by (simp add: sum_list_mult_const)

lemma mean_between:
  assumes "\<And>k. k \<in> set ks \<Longrightarrow> a \<le> f k \<and> f k \<le> b"
  shows "a \<le> sum_list (map (\<lambda>k. w k * f k) ks) \<and> sum_list (map (\<lambda>k. w k * f k) ks) \<le> b"
  using mean_mono [of "\<lambda>_. a" f] mean_mono [of f "\<lambda>_. b"] assms mean_const by simp

end

interpretation wt: weighting WEIGHTS axes
  by unfold_locales (auto simp: axes_def)

lemma weighted_mono: "(\<And>a. f a \<le> g a) \<Longrightarrow> weighted f \<le> weighted g"
  unfolding weighted_def by (rule wt.mean_mono)

lemma weighted_unit: "(\<And>a. 0 \<le> f a \<and> f a \<le> 1) \<Longrightarrow> 0 \<le> weighted f \<and> weighted f \<le> 1"
  unfolding weighted_def by (rule wt.mean_between)

text \<open>Multiples of 1/20, on which the four-digit rounding is exact.\<close>

definition on_grid :: "rat \<Rightarrow> bool" where
  "on_grid x \<longleftrightarrow> (\<exists>i :: int. x * 20 = of_int i)"

lemma on_gridI: "x * 20 = of_int i \<Longrightarrow> on_grid x"
  unfolding on_grid_def by blast

lemma weighted_round:
  assumes "\<And>a. on_grid (f a)" shows "py_round 4 (weighted f) = weighted f"
proof -
  from assms have "\<forall>a. \<exists>i :: int. f a * 20 = of_int i" by (simp add: on_grid_def)
  then obtain i :: "axis \<Rightarrow> int" where i: "\<And>a. f a = of_int (i a) / 20"
    by (metis (no_types) nonzero_mult_div_cancel_right zero_neq_numeral)
  have "weighted f * 10 ^ 4 =
      of_int (150 * i SourceTier + 125 * i Directness + 100 * i TemporalAlignment +
        75 * i EntityResolution + 50 * i CrossSourceConsistency)"
    by (simp add: weighted_def axes_def i field_simps)
  then show ?thesis by (rule py_round_exact)
qed

definition axis_ok :: "rat \<Rightarrow> bool" where
  "axis_ok x \<longleftrightarrow> on_grid x \<and> 0 \<le> x \<and> x \<le> 1"

lemma axis_ok_consts [simp]:
  "axis_ok 0" "axis_ok 1" "axis_ok (1 / 10)" "axis_ok (1 / 5)" "axis_ok (3 / 10)" "axis_ok (2 / 5)"
  "axis_ok (1 / 2)" "axis_ok (3 / 5)" "axis_ok (7 / 10)" "axis_ok (4 / 5)" "axis_ok (3 / 4)"
  unfolding axis_ok_def
  by (auto intro: on_gridI [of _ 0] on_gridI [of _ 20] on_gridI [of _ 2] on_gridI [of _ 4]
      on_gridI [of _ 6] on_gridI [of _ 8] on_gridI [of _ 10] on_gridI [of _ 12] on_gridI [of _ 14]
      on_gridI [of _ 16] on_gridI [of _ 15])

lemma entity_hits_ok: "axis_ok (min 1 (1 / 2 + of_nat n / 4))"
proof -
  have "on_grid (1 / 2 + of_nat n / 4)"
    by (rule on_gridI [of _ "10 + 5 * int n"]) simp
  moreover have "on_grid 1" using axis_ok_consts(2) by (simp add: axis_ok_def)
  ultimately show ?thesis by (auto simp: axis_ok_def min_def)
qed

lemma axis_score_ok: "axis_ok (axis_score rp ct scope ids cross e a)"
proof (cases a)
  case SourceTier
  then show ?thesis by (simp add: source_tier_score_def)
next
  case Directness
  then show ?thesis by (cases e) (simp_all add: Let_def)
next
  case TemporalAlignment
  then show ?thesis by (cases e) (simp_all add: Let_def)
next
  case EntityResolution
  then show ?thesis by (cases e) (simp_all add: Let_def entity_hits_ok)
next
  case CrossSourceConsistency
  then show ?thesis by (simp add: cross_source_score_def)
qed

section \<open>What the reranker guarantees\<close>

text \<open>The score record of one piece of evidence: exact, and within the unit interval.\<close>

definition score_ok :: "rerank_score \<Rightarrow> bool" where
  "score_ok s \<longleftrightarrow>
     rs_overall s = weighted (rs_axis s) \<and> 0 \<le> rs_overall s \<and> rs_overall s \<le> 1 \<and>
     list_all (\<lambda>a. axis_ok (rs_axis s a)) axes"

lemma all_axes: "list_all P axes \<longleftrightarrow> (\<forall>a. P a)"
proof
  assume l: "list_all P axes"
  show "\<forall>a. P a"
  proof
    fix a show "P a" using l by (cases a) (simp_all add: axes_def)
  qed
qed (simp add: list_all_iff)

lemma score_ok_axis: "score_ok s \<Longrightarrow> axis_ok (rs_axis s a)"
  by (simp add: score_ok_def all_axes)

lemma score_one_ok: "score_ok (score_one rp ct scope ids cross e)"
proof -
  let ?f = "axis_score rp ct scope ids cross e"
  have ok: "axis_ok (?f a)" for a by (rule axis_score_ok)
  then have "on_grid (?f a)" "0 \<le> ?f a \<and> ?f a \<le> 1" for a by (simp_all add: axis_ok_def)
  then have "py_round 4 (weighted ?f) = weighted ?f" "0 \<le> weighted ?f \<and> weighted ?f \<le> 1"
    by (auto intro!: weighted_round weighted_unit)
  then show ?thesis
    using ok by (simp add: score_ok_def score_one_def Let_def all_axes)
qed

lemma score_one_evidence [simp]: "rs_evidence (score_one rp ct scope ids n e) = e"
  by (simp add: score_one_def Let_def)

lemma rerank_score_ok: "s \<in> set (rerank rp ct scope ids es) \<Longrightarrow> score_ok s"
  by (auto simp: rerank_def score_one_ok)

lemma rerank_sorted: "sorted (map rank_key (rerank rp ct scope ids es))"
  by (simp add: rerank_def)

lemma rerank_evidence: "mset (map rs_evidence (rerank rp ct scope ids es)) = mset es"
proof -
  have "mset (map rs_evidence (rerank rp ct scope ids es)) =
      image_mset rs_evidence (mset (map (score_one rp ct scope ids (length (distinct_docs es))) es))"
    by (simp add: rerank_def)
  also have "\<dots> = mset es" by (simp add: image_mset.compositionality o_def)
  finally show ?thesis .
qed

text \<open>
  Claim C6. The reranker returns each piece of evidence exactly once, by descending overall score and
  then by stable key; every overall score is the exact weighted mean of its five axes, which
  rounding leaves unchanged, and lies between 0 and 1.
\<close>

theorem rerank_spec:
  "mset (map rs_evidence (rerank rp ct scope ids es)) = mset es \<and>
   sorted_wrt (\<lambda>a b. rs_overall a > rs_overall b \<or> rs_overall a = rs_overall b \<and>
       stable_key (rs_evidence a) \<le> stable_key (rs_evidence b)) (rerank rp ct scope ids es) \<and>
   list_all score_ok (rerank rp ct scope ids es)"
proof (intro conjI)
  show "sorted_wrt (\<lambda>a b. rs_overall a > rs_overall b \<or> rs_overall a = rs_overall b \<and>
       stable_key (rs_evidence a) \<le> stable_key (rs_evidence b)) (rerank rp ct scope ids es)"
    using rerank_sorted [of rp ct scope ids es]
    by (auto simp: sorted_map rank_key_def elim!: sorted_wrt_mono_rel [rotated])
qed (use rerank_evidence in \<open>auto simp: list_all_iff rerank_score_ok\<close>)

lemma distinct_docs_card: "length (distinct_docs es) = card (\<Union>e \<in> set es. set (evidence_docs e))"
  by (simp add: distinct_docs_def length_remdups_card_conv)

text \<open>
  The ranking does not depend on the order in which the evidence arrives: when no two
  different pieces of evidence share a stable key, permuting the input permutes nothing in the
  output.
\<close>

theorem rerank_order_independent:
  assumes "mset es = mset es'" "inj_on stable_key (set es)"
  shows "rerank rp ct scope ids es = rerank rp ct scope ids es'"
proof -
  have sets: "set es = set es'" using assms(1) by (rule mset_eq_setD)
  let ?n = "length (distinct_docs es)"
  have n: "?n = length (distinct_docs es')" by (simp add: distinct_docs_card sets)
  let ?f = "score_one rp ct scope ids ?n"
  have "mset (map ?f es) = mset (sort_key rank_key (map ?f es'))" using assms(1) by simp
  moreover have "inj_on rank_key (set (map ?f es))"
    using assms(2) by (auto simp: inj_on_def rank_key_def)
  ultimately have "sort_key rank_key (map ?f es) = sort_key rank_key (map ?f es')"
    by (rule sort_key_inj_key_eq) simp
  then show ?thesis by (simp add: rerank_def n)
qed

definition sample_span :: "string \<Rightarrow> evidence" where
  "sample_span i = Lexical \<lparr>le_span_id = lit i, le_document_id = lit ''d'', le_text = lit ''t'',
     le_source_tier = 1, le_score = 1, le_properties = []\<rparr>"

definition no_repr :: "pyval \<Rightarrow> pystr" where
  "no_repr v = []"

text \<open>
  A date without a time of day compares below the first instant of the same day, so evidence dated
  on the first day of the claim's scope is scored as outside it.
\<close>

lemma first_day_scored_outside:
  "temporal_score rp
     (Graph \<lparr>ge_claim_type = ct, ge_node_ids = [],
        ge_properties = [(lit ''occurred_at'', PLit ''2024-01-01'')],
        ge_source_document_ids = [], ge_source_tier = 1\<rparr>)
     [(lit ''start'', Some (lit ''2024-01-01T00:00:00+00:00'')),
      (lit ''end'', Some (lit ''2024-12-31T23:59:59+00:00''))] = 2 / 10"
  by (simp add: py_or_def before_start_def bound_def lit_def)

end
