(* ===== verification/Verdict.thy ===== *)
theory Verdict
  imports Retrieval Checkability
begin

text \<open>
  \<open>services/verification/src/civic_verification/\<close>: the five-axis confidence rubric
  (\<open>confidence.py\<close>) and the deterministic verdict engine with its abstention policy
  (\<open>engine.py\<close>). A decision trace is a list of \<open>reason\<close>s, one constructor per dictionary the
  code appends. The thresholds are compared as rationals, which is exact on the values the
  reranker produces (see Retrieval).
\<close>

section \<open>Confidence\<close>

record confidence =
  cf_source_authority :: rat
  cf_directness :: rat
  cf_temporal_alignment :: rat
  cf_entity_resolution :: rat
  cf_cross_source_consistency :: rat
  cf_overall :: rat

definition unit_range :: "rat \<Rightarrow> bool" where
  "unit_range x \<longleftrightarrow> 0 \<le> x \<and> x \<le> 1"

text \<open>Building a \<open>Confidence\<close> validates that every factor is between 0 and 1.\<close>

definition confidence_ok :: "confidence \<Rightarrow> bool" where
  "confidence_ok c \<longleftrightarrow>
     list_all unit_range [cf_source_authority c, cf_directness c, cf_temporal_alignment c,
       cf_entity_resolution c, cf_cross_source_consistency c, cf_overall c]"

definition as_confidence :: "(axis \<Rightarrow> rat) \<Rightarrow> pyerr + confidence" where
  "as_confidence best =
     (let c = \<lparr>cf_source_authority = best SourceTier, cf_directness = best Directness,
              cf_temporal_alignment = best TemporalAlignment,
              cf_entity_resolution = best EntityResolution,
              cf_cross_source_consistency = best CrossSourceConsistency,
              cf_overall = py_round 4 (weighted best)\<rparr>
      in if confidence_ok c then Inr c else Inl ValidationError)"

definition best_axis :: "rerank_score list \<Rightarrow> axis \<Rightarrow> rat" where
  "best_axis ranked a = foldl (\<lambda>best s. max best (rs_axis s a)) 0 ranked"

definition compute_confidence :: "rerank_score list \<Rightarrow> pyerr + confidence" where
  "compute_confidence ranked = as_confidence (best_axis ranked)"

definition zero_confidence :: confidence where
  "zero_confidence =
     \<lparr>cf_source_authority = 0, cf_directness = 0, cf_temporal_alignment = 0,
      cf_entity_resolution = 0, cf_cross_source_consistency = 0, cf_overall = 0\<rparr>"

section \<open>The verdict engine\<close>

datatype status =
    Supported
  | Contradicted
  | Mixed
  | InsufficientEvidence
  | NonCheckableVerdict

datatype reason =
    AbstainCheckability checkability
  | AbstainNoEvidence
  | AbstainLowConfidence rat
  | Abstain string
  | SupportGraph nat
  | SupportLexical nat
  | SupportPresent nat
  | SupportLexicalMulti
  | MixedLexicalSingle
  | ContradictOnlyAbsent
  | SupportElection pyval pyval
  | ContradictElection "int option" "bool option" "(pyval \<times> pyval \<times> pyval) list"
  | SupportDecision pyval pyval pyval
  | ContradictDecision "pystr option" "(pyval \<times> pyval) list"
  | SupportAnyVote
  | SupportVote pystr
  | MixedVote "pyval list"
  | ContradictVote pystr "pyval list"

record verdict_inputs =
  vi_claim_id :: pystr
  vi_claim_type :: pystr
  vi_checkability :: checkability
  vi_ranked_evidence :: "rerank_score list"
  vi_expected_vote_value :: "pystr option"
  vi_expected_seats :: "int option"
  vi_expect_passed_threshold :: "bool option"
  vi_government_decision_id :: "pystr option"

record verdict_outcome =
  vo_status :: status
  vo_confidence :: confidence
  vo_needs_human_review :: bool
  vo_reasons :: "reason list"

definition ABSTAIN_OVERALL :: rat where
  "ABSTAIN_OVERALL = 45 / 100"

definition HUMAN_REVIEW_OVERALL :: rat where
  "HUMAN_REVIEW_OVERALL = 62 / 100"

text \<open>The graph evidence of the claim's own type, in rank order.\<close>

fun graph_hit :: "pystr \<Rightarrow> evidence \<Rightarrow> graph_evidence option" where
  "graph_hit ct (Graph e) = (if ge_claim_type e = ct then Some e else None)"
| "graph_hit ct (Lexical e) = None"

definition graph_hits :: "pystr \<Rightarrow> rerank_score list \<Rightarrow> graph_evidence list" where
  "graph_hits ct ranked = List.map_filter (\<lambda>r. graph_hit ct (rs_evidence r)) ranked"

fun is_lexical :: "evidence \<Rightarrow> bool" where
  "is_lexical (Lexical e) = True"
| "is_lexical (Graph e) = False"

definition lex_corroborations :: "rerank_score list \<Rightarrow> nat" where
  "lex_corroborations ranked = length (filter (\<lambda>r. is_lexical (rs_evidence r)) ranked)"

definition gprop :: "graph_evidence \<Rightarrow> string \<Rightarrow> pyval" where
  "gprop e k = vget (ge_properties e) (lit k)"

definition vote_cast :: "pystr option \<Rightarrow> graph_evidence list \<Rightarrow> pyerr + status \<times> reason" where
  "vote_cast expected_vote hits =
     (if hits = [] then Inr (InsufficientEvidence, Abstain ''no_graph_vote_record'')
      else
        (case py_set (map (\<lambda>e. gprop e ''vote_value'') hits) of
           Inl e \<Rightarrow> Inl e
         | Inr recorded_values \<Rightarrow>
             (case expected_vote of
                None \<Rightarrow> Inr (Supported, SupportAnyVote)
              | Some expected \<Rightarrow>
                  if recorded_values = [PStr expected] then Inr (Supported, SupportVote expected)
                  else if PStr expected \<in> set recorded_values \<and> length recorded_values > 1
                  then Inr (Mixed, MixedVote recorded_values)
                  else
                    (case py_sorted (filter truthy recorded_values) of
                       Inl e \<Rightarrow> Inl e
                     | Inr observed \<Rightarrow> Inr (Contradicted, ContradictVote expected observed)))))"

text \<open>One record of an election against the claim; \<open>int()\<close> failing counts as a mismatch.\<close>

definition election_match :: "int option \<Rightarrow> bool option \<Rightarrow> graph_evidence \<Rightarrow> bool" where
  "election_match expect_seats expect_passed e \<longleftrightarrow>
     (case expect_seats of
        None \<Rightarrow> True
      | Some n \<Rightarrow> (case py_int (gprop e ''seats_won'') of Inl _ \<Rightarrow> False | Inr i \<Rightarrow> i = n)) \<and>
     (case expect_passed of
        None \<Rightarrow> True
      | Some b \<Rightarrow>
          gprop e ''passed_threshold'' \<noteq> PNone \<and> truthy (gprop e ''passed_threshold'') = b)"

definition election_result ::
    "int option \<Rightarrow> bool option \<Rightarrow> graph_evidence list \<Rightarrow> status \<times> reason" where
  "election_result expect_seats expect_passed hits =
     (if hits = [] then (InsufficientEvidence, Abstain ''no_election_graph_hit'')
      else
        (case find (election_match expect_seats expect_passed) hits of
           Some e \<Rightarrow>
             (Supported, SupportElection (gprop e ''seats_won'') (gprop e ''passed_threshold''))
         | None \<Rightarrow>
             (Contradicted, ContradictElection expect_seats expect_passed
                (map (\<lambda>e. (gprop e ''seats_won'', gprop e ''passed_threshold'',
                            gprop e ''knesset_number'')) hits))))"

text \<open>
  \<open>node_ids.get(k) or props.get(k)\<close>, then compared as texts. An identifier of the node is a
  text already.
\<close>

definition decision_match :: "(pyval \<Rightarrow> pystr) \<Rightarrow> pystr option \<Rightarrow> graph_evidence \<Rightarrow> bool" where
  "decision_match rp expected_id e \<longleftrightarrow>
     (case expected_id of
        None \<Rightarrow> True
      | Some expected \<Rightarrow>
          py_str rp
            (py_or (of_opt PStr (dget (ge_node_ids e) (lit ''government_decision_id'')))
              (gprop e ''government_decision_id'')) = expected)"

definition government_decision ::
    "(pyval \<Rightarrow> pystr) \<Rightarrow> pystr option \<Rightarrow> graph_evidence list \<Rightarrow> status \<times> reason" where
  "government_decision rp expected_id hits =
     (if hits = [] then (InsufficientEvidence, Abstain ''no_gov_decision_graph_hit'')
      else
        (case find (decision_match rp expected_id) hits of
           Some e \<Rightarrow>
             (Supported, SupportDecision (gprop e ''decision_number'') (gprop e ''government_number'')
                (gprop e ''title''))
         | None \<Rightarrow>
             (Contradicted, ContradictDecision expected_id
                (map (\<lambda>e. (gprop e ''decision_number'', gprop e ''government_number'')) hits))))"

definition record_claim :: "graph_evidence list \<Rightarrow> rerank_score list \<Rightarrow> status \<times> reason" where
  "record_claim hits ranked =
     (if hits \<noteq> [] then (Supported, SupportGraph (length hits))
      else if lex_corroborations ranked \<noteq> 0
      then (Supported, SupportLexical (lex_corroborations ranked))
      else (InsufficientEvidence, Abstain ''no_graph_or_lex_support''))"

definition attendance :: "graph_evidence list \<Rightarrow> status \<times> reason" where
  "attendance hits =
     (if hits = [] then (InsufficientEvidence, Abstain ''no_attendance_graph_hit'')
      else
        (let present = filter (\<lambda>e. py_eq (gprop e ''presence'') (PLit ''present'')) hits in
         if present \<noteq> [] then (Supported, SupportPresent (length present))
         else (Contradicted, ContradictOnlyAbsent)))"

definition corroboration :: "rerank_score list \<Rightarrow> status \<times> reason" where
  "corroboration ranked =
     (if lex_corroborations ranked \<ge> 2 then (Supported, SupportLexicalMulti)
      else if lex_corroborations ranked = 1 then (Mixed, MixedLexicalSingle)
      else (InsufficientEvidence, Abstain ''no_corroboration''))"

definition compare_claim ::
    "(pyval \<Rightarrow> pystr) \<Rightarrow> verdict_inputs \<Rightarrow> graph_evidence list \<Rightarrow> pyerr + status \<times> reason" where
  "compare_claim rp inputs hits =
     (let ct = vi_claim_type inputs; ranked = vi_ranked_evidence inputs in
      if ct = lit ''vote_cast'' then vote_cast (vi_expected_vote_value inputs) hits
      else if ct = lit ''election_result''
      then Inr (election_result (vi_expected_seats inputs) (vi_expect_passed_threshold inputs) hits)
      else if ct = lit ''government_decision''
      then Inr (government_decision rp (vi_government_decision_id inputs) hits)
      else if ct \<in> {lit ''bill_sponsorship'', lit ''office_held'', lit ''committee_membership''}
      then Inr (record_claim hits ranked)
      else if ct = lit ''committee_attendance'' then Inr (attendance hits)
      else Inr (corroboration ranked))"

definition decide_verdict :: "(pyval \<Rightarrow> pystr) \<Rightarrow> verdict_inputs \<Rightarrow> pyerr + verdict_outcome" where
  "decide_verdict rp inputs =
     (if vi_checkability inputs \<noteq> Checkable
      then Inr \<lparr>vo_status = NonCheckableVerdict, vo_confidence = zero_confidence,
                vo_needs_human_review = (vi_checkability inputs = InsufficientEntityResolution),
                vo_reasons = [AbstainCheckability (vi_checkability inputs)]\<rparr>
      else if vi_ranked_evidence inputs = []
      then Inr \<lparr>vo_status = InsufficientEvidence, vo_confidence = zero_confidence,
                vo_needs_human_review = True, vo_reasons = [AbstainNoEvidence]\<rparr>
      else
        (case compute_confidence (vi_ranked_evidence inputs) of
           Inl e \<Rightarrow> Inl e
         | Inr conf \<Rightarrow>
             if cf_overall conf < ABSTAIN_OVERALL
             then Inr \<lparr>vo_status = InsufficientEvidence, vo_confidence = conf,
                       vo_needs_human_review = True,
                       vo_reasons = [AbstainLowConfidence (cf_overall conf)]\<rparr>
             else
               (let hits = graph_hits (vi_claim_type inputs) (vi_ranked_evidence inputs) in
                case compare_claim rp inputs hits of
                  Inl e \<Rightarrow> Inl e
                | Inr (st, reason) \<Rightarrow>
                    (let tier1_graph = list_ex (\<lambda>e. ge_source_tier e = 1) hits in
                     Inr \<lparr>vo_status = st, vo_confidence = conf,
                          vo_needs_human_review =
                            (cf_overall conf < HUMAN_REVIEW_OVERALL \<or> st = Mixed \<or>
                             (st = Contradicted \<and> hits \<noteq> [] \<and> \<not> tier1_graph)),
                          vo_reasons = [reason]\<rparr>))))"

section \<open>The confidence rubric\<close>

lemma best_axis_Max: "best_axis ranked a = Max (insert 0 ((\<lambda>s. rs_axis s a) ` set ranked))"
proof -
  have "foldl (\<lambda>best s. max best (f s)) b xs = Max (insert b (f ` set xs))"
    for f :: "rerank_score \<Rightarrow> rat" and b xs
  proof (induction xs arbitrary: b)
    case (Cons x xs)
    show ?case
      by (cases "xs = []") (simp_all add: Cons max.assoc)
  qed simp
  then show ?thesis by (simp add: best_axis_def)
qed

lemma best_axis_ge: "s \<in> set ranked \<Longrightarrow> rs_axis s a \<le> best_axis ranked a"
  by (simp add: best_axis_Max)

lemma best_axis_ok:
  assumes "list_all score_ok ranked" shows "axis_ok (best_axis ranked a)"
proof -
  have "best_axis ranked a \<in> insert 0 ((\<lambda>s. rs_axis s a) ` set ranked)"
    unfolding best_axis_Max by (rule Max_in) auto
  then show ?thesis using assms by (auto simp: list_all_iff score_ok_axis)
qed

lemma as_confidence_ok:
  assumes "\<And>a. axis_ok (best a)"
  shows "\<exists>c. as_confidence best = Inr c \<and> confidence_ok c \<and> cf_overall c = weighted best"
proof -
  have "py_round 4 (weighted best) = weighted best" "0 \<le> weighted best \<and> weighted best \<le> 1"
    using assms by (auto intro!: weighted_round weighted_unit simp: axis_ok_def)
  then show ?thesis
    using assms by (simp add: as_confidence_def Let_def confidence_ok_def unit_range_def axis_ok_def)
qed

lemma compute_confidence_ok:
  "list_all score_ok ranked \<Longrightarrow>
     \<exists>c. compute_confidence ranked = Inr c \<and> confidence_ok c \<and> cf_overall c = weighted (best_axis ranked)"
  unfolding compute_confidence_def by (rule as_confidence_ok) (rule best_axis_ok)

text \<open>
  On the reranker's output the confidence vector always validates, all six factors lie
  between 0 and 1, and the overall confidence is at least the overall score of every piece of
  evidence: it never falls below the best ranked item.
\<close>

theorem confidence_of_rerank:
  "\<exists>c. compute_confidence (rerank rp ct scope ids es) = Inr c \<and> confidence_ok c \<and>
     list_all (\<lambda>s. rs_overall s \<le> cf_overall c) (rerank rp ct scope ids es)"
proof -
  let ?r = "rerank rp ct scope ids es"
  have ok: "list_all score_ok ?r" by (simp add: list_all_iff rerank_score_ok)
  obtain c where c: "compute_confidence ?r = Inr c" "confidence_ok c"
    "cf_overall c = weighted (best_axis ?r)"
    using compute_confidence_ok [OF ok] by blast
  have "rs_overall s \<le> cf_overall c" if "s \<in> set ?r" for s
  proof -
    have "rs_overall s = weighted (rs_axis s)" using ok that by (simp add: list_all_iff score_ok_def)
    also have "\<dots> \<le> weighted (best_axis ?r)" by (rule weighted_mono) (rule best_axis_ge [OF that])
    finally show ?thesis by (simp add: c)
  qed
  then show ?thesis using c by (auto simp: list_all_iff)
qed

section \<open>What a verdict rests on\<close>

lemma decide_verdict_elim:
  assumes "decide_verdict rp inputs = Inr out"
    "vo_status out \<noteq> NonCheckableVerdict" "vo_status out \<noteq> InsufficientEvidence"
  obtains conf reason where
    "vi_checkability inputs = Checkable" "vi_ranked_evidence inputs \<noteq> []"
    "compute_confidence (vi_ranked_evidence inputs) = Inr conf"
    "ABSTAIN_OVERALL \<le> cf_overall conf"
    "compare_claim rp inputs (graph_hits (vi_claim_type inputs) (vi_ranked_evidence inputs)) =
       Inr (vo_status out, reason)"
    "vo_confidence out = conf"
    "vo_needs_human_review out =
       (cf_overall conf < HUMAN_REVIEW_OVERALL \<or> vo_status out = Mixed \<or>
        (vo_status out = Contradicted \<and>
         graph_hits (vi_claim_type inputs) (vi_ranked_evidence inputs) \<noteq> [] \<and>
         \<not> list_ex (\<lambda>e. ge_source_tier e = 1)
           (graph_hits (vi_claim_type inputs) (vi_ranked_evidence inputs))))"
  using assms unfolding decide_verdict_def
  by (auto simp: Let_def not_less split: if_splits sum.splits prod.splits)

lemma compare_grounded:
  assumes "compare_claim rp inputs hits = Inr (st, reason)"
  shows "(st = Contradicted \<longrightarrow> hits \<noteq> []) \<and>
    (st = Supported \<longrightarrow> hits \<noteq> [] \<or> lex_corroborations (vi_ranked_evidence inputs) \<noteq> 0)"
  using assms unfolding compare_claim_def Let_def
  by (auto simp: vote_cast_def election_result_def government_decision_def record_claim_def
      attendance_def Let_def corroboration_def split: if_splits sum.splits option.splits)

text \<open>
  Claim C1. A verdict is never given without evidence: supported, contradicted or mixed implies that
  the claim is checkable and the overall confidence reaches the abstention threshold; a
  contradiction always rests on a graph record of the claim's own type, never on text alone,
  and support rests on such a record or on a lexical hit.
\<close>

theorem verdict_grounded:
  assumes "decide_verdict rp inputs = Inr out" "vo_status out \<in> {Supported, Contradicted, Mixed}"
  shows "vi_checkability inputs = Checkable \<and> ABSTAIN_OVERALL \<le> cf_overall (vo_confidence out) \<and>
    (if vo_status out = Contradicted
     then graph_hits (vi_claim_type inputs) (vi_ranked_evidence inputs) \<noteq> []
     else graph_hits (vi_claim_type inputs) (vi_ranked_evidence inputs) \<noteq> [] \<or>
       0 < lex_corroborations (vi_ranked_evidence inputs))"
proof -
  obtain conf reason where d: "vi_checkability inputs = Checkable"
    "ABSTAIN_OVERALL \<le> cf_overall conf" "vo_confidence out = conf"
    "compare_claim rp inputs (graph_hits (vi_claim_type inputs) (vi_ranked_evidence inputs)) =
       Inr (vo_status out, reason)"
    using assms by (elim decide_verdict_elim) auto
  have "vo_status out = Mixed \<Longrightarrow>
      graph_hits (vi_claim_type inputs) (vi_ranked_evidence inputs) \<noteq> [] \<or>
      0 < lex_corroborations (vi_ranked_evidence inputs)"
    using d(4) unfolding compare_claim_def Let_def
    by (auto simp: vote_cast_def election_result_def government_decision_def record_claim_def
        attendance_def Let_def corroboration_def split: if_splits sum.splits option.splits)
  with compare_grounded [OF d(4)] d assms(2) show ?thesis by auto
qed

text \<open>A recorded vote, ranked alone, as the running example of the witnesses.\<close>

definition sample_vote :: "string \<Rightarrow> graph_evidence" where
  "sample_vote v =
     \<lparr>ge_claim_type = lit ''vote_cast'', ge_node_ids = [],
      ge_properties = [(lit ''vote_value'', PLit v)], ge_source_document_ids = [lit ''d''],
      ge_source_tier = 1\<rparr>"

definition sample_inputs :: "(pyval \<Rightarrow> pystr) \<Rightarrow> string \<Rightarrow> verdict_inputs" where
  "sample_inputs rp v =
     \<lparr>vi_claim_id = lit ''c'', vi_claim_type = lit ''vote_cast'', vi_checkability = Checkable,
      vi_ranked_evidence = rerank rp (lit ''vote_cast'') [] [] [Graph (sample_vote v)],
      vi_expected_vote_value = Some (lit ''for''), vi_expected_seats = None,
      vi_expect_passed_threshold = None, vi_government_decision_id = None\<rparr>"

lemma sample_rank:
  "rerank rp (lit ''vote_cast'') [] [] [Graph (sample_vote v)] =
     [\<lparr>rs_axis = axis_score rp (lit ''vote_cast'') [] [] 1 (Graph (sample_vote v)),
      rs_overall = 151 / 200, rs_evidence = Graph (sample_vote v)\<rparr>]"
proof -
  let ?s = "score_one rp (lit ''vote_cast'') [] [] 1 (Graph (sample_vote v))"
  have "rs_overall ?s = weighted (rs_axis ?s)" using score_one_ok by (simp add: score_ok_def)
  moreover have "rs_axis ?s = axis_score rp (lit ''vote_cast'') [] [] 1 (Graph (sample_vote v))"
    by (simp add: score_one_def Let_def)
  ultimately have "?s = \<lparr>rs_axis = axis_score rp (lit ''vote_cast'') [] [] 1 (Graph (sample_vote v)),
      rs_overall = 151 / 200, rs_evidence = Graph (sample_vote v)\<rparr>"
    by (simp add: weighted_def axes_def sample_vote_def source_tier_score_def cross_source_score_def)
  then show ?thesis by (simp add: rerank_def distinct_docs_def sample_vote_def)
qed

lemma sample_confidence:
  "\<exists>c. compute_confidence (vi_ranked_evidence (sample_inputs rp v)) = Inr c \<and> cf_overall c = 151 / 200"
proof -
  have "list_all score_ok (vi_ranked_evidence (sample_inputs rp v))"
    by (simp add: sample_inputs_def list_all_iff rerank_score_ok)
  moreover have "weighted (best_axis (vi_ranked_evidence (sample_inputs rp v))) = 151 / 200"
    by (simp add: weighted_def axes_def best_axis_def sample_inputs_def sample_rank)
      (simp add: sample_vote_def source_tier_score_def cross_source_score_def)
  ultimately show ?thesis using compute_confidence_ok by metis
qed

lemma sample_fields:
  "vi_claim_type (sample_inputs rp v) = lit ''vote_cast''"
  "vi_checkability (sample_inputs rp v) = Checkable" "ge_source_tier (sample_vote v) = 1"
  by (simp_all add: sample_inputs_def sample_vote_def)

lemma sample_verdict:
  "\<exists>out. decide_verdict rp (sample_inputs rp v) = Inr out \<and>
     vo_status out = (if v = ''for'' then Supported else Contradicted) \<and>
     \<not> vo_needs_human_review out \<and> cf_overall (vo_confidence out) = 151 / 200"
proof -
  obtain c where c: "compute_confidence (vi_ranked_evidence (sample_inputs rp v)) = Inr c"
    "cf_overall c = 151 / 200" using sample_confidence by blast
  have ev: "vi_ranked_evidence (sample_inputs rp v) \<noteq> []"
    by (simp add: sample_inputs_def sample_rank)
  have hits: "graph_hits (lit ''vote_cast'') (vi_ranked_evidence (sample_inputs rp v)) = [sample_vote v]"
    by (simp add: sample_inputs_def sample_rank graph_hits_def map_filter_simps) (simp add: sample_vote_def)
  have "compare_claim rp (sample_inputs rp v) [sample_vote v] =
      Inr (if v = ''for'' then (Supported, SupportVote (lit ''for''))
           else (Contradicted, ContradictVote (lit ''for'') (filter truthy [PLit v])))"
    by (simp add: compare_claim_def sample_inputs_def vote_cast_def py_set_def gprop_def sample_vote_def
        py_sorted_def)
  then show ?thesis
    using c ev hits unfolding decide_verdict_def
    by (simp add: Let_def ABSTAIN_OVERALL_def HUMAN_REVIEW_OVERALL_def sample_fields)
qed

lemma verdict_grounded_witness:
  "\<exists>out. decide_verdict no_repr (sample_inputs no_repr ''for'') = Inr out \<and> vo_status out = Supported \<and>
     ABSTAIN_OVERALL \<le> cf_overall (vo_confidence out)"
proof -
  obtain out where "decide_verdict no_repr (sample_inputs no_repr ''for'') = Inr out" "vo_status out = Supported"
    using sample_verdict [of no_repr "''for''"] by auto
  then show ?thesis using verdict_grounded [of no_repr "sample_inputs no_repr ''for''" out] by auto
qed

text \<open>
  Claim C2. A verdict that skips human review is safe to publish: it is not mixed, its overall
  confidence reaches the review threshold unless the claim was not checkable to begin with,
  and a contradiction is backed by at least one Tier-1 graph record.
\<close>

theorem unreviewed_verdict_safe:
  assumes "decide_verdict rp inputs = Inr out" "\<not> vo_needs_human_review out"
  shows "vo_status out \<noteq> Mixed \<and>
    (vo_status out = NonCheckableVerdict \<or> HUMAN_REVIEW_OVERALL \<le> cf_overall (vo_confidence out)) \<and>
    (vo_status out \<noteq> Contradicted \<or>
     list_ex (\<lambda>e. ge_source_tier e = 1)
       (graph_hits (vi_claim_type inputs) (vi_ranked_evidence inputs)))"
proof -
  have low: "HUMAN_REVIEW_OVERALL \<le> cf_overall (vo_confidence out)"
    if "vo_status out = InsufficientEvidence"
    using assms that unfolding decide_verdict_def
    by (auto simp: Let_def not_less split: if_splits sum.splits prod.splits)
  show ?thesis
  proof (cases "vo_status out \<in> {NonCheckableVerdict, InsufficientEvidence}")
    case True
    then show ?thesis using low by auto
  next
    case False
    with assms obtain conf reason where d: "vo_confidence out = conf"
      "compare_claim rp inputs (graph_hits (vi_claim_type inputs) (vi_ranked_evidence inputs)) =
         Inr (vo_status out, reason)"
      "vo_needs_human_review out =
         (cf_overall conf < HUMAN_REVIEW_OVERALL \<or> vo_status out = Mixed \<or>
          (vo_status out = Contradicted \<and>
           graph_hits (vi_claim_type inputs) (vi_ranked_evidence inputs) \<noteq> [] \<and>
           \<not> list_ex (\<lambda>e. ge_source_tier e = 1)
             (graph_hits (vi_claim_type inputs) (vi_ranked_evidence inputs))))"
      by (elim decide_verdict_elim) auto
    with compare_grounded [OF d(2)] assms(2) show ?thesis by auto
  qed
qed

lemma unreviewed_verdict_safe_witness:
  "\<exists>out. decide_verdict no_repr (sample_inputs no_repr ''against'') = Inr out \<and>
     vo_status out = Contradicted \<and> HUMAN_REVIEW_OVERALL \<le> cf_overall (vo_confidence out)"
proof -
  obtain out where "decide_verdict no_repr (sample_inputs no_repr ''against'') = Inr out"
    "vo_status out = Contradicted" "\<not> vo_needs_human_review out"
    using sample_verdict [of no_repr "''against''"] by auto
  then show ?thesis
    using unreviewed_verdict_safe [of no_repr "sample_inputs no_repr ''against''" out] by auto
qed

section \<open>The comparison rules\<close>

text \<open>The recorded votes of a set of records.\<close>

definition recorded :: "graph_evidence list \<Rightarrow> pyval list" where
  "recorded hits = map (\<lambda>e. gprop e ''vote_value'') hits"

lemma nub_eq_single: "nub_eq vs = [PStr s] \<longleftrightarrow> vs \<noteq> [] \<and> set vs \<subseteq> {PStr s}"
proof
  show "vs \<noteq> [] \<and> set vs \<subseteq> {PStr s}" if "nub_eq vs = [PStr s]"
  proof (cases vs)
    case (Cons v ws)
    with that have v: "v = PStr s" "filter (\<lambda>w. \<not> py_eq v w) (nub_eq ws) = []" by auto
    have "w = PStr s" if "w \<in> set ws" for w
    proof -
      have covered: "\<exists>u \<in> set (nub_eq xs). py_eq u x" if "x \<in> set xs" for x xs
        using that
      proof (induction xs)
        case (Cons y xs)
        show ?case
        proof (cases "py_eq y x")
          case False
          with Cons obtain u where u: "u \<in> set (nub_eq xs)" "py_eq u x" by (auto dest!: Cons.IH)
          then have "\<not> py_eq y u" using False by (auto simp: py_eq_def split: option.splits)
          with u show ?thesis by auto
        qed simp
      qed simp
      from covered [OF that] obtain u where "u \<in> set (nub_eq ws)" "py_eq u w" by blast
      with v show ?thesis by (auto simp: filter_empty_conv)
    qed
    with v Cons show ?thesis by auto
  qed (use that in simp)
  show "nub_eq vs = [PStr s]" if "vs \<noteq> [] \<and> set vs \<subseteq> {PStr s}"
    using that
  proof (induction vs)
    case (Cons v ws)
    then have "v = PStr s" "set ws \<subseteq> {PStr s}" by auto
    moreover have "set (nub_eq ws) \<subseteq> {PStr s}" using set_nub_eq [of ws] calculation(2) by blast
    ultimately show ?case by (auto simp: filter_empty_conv)
  qed simp
qed

lemma nub_eq_Nil: "nub_eq vs = [] \<longleftrightarrow> vs = []"
  by (cases vs) auto

definition string_votes :: "graph_evidence list \<Rightarrow> bool" where
  "string_votes hits \<longleftrightarrow> list_all (\<lambda>v. str_val v \<noteq> None) (recorded hits)"

lemma string_votes_set:
  assumes "string_votes hits"
  shows "py_set (recorded hits) = Inr (nub_eq (recorded hits))"
    "\<exists>obs. py_sorted (filter truthy (nub_eq (recorded hits))) = Inr obs"
proof -
  have str: "str_val v \<noteq> None" if "v \<in> set (recorded hits)" for v
    using assms that by (simp add: string_votes_def list_all_iff)
  have "hashable v" if "str_val v \<noteq> None" for v using that by (cases v) auto
  then have "list_all hashable (recorded hits)" using str by (simp add: list_all_iff)
  then show "py_set (recorded hits) = Inr (nub_eq (recorded hits))" by (simp add: py_set_def)
  have "str_val v \<noteq> None" if "v \<in> set (filter truthy (nub_eq (recorded hits)))" for v
    using that str set_nub_eq [of "recorded hits"] by auto
  then show "\<exists>obs. py_sorted (filter truthy (nub_eq (recorded hits))) = Inr obs"
    unfolding py_sorted_def by (simp add: list_all_iff)
qed

text \<open>
  Claim C3. A vote claim against the recorded votes: it is supported when every record says what is
  claimed, mixed when some do and some do not, and contradicted when none does; the engine
  does not raise, and the order and number of the records do not matter.
\<close>

theorem vote_cast_verdict:
  assumes "hits \<noteq> []" "string_votes hits"
  shows "map_sum id fst (vote_cast (Some v) hits) = Inr
    (if set (recorded hits) = {PStr v} then Supported
     else if PStr v \<in> set (recorded hits) then Mixed
     else Contradicted)"
proof -
  let ?rs = "nub_eq (recorded hits)"
  have ne: "recorded hits \<noteq> []" using assms(1) by (simp add: recorded_def)
  obtain obs where obs: "py_sorted (filter truthy ?rs) = Inr obs"
    using string_votes_set [OF assms(2)] by blast
  have single: "?rs = [PStr v] \<longleftrightarrow> set (recorded hits) = {PStr v}"
    using ne by (auto simp: nub_eq_single subset_singleton_iff)
  have mem: "PStr v \<in> set ?rs \<longleftrightarrow> PStr v \<in> set (recorded hits)" by (rule set_nub_eq_PStr)
  have len: "length ?rs > 1" if "PStr v \<in> set ?rs" "?rs \<noteq> [PStr v]"
  proof (cases ?rs)
    case (Cons x xs)
    with that show ?thesis by (cases xs) auto
  qed (use that in simp)
  show ?thesis
    using assms(1) obs string_votes_set(1) [OF assms(2)] single mem len
    by (simp add: vote_cast_def flip: recorded_def)
qed

lemma vote_cast_verdict_witness:
  "map_sum id fst (vote_cast (Some (lit ''for'')) [sample_vote ''for'', sample_vote ''against'']) = Inr Mixed"
  using vote_cast_verdict [of "[sample_vote ''for'', sample_vote ''against'']" "lit ''for''"]
  by (simp add: string_votes_def recorded_def gprop_def sample_vote_def)

text \<open>
  Claim C4. Without a record an election claim has insufficient evidence; with records it is supported
  exactly when one and the same record agrees with every figure the claim gives, and contradicted
  otherwise. A record whose seat count is not a number
  never supports a claim about seats.
\<close>

theorem election_verdict:
  "fst (election_result seats passed hits) =
     (if hits = [] then InsufficientEvidence
      else if list_ex (\<lambda>e.
          (case seats of None \<Rightarrow> True | Some n \<Rightarrow> py_int (gprop e ''seats_won'') = Inr n) \<and>
          (case passed of None \<Rightarrow> True
           | Some b \<Rightarrow> gprop e ''passed_threshold'' \<noteq> PNone \<and>
               truthy (gprop e ''passed_threshold'') = b)) hits
      then Supported else Contradicted)"
proof -
  have m: "election_match seats passed e \<longleftrightarrow>
      (case seats of None \<Rightarrow> True | Some n \<Rightarrow> py_int (gprop e ''seats_won'') = Inr n) \<and>
      (case passed of None \<Rightarrow> True
       | Some b \<Rightarrow> gprop e ''passed_threshold'' \<noteq> PNone \<and>
           truthy (gprop e ''passed_threshold'') = b)" for e
    by (auto simp: election_match_def split: option.splits sum.splits)
  show ?thesis
    unfolding election_result_def m [symmetric]
    by (auto simp: find_None_iff find_Some_iff list_ex_iff split: option.splits)
qed

text \<open>
  A government-decision claim that carries a decision number instead of a resolved identifier is
  contradicted by the very node the retrieval returned for that number.
\<close>

lemma decision_number_contradicted:
  "fst (government_decision rp (Some (lit ''550''))
     [\<lparr>ge_claim_type = lit ''government_decision'',
       ge_node_ids = [(lit ''government_decision_id'', lit ''7c9e6679'')],
       ge_properties = [(lit ''decision_number'', PLit ''550'')],
       ge_source_document_ids = [], ge_source_tier = 1\<rparr>]) = Contradicted"
  by (simp add: government_decision_def decision_match_def py_or_def)

end
