(* ===== verification/Provenance.thy ===== *)
theory Provenance
  imports Verdict
begin

text \<open>
  \<open>provenance.py\<close> of \<open>civic_verification\<close> and the \<open>as_dict\<close> methods it relies on: how a
  verdict and its evidence become the JSON payload of the API, and the optional summarizer,
  a parameter that may raise.
\<close>

section \<open>Decision traces and outcomes as JSON\<close>

fun checkability_name :: "checkability \<Rightarrow> pystr" where
  "checkability_name Checkable = lit ''checkable''"
| "checkability_name NonCheckable = lit ''non_checkable''"
| "checkability_name InsufficientTimeScope = lit ''insufficient_time_scope''"
| "checkability_name InsufficientEntityResolution = lit ''insufficient_entity_resolution''"

fun status_name :: "status \<Rightarrow> pystr" where
  "status_name Supported = lit ''supported''"
| "status_name Contradicted = lit ''contradicted''"
| "status_name Mixed = lit ''mixed''"
| "status_name InsufficientEvidence = lit ''insufficient_evidence''"
| "status_name NonCheckableVerdict = lit ''non_checkable''"

definition obj :: "(string \<times> pyval) list \<Rightarrow> pyval" where
  "obj kvs = PDict (map (\<lambda>(k, v). (lit k, v)) kvs)"

definition abstain :: "string \<Rightarrow> (string \<times> pyval) list \<Rightarrow> pyval" where
  "abstain r extra = obj ([(''kind'', PLit ''abstain''), (''reason'', PLit r)] @ extra)"

definition nat_val :: "nat \<Rightarrow> pyval" where
  "nat_val n = PInt (int n)"

fun reason_json :: "reason \<Rightarrow> pyval" where
  "reason_json (AbstainCheckability c) = abstain ''checkability'' [(''detail'', PStr (checkability_name c))]"
| "reason_json AbstainNoEvidence = abstain ''no_evidence'' []"
| "reason_json (AbstainLowConfidence x) = abstain ''low_confidence'' [(''overall'', PFloat x)]"
| "reason_json (Abstain r) = abstain r []"
| "reason_json (SupportGraph n) =
     obj [(''kind'', PLit ''support''), (''source'', PLit ''graph''), (''count'', nat_val n)]"
| "reason_json (SupportLexical n) =
     obj [(''kind'', PLit ''support''), (''source'', PLit ''lexical''), (''count'', nat_val n)]"
| "reason_json (SupportPresent n) = obj [(''kind'', PLit ''support''), (''count'', nat_val n)]"
| "reason_json SupportLexicalMulti =
     obj [(''kind'', PLit ''support''), (''source'', PLit ''lexical_multi'')]"
| "reason_json MixedLexicalSingle =
     obj [(''kind'', PLit ''mixed''), (''source'', PLit ''lexical_single'')]"
| "reason_json ContradictOnlyAbsent =
     obj [(''kind'', PLit ''contradict''), (''reason'', PLit ''only_absent_sessions'')]"
| "reason_json (SupportElection seats passed) =
     obj [(''kind'', PLit ''support''), (''source'', PLit ''graph''), (''seats_won'', seats),
          (''passed_threshold'', passed)]"
| "reason_json (ContradictElection seats passed observed) =
     obj [(''kind'', PLit ''contradict''), (''expected_seats'', of_opt PInt seats),
          (''expect_passed_threshold'', of_opt PBool passed),
          (''observed'', PList (map (\<lambda>(s, p, k).
             obj [(''seats_won'', s), (''passed_threshold'', p), (''knesset_number'', k)]) observed))]"
| "reason_json (SupportDecision num gov title) =
     obj [(''kind'', PLit ''support''), (''source'', PLit ''graph''), (''decision_number'', num),
          (''government_number'', gov), (''title'', title)]"
| "reason_json (ContradictDecision expected observed) =
     obj [(''kind'', PLit ''contradict''), (''reason'', PLit ''decision_id_mismatch''),
          (''expected_id'', of_opt PStr expected),
          (''observed'', PList (map (\<lambda>(n, g).
             obj [(''decision_number'', n), (''government_number'', g)]) observed))]"
| "reason_json SupportAnyVote =
     obj [(''kind'', PLit ''support''), (''reason'', PLit ''any_vote_recorded'')]"
| "reason_json (SupportVote v) =
     obj [(''kind'', PLit ''support''), (''detail'', PStr (lit ''matches '' @ v))]"
| "reason_json (MixedVote vs) = obj [(''kind'', PLit ''mixed''), (''detail'', PList vs)]"
| "reason_json (ContradictVote v observed) =
     obj [(''kind'', PLit ''contradict''), (''expected'', PStr v), (''observed'', PList observed)]"

definition confidence_json :: "confidence \<Rightarrow> pyval" where
  "confidence_json c =
     obj [(''source_authority'', PFloat (cf_source_authority c)),
          (''directness'', PFloat (cf_directness c)),
          (''temporal_alignment'', PFloat (cf_temporal_alignment c)),
          (''entity_resolution'', PFloat (cf_entity_resolution c)),
          (''cross_source_consistency'', PFloat (cf_cross_source_consistency c)),
          (''overall'', PFloat (cf_overall c))]"

definition outcome_fields :: "verdict_outcome \<Rightarrow> (string \<times> pyval) list" where
  "outcome_fields out =
     [(''status'', PStr (status_name (vo_status out))),
      (''confidence'', confidence_json (vo_confidence out)),
      (''needs_human_review'', PBool (vo_needs_human_review out)),
      (''reasons'', PList (map reason_json (vo_reasons out)))]"

definition outcome_json :: "verdict_outcome \<Rightarrow> pyval" where
  "outcome_json out = obj (outcome_fields out)"

section \<open>Evidence as JSON\<close>

fun axis_name :: "axis \<Rightarrow> string" where
  "axis_name SourceTier = ''source_tier''"
| "axis_name Directness = ''directness''"
| "axis_name TemporalAlignment = ''temporal_alignment''"
| "axis_name EntityResolution = ''entity_resolution''"
| "axis_name CrossSourceConsistency = ''cross_source_consistency''"

definition score_json :: "rerank_score \<Rightarrow> pyval" where
  "score_json s =
     obj (map (\<lambda>a. (axis_name a, PFloat (rs_axis s a))) axes @ [(''overall'', PFloat (rs_overall s))])"

fun evidence_fields :: "evidence \<Rightarrow> (string \<times> pyval) list" where
  "evidence_fields (Graph e) =
     [(''kind'', PLit ''graph''), (''claim_type'', PStr (ge_claim_type e)),
      (''node_ids'', PDict (map (\<lambda>(k, v). (k, PStr v)) (ge_node_ids e))),
      (''properties'', PDict (ge_properties e)),
      (''source_document_ids'', PList (map PStr (ge_source_document_ids e))),
      (''source_tier'', PInt (ge_source_tier e))]"
| "evidence_fields (Lexical e) =
     [(''kind'', PLit ''lexical''), (''span_id'', PStr (le_span_id e)),
      (''document_id'', PStr (le_document_id e)), (''text'', PStr (le_text e)),
      (''source_tier'', PInt (le_source_tier e)), (''score'', PFloat (le_score e)),
      (''properties'', PDict (le_properties e))]"

definition evidence_to_dict :: "rerank_score \<Rightarrow> pyval dict" where
  "evidence_to_dict s =
     map (\<lambda>(k, v). (lit k, v)) (evidence_fields (rs_evidence s) @ [(''scores'', score_json s)])"

section \<open>The bundle\<close>

record provenance_bundle =
  pb_verdict :: "pyval dict"
  pb_top_evidence :: "pyval dict list"
  pb_uncertainty_note :: "pystr option"

type_synonym summarizer = "pyval \<Rightarrow> pyerr + pystr option"

definition bundle_provenance ::
    "verdict_outcome \<Rightarrow> rerank_score list \<Rightarrow> pystr \<Rightarrow> pystr \<Rightarrow> nat \<Rightarrow> summarizer option \<Rightarrow>
     provenance_bundle" where
  "bundle_provenance outcome ranked claim_id claim_type top_k summarizer =
     (let top = map evidence_to_dict (take top_k ranked);
          payload = map (\<lambda>(k, v). (lit k, v))
            ([(''claim_id'', PStr claim_id), (''claim_type'', PStr claim_type)] @ outcome_fields outcome);
          note = (case summarizer of
              Some summarize \<Rightarrow>
                if vo_needs_human_review outcome
                then (case summarize (obj [(''verdict'', PDict payload),
                        (''top_evidence'', PList (map PDict top))]) of
                        Inl _ \<Rightarrow> None | Inr n \<Rightarrow> n)
                else None
            | None \<Rightarrow> None)
      in \<lparr>pb_verdict = payload, pb_top_evidence = top, pb_uncertainty_note = note\<rparr>)"

lemma bundle_verdict_status:
  "vget (pb_verdict (bundle_provenance out ranked cid ct k sm)) (lit ''status'') =
     PStr (status_name (vo_status out))"
  "vget (pb_verdict (bundle_provenance out ranked cid ct k sm)) (lit ''needs_human_review'') =
     PBool (vo_needs_human_review out)"
  by (simp_all add: bundle_provenance_def Let_def outcome_fields_def)

text \<open>
  The summarizer is narrative only: whatever it returns or raises, the verdict payload and
  the evidence of the bundle are those of the bundle without it, at most \<open>top_k\<close> items are
  carried in rank order, and a note appears only on an outcome that needs human review.
\<close>

lemma summarizer_narrative_only:
  "let b = bundle_provenance out ranked cid ct k sm; plain = bundle_provenance out ranked cid ct k None
   in pb_verdict b = pb_verdict plain \<and> pb_top_evidence b = pb_top_evidence plain \<and>
      length (pb_top_evidence b) = min k (length ranked) \<and>
      (if vo_needs_human_review out then True else pb_uncertainty_note b = None)"
  by (simp add: bundle_provenance_def Let_def min.commute split: option.splits)

end
