(* ===== verification/Review_Queue.thy ===== *)
theory Review_Queue
  imports Provenance
begin

text \<open>
  \<open>services/review/src/civic_review/\<close> (\<open>queue.py\<close>, \<open>audit.py\<close>, \<open>conflict.py\<close>,
  \<open>evidence.py\<close>, \<open>correction.py\<close>) over the tables of migrations 0002 and 0005, and the
  endpoints of \<open>apps/api/src/api/routers/review.py\<close>.

  The database is explicit state. A statement may fail (\<open>fault\<close>): with the connection in a
  transaction the caller's rollback undoes the whole operation, with \<open>autocommit\<close> (the mode
  \<open>apps/api/src/api/main.py\<close> sets) the statements already executed stay. An operation returns
  the database it leaves together with its result or error, when no other operation comes between its
  statements. In a transaction \<open>FOR UPDATE\<close> sees to that (\<open>review_step\<close>); with \<open>autocommit\<close> the lock is gone
  with the statement that took it, and the requests, which run in a thread pool, interleave statement by
  statement (\<open>api_step\<close>).
\<close>

section \<open>State\<close>

datatype review_action = Approve | Reject | Relink | Annotate | Escalate

fun action_name :: "review_action \<Rightarrow> pystr" where
  "action_name Approve = lit ''approve''"
| "action_name Reject = lit ''reject''"
| "action_name Relink = lit ''relink''"
| "action_name Annotate = lit ''annotate''"
| "action_name Escalate = lit ''escalate''"

text \<open>\<open>ReviewAction(decision)\<close>; anything else is a \<open>ValueError\<close>, which the caller catches.\<close>

definition action_of :: "pystr \<Rightarrow> review_action option" where
  "action_of s = find (\<lambda>a. action_name a = s) [Approve, Reject, Relink, Annotate, Escalate]"

datatype task_status = Open | Claimed | TaskResolved | Escalated

fun terminal :: "task_status \<Rightarrow> bool" where
  "terminal TaskResolved = True"
| "terminal Escalated = True"
| "terminal _ = False"

fun decision_status :: "review_action \<Rightarrow> task_status" where
  "decision_status Approve = TaskResolved"
| "decision_status Reject = TaskResolved"
| "decision_status Relink = TaskResolved"
| "decision_status Annotate = Open"
| "decision_status Escalate = Escalated"

record review_task =
  t_id :: nat
  t_task_id :: pystr
  t_kind :: pystr
  t_status :: task_status
  t_priority :: int
  t_payload :: "pyval dict"
  t_assigned_to :: "pystr option"
  t_created_at :: pystr

record review_action_record =
  ra_action_id :: pystr
  ra_task_id :: nat
  ra_actor :: pystr
  ra_action :: review_action
  ra_diff :: "pyval dict"
  ra_created_at :: pystr

record entity_candidate =
  ec_candidate_id :: pystr
  ec_canonical_entity_id :: "pystr option"
  ec_entity_kind :: pystr

record review_db =
  tasks :: "review_task list"
  actions :: "review_action_record list"
  candidates :: "entity_candidate list"

datatype commit_mode = Autocommit | Transaction

datatype statement = SelectTask | UpdateTask | InsertAction | UpdateCandidate

text \<open>The clock, the identifiers drawn by the operation, and which statements fail.\<close>

record env =
  e_now :: pystr
  e_uuid :: pystr
  e_fault :: "statement \<Rightarrow> bool"
  e_mode :: commit_mode

definition review_kind_check :: "pystr \<Rightarrow> bool" where
  "review_kind_check k \<longleftrightarrow> k \<in> {lit ''entity_resolution'', lit ''verdict'', lit ''conflict''}"

definition row_id :: "review_db \<Rightarrow> nat" where
  "row_id db = Suc (length (tasks db))"

section \<open>Opening a task\<close>

definition open_review_task ::
    "env \<Rightarrow> pystr \<Rightarrow> pyval dict \<Rightarrow> int \<Rightarrow> review_db \<Rightarrow> review_db \<times> (pyerr + pystr)" where
  "open_review_task env kind payload priority db =
     (if kind \<notin> {lit ''entity_resolution'', lit ''verdict'', lit ''conflict'', lit ''declaration''}
      then (db, Inl ValueError)
      else if \<not> review_kind_check kind \<or> e_uuid env \<in> t_task_id ` set (tasks db)
      then (db, Inl DatabaseError)
      else
        (db\<lparr>tasks := tasks db @
             [\<lparr>t_id = row_id db, t_task_id = e_uuid env, t_kind = kind, t_status = Open,
               t_priority = priority, t_payload = payload, t_assigned_to = None,
               t_created_at = e_now env\<rparr>]\<rparr>,
         Inr (e_uuid env)))"

definition find_task :: "pystr \<Rightarrow> review_db \<Rightarrow> review_task option" where
  "find_task task_id db = find (\<lambda>t. t_task_id t = task_id) (tasks db)"

definition get_task :: "pystr \<Rightarrow> review_db \<Rightarrow> review_task option" where
  "get_task task_id db = find_task task_id db"

text \<open>\<open>ORDER BY priority DESC, id ASC LIMIT limit\<close>; a negative limit is an error.\<close>

definition list_open_tasks :: "int \<Rightarrow> review_db \<Rightarrow> pyerr + review_task list" where
  "list_open_tasks limit db =
     (if limit < 0 then Inl DatabaseError
      else Inr (take (nat limit)
        (sort_key (\<lambda>t. (- t_priority t, t_id t))
          (filter (\<lambda>t. t_status t \<in> {Open, Claimed}) (tasks db)))))"

section \<open>Resolving a task\<close>

definition insert_action ::
    "env \<Rightarrow> nat \<Rightarrow> pystr \<Rightarrow> review_action \<Rightarrow> pyval dict \<Rightarrow> review_db \<Rightarrow> review_db" where
  "insert_action env tid actor action diff db =
     db\<lparr>actions := actions db @
        [\<lparr>ra_action_id = e_uuid env, ra_task_id = tid, ra_actor = actor, ra_action = action,
          ra_diff = diff, ra_created_at = e_now env\<rparr>]\<rparr>"

definition enrich_reject_diff :: "review_task \<Rightarrow> review_action \<Rightarrow> pyval dict \<Rightarrow> pyval dict" where
  "enrich_reject_diff task action diff =
     (if action \<noteq> Reject \<or> t_kind task \<noteq> lit ''verdict'' then diff
      else
        (let out = dset diff (lit ''verdict_reviewer_override'') (PBool True) in
         case dget (t_payload task) (lit ''machine_verdict'') of
           None \<Rightarrow> out
         | Some v \<Rightarrow> dset out (lit ''original_machine'') v))"

definition notes_diff :: "pystr option \<Rightarrow> pyval dict" where
  "notes_diff notes =
     (case notes of None \<Rightarrow> [] | Some n \<Rightarrow> if n = [] then [] else [(lit ''notes'', PStr n)])"

definition set_task :: "nat \<Rightarrow> task_status \<Rightarrow> pystr \<Rightarrow> review_db \<Rightarrow> review_db" where
  "set_task i st reviewer db =
     db\<lparr>tasks := map (\<lambda>t. if t_id t = i then t\<lparr>t_status := st, t_assigned_to := Some reviewer\<rparr> else t)
        (tasks db)\<rparr>"

definition resolve_task ::
    "env \<Rightarrow> pystr \<Rightarrow> pystr \<Rightarrow> pystr \<Rightarrow> pystr option \<Rightarrow> review_db \<Rightarrow>
     review_db \<times> (pyerr + review_task option)" where
  "resolve_task env task_id decision reviewer_id notes db =
     (case action_of decision of
        None \<Rightarrow> (db, Inr None)
      | Some action \<Rightarrow>
          if e_fault env SelectTask then (db, Inl DatabaseError)
          else
            (case find_task task_id db of
               None \<Rightarrow> (db, Inr None)
             | Some task \<Rightarrow>
                 let diff = notes_diff notes in
                 if terminal (t_status task)
                 then
                   (if e_fault env InsertAction then (db, Inl DatabaseError)
                    else (insert_action env (t_id task) reviewer_id action diff db, Inr (Some task)))
                 else if e_fault env UpdateTask then (db, Inl DatabaseError)
                 else
                   (let st = decision_status action;
                        updated = task\<lparr>t_status := st, t_assigned_to := Some reviewer_id\<rparr>;
                        db1 = set_task (t_id task) st reviewer_id db
                    in if e_fault env InsertAction
                       then (case e_mode env of Transaction \<Rightarrow> db | Autocommit \<Rightarrow> db1, Inl DatabaseError)
                       else (insert_action env (t_id task) reviewer_id action
                               (enrich_reject_diff task action diff) db1,
                             Inr (Some updated)))))"

section \<open>Evidence confirmation, entity correction, conflicts\<close>

definition append_span_confirmation ::
    "env \<Rightarrow> review_task \<Rightarrow> pystr list \<Rightarrow> pystr \<Rightarrow> review_db \<Rightarrow> review_db \<times> (pyerr + bool)" where
  "append_span_confirmation env task span_ids reviewer_id db =
     (if span_ids = [] then (db, Inr False)
      else if e_fault env InsertAction then (db, Inl DatabaseError)
      else
        (insert_action env (t_id task) reviewer_id Annotate
           [(lit ''kind'', PLit ''evidence_confirmation''),
            (lit ''span_ids'', PList (map PStr span_ids))] db,
         Inr True))"

record relink_request =
  rq_candidate_id :: pystr
  rq_canonical_entity_id :: pystr
  rq_entity_kind :: pystr
  rq_reviewer_id :: pystr

definition ENTITY_KINDS :: "pystr list" where
  "ENTITY_KINDS = map lit [''person'', ''party'', ''office'', ''committee'', ''bill'']"

definition apply_entity_relink ::
    "env \<Rightarrow> relink_request \<Rightarrow> review_db \<Rightarrow> review_db \<times> (pyerr + bool)" where
  "apply_entity_relink env req db =
     (if rq_entity_kind req \<notin> set ENTITY_KINDS then (db, Inr False)
      else if e_fault env UpdateCandidate then (db, Inl DatabaseError)
      else if rq_candidate_id req \<notin> ec_candidate_id ` set (candidates db) then (db, Inr False)
      else
        (db\<lparr>candidates := map (\<lambda>c. if ec_candidate_id c = rq_candidate_id req
             then c\<lparr>ec_canonical_entity_id := Some (rq_canonical_entity_id req),
                    ec_entity_kind := rq_entity_kind req\<rparr> else c) (candidates db)\<rparr>,
         Inr True))"

definition relink_by_task_id ::
    "(pyval \<Rightarrow> pystr) \<Rightarrow> env \<Rightarrow> pystr \<Rightarrow> relink_request \<Rightarrow> review_db \<Rightarrow>
     review_db \<times> (pyerr + bool)" where
  "relink_by_task_id rp env task_id req db =
     (if e_fault env SelectTask then (db, Inl DatabaseError)
      else
        (case find_task task_id db of
           None \<Rightarrow> (db, Inr False)
         | Some task \<Rightarrow>
             if t_kind task \<noteq> lit ''entity_resolution'' then (db, Inr False)
             else if py_str rp (case dget (t_payload task) (lit ''candidate_id'') of
                        None \<Rightarrow> PStr [] | Some v \<Rightarrow> v) \<noteq> rq_candidate_id req
             then (db, Inr False)
             else apply_entity_relink env req db))"

fun ev_tier :: "evidence \<Rightarrow> int" where
  "ev_tier (Graph e) = ge_source_tier e"
| "ev_tier (Lexical e) = le_source_tier e"

definition tier1_evidence_count :: "rerank_score list \<Rightarrow> nat" where
  "tier1_evidence_count ranked = length (filter (\<lambda>r. ev_tier (rs_evidence r) = 1) ranked)"

definition maybe_open_conflict_task ::
    "env \<Rightarrow> pystr \<Rightarrow> verdict_outcome \<Rightarrow> rerank_score list \<Rightarrow> review_db \<Rightarrow>
     review_db \<times> (pyerr + pystr option)" where
  "maybe_open_conflict_task env claim_id outcome ranked db =
     (if vo_status outcome \<noteq> Mixed then (db, Inr None)
      else if tier1_evidence_count ranked < 1 then (db, Inr None)
      else
        (case open_review_task env (lit ''conflict'')
           [(lit ''claim_id'', PStr claim_id), (lit ''outcome'', outcome_json outcome)] 10 db of
           (db', Inl e) \<Rightarrow> (db', Inl e)
         | (db', Inr tid) \<Rightarrow> (db', Inr (Some tid))))"

section \<open>The endpoints\<close>

text \<open>
  \<open>decision\<close> and \<open>entity_kind\<close> are validated by the request models to be one of the listed
  values and \<open>reviewer_id\<close> to be non-empty before a handler runs.
\<close>

definition relink_entity ::
    "(pyval \<Rightarrow> pystr) \<Rightarrow> env \<Rightarrow> env \<Rightarrow> pystr \<Rightarrow> relink_request \<Rightarrow> pystr option \<Rightarrow> review_db \<Rightarrow>
     review_db \<times> (pyerr + pystr)" where
  "relink_entity rp env1 env2 task_id req notes db =
     (case relink_by_task_id rp env1 task_id req db of
        (db1, Inl e) \<Rightarrow> (db1, Inl e)
      | (db1, Inr False) \<Rightarrow> (db1, Inl (HTTPException 400))
      | (db1, Inr True) \<Rightarrow>
          (case resolve_task env2 task_id (lit ''relink'') (rq_reviewer_id req) notes db1 of
             (db2, Inl e) \<Rightarrow> (db2, Inl e)
           | (db2, Inr None) \<Rightarrow> (db2, Inl (HTTPException 500))
           | (db2, Inr (Some _)) \<Rightarrow> (db2, Inr (lit ''ok''))))"

definition confirm_evidence ::
    "env \<Rightarrow> pystr \<Rightarrow> pystr list \<Rightarrow> pystr \<Rightarrow> review_db \<Rightarrow> review_db \<times> (pyerr + pystr)" where
  "confirm_evidence env task_id span_ids reviewer_id db =
     (if e_fault env SelectTask then (db, Inl DatabaseError)
      else
        (case get_task task_id db of
           None \<Rightarrow> (db, Inl (HTTPException 404))
         | Some task \<Rightarrow>
             (case append_span_confirmation env task span_ids reviewer_id db of
                (db', Inl e) \<Rightarrow> (db', Inl e)
              | (db', Inr False) \<Rightarrow> (db', Inl (HTTPException 400))
              | (db', Inr True) \<Rightarrow> (db', Inr (lit ''ok'')))))"

section \<open>The repository interface\<close>

text \<open>
  The endpoints talk to a \<open>ReviewRepository\<close>: the Postgres one above, or the empty one that
  stands in before the lifespan has wired a connection. The laws are what the endpoints rely
  on; both implementations satisfy them.
\<close>

definition empty_list_open_tasks :: "int \<Rightarrow> 'r \<Rightarrow> pyerr + review_task list" where
  "empty_list_open_tasks limit r = Inr []"

definition empty_resolve_task ::
    "pystr \<Rightarrow> pystr \<Rightarrow> pystr \<Rightarrow> pystr option \<Rightarrow> 'r \<Rightarrow> 'r \<times> (pyerr + review_task option)" where
  "empty_resolve_task task_id decision reviewer_id notes r = (r, Inr None)"

definition list_review_tasks ::
    "(int \<Rightarrow> 'r \<Rightarrow> pyerr + review_task list) \<Rightarrow> int \<Rightarrow> 'r \<Rightarrow> pyerr + review_task list" where
  "list_review_tasks list_open limit r = list_open limit r"

definition resolve_review_task ::
    "(pystr \<Rightarrow> pystr \<Rightarrow> pystr \<Rightarrow> pystr option \<Rightarrow> 'r \<Rightarrow> 'r \<times> (pyerr + review_task option)) \<Rightarrow>
     pystr \<Rightarrow> pystr \<Rightarrow> pystr \<Rightarrow> pystr option \<Rightarrow> 'r \<Rightarrow> 'r \<times> (pyerr + review_task)" where
  "resolve_review_task resolve task_id decision reviewer_id notes r =
     (case resolve task_id decision reviewer_id notes r of
        (r', Inl e) \<Rightarrow> (r', Inl e)
      | (r', Inr None) \<Rightarrow> (r', Inl (HTTPException 404))
      | (r', Inr (Some task)) \<Rightarrow> (r', Inr task))"

locale review_repository =
  fixes list_open :: "int \<Rightarrow> 'r \<Rightarrow> pyerr + review_task list"
    and resolve :: "pystr \<Rightarrow> pystr \<Rightarrow> pystr \<Rightarrow> pystr option \<Rightarrow> 'r \<Rightarrow>
      'r \<times> (pyerr + review_task option)"
  assumes list_live: "list_open n r = Inr ts \<Longrightarrow> t \<in> set ts \<Longrightarrow> \<not> terminal (t_status t)"
    and list_limit: "list_open n r = Inr ts \<Longrightarrow> length ts \<le> nat n"
    and not_found: "resolve tid d rv nt r = (r', Inr None) \<Longrightarrow> r' = r"
    and found: "resolve tid d rv nt r = (r', Inr (Some t)) \<Longrightarrow> t_task_id t = tid"
    and db_error: "resolve tid d rv nt r = (r', Inl e) \<Longrightarrow> e = DatabaseError"
begin

lemma endpoint_resolve:
  assumes "resolve_review_task resolve tid d rv nt r = (r', x)"
  shows "case x of Inl e \<Rightarrow> e = DatabaseError \<or> e = HTTPException 404 \<and> r' = r
    | Inr t \<Rightarrow> t_task_id t = tid"
  using assms not_found [of tid d rv nt r] found [of tid d rv nt r] db_error [of tid d rv nt r]
  by (auto simp: resolve_review_task_def split: prod.splits sum.splits option.splits)

lemma endpoint_list: "list_review_tasks list_open n r = Inr ts \<Longrightarrow>
    length ts \<le> nat n \<and> list_all (\<lambda>t. \<not> terminal (t_status t)) ts"
  using list_live [of n r ts] list_limit [of n r ts]
  by (auto simp: list_review_tasks_def list_all_iff)

end

lemma find_task_id: "find_task tid db = Some t \<Longrightarrow> t_task_id t = tid \<and> t \<in> set (tasks db)"
  unfolding find_task_def find_Some_iff by (metis nth_mem)

interpretation pg_repo: review_repository list_open_tasks "resolve_task env"
proof unfold_locales
  show "\<not> terminal (t_status t)" if "list_open_tasks n r = Inr ts" "t \<in> set ts" for n r ts t
  proof -
    have "t_status t \<in> {Open, Claimed}"
      using that by (auto simp: list_open_tasks_def split: if_splits dest!: in_set_takeD)
    then show ?thesis by auto
  qed
  show "length ts \<le> nat n" if "list_open_tasks n r = Inr ts" for n r ts
    using that by (auto simp: list_open_tasks_def split: if_splits)
  show "r' = r" if "resolve_task env tid d rv nt r = (r', Inr None)" for tid d rv nt r r'
    using that by (auto simp: resolve_task_def Let_def split: option.splits if_splits)
  show "t_task_id t = tid" if "resolve_task env tid d rv nt r = (r', Inr (Some t))" for tid d rv nt r r' t
    using that find_task_id [of tid r]
    by (auto simp: resolve_task_def Let_def split: option.splits if_splits)
  show "e = DatabaseError" if "resolve_task env tid d rv nt r = (r', Inl e)" for tid d rv nt r r' e
    using that by (auto simp: resolve_task_def Let_def split: option.splits if_splits commit_mode.splits)
qed

interpretation empty_repo: review_repository empty_list_open_tasks empty_resolve_task
  by unfold_locales (auto simp: empty_list_open_tasks_def empty_resolve_task_def)

section \<open>Reachable states\<close>

text \<open>
  One step of a review service whose operations each are a transaction of their own: any operation, succeeding or failing.
\<close>

inductive review_step :: "review_db \<Rightarrow> review_db \<Rightarrow> bool" where
  step_open: "open_review_task env kind payload priority db = (db', r) \<Longrightarrow> review_step db db'"
| step_conflict: "maybe_open_conflict_task env cid out ranked db = (db', c) \<Longrightarrow> review_step db db'"
| step_resolve: "resolve_task env tid decision reviewer nt db = (db', x) \<Longrightarrow> e_mode env = Transaction \<Longrightarrow> review_step db db'"
| step_confirm: "confirm_evidence env tid spans reviewer db = (db', s) \<Longrightarrow> review_step db db'"
| step_relink: "relink_by_task_id rp env tid req db = (db', b) \<Longrightarrow> review_step db db'"

inductive review_run :: "review_db \<Rightarrow> review_db \<Rightarrow> bool" where
  run_refl: "review_run db db"
| run_step: "review_run db db' \<Longrightarrow> review_step db' db'' \<Longrightarrow> review_run db db''"

text \<open>Every step is one of four changes of the tables.\<close>

definition task_opened :: "review_db \<Rightarrow> review_db \<Rightarrow> bool" where
  "task_opened db db' \<longleftrightarrow> (\<exists>t. tasks db' = tasks db @ [t] \<and> actions db' = actions db \<and>
     t_id t = row_id db \<and> t_status t = Open \<and> t_assigned_to t = None \<and>
     review_kind_check (t_kind t) \<and> t_task_id t \<notin> t_task_id ` set (tasks db))"

definition action_added :: "review_db \<Rightarrow> review_db \<Rightarrow> bool" where
  "action_added db db' \<longleftrightarrow> (\<exists>a. tasks db' = tasks db \<and> actions db' = actions db @ [a] \<and>
     ra_task_id a \<in> t_id ` set (tasks db))"

definition task_decided :: "review_db \<Rightarrow> review_db \<Rightarrow> bool" where
  "task_decided db db' \<longleftrightarrow> (\<exists>t a. t \<in> set (tasks db) \<and> \<not> terminal (t_status t) \<and>
     tasks db' = tasks (set_task (t_id t) (decision_status (ra_action a)) (ra_actor a) db) \<and>
     actions db' = actions db @ [a] \<and> ra_task_id a = t_id t)"

definition tables_same :: "review_db \<Rightarrow> review_db \<Rightarrow> bool" where
  "tables_same db db' \<longleftrightarrow> tasks db' = tasks db \<and> actions db' = actions db"

lemma open_effect:
  "open_review_task env kind payload priority db = (db', r) \<Longrightarrow>
     tables_same db db' \<or> task_opened db db'"
  by (auto simp: open_review_task_def tables_same_def task_opened_def split: if_splits)

lemma conflict_effect:
  "maybe_open_conflict_task env cid out ranked db = (db', c) \<Longrightarrow>
     tables_same db db' \<or> task_opened db db'"
  using open_effect
  by (fastforce simp: maybe_open_conflict_task_def tables_same_def split: if_splits prod.splits sum.splits)

lemma decision_status_not_claimed [simp]: "decision_status a \<noteq> Claimed"
  by (cases a) auto

lemma insert_action_simps [simp]:
  "tasks (insert_action env i rv a d db) = tasks db"
  "actions (insert_action env i rv a d db) = actions db @
     [\<lparr>ra_action_id = e_uuid env, ra_task_id = i, ra_actor = rv, ra_action = a, ra_diff = d,
       ra_created_at = e_now env\<rparr>]"
  "candidates (insert_action env i rv a d db) = candidates db"
  by (simp_all add: insert_action_def)

lemma set_task_simps [simp]:
  "actions (set_task i st rv db) = actions db" "candidates (set_task i st rv db) = candidates db"
  by (simp_all add: set_task_def)

lemma resolve_effect:
  assumes "resolve_task env tid decision reviewer notes db = (db', x)" "e_mode env = Transaction"
  shows "tables_same db db' \<or> action_added db db' \<or> task_decided db db'"
proof (cases "action_of decision")
  case None
  with assms show ?thesis by (simp add: resolve_task_def tables_same_def)
next
  case (Some action)
  show ?thesis
  proof (cases "find_task tid db")
    case None
    with assms Some show ?thesis by (auto simp: resolve_task_def tables_same_def split: if_splits)
  next
    case (Some task)
    note t = find_task_id [OF Some]
    show ?thesis
    proof (cases "terminal (t_status task)")
      case True
      with assms Some \<open>action_of decision = Some action\<close> t show ?thesis
        by (auto simp: resolve_task_def Let_def tables_same_def action_added_def split: if_splits)
    next
      case False
      have "task_decided db (insert_action env (t_id task) reviewer action d
          (set_task (t_id task) (decision_status action) reviewer db))" for d
        unfolding task_decided_def using t False by (intro exI [of _ task]) auto
      then show ?thesis
        using assms Some \<open>action_of decision = Some action\<close> False
        by (auto simp: resolve_task_def Let_def tables_same_def split: if_splits commit_mode.splits)
    qed
  qed
qed

lemma confirm_effect:
  "confirm_evidence env tid spans reviewer db = (db', s) \<Longrightarrow> tables_same db db' \<or> action_added db db'"
  using find_task_id [of tid db]
  by (auto simp: confirm_evidence_def append_span_confirmation_def get_task_def tables_same_def
      action_added_def split: if_splits option.splits)

lemma relink_effect: "relink_by_task_id rp env tid req db = (db', b) \<Longrightarrow> tables_same db db'"
  by (auto simp: relink_by_task_id_def apply_entity_relink_def tables_same_def
      split: if_splits option.splits)

lemma step_effect:
  assumes "review_step db db'"
  shows "tables_same db db' \<or> task_opened db db' \<or> action_added db db' \<or> task_decided db db'"
  using assms
  by (cases rule: review_step.cases)
    (blast dest: open_effect conflict_effect resolve_effect confirm_effect relink_effect)+

section \<open>Invariants of every reachable state\<close>

definition review_wf :: "review_db \<Rightarrow> bool" where
  "review_wf db \<longleftrightarrow>
     map t_id (tasks db) = [1..<Suc (length (tasks db))] \<and> distinct (map t_task_id (tasks db)) \<and>
     list_all (\<lambda>t. review_kind_check (t_kind t) \<and> t_status t \<noteq> Claimed) (tasks db) \<and>
     list_all (\<lambda>a. ra_task_id a \<in> t_id ` set (tasks db)) (actions db)"

text \<open>A task nobody decided is open; a decided one has the audit row of that very decision.\<close>

definition audited :: "review_db \<Rightarrow> review_task \<Rightarrow> bool" where
  "audited db t \<longleftrightarrow>
     (case t_assigned_to t of
        None \<Rightarrow> t_status t = Open
      | Some reviewer \<Rightarrow> list_ex (\<lambda>a. ra_task_id a = t_id t \<and> ra_actor a = reviewer \<and>
          decision_status (ra_action a) = t_status t) (actions db))"

definition empty_tables :: "review_db \<Rightarrow> bool" where
  "empty_tables db \<longleftrightarrow> tasks db = [] \<and> actions db = []"

lemma set_task_map: "tasks (set_task i st rv db) =
    map (\<lambda>t. if t_id t = i then t\<lparr>t_status := st, t_assigned_to := Some rv\<rparr> else t) (tasks db)"
  by (simp add: set_task_def)

lemma set_task_wf:
  assumes "review_wf db" "tasks db' = tasks (set_task i st rv db)" "st \<noteq> Claimed"
    "list_all (\<lambda>a. ra_task_id a \<in> t_id ` set (tasks db)) (actions db')"
  shows "review_wf db'"
proof -
  have ids: "map t_id (tasks db') = map t_id (tasks db)"
    "map t_task_id (tasks db') = map t_task_id (tasks db)"
    by (auto simp: assms(2) set_task_map)
  then have "t_id ` set (tasks db') = t_id ` set (tasks db)" by (metis list.set_map)
  then show ?thesis
    using assms ids(2) unfolding review_wf_def ids
    by (auto simp: list_all_iff set_task_map)
qed

lemma step_wf:
  assumes "review_step db db'" "review_wf db" shows "review_wf db'"
  using step_effect [OF assms(1)]
proof (elim disjE)
  assume "tables_same db db'"
  then show ?thesis using assms(2) by (simp add: tables_same_def review_wf_def)
next
  assume "task_opened db db'"
  then obtain t where t: "tasks db' = tasks db @ [t]" "actions db' = actions db" "t_id t = row_id db"
    "t_status t = Open" "review_kind_check (t_kind t)" "t_task_id t \<notin> t_task_id ` set (tasks db)"
    by (auto simp: task_opened_def)
  then show ?thesis using assms(2) by (auto simp: review_wf_def row_id_def list_all_iff)
next
  assume "action_added db db'"
  then show ?thesis using assms(2) by (auto simp: action_added_def review_wf_def)
next
  assume "task_decided db db'"
  then obtain t a where d: "t \<in> set (tasks db)"
    "tasks db' = tasks (set_task (t_id t) (decision_status (ra_action a)) (ra_actor a) db)"
    "actions db' = actions db @ [a]" "ra_task_id a = t_id t" by (auto simp: task_decided_def)
  show ?thesis
    by (rule set_task_wf [OF assms(2) d(2)]) (use d assms(2) in \<open>auto simp: review_wf_def\<close>)
qed

lemma run_wf: "review_run db db' \<Longrightarrow> review_wf db \<Longrightarrow> review_wf db'"
  by (induction rule: review_run.induct) (auto intro: step_wf)

lemma empty_wf: "empty_tables db \<Longrightarrow> review_wf db"
  by (simp add: empty_tables_def review_wf_def)

lemma audited_more: "audited db t \<Longrightarrow> set (actions db) \<subseteq> set (actions db') \<Longrightarrow> audited db' t"
  by (auto simp: audited_def list_ex_iff split: option.splits)

lemma step_audited:
  assumes "review_step db db'" "\<forall>t \<in> set (tasks db). audited db t"
  shows "\<forall>t \<in> set (tasks db'). audited db' t"
  using step_effect [OF assms(1)]
proof (elim disjE)
  assume "tables_same db db'"
  then show ?thesis using assms(2) audited_more [of db _ db'] by (auto simp: tables_same_def)
next
  assume "task_opened db db'"
  then obtain t where t: "tasks db' = tasks db @ [t]" "actions db' = actions db"
    "t_status t = Open" "t_assigned_to t = None" by (auto simp: task_opened_def)
  then have "audited db' t" by (simp add: audited_def)
  then show ?thesis using assms(2) t audited_more [of db _ db'] by auto
next
  assume "action_added db db'"
  then have "tasks db' = tasks db" "set (actions db) \<subseteq> set (actions db')"
    by (auto simp: action_added_def)
  then show ?thesis using assms(2) audited_more [of db _ db'] by auto
next
  assume "task_decided db db'"
  then obtain t a where d: "t \<in> set (tasks db)"
    "tasks db' = tasks (set_task (t_id t) (decision_status (ra_action a)) (ra_actor a) db)"
    "actions db' = actions db @ [a]" "ra_task_id a = t_id t" by (auto simp: task_decided_def)
  show ?thesis
  proof
    fix u assume "u \<in> set (tasks db')"
    then obtain v where v: "v \<in> set (tasks db)"
      "u = (if t_id v = t_id t then v\<lparr>t_status := decision_status (ra_action a),
         t_assigned_to := Some (ra_actor a)\<rparr> else v)"
      by (auto simp: d(2) set_task_map)
    show "audited db' u"
    proof (cases "t_id v = t_id t")
      case True
      then show ?thesis by (simp add: v(2) audited_def d)
    next
      case False
      then show ?thesis using v assms(2) audited_more [of db v db'] d(3) by auto
    qed
  qed
qed

lemma run_audited:
  "review_run db db' \<Longrightarrow> \<forall>t \<in> set (tasks db). audited db t \<Longrightarrow>
     \<forall>t \<in> set (tasks db'). audited db' t"
  by (induction rule: review_run.induct) (auto dest: step_audited)

text \<open>
  Claim C10. With every operation in a transaction of its own the audit trail is complete: in any state the review
  service can reach from empty tables, whatever fails on the way, every task is either
  undecided and open, or has an audit row by the assigned reviewer for the decision that gave
  it its status; every audit row belongs to a task.
\<close>

theorem audit_trail_complete:
  assumes "review_run db0 db" "empty_tables db0"
  shows "list_all (audited db) (tasks db) \<and>
    list_all (\<lambda>a. ra_task_id a \<in> t_id ` set (tasks db)) (actions db)"
  using run_audited [OF assms(1)] run_wf [OF assms(1) empty_wf [OF assms(2)]] assms(2)
  by (auto simp: list_all_iff review_wf_def empty_tables_def)

definition sample_env :: "commit_mode \<Rightarrow> (statement \<Rightarrow> bool) \<Rightarrow> env" where
  "sample_env mode fault =
     \<lparr>e_now = lit ''now'', e_uuid = lit ''u1'', e_fault = fault, e_mode = mode\<rparr>"

definition empty_db :: review_db where
  "empty_db = \<lparr>tasks = [], actions = [], candidates = []\<rparr>"

definition sample_task :: review_task where
  "sample_task = \<lparr>t_id = 1, t_task_id = lit ''u1'', t_kind = lit ''verdict'', t_status = Open,
     t_priority = 0, t_payload = [], t_assigned_to = None, t_created_at = lit ''now''\<rparr>"

definition one_task_db :: review_db where
  "one_task_db = \<lparr>tasks = [sample_task], actions = [], candidates = []\<rparr>"

definition resolved_db :: review_db where
  "resolved_db = fst (resolve_task (sample_env Transaction (\<lambda>_. False)) (lit ''u1'')
     (lit ''approve'') (lit ''dana'') None one_task_db)"

lemma sample_open:
  "open_review_task (sample_env mode f) (lit ''verdict'') [] 0 empty_db = (one_task_db, Inr (lit ''u1''))"
  by (simp add: open_review_task_def sample_env_def empty_db_def one_task_db_def sample_task_def
      review_kind_check_def row_id_def)

lemma approve_action: "action_of (lit ''approve'') = Some Approve"
  by (simp add: action_of_def)

lemma resolved_db_simps:
  "tasks resolved_db = [sample_task\<lparr>t_status := TaskResolved, t_assigned_to := Some (lit ''dana'')\<rparr>]"
  "map ra_action (actions resolved_db) = [Approve]"
  by (simp_all add: resolved_db_def resolve_task_def approve_action sample_env_def find_task_def
      one_task_db_def sample_task_def set_task_map enrich_reject_diff_def Let_def)

lemma sample_run: "review_run empty_db resolved_db"
proof -
  have "review_run empty_db one_task_db"
    by (rule run_step [OF run_refl step_open [OF sample_open]])
  then show ?thesis
    by (rule run_step, intro step_resolve [where env = "sample_env Transaction (\<lambda>_. False)" and
          tid = "lit ''u1''" and decision = "lit ''approve''" and reviewer = "lit ''dana''" and nt = None])
      (simp_all add: resolved_db_def sample_env_def prod_eq_iff)
qed

lemma audit_trail_complete_witness:
  "list_all (audited resolved_db) (tasks resolved_db) \<and> terminal (t_status (hd (tasks resolved_db)))"
  using audit_trail_complete [OF sample_run] by (simp add: empty_tables_def empty_db_def resolved_db_simps)

lemma step_frozen:
  assumes "review_step db db'" "review_wf db" "t \<in> set (tasks db)" "terminal (t_status t)"
  shows "t \<in> set (tasks db')"
proof -
  have inj: "u = t" if "u \<in> set (tasks db)" "t_id u = t_id t" for u
  proof -
    have "distinct (map t_id (tasks db))" using assms(2) by (simp add: review_wf_def)
    then show ?thesis using that assms(3) by (auto simp: distinct_map dest: inj_onD)
  qed
  have keep: "t \<in> set (tasks (set_task (t_id u) st rv db))"
    if "u \<in> set (tasks db)" "\<not> terminal (t_status u)" for u st rv
  proof -
    have "t_id t \<noteq> t_id u" using inj [of u] that assms(4) by auto
    then show ?thesis using assms(3) by (force simp: set_task_map)
  qed
  from step_effect [OF assms(1)] show ?thesis
    by (elim disjE) (use assms(3) keep in \<open>auto simp: tables_same_def task_opened_def action_added_def
        task_decided_def\<close>)
qed

lemma step_actions: "review_step db db' \<Longrightarrow> \<exists>xs. actions db' = actions db @ xs"
  by (drule step_effect) (auto simp: tables_same_def task_opened_def action_added_def
      task_decided_def)

lemma run_frozen:
  assumes "review_run db db'" "review_wf db"
  shows "(\<forall>t \<in> set (tasks db). terminal (t_status t) \<longrightarrow> t \<in> set (tasks db')) \<and>
    (\<exists>xs. actions db' = actions db @ xs)"
  using assms
proof (induction rule: review_run.induct)
  case (run_step db db' db'')
  then have IH: "\<forall>t \<in> set (tasks db). terminal (t_status t) \<longrightarrow> t \<in> set (tasks db')"
    "\<exists>xs. actions db' = actions db @ xs" by auto
  have "review_wf db'" using run_step run_wf by blast
  then show ?case
    using IH step_frozen [OF run_step.hyps(2)] step_actions [OF run_step.hyps(2)] by auto
qed simp

section \<open>Statements that interleave\<close>

text \<open>
  A request of the API between two of its statements: it has read an undecided task and will update it, or it will insert an
  audit row. \<open>resolve_read\<close> and \<open>confirm_read\<close> are what a request does up to there; \<open>None\<close> is a request that is over.
\<close>

datatype in_flight =
    ToUpdate env review_task review_action pystr "pyval dict"
  | ToInsert env nat pystr review_action "pyval dict"

definition resolve_read :: "env \<Rightarrow> pystr \<Rightarrow> pystr \<Rightarrow> pystr \<Rightarrow> pystr option \<Rightarrow> review_db \<Rightarrow> in_flight option" where
  "resolve_read env task_id decision reviewer_id notes db =
     (case action_of decision of
        None \<Rightarrow> None
      | Some action \<Rightarrow>
          if e_fault env SelectTask then None
          else
            (case find_task task_id db of
               None \<Rightarrow> None
             | Some task \<Rightarrow> Some
                 (if terminal (t_status task) then ToInsert env (t_id task) reviewer_id action (notes_diff notes)
                  else ToUpdate env task action reviewer_id (enrich_reject_diff task action (notes_diff notes)))))"

definition confirm_read :: "env \<Rightarrow> pystr \<Rightarrow> pystr list \<Rightarrow> pystr \<Rightarrow> review_db \<Rightarrow> in_flight option" where
  "confirm_read env task_id span_ids reviewer_id db =
     (if e_fault env SelectTask \<or> span_ids = [] then None
      else map_option (\<lambda>task. ToInsert env (t_id task) reviewer_id Annotate
        [(lit ''kind'', PLit ''evidence_confirmation''), (lit ''span_ids'', PList (map PStr span_ids))]) (get_task task_id db))"

text \<open>The update finds its row by its number alone: it does not look at the status again.\<close>

fun next_statement :: "in_flight \<Rightarrow> review_db \<Rightarrow> review_db \<times> in_flight option" where
  "next_statement (ToUpdate env task action reviewer diff) db =
     (if e_fault env UpdateTask then (db, None)
      else (set_task (t_id task) (decision_status action) reviewer db, Some (ToInsert env (t_id task) reviewer action diff)))"
| "next_statement (ToInsert env i reviewer action diff) db =
     (if e_fault env InsertAction then db else insert_action env i reviewer action diff db, None)"

text \<open>
  A step of the API: a request is one statement further. Opening a task is one statement. Correcting an entity reads columns
  of the task that never change and is taken as one step.
\<close>

inductive api_step :: "review_db \<times> in_flight list \<Rightarrow> review_db \<times> in_flight list \<Rightarrow> bool" where
  api_open: "open_review_task env kind payload priority db = (db', r) \<Longrightarrow> api_step (db, ps) (db', ps)"
| api_conflict: "maybe_open_conflict_task env cid out ranked db = (db', c) \<Longrightarrow> api_step (db, ps) (db', ps)"
| api_relink: "relink_by_task_id rp env tid req db = (db', b) \<Longrightarrow> api_step (db, ps) (db', ps)"
| api_resolve: "resolve_read env tid decision reviewer nt db = Some p \<Longrightarrow> api_step (db, ps) (db, p # ps)"
| api_confirm: "confirm_read env tid spans reviewer db = Some p \<Longrightarrow> api_step (db, ps) (db, p # ps)"
| api_statement: "next_statement p db = (db', nxt) \<Longrightarrow>
     api_step (db, ps @ p # qs) (db', ps @ (case nxt of None \<Rightarrow> [] | Some q \<Rightarrow> [q]) @ qs)"

inductive api_run :: "review_db \<times> in_flight list \<Rightarrow> review_db \<times> in_flight list \<Rightarrow> bool" where
  api_refl: "api_run s s"
| api_more: "api_run s s' \<Longrightarrow> api_step s' s'' \<Longrightarrow> api_run s s''"

lemma api_statement_first: "next_statement p db = (db', None) \<Longrightarrow> api_step (db, p # ps) (db', ps)"
  "next_statement p db = (db', Some q) \<Longrightarrow> api_step (db, p # ps) (db', q # ps)"
  using api_statement [of p db db' None "[]" ps] api_statement [of p db db' "Some q" "[]" ps] by simp_all

text \<open>The operations whose statements nothing comes between are runs of these steps.\<close>

lemma resolve_uninterrupted:
  assumes "resolve_task env tid decision reviewer nt db = (db', x)" "e_mode env = Autocommit"
  shows "api_run (db, ps) (db', ps)"
proof (cases "resolve_read env tid decision reviewer nt db")
  case None
  then have "db' = db" using assms(1) by (auto simp: resolve_task_def resolve_read_def split: option.splits if_splits)
  then show ?thesis by (simp add: api_refl)
next
  case (Some p)
  have one: "api_run (db, ps) (db, p # ps)" by (rule api_more [OF api_refl api_resolve [OF Some]])
  obtain action task where t: "action_of decision = Some action" "\<not> e_fault env SelectTask" "find_task tid db = Some task"
    and p: "p = (if terminal (t_status task) then ToInsert env (t_id task) reviewer action (notes_diff nt)
      else ToUpdate env task action reviewer (enrich_reject_diff task action (notes_diff nt)))"
    using Some by (auto simp: resolve_read_def split: option.splits if_splits)
  show ?thesis
  proof (cases "next_statement p db")
    case (Pair db1 nxt)
    show ?thesis
    proof (cases nxt)
      case None
      then have "db1 = db'" using assms t Pair by (auto simp: p resolve_task_def Let_def split: if_splits)
      then show ?thesis using api_more [OF one api_statement_first(1)] Pair None by blast
    next
      case (Some q)
      have "next_statement q db1 = (db', None)"
        using assms t Pair Some by (auto simp: p resolve_task_def Let_def split: if_splits)
      then show ?thesis using api_more [OF api_more [OF one api_statement_first(2)] api_statement_first(1)] Pair Some by blast
    qed
  qed
qed

lemma confirm_uninterrupted:
  assumes "confirm_evidence env tid spans reviewer db = (db', x)"
  shows "api_run (db, ps) (db', ps)"
proof (cases "confirm_read env tid spans reviewer db")
  case None
  then have "db' = db" using assms
    by (auto simp: confirm_evidence_def confirm_read_def append_span_confirmation_def split: option.splits if_splits)
  then show ?thesis by (simp add: api_refl)
next
  case (Some p)
  then have "next_statement p db = (db', None)" using assms
    by (auto simp: confirm_evidence_def confirm_read_def append_span_confirmation_def split: option.splits if_splits)
  then show ?thesis by (blast intro: api_more api_refl api_confirm [OF Some] api_statement_first(1))
qed

text \<open>The task a request is about, and whether it is about to update that task.\<close>

fun target :: "in_flight \<Rightarrow> nat" where
  "target (ToUpdate env task action reviewer diff) = t_id task"
| "target (ToInsert env i reviewer action diff) = i"

definition updates :: "nat \<Rightarrow> in_flight \<Rightarrow> bool" where
  "updates i p \<longleftrightarrow> (case p of ToUpdate env task action reviewer diff \<Rightarrow> t_id task = i | ToInsert env j reviewer action diff \<Rightarrow> False)"

definition api_ok :: "review_db \<Rightarrow> in_flight list \<Rightarrow> bool" where
  "api_ok db ps \<longleftrightarrow> review_wf db \<and> (\<forall>p \<in> set ps. target p \<in> t_id ` set (tasks db))"

lemma updates_simps [simp]:
  "updates i (ToUpdate env task action reviewer diff) \<longleftrightarrow> t_id task = i" "\<not> updates i (ToInsert env j reviewer action diff)"
  by (simp_all add: updates_def)

lemma read_target:
  "resolve_read env tid d rv nt db = Some p \<Longrightarrow> target p \<in> t_id ` set (tasks db)"
  "confirm_read env tid sp rv db = Some p \<Longrightarrow> target p \<in> t_id ` set (tasks db)"
  using find_task_id [of tid db]
  by (auto simp: resolve_read_def confirm_read_def get_task_def split: option.splits if_splits)

lemma opened_ok: "tables_same db db' \<or> task_opened db db' \<Longrightarrow> api_ok db ps \<Longrightarrow> api_ok db' ps"
proof (elim disjE)
  assume "task_opened db db'" and ok: "api_ok db ps"
  then obtain t where t: "tasks db' = tasks db @ [t]" "actions db' = actions db" "t_id t = row_id db"
    "t_status t = Open" "review_kind_check (t_kind t)" "t_task_id t \<notin> t_task_id ` set (tasks db)"
    by (auto simp: task_opened_def)
  then show ?thesis using ok by (auto simp: api_ok_def review_wf_def row_id_def list_all_iff)
qed (simp add: tables_same_def api_ok_def review_wf_def)

lemma set_task_ids: "t_id ` set (tasks (set_task i st rv db)) = t_id ` set (tasks db)"
proof -
  have "map t_id (tasks (set_task i st rv db)) = map t_id (tasks db)" by (auto simp: set_task_map)
  then show ?thesis by (metis list.set_map)
qed

lemma statement_ok:
  assumes "next_statement p db = (db', nxt)" "api_ok db (p # ps)"
  shows "api_ok db' ((case nxt of None \<Rightarrow> [] | Some q \<Rightarrow> [q]) @ ps)"
proof (cases p)
  case (ToUpdate env task action reviewer diff)
  have "review_wf (set_task (t_id task) (decision_status action) reviewer db)"
    by (rule set_task_wf [where db = db]) (use assms(2) in \<open>auto simp: api_ok_def review_wf_def\<close>)
  then show ?thesis using assms by (auto simp: ToUpdate api_ok_def set_task_ids split: if_splits)
next
  case (ToInsert env i reviewer action diff)
  then show ?thesis using assms by (auto simp: api_ok_def review_wf_def split: if_splits)
qed

lemma api_step_ok:
  assumes "api_step (db, ps) (db', ps')" "api_ok db ps"
  shows "api_ok db' ps'"
  using assms(1)
proof cases
  case (api_statement p nxt as bs)
  have "api_ok db (p # as @ bs)" using assms(2) by (auto simp: api_ok_def api_statement)
  from statement_ok [OF api_statement(3) this] show ?thesis by (auto simp: api_ok_def api_statement split: option.splits)
next
  case (api_open env kind payload priority r)
  then show ?thesis using opened_ok [OF open_effect [OF api_open(2)] assms(2)] by simp
next
  case (api_conflict env cid out ranked c)
  then show ?thesis using opened_ok [OF conflict_effect [OF api_conflict(2)] assms(2)] by simp
next
  case (api_relink rp env tid req b)
  then show ?thesis using opened_ok [OF disjI1 [OF relink_effect [OF api_relink(2)]] assms(2)] by simp
qed (use assms(2) in \<open>auto simp: api_ok_def dest: read_target\<close>)

lemma api_run_ok: "api_run s s' \<Longrightarrow> api_ok (fst s) (snd s) \<Longrightarrow> api_ok (fst s') (snd s')"
  by (induction rule: api_run.induct) (metis api_step_ok prod.collapse)+

text \<open>
  A decided task stays as it is, and nothing starts to update it: a request that reads it from now on sees that it is decided.
\<close>

definition at_rest :: "review_task \<Rightarrow> review_db \<Rightarrow> in_flight list \<Rightarrow> bool" where
  "at_rest t db ps \<longleftrightarrow> t \<in> set (tasks db) \<and> terminal (t_status t) \<and> (\<forall>p \<in> set ps. \<not> updates (t_id t) p)"

lemma at_rest_same:
  "tables_same db db' \<or> task_opened db db' \<Longrightarrow> at_rest t db ps \<Longrightarrow> at_rest t db' ps"
  by (auto simp: tables_same_def task_opened_def at_rest_def)

lemma wf_ids: "review_wf db \<Longrightarrow> distinct (map t_id (tasks db))"
  unfolding review_wf_def by (metis distinct_upt)

lemma at_rest_read:
  assumes "resolve_read env tid d rv nt db = Some p" "review_wf db" "t \<in> set (tasks db)" "terminal (t_status t)"
  shows "\<not> updates (t_id t) p"
proof
  assume "updates (t_id t) p"
  then obtain u where "find_task tid db = Some u" "\<not> terminal (t_status u)" "t_id u = t_id t"
    using assms(1) by (auto simp: resolve_read_def split: option.splits if_splits)
  moreover have "inj_on t_id (set (tasks db))" using wf_ids [OF assms(2)] by (simp add: distinct_map)
  ultimately show False using assms(3,4) find_task_id [of tid db u] by (auto dest: inj_onD)
qed

lemma at_rest_statement:
  assumes "next_statement p db = (db', nxt)" "at_rest t db (p # ps)"
  shows "at_rest t db' ((case nxt of None \<Rightarrow> [] | Some q \<Rightarrow> [q]) @ ps)"
  using assms by (cases p) (auto simp: at_rest_def set_task_map split: if_splits)

lemma api_step_rest:
  assumes "api_step (db, ps) (db', ps')" "api_ok db ps" "at_rest t db ps"
  shows "at_rest t db' ps'"
  using assms(1)
proof cases
  case (api_statement p nxt as bs)
  have "at_rest t db (p # as @ bs)" using assms(3) by (auto simp: at_rest_def api_statement)
  from at_rest_statement [OF api_statement(3) this] show ?thesis by (auto simp: at_rest_def api_statement split: option.splits)
next
  case (api_open env kind payload priority r)
  then show ?thesis using at_rest_same [OF open_effect [OF api_open(2)] assms(3)] by simp
next
  case (api_conflict env cid out ranked c)
  then show ?thesis using at_rest_same [OF conflict_effect [OF api_conflict(2)] assms(3)] by simp
next
  case (api_relink rp env tid req b)
  then show ?thesis using at_rest_same [OF disjI1 [OF relink_effect [OF api_relink(2)]] assms(3)] by simp
next
  case (api_resolve env tid decision reviewer nt p)
  then show ?thesis using at_rest_read [OF api_resolve(3)] assms(2,3) by (auto simp: at_rest_def api_ok_def)
next
  case (api_confirm env tid spans reviewer p)
  then show ?thesis using assms(3) by (auto simp: at_rest_def confirm_read_def split: if_splits)
qed

lemma api_step_actions:
  assumes "api_step (db, ps) (db', ps')"
  shows "\<exists>new. actions db' = actions db @ new"
  using assms
proof cases
  case (api_statement p nxt as bs)
  then show ?thesis by (cases p) (auto split: if_splits)
qed (auto dest!: open_effect conflict_effect relink_effect simp: tables_same_def task_opened_def)

lemma api_run_rest: "api_run s s' \<Longrightarrow> api_ok (fst s) (snd s) \<Longrightarrow> at_rest t (fst s) (snd s) \<Longrightarrow> at_rest t (fst s') (snd s')"
  by (induction rule: api_run.induct) (metis api_run_ok api_step_rest prod.collapse)+

lemma api_run_actions: "api_run s s' \<Longrightarrow> \<exists>new. actions (fst s') = actions (fst s) @ new"
proof (induction rule: api_run.induct)
  case (api_more s s' s'')
  then show ?case using api_step_actions [of "fst s'" "snd s'" "fst s''" "snd s''"] by auto
qed simp

text \<open>
  Claim C11. Decisions are final and the log is immutable. When every operation is a transaction of its own, a resolved or
  escalated task never changes again along any run from empty tables, and the audit log is only ever appended to. On the
  autocommit connection of the API, where the statements of concurrent requests interleave, the log is still append-only,
  but a decided task is final only from the moment on that no request is about to update it: a request that read the task
  before it was decided overwrites the decision.
\<close>

theorem decisions_final:
  assumes "empty_tables db0"
  shows "(review_run db0 db \<longrightarrow> review_run db db' \<longrightarrow>
      {t \<in> set (tasks db). terminal (t_status t)} \<subseteq> set (tasks db') \<and> (\<exists>new. actions db' = actions db @ new)) \<and>
    (api_run (db0, []) (db1, ps) \<longrightarrow> api_run (db1, ps) (db2, ps') \<longrightarrow>
      {t \<in> set (tasks db1). terminal (t_status t) \<and> (\<forall>p \<in> set ps. \<not> updates (t_id t) p)} \<subseteq> set (tasks db2) \<and>
      (\<exists>new. actions db2 = actions db1 @ new))"
proof (intro conjI impI)
  assume r: "review_run db0 db" "review_run db db'"
  show "{t \<in> set (tasks db). terminal (t_status t)} \<subseteq> set (tasks db')" "\<exists>new. actions db' = actions db @ new"
    using run_frozen [OF r(2) run_wf [OF r(1) empty_wf [OF assms]]] by auto
next
  assume r: "api_run (db0, []) (db1, ps)" "api_run (db1, ps) (db2, ps')"
  have ok: "api_ok db1 ps" using api_run_ok [OF r(1)] empty_wf [OF assms] by (simp add: api_ok_def)
  then show "{t \<in> set (tasks db1). terminal (t_status t) \<and> (\<forall>p \<in> set ps. \<not> updates (t_id t) p)} \<subseteq> set (tasks db2)"
    using api_run_rest [OF r(2)] by (auto simp: at_rest_def)
  show "\<exists>new. actions db2 = actions db1 @ new" using api_run_actions [OF r(2)] by simp
qed

text \<open>
  Two reviewers: \<open>dana\<close> approves the task and \<open>eli\<close> then rejects it, which in transactions is only logged. On the API \<open>eli\<close> escalates it
  having read it before \<open>dana\<close>'s update, and that decision replaces hers.
\<close>

definition approval :: in_flight where
  "approval = ToUpdate (sample_env Autocommit (\<lambda>_. False)) sample_task Approve (lit ''dana'') []"

definition escalation :: in_flight where
  "escalation = ToUpdate (sample_env Autocommit (\<lambda>_. False)) sample_task Escalate (lit ''eli'') []"

definition rejected_db :: review_db where
  "rejected_db = fst (resolve_task (sample_env Transaction (\<lambda>_. False)) (lit ''u1'') (lit ''reject'') (lit ''eli'') None resolved_db)"

definition overwritten_db :: review_db where
  "overwritten_db = set_task 1 Escalated (lit ''eli'') resolved_db"

lemma resolved_db_alt:
  "resolved_db = insert_action (sample_env Autocommit (\<lambda>_. False)) 1 (lit ''dana'') Approve [] (set_task 1 TaskResolved (lit ''dana'') one_task_db)"
  by (simp add: resolved_db_def resolve_task_def approve_action sample_env_def find_task_def one_task_db_def sample_task_def
      enrich_reject_diff_def Let_def notes_diff_def insert_action_def set_task_def)

lemma reject_run: "review_run resolved_db rejected_db" "tasks rejected_db = tasks resolved_db" "map ra_action (actions rejected_db) = [Approve, Reject]"
proof -
  show "review_run resolved_db rejected_db"
    by (rule run_step [OF run_refl], rule step_resolve [where env = "sample_env Transaction (\<lambda>_. False)" and tid = "lit ''u1''"
          and decision = "lit ''reject''" and reviewer = "lit ''eli''" and nt = None])
      (simp_all add: rejected_db_def sample_env_def prod_eq_iff)
  have "action_of (lit ''reject'') = Some Reject" by (simp add: action_of_def)
  then show "tasks rejected_db = tasks resolved_db" "map ra_action (actions rejected_db) = [Approve, Reject]"
    by (simp_all add: rejected_db_def resolve_task_def resolved_db_alt sample_env_def find_task_def one_task_db_def sample_task_def
        set_task_map Let_def)
qed

lemma both_read: "api_run (empty_db, []) (one_task_db, [escalation, approval])"
proof -
  have "action_of (lit ''escalate'') = Some Escalate" by (simp add: action_of_def)
  then have "resolve_read (sample_env Autocommit (\<lambda>_. False)) (lit ''u1'') (lit ''approve'') (lit ''dana'') None one_task_db = Some approval"
    "resolve_read (sample_env Autocommit (\<lambda>_. False)) (lit ''u1'') (lit ''escalate'') (lit ''eli'') None one_task_db = Some escalation"
    by (simp_all add: resolve_read_def approve_action approval_def escalation_def sample_env_def find_task_def one_task_db_def
        sample_task_def enrich_reject_diff_def notes_diff_def)
  then show ?thesis
    by (blast intro: api_more api_refl api_open [OF sample_open] api_resolve)
qed

lemma one_updates:
  "api_run (one_task_db, [escalation, approval]) (resolved_db, [escalation])"
  "api_run (resolved_db, [escalation]) (overwritten_db, [ToInsert (sample_env Autocommit (\<lambda>_. False)) 1 (lit ''eli'') Escalate []])"
proof -
  let ?env = "sample_env Autocommit (\<lambda>_. False)"
  have a: "next_statement approval one_task_db = (set_task 1 TaskResolved (lit ''dana'') one_task_db, Some (ToInsert ?env 1 (lit ''dana'') Approve []))"
    "next_statement (ToInsert ?env 1 (lit ''dana'') Approve []) (set_task 1 TaskResolved (lit ''dana'') one_task_db) = (resolved_db, None)"
    "next_statement escalation resolved_db = (overwritten_db, Some (ToInsert ?env 1 (lit ''eli'') Escalate []))"
    by (simp_all add: approval_def escalation_def sample_env_def sample_task_def resolved_db_alt overwritten_db_def)
  show "api_run (one_task_db, [escalation, approval]) (resolved_db, [escalation])"
    using api_more [OF api_more [OF api_refl api_statement [OF a(1), of "[escalation]" "[]"]]] api_statement [OF a(2), of "[escalation]" "[]"]
    by simp
  show "api_run (resolved_db, [escalation]) (overwritten_db, [ToInsert ?env 1 (lit ''eli'') Escalate []])"
    by (rule api_more [OF api_refl api_statement_first(2) [OF a(3)]])
qed

lemma overwritten_tasks: "map t_status (tasks overwritten_db) = [Escalated]" "map t_assigned_to (tasks overwritten_db) = [Some (lit ''eli'')]"
  by (simp_all add: overwritten_db_def set_task_map resolved_db_simps sample_task_def)

lemma api_run_trans: "api_run s s' \<Longrightarrow> api_run s' s'' \<Longrightarrow> api_run s s''"
  by (rotate_tac, induction rule: api_run.induct) (auto intro: api_more)

lemma decisions_final_witness:
  "(review_run empty_db resolved_db \<and> review_run resolved_db rejected_db \<and> map ra_action (actions rejected_db) = [Approve, Reject] \<and>
      {t \<in> set (tasks resolved_db). terminal (t_status t)} \<subseteq> set (tasks rejected_db)) \<and>
   (\<exists>ps db. api_run (empty_db, []) (resolved_db, [escalation]) \<and> api_run (resolved_db, [escalation]) (overwritten_db, ps) \<and>
      map t_status (tasks resolved_db) = [TaskResolved] \<and> map t_status (tasks overwritten_db) = [Escalated] \<and>
      api_run (overwritten_db, ps) (db, []) \<and> set (tasks overwritten_db) \<subseteq> set (tasks db) \<and>
      length (actions db) = 2 \<and> (\<exists>new. actions db = actions overwritten_db @ new))"
proof -
  let ?env = "sample_env Autocommit (\<lambda>_. False)"
  let ?ps = "[ToInsert ?env 1 (lit ''eli'') Escalate []]"
  let ?db = "insert_action ?env 1 (lit ''eli'') Escalate [] overwritten_db"
  have e: "empty_tables empty_db" by (simp add: empty_tables_def empty_db_def)
  have r: "api_run (empty_db, []) (resolved_db, [escalation])" using api_run_trans [OF both_read one_updates(1)] .
  have last: "api_run (overwritten_db, ?ps) (?db, [])"
    by (rule api_more [OF api_refl api_statement_first(1)]) (simp add: sample_env_def)
  have "{t \<in> set (tasks resolved_db). terminal (t_status t)} \<subseteq> set (tasks rejected_db)"
    using decisions_final [OF e, of resolved_db rejected_db] sample_run reject_run(1) by blast
  moreover have "{t \<in> set (tasks overwritten_db). terminal (t_status t) \<and> (\<forall>p \<in> set ?ps. \<not> updates (t_id t) p)} \<subseteq> set (tasks ?db) \<and>
      (\<exists>new. actions ?db = actions overwritten_db @ new)"
    using decisions_final [OF e, of resolved_db rejected_db overwritten_db ?ps ?db "[]"] last api_run_trans [OF r one_updates(2)] by blast
  moreover have "terminal (t_status t)" if "t \<in> set (tasks overwritten_db)" for t
    using that overwritten_tasks(1) by (auto simp: map_eq_Cons_conv)
  moreover have "length (actions ?db) = 2" using resolved_db_simps(2) [THEN arg_cong [of _ _ length]] by (simp add: overwritten_db_def)
  ultimately show ?thesis
    using r one_updates(2) last sample_run reject_run overwritten_tasks(1) resolved_db_simps(1)
    by (intro conjI exI [of _ ?ps] exI [of _ ?db]) auto
qed

section \<open>Where the code falls short\<close>

text \<open>
  With \<open>autocommit\<close>, the mode the API sets, a resolution is not atomic: if the audit insert
  fails, the caller sees an error but the task is already decided, and no audit row exists.
\<close>

lemma autocommit_loses_audit:
  assumes "action_of decision = Some action" "find_task tid db = Some task"
    "\<not> terminal (t_status task)" "e_mode env = Autocommit" "e_fault env = (\<lambda>s. s = InsertAction)"
  shows "resolve_task env tid decision reviewer notes db =
    (set_task (t_id task) (decision_status action) reviewer db, Inl DatabaseError) \<and>
    actions (fst (resolve_task env tid decision reviewer notes db)) = actions db"
  using assms by (simp add: resolve_task_def Let_def)

lemma autocommit_loses_audit_witness:
  "let db' = fst (resolve_task (sample_env Autocommit (\<lambda>s. s = InsertAction)) (lit ''u1'')
      (lit ''approve'') (lit ''dana'') None one_task_db)
   in map t_status (tasks db') = [TaskResolved] \<and> actions db' = []"
  using autocommit_loses_audit [OF approve_action, of "lit ''u1''" one_task_db sample_task
      "sample_env Autocommit (\<lambda>s. s = InsertAction)" "lit ''dana''" None]
  by (simp add: find_task_def one_task_db_def sample_task_def sample_env_def set_task_map)

text \<open>
  A declaration review can never be queued: \<open>open_review_task\<close> accepts the kind, but the check
  constraint of \<open>review_tasks\<close> does not, so the insert always fails and the tables stay as they
  were.
\<close>

lemma declaration_review_rejected:
  "open_review_task env (lit ''declaration'') payload priority db = (db, Inl DatabaseError)"
  by (simp add: open_review_task_def review_kind_check_def)

section \<open>Corrections and listings\<close>

lemma resolve_keeps_candidates:
  "candidates (fst (resolve_task env tid d rv nt db)) = candidates db"
  by (simp add: resolve_task_def Let_def split: option.split commit_mode.split)

text \<open>
  A reviewer cannot re-point an unrelated row: the relink endpoint changes at most the candidate
  named in the payload of the task, only if the task is an entity resolution, and only to one
  of the five entity kinds.
\<close>

theorem relink_only_named_candidate:
  assumes "relink_entity rp env1 env2 tid req nt db = (db', r)" "candidates db' \<noteq> candidates db"
  shows "\<exists>task. find_task tid db = Some task \<and> t_kind task = lit ''entity_resolution'' \<and>
    py_str rp (case dget (t_payload task) (lit ''candidate_id'') of None \<Rightarrow> PStr [] | Some v \<Rightarrow> v) =
      rq_candidate_id req \<and> rq_entity_kind req \<in> set ENTITY_KINDS \<and>
    filter (\<lambda>c. ec_candidate_id c \<noteq> rq_candidate_id req) (candidates db') =
      filter (\<lambda>c. ec_candidate_id c \<noteq> rq_candidate_id req) (candidates db)"
proof -
  obtain db1 b where b: "relink_by_task_id rp env1 tid req db = (db1, b)"
    by (cases "relink_by_task_id rp env1 tid req db") auto
  have c: "candidates db' = candidates db1"
    using assms(1) b resolve_keeps_candidates [of env2 tid "lit ''relink''" "rq_reviewer_id req" nt db1]
    by (auto simp: relink_entity_def split: sum.splits bool.splits prod.splits option.splits)
  have "filter (\<lambda>c. ec_candidate_id c \<noteq> rq_candidate_id req)
      (map (\<lambda>c. if ec_candidate_id c = rq_candidate_id req
             then c\<lparr>ec_canonical_entity_id := Some (rq_canonical_entity_id req),
                    ec_entity_kind := rq_entity_kind req\<rparr> else c) cs) =
      filter (\<lambda>c. ec_candidate_id c \<noteq> rq_candidate_id req) cs" for cs
    by (induction cs) auto
  then have f: "filter (\<lambda>c. ec_candidate_id c \<noteq> rq_candidate_id req) (candidates db') =
      filter (\<lambda>c. ec_candidate_id c \<noteq> rq_candidate_id req) (candidates db)"
    if "apply_entity_relink env1 req db = (db1, b)"
    using that c by (auto simp: apply_entity_relink_def split: if_splits)
  have "db1 \<noteq> db" using c assms(2) by auto
  then obtain task where t: "find_task tid db = Some task" "t_kind task = lit ''entity_resolution''"
    "py_str rp (case dget (t_payload task) (lit ''candidate_id'') of None \<Rightarrow> PStr [] | Some v \<Rightarrow> v) =
      rq_candidate_id req" "apply_entity_relink env1 req db = (db1, b)"
    using b unfolding relink_by_task_id_def by (cases "find_task tid db") (simp_all split: if_split_asm)
  moreover have "rq_entity_kind req \<in> set ENTITY_KINDS"
    using t(4) \<open>db1 \<noteq> db\<close> by (simp add: apply_entity_relink_def split: if_split_asm)
  ultimately show ?thesis using f by (intro exI [of _ task]) simp
qed

definition sample_relink :: relink_request where
  "sample_relink = \<lparr>rq_candidate_id = lit ''c1'', rq_canonical_entity_id = lit ''p9'',
     rq_entity_kind = lit ''person'', rq_reviewer_id = lit ''dana''\<rparr>"

definition relink_db :: "task_status \<Rightarrow> review_db" where
  "relink_db st = \<lparr>tasks = [sample_task\<lparr>t_kind := lit ''entity_resolution'', t_status := st,
       t_payload := [(lit ''candidate_id'', PLit ''c1'')]\<rparr>],
     actions = [],
     candidates = [\<lparr>ec_candidate_id = lit ''c1'', ec_canonical_entity_id = None,
       ec_entity_kind = lit ''person''\<rparr>]\<rparr>"

text \<open>The endpoint does not look at the status of the task: a resolved one still re-points its candidate.\<close>

lemma relink_after_resolution:
  "let db' = fst (relink_entity no_repr (sample_env Autocommit (\<lambda>_. False))
       (sample_env Autocommit (\<lambda>_. False)) (lit ''u1'') sample_relink None (relink_db TaskResolved))
   in map ec_canonical_entity_id (candidates db') = [Some (lit ''p9'')] \<and>
      map t_status (tasks db') = [TaskResolved]"
proof -
  have "action_of (lit ''relink'') = Some Relink" by (simp add: action_of_def)
  then show ?thesis
    by (simp add: relink_entity_def relink_by_task_id_def sample_env_def relink_db_def find_task_def
        sample_task_def sample_relink_def apply_entity_relink_def ENTITY_KINDS_def resolve_task_def Let_def)
qed

text \<open>
  The resolve and list endpoints over the Postgres repository: an HTTP error is a 404 that
  changed nothing, a returned task is the one asked for, and a listing holds at most \<open>limit\<close> tasks,
  none of them resolved or escalated.
\<close>

lemma review_endpoints:
  assumes "resolve_review_task (resolve_task env) tid d rv nt db = (db', r)"
    "list_review_tasks list_open_tasks n db = Inr ts"
  shows "(case r of Inl e \<Rightarrow> e = DatabaseError \<or> e = HTTPException 404 \<and> db' = db
      | Inr t \<Rightarrow> t_task_id t = tid) \<and>
    length ts \<le> nat n \<and> list_all (\<lambda>t. \<not> terminal (t_status t)) ts"
  using pg_repo.endpoint_resolve [OF assms(1)] pg_repo.endpoint_list [OF assms(2)] by simp

lemma review_endpoints_witness:
  "let r = resolve_review_task (resolve_task (sample_env Autocommit (\<lambda>_. False))) (lit ''u2'')
       (lit ''approve'') (lit ''dana'') None one_task_db
   in (case snd r of Inl e \<Rightarrow> e = HTTPException 404 \<and> fst r = one_task_db | Inr t \<Rightarrow> False) \<and>
     length [sample_task] \<le> nat 5"
proof -
  have l: "list_review_tasks list_open_tasks 5 one_task_db = Inr [sample_task]"
    by (simp add: list_review_tasks_def list_open_tasks_def one_task_db_def sample_task_def)
  have r: "resolve_review_task (resolve_task (sample_env Autocommit (\<lambda>_. False))) (lit ''u2'')
       (lit ''approve'') (lit ''dana'') None one_task_db = (one_task_db, Inl (HTTPException 404))"
    by (simp add: resolve_review_task_def resolve_task_def approve_action find_task_def
        one_task_db_def sample_task_def sample_env_def)
  show ?thesis using review_endpoints [OF r l] by (simp add: r)
qed

end
