(* ===== verification/Py_Uuid.thy ===== *)
theory Py_Uuid
  imports Py_Prelude
begin

text \<open>
  What the code uses of Python's \<open>uuid\<close>: \<open>UUID(s)\<close>, which reads a string, and \<open>str(u)\<close>, the
  canonical form. A UUID is the natural number below \<open>2 ^ 128\<close> it stands for.
\<close>

section \<open>Reading\<close>

text \<open>\<open>s.replace(sub, "")\<close>: the occurrences of a non-empty \<open>sub\<close>, from left to right.\<close>

function py_remove :: "pystr \<Rightarrow> pystr \<Rightarrow> pystr" where
  "py_remove sub s =
     (if s = [] then []
      else if sub \<noteq> [] \<and> py_prefix sub s then py_remove sub (drop (length sub) s)
      else hd s # py_remove sub (tl s))"
  by pat_completeness auto
termination by (relation "measure (\<lambda>(sub, s). length s)") auto

declare py_remove.simps [simp del]

definition strip_braces :: "pystr \<Rightarrow> pystr" where
  "strip_braces s =
     (let brace = (\<lambda>c. c = 123 \<or> c = 125) in rev (dropWhile brace (rev (dropWhile brace s))))"

text \<open>\<open>int(s, 16)\<close>: every decimal digit and blank of Unicode counts as its ASCII form.\<close>

definition to_ascii :: "nat \<Rightarrow> nat" where
  "to_ascii c = (if is_digit c then 48 + digit_val c else if is_space c then 32 else c)"

fun hex_val :: "nat \<Rightarrow> nat option" where
  "hex_val c =
     (if 48 \<le> c \<and> c \<le> 57 then Some (c - 48)
      else if 97 \<le> c \<and> c \<le> 102 then Some (c - 87)
      else if 65 \<le> c \<and> c \<le> 70 then Some (c - 55)
      else None)"

declare hex_val.simps [simp del]

fun hex_digits :: "pystr \<Rightarrow> nat list option" where
  "hex_digits [] = None"
| "hex_digits [c] = map_option (\<lambda>v. [v]) (hex_val c)"
| "hex_digits (c # d # cs) =
     (case hex_val c of
        None \<Rightarrow> None
      | Some v \<Rightarrow> map_option ((#) v) (if d = 95 then hex_digits cs else hex_digits (d # cs)))"

definition hex_body :: "pystr \<Rightarrow> pystr" where
  "hex_body t =
     (if 2 \<le> length t \<and> t ! 0 = 48 \<and> (t ! 1 = 120 \<or> t ! 1 = 88)
      then (let r = drop 2 t in if r \<noteq> [] \<and> hd r = 95 then tl r else r)
      else t)"

definition hex_of_str :: "pystr \<Rightarrow> int option" where
  "hex_of_str s =
     (let t = py_strip (map to_ascii s);
          neg = (t \<noteq> [] \<and> hd t = 45);
          u = (if t \<noteq> [] \<and> (hd t = 45 \<or> hd t = 43) then tl t else t)
      in case hex_digits (hex_body u) of
           None \<Rightarrow> None
         | Some ds \<Rightarrow>
             let n = int (foldl (\<lambda>a d. 16 * a + d) 0 ds) in Some (if neg then - n else n))"

definition parse_uuid :: "pystr \<Rightarrow> pyerr + nat" where
  "parse_uuid s =
     (let h = filter (\<lambda>c. c \<noteq> 45) (strip_braces (py_remove (lit ''uuid:'') (py_remove (lit ''urn:'') s)))
      in if length h \<noteq> 32 then Inl ValueError
         else case hex_of_str h of
                None \<Rightarrow> Inl ValueError
              | Some i \<Rightarrow> if 0 \<le> i \<and> i < 2 ^ 128 then Inr (nat i) else Inl ValueError)"

text \<open>\<open>UUID(v)\<close> on any value: \<open>None\<close> is a \<open>TypeError\<close>, anything without \<open>replace\<close> an \<open>AttributeError\<close>.\<close>

fun uuid_of :: "pyval \<Rightarrow> pyerr + nat" where
  "uuid_of (PStr s) = parse_uuid s"
| "uuid_of PNone = Inl TypeError"
| "uuid_of _ = Inl AttributeError"

section \<open>Writing\<close>

definition hex_char :: "nat \<Rightarrow> nat" where
  "hex_char d = (if d < 10 then 48 + d else 87 + d)"

fun hex_pad :: "nat \<Rightarrow> nat \<Rightarrow> pystr" where
  "hex_pad 0 n = []"
| "hex_pad (Suc k) n = hex_pad k (n div 16) @ [hex_char (n mod 16)]"

definition uuid_str :: "nat \<Rightarrow> pystr" where
  "uuid_str n =
     (let h = hex_pad 32 n in
      take 8 h @ [45] @ take 4 (drop 8 h) @ [45] @ take 4 (drop 12 h) @ [45] @
      take 4 (drop 16 h) @ [45] @ drop 20 h)"

section \<open>The round trip\<close>

definition hexish :: "nat \<Rightarrow> bool" where
  "hexish c \<longleftrightarrow> (48 \<le> c \<and> c \<le> 57) \<or> (97 \<le> c \<and> c \<le> 102)"

lemma hexish_facts:
  assumes "hexish c"
  shows "\<not> is_space c" "to_ascii c = c" "c \<noteq> 45" "c \<noteq> 43" "c \<noteq> 95" "c \<noteq> 120" "c \<noteq> 88" "c \<noteq> 117"
    "c \<noteq> 123" "c \<noteq> 125"
proof -
  show s: "\<not> is_space c" using assms by (auto simp: hexish_def is_space_def)
  show "to_ascii c = c"
    using assms s by (auto simp: to_ascii_def hexish_def is_digit_def digit_val_def)
qed (use assms in \<open>auto simp: hexish_def\<close>)

lemma hex_char_hexish: "d < 16 \<Longrightarrow> hexish (hex_char d)"
  by (auto simp: hexish_def hex_char_def)

lemma hex_val_char: "d < 16 \<Longrightarrow> hex_val (hex_char d) = Some d"
  by (auto simp: hex_val.simps hex_char_def)

lemma hex_pad_facts: "length (hex_pad k n) = k" "list_all hexish (hex_pad k n)"
  by (induction k arbitrary: n) (auto simp: hex_char_hexish)

text \<open>The digits of the padded form, most significant first.\<close>

fun nibbles :: "nat \<Rightarrow> nat \<Rightarrow> nat list" where
  "nibbles 0 n = []"
| "nibbles (Suc k) n = nibbles k (n div 16) @ [n mod 16]"

lemma nibbles_value: "foldl (\<lambda>a d. 16 * a + d) 0 (nibbles k n) = n mod 16 ^ k"
proof (induction k arbitrary: n)
  case (Suc k)
  have "n mod 16 ^ Suc k = 16 * (n div 16 mod 16 ^ k) + n mod 16" by (simp add: mod_mult2_eq)
  then show ?case using Suc [of "n div 16"] by simp
qed simp

lemma hex_pad_nibbles: "hex_pad k n = map hex_char (nibbles k n)" "list_all (\<lambda>d. d < 16) (nibbles k n)"
  by (induction k arbitrary: n) auto

lemma hex_digits_map:
  "list_all (\<lambda>d. d < 16) ds \<Longrightarrow> ds \<noteq> [] \<Longrightarrow> hex_digits (map hex_char ds) = Some ds"
proof (induction ds)
  case (Cons d ds)
  show ?case
  proof (cases ds)
    case Nil
    then show ?thesis using Cons.prems by (simp add: hex_val_char)
  next
    case (Cons e es)
    then have "hex_char e \<noteq> 95" using Cons.prems hexish_facts(5) hex_char_hexish by simp
    then show ?thesis using Cons Cons.IH Cons.prems by (simp add: hex_val_char)
  qed
qed simp

lemma hexish_stripped:
  assumes "list_all hexish h"
  shows "py_strip (map to_ascii h) = h"
proof -
  have "map to_ascii h = h"
    using assms by (auto simp: list_all_iff hexish_facts intro: map_idI)
  moreover have "dropWhile is_space h = h"
    using assms hexish_facts(1) by (cases h) auto
  moreover have "dropWhile is_space (rev h) = rev h"
    using assms hexish_facts(1) by (cases "rev h") (auto simp: list_all_iff dest!: arg_cong [where f = set])
  ultimately show ?thesis by (simp add: py_strip_def py_lstrip_def py_rstrip_def)
qed

lemma hex_of_str_pad:
  assumes "0 < k"
  shows "hex_of_str (hex_pad k n) = Some (int (n mod 16 ^ k))"
proof -
  let ?h = "hex_pad k n"
  have h: "list_all hexish ?h" "?h \<noteq> []" using hex_pad_facts [of k n] assms by auto
  then have hd: "hexish (hd ?h)" by (cases ?h) auto
  have body: "hex_body ?h = ?h"
  proof (cases "2 \<le> length ?h")
    case True
    then have "hexish (?h ! 1)" using h(1) by (simp add: list_all_length)
    then show ?thesis using hexish_facts(6,7) [of "?h ! 1"] by (simp add: hex_body_def)
  qed (simp add: hex_body_def)
  have "nibbles k n \<noteq> []" using h(2) hex_pad_nibbles(1) [of k n] by auto
  then have "hex_digits ?h = Some (nibbles k n)"
    using hex_digits_map [OF hex_pad_nibbles(2)] hex_pad_nibbles(1) by metis
  then show ?thesis
    using hexish_stripped [OF h(1)] hexish_facts(3,4) [OF hd] body
    by (simp add: hex_of_str_def Let_def nibbles_value)
qed

lemma py_remove_absent: "c \<notin> set s \<Longrightarrow> py_remove (c # cs) s = s"
proof (induction s)
  case (Cons a s)
  then show ?case by (simp add: py_remove.simps [of _ "a # s"])
qed (simp add: py_remove.simps)

lemma strip_braces_hexish:
  assumes "list_all (\<lambda>c. hexish c \<or> c = 45) s"
  shows "strip_braces s = s"
proof -
  have b: "\<not> (c = 123 \<or> c = 125)" if "c \<in> set s" for c
    using assms that by (auto simp: list_all_iff hexish_def)
  have id: "dropWhile (\<lambda>c. c = 123 \<or> c = 125) t = t" if "set t \<subseteq> set s" for t
    using that b by (cases t) auto
  show ?thesis unfolding strip_braces_def Let_def using id [of s] id [of "rev s"] by simp
qed

lemma parse_uuid_str:
  assumes "n < 2 ^ 128"
  shows "parse_uuid (uuid_str n) = Inr n"
proof -
  let ?h = "hex_pad 32 n"
  have h: "list_all hexish ?h" "length ?h = 32" using hex_pad_facts [of 32 n] by simp_all
  have mem: "hexish c \<or> c = 45" if "c \<in> set (uuid_str n)" for c
    using that h(1) by (auto simp: uuid_str_def Let_def list_all_iff dest: in_set_takeD in_set_dropD)
  then have absent: "117 \<notin> set (uuid_str n)" using hexish_facts(8) by force
  have urn: "lit ''urn:'' = 117 # lit ''rn:''" "lit ''uuid:'' = 117 # lit ''uid:''" by (simp_all add: lit_def)
  have "strip_braces (uuid_str n) = uuid_str n"
    by (rule strip_braces_hexish) (use mem in \<open>simp add: list_all_iff\<close>)
  then have id: "strip_braces (py_remove (lit ''uuid:'') (py_remove (lit ''urn:'') (uuid_str n))) = uuid_str n"
    using py_remove_absent [OF absent] unfolding urn by simp
  have keep: "filter (\<lambda>c. c \<noteq> 45) t = t" if "set t \<subseteq> set ?h" for t
    using that h(1) hexish_facts(3) by (auto simp: list_all_iff subset_iff intro!: filter_True)
  have "filter (\<lambda>c. c \<noteq> 45) (uuid_str n) =
      take 8 ?h @ take 4 (drop 8 ?h) @ take 4 (drop 12 ?h) @ take 4 (drop 16 ?h) @ drop 20 ?h"
    by (simp add: uuid_str_def Let_def keep set_drop_subset order_trans [OF set_take_subset])
  also have "\<dots> = ?h"
    using append_take_drop_id [of 8 ?h] append_take_drop_id [of 4 "drop 8 ?h"]
      append_take_drop_id [of 4 "drop 12 ?h"] append_take_drop_id [of 4 "drop 16 ?h"]
    by simp
  finally have f: "filter (\<lambda>c. c \<noteq> 45) (uuid_str n) = ?h" .
  have "n mod 16 ^ 32 = n" using assms by (simp add: power_mult [symmetric, of 2 4 32] flip: power_mult)
  then show ?thesis
    using assms h(2) hex_of_str_pad [of 32 n] unfolding parse_uuid_def id f by (simp add: Let_def)
qed

end
