(* ===== verification/Entity_Resolution.thy ===== *)
theory Entity_Resolution
  imports Py_Uuid "HOL-Library.Multiset"
begin

text \<open>
  \<open>services/entity_resolution/src/civic_entity_resolution/\<close>: name normalization (\<open>normalize.py\<close>),
  the six-step resolver (\<open>resolver.py\<close>) over the alias and candidate tables of migrations 0004,
  0002 and 0005, and \<open>position_term_resolver.py\<close>.

  Parameters of the model, not code of the repository: the Neo4j session (a function from a
  Cypher text and its parameters to records, which may raise), \<open>rapidfuzz\<close> (the two ratios, or
  nothing when it is not installed), the Unicode composition tables behind \<open>NFC\<close>, and the LLM
  tiebreaker, which may return anything or raise.
\<close>

section \<open>Names\<close>

definition HEBREW_TO_LATIN :: "(nat \<times> string) list" where
  "HEBREW_TO_LATIN =
     [(1488, ''a''), (1489, ''b''), (1490, ''g''), (1491, ''d''), (1492, ''h''), (1493, ''v''),
      (1494, ''z''), (1495, ''ch''), (1496, ''t''), (1497, ''y''), (1499, ''k''), (1498, ''k''),
      (1500, ''l''), (1502, ''m''), (1501, ''m''), (1504, ''n''), (1503, ''n''), (1505, ''s''),
      (1506, ''a''), (1508, ''p''), (1507, ''f''), (1510, ''tz''), (1509, ''tz''), (1511, ''k''),
      (1512, ''r''), (1513, ''sh''), (1514, ''t'')]"

definition is_niqqud :: "nat \<Rightarrow> bool" where
  "is_niqqud c \<longleftrightarrow> 1425 \<le> c \<and> c \<le> 1479"

definition normalize_hebrew :: "(pystr \<Rightarrow> pystr) \<Rightarrow> pystr \<Rightarrow> pystr" where
  "normalize_hebrew nfc text =
     (if text = [] then []
      else py_join [32] (py_split (py_strip (nfc (filter (\<lambda>c. \<not> is_niqqud c) text)))))"

definition latin_of :: "nat \<Rightarrow> pystr" where
  "latin_of c = (case map_of HEBREW_TO_LATIN c of None \<Rightarrow> [c] | Some s \<Rightarrow> lit s)"

definition transliterate_hebrew :: "(pystr \<Rightarrow> pystr) \<Rightarrow> pystr \<Rightarrow> pystr" where
  "transliterate_hebrew nfc text =
     py_lower (py_strip (concat (map latin_of (normalize_hebrew nfc text))))"

section \<open>Stores and libraries\<close>

type_synonym session = "pystr \<Rightarrow> pyval dict \<Rightarrow> pyerr + pyval dict list"

record alias_row =
  al_entity_kind :: pystr
  al_canonical_entity_id :: nat
  al_alias_text :: pystr
  al_alias_locale :: pystr
  al_confidence :: int

text \<open>The constraints of migration 0004 on \<open>entity_aliases\<close>.\<close>

definition aliases_ok :: "alias_row list \<Rightarrow> bool" where
  "aliases_ok rows \<longleftrightarrow>
     distinct (map (\<lambda>r. (al_entity_kind r, al_alias_text r, al_alias_locale r)) rows) \<and>
     list_all (\<lambda>r. al_entity_kind r \<in> set (map lit [''person'', ''party'', ''office'', ''committee'', ''bill'']) \<and>
       0 \<le> al_confidence r \<and> al_confidence r \<le> 100 \<and> al_canonical_entity_id r < 2 ^ 128) rows"

record candidate_row =
  cr_candidate_id :: pystr
  cr_mention_text :: pystr
  cr_entity_kind :: pystr
  cr_canonical_entity_id :: pystr
  cr_confidence :: rat
  cr_method :: pystr
  cr_evidence :: "pyval dict"

record pg_tables =
  pg_aliases :: "alias_row list"
  pg_candidates :: "candidate_row list"

record candidate =
  cd_entity_id :: nat
  cd_match_step :: nat
  cd_match_reason :: string
  cd_score :: rat

type_synonym tiebreaker =
  "pystr \<Rightarrow> pystr option \<Rightarrow> pystr option \<Rightarrow> candidate list \<Rightarrow> pyerr + nat option"

record resolver_libs =
  rl_nfc :: "pystr \<Rightarrow> pystr"
  rl_fuzz :: "((pystr \<Rightarrow> pystr \<Rightarrow> rat) \<times> (pystr \<Rightarrow> pystr \<Rightarrow> rat)) option"
  rl_uuid4 :: "nat \<Rightarrow> pystr"

datatype resolve_status = SlotResolved | SlotAmbiguous | SlotUnresolved

record resolve_result =
  rr_status :: resolve_status
  rr_entity_id :: "nat option"
  rr_candidates :: "candidate list"

definition LABEL_BY_KIND :: "(string \<times> string \<times> string) list" where
  "LABEL_BY_KIND =
     [(''person'', ''Person'', ''person_id''), (''party'', ''Party'', ''party_id''),
      (''office'', ''Office'', ''office_id''), (''committee'', ''Committee'', ''committee_id''),
      (''bill'', ''Bill'', ''bill_id'')]"

definition label_of :: "pystr \<Rightarrow> (string \<times> string) option" where
  "label_of kind = map_option snd (find (\<lambda>(k, _). lit k = kind) LABEL_BY_KIND)"

definition FUZZY_RESOLVE_THRESHOLD :: rat where
  "FUZZY_RESOLVE_THRESHOLD = 88"

definition FUZZY_MARGIN :: rat where
  "FUZZY_MARGIN = 7"

section \<open>The lookups\<close>

text \<open>\<open>json.dumps\<close> of a string: ASCII only, with the short escapes and \<open>\uXXXX\<close> (surrogate pairs above the BMP).\<close>

definition json_unit :: "nat \<Rightarrow> pystr" where
  "json_unit u = lit [CHR 0x5C, CHR 0x75] @ hex_pad 4 u"

definition json_char :: "nat \<Rightarrow> pystr" where
  "json_char c =
     (if c = 34 then [92, 34] else if c = 92 then [92, 92] else if c = 10 then [92, 110]
      else if c = 13 then [92, 114] else if c = 9 then [92, 116] else if c = 12 then [92, 102]
      else if c = 8 then [92, 98]
      else if 32 \<le> c \<and> c \<le> 126 then [c]
      else if c < 65536 then json_unit c
      else json_unit (55296 + (c - 65536) div 1024) @ json_unit (56320 + (c - 65536) mod 1024))"

definition json_str :: "pystr \<Rightarrow> pystr" where
  "json_str s = [34] @ concat (map json_char s) @ [34]"

definition first_id :: "pyval dict list \<Rightarrow> pyerr + nat option" where
  "first_id records =
     (case records of
        [] \<Rightarrow> Inr None
      | r # _ \<Rightarrow>
          (case dget r (lit ''id'') of
             None \<Rightarrow> Inl KeyError
           | Some v \<Rightarrow> (case uuid_of v of Inl e \<Rightarrow> Inl e | Inr u \<Rightarrow> Inr (Some u))))"

fun lookup_external_ids :: "session \<Rightarrow> string \<times> string \<Rightarrow> (pystr \<times> pystr) list \<Rightarrow> pyerr + nat option" where
  "lookup_external_ids run (label, id_field) [] = Inr None"
| "lookup_external_ids run (label, id_field) ((scheme, val) # ids) =
     (case run (lit (''MATCH (n:'' @ label @ '') WHERE n.external_ids IS NOT NULL '' @
                 ''  AND n.external_ids CONTAINS $needle RETURN n.'' @ id_field @ '' AS id LIMIT 1''))
             [(lit ''needle'', PStr (json_str scheme @ lit '': '' @ json_str val))] of
        Inl e \<Rightarrow> Inl e
      | Inr records \<Rightarrow>
          (case first_id records of
             Inl e \<Rightarrow> Inl e
           | Inr (Some u) \<Rightarrow> Inr (Some u)
           | Inr None \<Rightarrow> lookup_external_ids run (label, id_field) ids))"

definition lookup_hebrew_exact :: "session \<Rightarrow> string \<times> string \<Rightarrow> pystr \<Rightarrow> pyerr + nat option" where
  "lookup_hebrew_exact run li hebrew =
     (case run (lit (''MATCH (n:'' @ fst li @ '' {hebrew_name: $name}) RETURN n.'' @ snd li @ '' AS id LIMIT 2''))
             [(lit ''name'', PStr hebrew)] of
        Inl e \<Rightarrow> Inl e
      | Inr records \<Rightarrow> if length records = 1 then first_id records else Inr None)"

fun parse_ids :: "(pystr \<times> int) list \<Rightarrow> pyerr + (nat \<times> int) list" where
  "parse_ids [] = Inr []"
| "parse_ids ((s, c) # rows) =
     (case parse_uuid s of
        Inl e \<Rightarrow> Inl e
      | Inr u \<Rightarrow> (case parse_ids rows of Inl e \<Rightarrow> Inl e | Inr rs \<Rightarrow> Inr ((u, c) # rs)))"

definition lookup_alias :: "alias_row list \<Rightarrow> pystr \<Rightarrow> pystr \<Rightarrow> pystr \<Rightarrow> pyerr + (nat \<times> int) list" where
  "lookup_alias rows kind alias_text locale_code =
     parse_ids (map (\<lambda>r. (uuid_str (al_canonical_entity_id r), al_confidence r))
       (filter (\<lambda>r. al_entity_kind r = kind \<and> al_alias_text r = alias_text \<and> al_alias_locale r = locale_code)
         rows))"

text \<open>\<open>record.get(k) or ""\<close>; a value that is neither text nor absent raises in the call that follows.\<close>

definition text_field :: "pyval dict \<Rightarrow> pystr \<Rightarrow> pyerr \<Rightarrow> pyerr + pystr" where
  "text_field r k e =
     (case vget r k of
        PStr s \<Rightarrow> Inr s
      | v \<Rightarrow> if truthy v then Inl e else Inr [])"

definition py_trunc :: "rat \<Rightarrow> int" where
  "py_trunc x = (if x < 0 then \<lceil>x\<rceil> else \<lfloor>x\<rfloor>)"

definition fuzzy_score ::
    "(pystr \<Rightarrow> pystr \<Rightarrow> rat) \<Rightarrow> (pystr \<Rightarrow> pystr \<Rightarrow> rat) \<Rightarrow> pystr \<Rightarrow> pystr \<Rightarrow> pystr \<Rightarrow> pystr \<Rightarrow> pystr \<Rightarrow>
     rat \<times> string" where
  "fuzzy_score ratio partial_ratio he en node_he node_cn node_en =
     (let score_he = (if he \<noteq> [] \<and> node_he \<noteq> [] then ratio he node_he else 0);
          score_cn = (if en \<noteq> [] \<and> node_cn \<noteq> [] then ratio en node_cn else 0);
          score_en = (if en \<noteq> [] \<and> node_en \<noteq> [] then ratio en node_en else 0);
          partial_he = (if he \<noteq> [] \<and> node_he \<noteq> [] then partial_ratio he node_he else 0);
          best_exact = max (max score_he score_cn) score_en;
          best = max best_exact (of_int (py_trunc (partial_he * (92 / 100))));
          reason = (if score_en \<ge> score_he \<and> score_en \<ge> score_cn then ''fuzzy_en''
                    else if score_cn > score_he then ''fuzzy_cn'' else ''fuzzy_he'')
      in (best, if partial_he * (92 / 100) > best_exact then ''fuzzy_partial_he'' else reason))"

definition fuzzy_entry ::
    "resolver_libs \<Rightarrow> (pystr \<Rightarrow> pystr \<Rightarrow> rat) \<times> (pystr \<Rightarrow> pystr \<Rightarrow> rat) \<Rightarrow> pystr \<Rightarrow> pystr \<Rightarrow> pyval dict \<Rightarrow>
     pyerr + candidate option" where
  "fuzzy_entry libs fuzz he en r =
     (case dget r (lit ''id'') of
        None \<Rightarrow> Inl KeyError
      | Some node_id \<Rightarrow>
          if node_id = PNone then Inr None
          else
            (case text_field r (lit ''he'') TypeError of Inl e \<Rightarrow> Inl e | Inr t_he \<Rightarrow>
            (case text_field r (lit ''cn'') AttributeError of Inl e \<Rightarrow> Inl e | Inr t_cn \<Rightarrow>
            (case text_field r (lit ''en'') AttributeError of Inl e \<Rightarrow> Inl e | Inr t_en \<Rightarrow>
              let (best, reason) = fuzzy_score (fst fuzz) (snd fuzz) he en
                    (normalize_hebrew (rl_nfc libs) t_he) (py_lower (py_strip t_cn)) (py_lower (py_strip t_en))
              in if best < 60 then Inr None
                 else (case uuid_of node_id of
                         Inl e \<Rightarrow> Inl e
                       | Inr u \<Rightarrow> Inr (Some \<lparr>cd_entity_id = u, cd_match_step = 5,
                           cd_match_reason = reason, cd_score = best\<rparr>))))))"

fun fuzzy_entries ::
    "(pyval dict \<Rightarrow> pyerr + candidate option) \<Rightarrow> pyval dict list \<Rightarrow> pyerr + candidate list" where
  "fuzzy_entries entry [] = Inr []"
| "fuzzy_entries entry (r # rs) =
     (case entry r of
        Inl e \<Rightarrow> Inl e
      | Inr c \<Rightarrow>
          (case fuzzy_entries entry rs of
             Inl e \<Rightarrow> Inl e
           | Inr cs \<Rightarrow> Inr (case c of None \<Rightarrow> cs | Some x \<Rightarrow> x # cs)))"

definition opt_text :: "pystr option \<Rightarrow> pystr" where
  "opt_text t = (case t of None \<Rightarrow> [] | Some s \<Rightarrow> s)"

definition lookup_fuzzy ::
    "resolver_libs \<Rightarrow> session \<Rightarrow> string \<times> string \<Rightarrow> pystr option \<Rightarrow> pystr option \<Rightarrow>
     pyerr + candidate list" where
  "lookup_fuzzy libs run li hebrew_name english_name =
     (case rl_fuzz libs of
        None \<Rightarrow> Inr []
      | Some fuzz \<Rightarrow>
          (case run (lit (''MATCH (n:'' @ fst li @ '') RETURN n.'' @ snd li @ '' AS id, n.hebrew_name AS he, '' @
                    ''n.canonical_name AS cn, n.english_name AS en LIMIT 500'')) [] of
             Inl e \<Rightarrow> Inl e
           | Inr records \<Rightarrow>
               (case fuzzy_entries
                    (fuzzy_entry libs fuzz (normalize_hebrew (rl_nfc libs) (opt_text hebrew_name))
                      (py_lower (py_strip (opt_text english_name)))) records of
                  Inl e \<Rightarrow> Inl e
                | Inr cs \<Rightarrow> Inr (take 5 (sort_key (\<lambda>c. - cd_score c) cs)))))"

section \<open>The candidates table\<close>

definition candidate_check :: "candidate_row \<Rightarrow> bool" where
  "candidate_check r \<longleftrightarrow> 0 \<le> cr_confidence r \<and> cr_confidence r \<le> 1 \<and>
     cr_entity_kind r \<in> set (map lit [''person'', ''party'', ''office'', ''committee'', ''bill''])"

fun write_entity_candidates ::
    "(nat \<Rightarrow> pystr) \<Rightarrow> nat \<Rightarrow> pystr \<Rightarrow> pystr \<Rightarrow> candidate list \<Rightarrow> candidate_row list \<Rightarrow>
     candidate_row list \<times> (pyerr + unit)" where
  "write_entity_candidates uuid4 i kind mention [] rows = (rows, Inr ())"
| "write_entity_candidates uuid4 i kind mention (c # cs) rows =
     (let row = \<lparr>cr_candidate_id = uuid4 i, cr_mention_text = mention, cr_entity_kind = kind,
            cr_canonical_entity_id = uuid_str (cd_entity_id c), cr_confidence = cd_score c / 100,
            cr_method = lit (cd_match_reason c),
            cr_evidence = [(lit ''match_step'', PInt (int (cd_match_step c)))]\<rparr>
      in if \<not> candidate_check row then (rows, Inl DatabaseError)
         else write_entity_candidates uuid4 (Suc i) kind mention cs
           (if uuid4 i \<in> cr_candidate_id ` set rows then rows else rows @ [row]))"

section \<open>The resolver\<close>

definition present :: "pystr option \<Rightarrow> bool" where
  "present t \<longleftrightarrow> t \<noteq> None \<and> t \<noteq> Some []"

definition candidate_of :: "nat \<Rightarrow> string \<Rightarrow> (int \<Rightarrow> int) \<Rightarrow> nat \<times> int \<Rightarrow> candidate" where
  "candidate_of k reason f h =
     \<lparr>cd_entity_id = fst h, cd_match_step = k, cd_match_reason = reason, cd_score = of_int (f (snd h))\<rparr>"

text \<open>One step of the ladder: skipped when an earlier one found something or its input is missing.\<close>

definition ladder_step ::
    "bool \<Rightarrow> (pyerr + candidate list) \<Rightarrow> (pyerr + candidate list) \<Rightarrow> pyerr + candidate list" where
  "ladder_step applies hits found =
     (case found of
        Inl e \<Rightarrow> Inl e
      | Inr cs \<Rightarrow> if cs = [] \<and> applies then hits else Inr cs)"

definition map_hits :: "('a \<Rightarrow> candidate) \<Rightarrow> pyerr + 'a list \<Rightarrow> pyerr + candidate list" where
  "map_hits f hits = (case hits of Inl e \<Rightarrow> Inl e | Inr hs \<Rightarrow> Inr (map f hs))"

definition one_hit :: "pyerr + nat option \<Rightarrow> pyerr + (nat \<times> int) list" where
  "one_hit hit = (case hit of Inl e \<Rightarrow> Inl e | Inr None \<Rightarrow> Inr [] | Inr (Some u) \<Rightarrow> Inr [(u, 0)])"

definition find_candidates ::
    "resolver_libs \<Rightarrow> pystr \<Rightarrow> string \<times> string \<Rightarrow> (pystr \<times> pystr) list \<Rightarrow> pystr option \<Rightarrow> pystr option \<Rightarrow>
     alias_row list option \<Rightarrow> session option \<Rightarrow> pyerr + candidate list" where
  "find_candidates libs kind li external_ids hebrew_name english_name aliases session =
     (let he = opt_text hebrew_name; en = opt_text english_name; nfc = rl_nfc libs;
          step1 = ladder_step (external_ids \<noteq> [] \<and> session \<noteq> None)
            (map_hits (candidate_of 1 ''external_id'' (\<lambda>_. 100))
              (one_hit (lookup_external_ids (the session) li external_ids))) (Inr []);
          step2 = ladder_step (present hebrew_name \<and> session \<noteq> None)
            (map_hits (candidate_of 2 ''hebrew_exact'' (\<lambda>_. 95))
              (one_hit (lookup_hebrew_exact (the session) li (normalize_hebrew nfc he)))) step1;
          step3 = ladder_step (present hebrew_name \<and> aliases \<noteq> None)
            (map_hits (candidate_of 3 ''alias_he'' (\<lambda>c. c))
              (lookup_alias (the aliases) kind (normalize_hebrew nfc he) (lit ''he''))) step2;
          step3' = ladder_step (present english_name \<and> aliases \<noteq> None)
            (map_hits (candidate_of 3 ''alias_en'' (\<lambda>c. c))
              (lookup_alias (the aliases) kind (py_lower (py_strip en)) (lit ''en''))) step3;
          step4 = ladder_step (present hebrew_name \<and> aliases \<noteq> None \<and> transliterate_hebrew nfc he \<noteq> [])
            (map_hits (candidate_of 4 ''transliteration'' (\<lambda>c. max (c - 10) 0))
              (lookup_alias (the aliases) kind (transliterate_hebrew nfc he) (lit ''en''))) step3'
      in ladder_step (session \<noteq> None \<and> (present hebrew_name \<or> present english_name))
           (lookup_fuzzy libs (the session) li hebrew_name english_name) step4)"

text \<open>The fuzzy winner among several entities, by threshold and margin.\<close>

definition fuzzy_winner :: "candidate list \<Rightarrow> nat option" where
  "fuzzy_winner candidates =
     (case sort_key (\<lambda>c. - cd_score c) (filter (\<lambda>c. cd_match_step c = 5) candidates) of
        [] \<Rightarrow> None
      | w # rest \<Rightarrow>
          let second = (case rest of [] \<Rightarrow> 0 | c # _ \<Rightarrow> cd_score c) in
          if cd_score w \<ge> FUZZY_RESOLVE_THRESHOLD \<and> cd_score w - second \<ge> FUZZY_MARGIN
          then Some (cd_entity_id w) else None)"

definition resolved :: "nat \<Rightarrow> candidate list \<Rightarrow> resolve_result" where
  "resolved u cs = \<lparr>rr_status = SlotResolved, rr_entity_id = Some u, rr_candidates = cs\<rparr>"

definition ask_tiebreaker ::
    "tiebreaker option \<Rightarrow> pystr \<Rightarrow> pystr option \<Rightarrow> pystr option \<Rightarrow> candidate list \<Rightarrow> pyerr + nat option" where
  "ask_tiebreaker tb kind hebrew_name english_name candidates =
     (case tb of
        None \<Rightarrow> Inr None
      | Some pick \<Rightarrow>
          (case pick kind hebrew_name english_name candidates of
             Inl e \<Rightarrow> Inl e
           | Inr None \<Rightarrow> Inr None
           | Inr (Some u) \<Rightarrow> Inr (if u \<in> cd_entity_id ` set candidates then Some u else None)))"

definition mention :: "pystr option \<Rightarrow> pystr option \<Rightarrow> pystr" where
  "mention hebrew_name english_name = (if present hebrew_name then opt_text hebrew_name else opt_text english_name)"

definition resolve ::
    "resolver_libs \<Rightarrow> pystr \<Rightarrow> (pystr \<times> pystr) list \<Rightarrow> pystr option \<Rightarrow> pystr option \<Rightarrow> bool \<Rightarrow>
     tiebreaker option \<Rightarrow> session option \<Rightarrow> pg_tables option \<Rightarrow>
     pg_tables option \<times> (pyerr + resolve_result)" where
  "resolve libs kind external_ids hebrew_name english_name record_ambiguous tb session pg =
     (case label_of kind of
        None \<Rightarrow> (pg, Inl ValueError)
      | Some li \<Rightarrow>
          (case find_candidates libs kind li external_ids hebrew_name english_name
                  (map_option pg_aliases pg) session of
             Inl e \<Rightarrow> (pg, Inl e)
           | Inr [] \<Rightarrow> (pg, Inr \<lparr>rr_status = SlotUnresolved, rr_entity_id = None, rr_candidates = []\<rparr>)
           | Inr (c # cs) \<Rightarrow>
               if card (cd_entity_id ` set (c # cs)) = 1
               then (pg, Inr (resolved (cd_entity_id c) (c # cs)))
               else
                 (case fuzzy_winner (c # cs) of
                    Some u \<Rightarrow> (pg, Inr (resolved u (c # cs)))
                  | None \<Rightarrow>
                      (case ask_tiebreaker tb kind hebrew_name english_name (c # cs) of
                         Inl e \<Rightarrow> (pg, Inl e)
                       | Inr (Some u) \<Rightarrow> (pg, Inr (resolved u (c # cs)))
                       | Inr None \<Rightarrow>
                           let unsure = Inr \<lparr>rr_status = SlotAmbiguous, rr_entity_id = None,
                                 rr_candidates = c # cs\<rparr> in
                           (case (record_ambiguous, pg) of
                              (True, Some t) \<Rightarrow>
                                (case write_entity_candidates (rl_uuid4 libs) 0 kind
                                     (mention hebrew_name english_name) (c # cs) (pg_candidates t) of
                                   (rows, Inl e) \<Rightarrow> (Some (t\<lparr>pg_candidates := rows\<rparr>), Inl e)
                                 | (rows, Inr _) \<Rightarrow> (Some (t\<lparr>pg_candidates := rows\<rparr>), unsure))
                            | _ \<Rightarrow> (pg, unsure))))))"

section \<open>What the steps find\<close>

lemma ladder_step_Inr:
  "ladder_step applies hits found = Inr cs \<Longrightarrow> found = Inr cs \<or> (found = Inr [] \<and> applies \<and> hits = Inr cs)"
  by (auto simp: ladder_step_def split: sum.splits if_splits)

lemma map_hits_Inr: "map_hits f hits = Inr cs \<Longrightarrow> \<exists>hs. hits = Inr hs \<and> cs = map f hs"
  by (auto simp: map_hits_def split: sum.splits)

lemma one_hit_length: "one_hit hit = Inr hs \<Longrightarrow> length hs \<le> 1"
  by (auto simp: one_hit_def split: sum.splits option.splits)

lemma distinct_filter_one: "distinct (map f xs) \<Longrightarrow> length (filter (\<lambda>x. f x = k) xs) \<le> 1"
proof (induction xs)
  case (Cons x xs)
  have "f y \<noteq> f x" if "y \<in> set xs" for y using Cons.prems that by (metis distinct.simps(2) image_eqI list.set_map list.simps(9))
  then have "filter (\<lambda>y. f y = f x) xs = []" by (simp add: filter_empty_conv)
  then show ?case using Cons by auto
qed simp

lemma parse_ids_written:
  "list_all (\<lambda>r. fst r < 2 ^ 128) rows \<Longrightarrow> parse_ids (map (\<lambda>r. (uuid_str (fst r), snd r)) rows) = Inr rows"
  by (induction rows) (auto simp: parse_uuid_str)

lemma lookup_alias_eq:
  assumes "aliases_ok rows"
  shows "lookup_alias rows kind nm code = Inr (map (\<lambda>r. (al_canonical_entity_id r, al_confidence r))
      (filter (\<lambda>r. al_entity_kind r = kind \<and> al_alias_text r = nm \<and> al_alias_locale r = code) rows))"
    (is "_ = Inr (map ?f (filter ?P rows))")
proof -
  have "list_all (\<lambda>r. fst r < 2 ^ 128) (map ?f (filter ?P rows))"
    using assms by (auto simp: aliases_ok_def list_all_iff)
  from parse_ids_written [OF this] show ?thesis by (simp add: lookup_alias_def comp_def)
qed

lemma lookup_alias_one:
  assumes "aliases_ok rows" "lookup_alias rows kind nm code = Inr hs"
  shows "length hs \<le> 1"
proof -
  have "length (filter (\<lambda>r. (al_entity_kind r, al_alias_text r, al_alias_locale r) = (kind, nm, code)) rows) \<le> 1"
    using assms(1) unfolding aliases_ok_def by (intro distinct_filter_one) simp
  then show ?thesis using assms lookup_alias_eq [OF assms(1), of kind nm code] by auto
qed

lemma fuzzy_entries_all:
  assumes "fuzzy_entries entry rs = Inr cs" "\<And>r c. entry r = Inr (Some c) \<Longrightarrow> P c"
  shows "list_all P cs"
  using assms(1)
proof (induction rs arbitrary: cs)
  case (Cons r rs)
  then obtain c ds where "entry r = Inr c" "fuzzy_entries entry rs = Inr ds"
    "cs = (case c of None \<Rightarrow> ds | Some x \<Rightarrow> x # ds)" by (auto split: sum.splits)
  then show ?case using Cons.IH assms(2) by (auto split: option.splits)
qed simp

lemma fuzzy_entry_facts:
  "fuzzy_entry libs fuzz he en r = Inr (Some c) \<Longrightarrow> cd_match_step c = 5 \<and> 60 \<le> cd_score c"
  by (auto simp: fuzzy_entry_def Let_def split: option.splits if_splits sum.splits prod.splits)

lemma lookup_fuzzy_facts:
  assumes "lookup_fuzzy libs run li he en = Inr cs"
  shows "list_all (\<lambda>c. cd_match_step c = 5 \<and> 60 \<le> cd_score c) cs" "length cs \<le> 5"
    "sorted (map (\<lambda>c. - cd_score c) cs)"
proof -
  have "cs = [] \<or> (\<exists>ds. cs = take 5 (sort_key (\<lambda>c. - cd_score c) ds) \<and>
      list_all (\<lambda>c. cd_match_step c = 5 \<and> 60 \<le> cd_score c) ds)"
    using assms unfolding lookup_fuzzy_def
    by (auto split: option.splits sum.splits dest!: fuzzy_entries_all [OF _ fuzzy_entry_facts])
  then show "list_all (\<lambda>c. cd_match_step c = 5 \<and> 60 \<le> cd_score c) cs" "length cs \<le> 5"
    "sorted (map (\<lambda>c. - cd_score c) cs)"
    by (auto simp: list_all_iff take_map [symmetric] sorted_wrt_take dest: in_set_takeD)
qed

text \<open>Only the fuzzy step can find more than one candidate.\<close>

lemma ladder_small:
  "ladder_step applies hits found = Inr cs \<Longrightarrow> (\<And>cs. found = Inr cs \<Longrightarrow> length cs \<le> 1) \<Longrightarrow>
     (\<And>cs. applies \<Longrightarrow> hits = Inr cs \<Longrightarrow> length cs \<le> 1) \<Longrightarrow> length cs \<le> 1"
  using ladder_step_Inr by blast

lemma map_hits_small:
  "map_hits f hits = Inr cs \<Longrightarrow> (\<And>hs. hits = Inr hs \<Longrightarrow> length hs \<le> 1) \<Longrightarrow> length cs \<le> 1"
  using map_hits_Inr by fastforce

lemma find_candidates_from:
  assumes "find_candidates libs kind li ids he en aliases session = Inr cs"
    "aliases = None \<or> aliases_ok (the aliases)"
  shows "length cs \<le> 1 \<or> lookup_fuzzy libs (the session) li he en = Inr cs"
proof -
  have al: "length hs \<le> 1" if "aliases \<noteq> None" "lookup_alias (the aliases) kind nm code = Inr hs" for nm code hs
    using lookup_alias_one assms(2) that by blast
  show ?thesis
    using assms(1) unfolding find_candidates_def Let_def
    apply (drule_tac ladder_step_Inr)
    apply (elim disjE conjE)
     apply (rule disjI1)
     apply (erule ladder_small, erule ladder_small, erule ladder_small, erule ladder_small, erule ladder_small)
    subgoal by simp
    subgoal by (metis map_hits_small one_hit_length)
    subgoal by (metis map_hits_small one_hit_length)
    subgoal by (metis map_hits_small al)
    subgoal by (metis map_hits_small al)
    subgoal by (metis map_hits_small al)
    subgoal by simp
    subgoal by simp
    done
qed

section \<open>What the resolver promises\<close>

lemma fuzzy_winner_Some:
  assumes "fuzzy_winner cs = Some u"
  shows "u \<in> cd_entity_id ` set cs"
proof -
  obtain w rest where w: "sort_key (\<lambda>c. - cd_score c) (filter (\<lambda>c. cd_match_step c = 5) cs) = w # rest"
    "u = cd_entity_id w"
    using assms by (auto simp: fuzzy_winner_def Let_def split: list.splits if_splits)
  have "w \<in> set (sort_key (\<lambda>c. - cd_score c) (filter (\<lambda>c. cd_match_step c = 5) cs))" by (simp add: w(1))
  then show ?thesis using w(2) by simp
qed

text \<open>The outcome in terms of the retrieved candidates, for any tiebreaker.\<close>

definition outcome_ok :: "candidate list \<Rightarrow> resolve_result \<Rightarrow> bool" where
  "outcome_ok cs r \<longleftrightarrow> rr_candidates r = cs \<and>
     (case rr_status r of
        SlotResolved \<Rightarrow> (\<exists>c \<in> set cs. rr_entity_id r = Some (cd_entity_id c))
      | SlotAmbiguous \<Rightarrow> rr_entity_id r = None \<and> 2 \<le> card (cd_entity_id ` set cs)
      | SlotUnresolved \<Rightarrow> rr_entity_id r = None \<and> cs = [])"

lemma resolved_ok: "u \<in> cd_entity_id ` set cs \<Longrightarrow> outcome_ok cs (resolved u cs)"
  by (auto simp: outcome_ok_def resolved_def)

lemma ask_tiebreaker_Some:
  "ask_tiebreaker tb kind he en cs = Inr (Some u) \<Longrightarrow> u \<in> cd_entity_id ` set cs"
  by (auto simp: ask_tiebreaker_def split: option.splits sum.splits if_splits)

lemma resolve_cases:
  assumes "resolve libs kind ids he en record_ambiguous tb session pg = (pg', Inr r)"
  shows "\<exists>li cs. label_of kind = Some li \<and>
    find_candidates libs kind li ids he en (map_option pg_aliases pg) session = Inr cs \<and> outcome_ok cs r \<and>
    map_option pg_aliases pg' = map_option pg_aliases pg \<and>
    (pg' = pg \<or> record_ambiguous \<and> rr_status r = SlotAmbiguous)"
proof -
  obtain li where li: "label_of kind = Some li"
    using assms by (auto simp: resolve_def split: option.splits)
  obtain cs where cs: "find_candidates libs kind li ids he en (map_option pg_aliases pg) session = Inr cs"
    using assms li by (auto simp: resolve_def split: sum.splits)
  have "outcome_ok cs r \<and> map_option pg_aliases pg' = map_option pg_aliases pg \<and>
    (pg' = pg \<or> record_ambiguous \<and> rr_status r = SlotAmbiguous)"
  proof (cases cs)
    case Nil
    then show ?thesis using assms li cs by (auto simp: resolve_def outcome_ok_def)
  next
    case (Cons c ds)
    have pos: "0 < card (cd_entity_id ` set cs)" using Cons by (simp add: card_gt_0_iff)
    show ?thesis
    proof (cases "card (cd_entity_id ` set cs) = 1")
      case True
      then show ?thesis using assms li cs Cons by (auto simp: resolve_def intro: resolved_ok)
    next
      case False
      then have two: "2 \<le> card (cd_entity_id ` set cs)" using pos by simp
      show ?thesis
      proof (cases "fuzzy_winner cs")
        case (Some u)
        then show ?thesis
          using assms li cs Cons False resolved_ok [OF fuzzy_winner_Some [OF Some]] by (auto simp: resolve_def)
      next
        case None
        then obtain t where t: "ask_tiebreaker tb kind he en cs = Inr t"
          using assms li cs Cons False by (auto simp: resolve_def split: sum.splits)
        show ?thesis
        proof (cases t)
          case (Some u)
          then show ?thesis
            using assms li cs Cons False None t resolved_ok [OF ask_tiebreaker_Some] by (auto simp: resolve_def)
        next
          case N: None
          have "outcome_ok cs \<lparr>rr_status = SlotAmbiguous, rr_entity_id = None, rr_candidates = cs\<rparr>"
            using two by (simp add: outcome_ok_def)
          then show ?thesis
            using assms li cs Cons False None t N
            by (auto simp: resolve_def Let_def split: bool.splits option.splits prod.splits sum.splits)
        qed
      qed
    qed
  qed
  then show ?thesis using li cs by blast
qed

text \<open>
  Claim C16. The resolver never invents an entity: whatever the LLM tiebreaker answers, a resolved id is
  the id of a candidate the lookups retrieved, \<open>ambiguous\<close> means at least two different
  entities, \<open>unresolved\<close> means no candidate, and the database is written only for an ambiguous
  result when the caller asked for it.
\<close>

theorem resolve_sound:
  assumes "resolve libs kind ids he en record_ambiguous tb session pg = (pg', Inr r)"
  shows "\<exists>li. label_of kind = Some li \<and>
    find_candidates libs kind li ids he en (map_option pg_aliases pg) session = Inr (rr_candidates r) \<and>
    (case rr_status r of
       SlotResolved \<Rightarrow> \<exists>c \<in> set (rr_candidates r). rr_entity_id r = Some (cd_entity_id c)
     | SlotAmbiguous \<Rightarrow> rr_entity_id r = None \<and> 2 \<le> card (cd_entity_id ` set (rr_candidates r))
     | SlotUnresolved \<Rightarrow> rr_entity_id r = None \<and> rr_candidates r = []) \<and>
    (pg' = pg \<or> record_ambiguous \<and> rr_status r = SlotAmbiguous)"
  using resolve_cases [OF assms] by (auto simp: outcome_ok_def)

lemma resolve_lone:
  assumes "label_of kind = Some li"
    "find_candidates libs kind li ids he en (map_option pg_aliases pg) session = Inr [c]"
  shows "resolve libs kind ids he en record_ambiguous tb session pg = (pg, Inr (resolved (cd_entity_id c) [c]))"
  using assms by (simp add: resolve_def)

text \<open>\<open>w\<close> clears the threshold, and every other candidate is at least the margin below it.\<close>

definition clear_winner :: "candidate list \<Rightarrow> candidate \<Rightarrow> bool" where
  "clear_winner cs w \<longleftrightarrow> w \<in> set cs \<and> FUZZY_RESOLVE_THRESHOLD \<le> cd_score w \<and>
     list_all (\<lambda>c. cd_score c + FUZZY_MARGIN \<le> cd_score w) (remove1 w cs)"

lemma fuzzy_winner_iff:
  assumes "list_all (\<lambda>c. cd_match_step c = 5) cs"
  shows "fuzzy_winner cs = Some u \<longleftrightarrow> (\<exists>w. clear_winner cs w \<and> cd_entity_id w = u)"
proof (cases "sort_key (\<lambda>c. - cd_score c) cs")
  case Nil
  then have "cs = []" by (metis length_0_conv length_sort)
  then show ?thesis by (simp add: fuzzy_winner_def clear_winner_def)
next
  case (Cons w rest)
  have all: "filter (\<lambda>c. cd_match_step c = 5) cs = cs" using assms by (simp add: list_all_iff)
  have ms: "mset cs = mset (w # rest)" using Cons by (metis mset_sort)
  have "sorted (map (\<lambda>c. - cd_score c) (w # rest))" using Cons by (metis sorted_sort_key)
  then have srt: "\<forall>c \<in> set rest. cd_score c \<le> cd_score w"
    "rest \<noteq> [] \<Longrightarrow> \<forall>c \<in> set rest. cd_score c \<le> cd_score (hd rest)"
    by (simp, cases rest) auto
  have rm: "set (remove1 x cs) = set (remove1 x (w # rest))" for x
    using ms by (metis mset_remove1 set_mset_mset)
  have head: "clear_winner cs w \<longleftrightarrow> FUZZY_RESOLVE_THRESHOLD \<le> cd_score w \<and>
      (rest = [] \<or> FUZZY_MARGIN \<le> cd_score w - cd_score (hd rest))"
  proof -
    have "w \<in> set cs" using ms by (metis list.set_intros(1) set_mset_mset)
    moreover have "list_all (\<lambda>c. cd_score c + FUZZY_MARGIN \<le> cd_score w) (remove1 w cs) \<longleftrightarrow>
        (rest = [] \<or> FUZZY_MARGIN \<le> cd_score w - cd_score (hd rest))"
      using rm [of w] srt(2) by (cases rest) (force simp: list_all_iff)+
    ultimately show ?thesis by (simp add: clear_winner_def)
  qed
  have only: "v = w" if "clear_winner cs v" for v
  proof (rule ccontr)
    assume "v \<noteq> w"
    then have "w \<in> set (remove1 v cs)" by (simp add: rm)
    moreover have "v \<in> set rest" using that ms \<open>v \<noteq> w\<close>
      by (metis clear_winner_def list.set_intros(2) set_ConsD set_mset_mset)
    ultimately show False
      using that srt(1) by (force simp: clear_winner_def list_all_iff FUZZY_MARGIN_def)
  qed
  have "fuzzy_winner cs = Some u \<longleftrightarrow> clear_winner cs w \<and> cd_entity_id w = u"
    using Cons head unfolding fuzzy_winner_def all
    by (cases rest) (auto simp: Let_def FUZZY_MARGIN_def FUZZY_RESOLVE_THRESHOLD_def)
  then show ?thesis using only by metis
qed

lemma several_are_fuzzy:
  assumes "find_candidates libs kind li ids he en aliases session = Inr cs"
    "aliases = None \<or> aliases_ok (the aliases)" "2 \<le> card (cd_entity_id ` set cs)"
  shows "list_all (\<lambda>c. cd_match_step c = 5) cs"
proof -
  have "2 \<le> length cs"
    using assms(3) card_image_le [of "set cs" cd_entity_id] card_length [of cs] by simp
  then have "lookup_fuzzy libs (the session) li he en = Inr cs"
    using find_candidates_from [OF assms(1,2)] by simp
  from lookup_fuzzy_facts(1) [OF this] show ?thesis by (simp add: list_all_iff)
qed

text \<open>
  When several entities match and no tiebreaker is configured, they all come from the fuzzy step
  (the alias table is unique per kind, text and locale), and the resolver resolves exactly to
  the candidate that reaches the threshold and leads every other one by the margin; without
  such a candidate the result is ambiguous.
\<close>

theorem several_candidates_decision:
  assumes "resolve libs kind ids he en record_ambiguous None session pg = (pg', Inr r)"
    "pg = None \<or> aliases_ok (pg_aliases (the pg))" "2 \<le> card (cd_entity_id ` set (rr_candidates r))"
  shows "list_all (\<lambda>c. cd_match_step c = 5) (rr_candidates r) \<and>
    (if list_ex (clear_winner (rr_candidates r)) (rr_candidates r)
     then rr_status r = SlotResolved \<and>
       list_ex (\<lambda>w. clear_winner (rr_candidates r) w \<and> rr_entity_id r = Some (cd_entity_id w)) (rr_candidates r)
     else rr_status r = SlotAmbiguous)"
proof -
  obtain li where li: "label_of kind = Some li"
    "find_candidates libs kind li ids he en (map_option pg_aliases pg) session = Inr (rr_candidates r)"
    using resolve_cases [OF assms(1)] by (auto simp: outcome_ok_def)
  let ?cs = "rr_candidates r"
  have f: "list_all (\<lambda>c. cd_match_step c = 5) ?cs"
    using several_are_fuzzy [OF li(2) _ assms(3)] assms(2) by (cases pg) auto
  obtain c ds where cs: "?cs = c # ds" using assms(3) by (cases ?cs) auto

  show ?thesis
  proof (cases "fuzzy_winner ?cs")
    case (Some u)
    then have "rr_status r = SlotResolved" "rr_entity_id r = Some u"
      using assms(1,3) li cs by (auto simp: resolve_def resolved_def)
    moreover obtain w where "clear_winner ?cs w" "cd_entity_id w = u"
      using Some fuzzy_winner_iff [OF f] by auto
    ultimately show ?thesis using f by (auto simp: list_ex_iff clear_winner_def)
  next
    case None
    then have "\<not> list_ex (clear_winner ?cs) ?cs"
      using fuzzy_winner_iff [OF f] by (auto simp: list_ex_iff)
    moreover have "rr_status r = SlotAmbiguous"
      using assms(1,3) li cs None
      by (auto simp: resolve_def ask_tiebreaker_def Let_def split: bool.splits option.splits prod.splits sum.splits)
    ultimately show ?thesis using f by simp
  qed
qed

text \<open>
  A lone candidate is resolved whatever its score: the threshold and the margin are not
  consulted, so a single fuzzy match is accepted from the retrieval floor of 60 on.
\<close>

theorem lone_candidate_resolved:
  assumes "label_of kind = Some li"
    "find_candidates libs kind li ids he en (map_option pg_aliases pg) session = Inr [c]"
  shows "resolve libs kind ids he en record_ambiguous tb session pg =
    (pg, Inr \<lparr>rr_status = SlotResolved, rr_entity_id = Some (cd_entity_id c), rr_candidates = [c]\<rparr>)"
  using resolve_lone [OF assms] by (simp add: resolved_def)

section \<open>Concrete resolutions\<close>

definition sample_libs :: resolver_libs where
  "sample_libs = \<lparr>rl_nfc = (\<lambda>s. s),
     rl_fuzz = Some (\<lambda>a b. if b = lit ''bibi'' then 95 else 65, \<lambda>a b. 0), rl_uuid4 = (\<lambda>i. lit ''c'')\<rparr>"

definition person_record :: "nat \<Rightarrow> string \<Rightarrow> pyval dict" where
  "person_record u name =
     [(lit ''id'', PStr (uuid_str u)), (lit ''he'', PNone), (lit ''cn'', PLit name), (lit ''en'', PNone)]"

definition two_people :: session where
  "two_people cypher params = Inr [person_record 2 ''boby'', person_record 3 ''bibi'']"

definition one_person :: session where
  "one_person cypher params = Inr [person_record 2 ''boby'']"

definition fuzzy_cn :: "nat \<Rightarrow> rat \<Rightarrow> candidate" where
  "fuzzy_cn u x = \<lparr>cd_entity_id = u, cd_match_step = 5, cd_match_reason = ''fuzzy_cn'', cd_score = x\<rparr>"

lemma lower_names [simp]:
  "py_lower (py_strip (lit ''bibi'')) = lit ''bibi''" "py_lower (py_strip (lit ''boby'')) = lit ''boby''"
  "py_lower (py_strip []) = []"
  by (simp_all add: lit_def py_lower_def lower_char_def py_strip_def py_lstrip_def py_rstrip_def is_space_def)

lemma small_uuid [simp]: "n < 10 \<Longrightarrow> parse_uuid (uuid_str n) = Inr n"
  by (rule parse_uuid_str) simp

lemma sample_entry:
  "name \<in> {''bibi'', ''boby''} \<Longrightarrow> u < 10 \<Longrightarrow>
   fuzzy_entry sample_libs (\<lambda>a b. if b = lit ''bibi'' then 95 else 65, \<lambda>a b. 0) [] (lit ''bibi'')
     (person_record u name) = Inr (Some (fuzzy_cn u (if name = ''bibi'' then 95 else 65)))"
  by (auto simp: fuzzy_entry_def person_record_def text_field_def fuzzy_score_def sample_libs_def fuzzy_cn_def
      normalize_hebrew_def Let_def py_trunc_def)

lemma label_person: "label_of (lit ''person'') = Some (''Person'', ''person_id'')"
  by (simp add: label_of_def LABEL_BY_KIND_def)

lemma sample_candidates:
  "find_candidates sample_libs (lit ''person'') li [] None (Some (lit ''bibi'')) None (Some two_people) =
     Inr [fuzzy_cn 3 95, fuzzy_cn 2 65]"
  "find_candidates sample_libs (lit ''person'') li [] None (Some (lit ''bibi'')) None (Some one_person) =
     Inr [fuzzy_cn 2 65]"
proof -
  have f: "rl_fuzz sample_libs = Some (\<lambda>a b. if b = lit ''bibi'' then 95 else 65, \<lambda>a b. 0)"
    by (simp add: sample_libs_def)
  have n: "normalize_hebrew nfc [] = []" for nfc by (simp add: normalize_hebrew_def)
  have e: "fuzzy_entry sample_libs (\<lambda>a b. if b = lit ''bibi'' then 95 else 65, \<lambda>a b. 0) [] (lit ''bibi'')
      (person_record 3 ''bibi'') = Inr (Some (fuzzy_cn 3 95))"
    "fuzzy_entry sample_libs (\<lambda>a b. if b = lit ''bibi'' then 95 else 65, \<lambda>a b. 0) [] (lit ''bibi'')
      (person_record 2 ''boby'') = Inr (Some (fuzzy_cn 2 65))"
    using sample_entry [of "''bibi''" 3] sample_entry [of "''boby''" 2] by simp_all
  have "lookup_fuzzy sample_libs two_people li None (Some (lit ''bibi'')) = Inr [fuzzy_cn 3 95, fuzzy_cn 2 65]"
    by (simp add: lookup_fuzzy_def f n opt_text_def two_people_def e) (simp add: fuzzy_cn_def)
  moreover have "lookup_fuzzy sample_libs one_person li None (Some (lit ''bibi'')) = Inr [fuzzy_cn 2 65]"
    by (simp add: lookup_fuzzy_def f n opt_text_def one_person_def e)
  ultimately show
    "find_candidates sample_libs (lit ''person'') li [] None (Some (lit ''bibi'')) None (Some two_people) =
       Inr [fuzzy_cn 3 95, fuzzy_cn 2 65]"
    "find_candidates sample_libs (lit ''person'') li [] None (Some (lit ''bibi'')) None (Some one_person) =
       Inr [fuzzy_cn 2 65]"
    by (simp_all add: find_candidates_def ladder_step_def present_def Let_def)
qed

lemma sample_resolve:
  "resolve sample_libs (lit ''person'') [] None (Some (lit ''bibi'')) False None (Some two_people) None =
     (None, Inr (resolved 3 [fuzzy_cn 3 95, fuzzy_cn 2 65]))"
proof -
  have "card {3, 2 :: nat} = 2" by simp
  moreover have c: "cd_entity_id (fuzzy_cn u x) = u" "cd_score (fuzzy_cn u x) = x" "cd_match_step (fuzzy_cn u x) = 5"
    for u x by (simp_all add: fuzzy_cn_def)
  moreover have "fuzzy_winner [fuzzy_cn 3 95, fuzzy_cn 2 65] = Some 3"
    by (simp add: fuzzy_winner_def Let_def FUZZY_RESOLVE_THRESHOLD_def FUZZY_MARGIN_def c)
  ultimately show ?thesis by (simp add: resolve_def label_person sample_candidates)
qed

lemma resolve_sound_witness:
  "\<exists>c \<in> set [fuzzy_cn 3 95, fuzzy_cn 2 65]. Some 3 = Some (cd_entity_id c)"
  using resolve_sound [OF sample_resolve] by (auto simp: resolved_def)

section \<open>Normalization\<close>

text \<open>
  The points are removed before the composition, so a presentation form whose composition
  brings a point back is left with it; and the removed range holds the maqaf (05BE), so a
  hyphenated name is glued together.
\<close>

lemma niqqud_after_nfc:
  assumes "nfc [64285] = [1497, 1460]"
  shows "normalize_hebrew nfc [64285] = [1497, 1460]" "is_niqqud 1460"
  using assms
  by (simp_all add: normalize_hebrew_def is_niqqud_def py_strip_def py_lstrip_def py_rstrip_def is_space_def
      py_split.simps Let_def)

lemma maqaf_glued:
  "normalize_hebrew (\<lambda>s. s) [1489, 1503, 1470, 1490, 1489, 1497, 1512] = [1489, 1503, 1490, 1489, 1497, 1512]"
  by (simp add: normalize_hebrew_def is_niqqud_def py_strip_def py_lstrip_def py_rstrip_def is_space_def
      py_split.simps Let_def)

section \<open>Position terms\<close>

record position_term_match =
  pt_position_term_id :: pystr
  pt_person_id :: pystr
  pt_office_id :: pystr
  pt_appointing_body :: pyval
  pt_valid_from :: pyval
  pt_valid_to :: pyval
  pt_is_acting :: bool

definition position_cypher :: "pystr option \<Rightarrow> pystr option \<Rightarrow> string" where
  "position_cypher office_id as_of_date =
     ''MATCH (p:Person {person_id: $person_id})'' @
     ''-[:HAS_POSITION_TERM]->(pt:PositionTerm)'' @
     ''-[:ABOUT_OFFICE]->(o:Office)'' @
     ''WHERE true'' @ (if office_id = None then [] else '' AND o.office_id = $office_id'') @
     (if as_of_date = None then []
      else '' AND pt.valid_from <= datetime($as_of_date)'' @
           '' AND (pt.valid_to IS NULL OR pt.valid_to >= datetime($as_of_date))'') @ '' '' @
     ''RETURN '' @
     ''  pt.position_term_id AS position_term_id,'' @
     ''  pt.person_id        AS person_id,'' @
     ''  o.office_id         AS office_id,'' @
     ''  pt.appointing_body  AS appointing_body,'' @
     ''  toString(pt.valid_from) AS valid_from,'' @
     ''  toString(pt.valid_to)   AS valid_to,'' @
     ''  pt.is_acting        AS is_acting '' @
     ''ORDER BY pt.valid_from ASC NULLS LAST''"

definition position_match :: "(pyval \<Rightarrow> pystr) \<Rightarrow> pyval dict \<Rightarrow> pyerr + position_term_match" where
  "position_match rp r =
     (case (dget r (lit ''position_term_id''), dget r (lit ''person_id''), dget r (lit ''office_id'')) of
        (Some t, Some p, Some off) \<Rightarrow>
          Inr \<lparr>pt_position_term_id = py_str rp t, pt_person_id = py_str rp p, pt_office_id = py_str rp off,
            pt_appointing_body = vget r (lit ''appointing_body''), pt_valid_from = vget r (lit ''valid_from''),
            pt_valid_to = vget r (lit ''valid_to''),
            pt_is_acting = (case dget r (lit ''is_acting'') of None \<Rightarrow> False | Some v \<Rightarrow> truthy v)\<rparr>
      | _ \<Rightarrow> Inl KeyError)"

fun each :: "('a \<Rightarrow> pyerr + 'b) \<Rightarrow> 'a list \<Rightarrow> pyerr + 'b list" where
  "each f [] = Inr []"
| "each f (x # xs) =
     (case f x of
        Inl e \<Rightarrow> Inl e
      | Inr y \<Rightarrow> (case each f xs of Inl e \<Rightarrow> Inl e | Inr ys \<Rightarrow> Inr (y # ys)))"

definition resolve_position_terms ::
    "(pyval \<Rightarrow> pystr) \<Rightarrow> session \<Rightarrow> pystr \<Rightarrow> pystr option \<Rightarrow> pystr option \<Rightarrow> pyerr + position_term_match list" where
  "resolve_position_terms rp run person_id office_id as_of_date =
     (let params = [(lit ''person_id'', PStr person_id)] @
            (case office_id of None \<Rightarrow> [] | Some off \<Rightarrow> [(lit ''office_id'', PStr off)]) @
            (case as_of_date of None \<Rightarrow> [] | Some d \<Rightarrow> [(lit ''as_of_date'', PStr d)])
      in case run (lit (position_cypher office_id as_of_date)) params of
           Inl e \<Rightarrow> Inl e
         | Inr records \<Rightarrow> each (position_match rp) records)"

end
