(* ===== verification/Pipeline.thy ===== *)
theory Pipeline
  imports Review_Queue Entity_Resolution
begin

text \<open>
  \<open>apps/api/src/api/routers/pipeline.py\<close>: the live entity resolver and the verification pipeline
  that composes decomposition, resolution, checkability, retrieval, ranking, verdict and
  provenance, with the conflict task it may open; and \<open>routers/claims.py\<close>.

  The collaborators are parameters, as in the code, where each of them is optional and may
  raise. \<open>decompose\<close> is called without an LLM provider, so slots are texts or \<open>None\<close>.
\<close>

section \<open>Slots\<close>

definition SLOT_TO_KIND :: "(string \<times> string) list" where
  "SLOT_TO_KIND =
     [(''speaker_person_id'', ''person''), (''target_person_id'', ''person''), (''bill_id'', ''bill''),
      (''committee_id'', ''committee''), (''office_id'', ''office''), (''party_id'', ''party''),
      (''government_decision_id'', ''government_decision'')]"

definition blank :: "pyval \<Rightarrow> bool" where
  "blank v \<longleftrightarrow> v = PNone \<or> v = PStr []"

definition parse_int_slot :: "(pyval \<Rightarrow> pystr) \<Rightarrow> pyval \<Rightarrow> int option" where
  "parse_int_slot rp v =
     (if blank v then None
      else case v of
             PInt i \<Rightarrow> Some i
           | PBool b \<Rightarrow> Some (if b then 1 else 0)
           | _ \<Rightarrow> int_of_str (py_strip (py_str rp v)))"

definition parse_expect_passed_threshold :: "(pyval \<Rightarrow> pystr) \<Rightarrow> pyval \<Rightarrow> bool option" where
  "parse_expect_passed_threshold rp v =
     (if blank v then None
      else case v of
             PBool b \<Rightarrow> Some b
           | _ \<Rightarrow>
               let s = py_lower (py_strip (py_str rp v)) in
               if s \<in> {lit ''true'', lit ''1'', lit ''yes''} then Some True
               else if s \<in> {lit ''false'', lit ''0'', lit ''no''} then Some False
               else None)"

section \<open>Entity resolution of a claim\<close>

record resolution =
  rn_slot_statuses :: "resolver_status dict"
  rn_resolved_slots :: "pyval dict"

definition is_hebrew :: "pystr \<Rightarrow> bool" where
  "is_hebrew s \<longleftrightarrow> list_ex (\<lambda>c. 1424 \<le> c \<and> c \<le> 1535) s"

definition FALLBACK_LABELS :: "(string \<times> string \<times> string \<times> string list) list" where
  "FALLBACK_LABELS =
     [(''bill'', ''Bill'', ''bill_id'', [''title'', ''hebrew_name'']),
      (''office'', ''Office'', ''office_id'', [''canonical_name'', ''hebrew_name'']),
      (''committee'', ''Committee'', ''committee_id'', [''hebrew_name'', ''canonical_name'']),
      (''person'', ''Person'', ''person_id'', [''hebrew_name'', ''canonical_name'', ''english_name'']),
      (''party'', ''Party'', ''party_id'', [''hebrew_name'', ''canonical_name'', ''english_name'']),
      (''government_decision'', ''GovernmentDecision'', ''government_decision_id'',
       [''decision_number'', ''title''])]"

definition fallback_cypher :: "string \<Rightarrow> string \<Rightarrow> string list \<Rightarrow> pystr" where
  "fallback_cypher label id_field names =
     lit ''MATCH (n:'' @ lit label @ lit '') WHERE '' @
     py_join (lit '' OR '')
       (map (\<lambda>f. lit ''toLower(n.'' @ lit f @ lit '') CONTAINS toLower($t)'') names) @
     lit '' RETURN n.'' @ lit id_field @ lit '' AS id LIMIT 2''"

definition fallback_resolve ::
    "(pyval \<Rightarrow> pystr) \<Rightarrow> session \<Rightarrow> string \<Rightarrow> pystr \<Rightarrow> pyerr + pystr option" where
  "fallback_resolve rp run kind t =
     (case map_of FALLBACK_LABELS kind of
        None \<Rightarrow> Inr None
      | Some (label, id_field, names) \<Rightarrow>
          (case run (fallback_cypher label id_field names) [(lit ''t'', PStr t)] of
             Inl e \<Rightarrow> Inl e
           | Inr [r] \<Rightarrow>
               (case dget r (lit ''id'') of None \<Rightarrow> Inl KeyError | Some v \<Rightarrow> Inr (Some (py_str rp v)))
           | Inr _ \<Rightarrow> Inr None))"

fun status_of :: "resolve_status \<Rightarrow> resolver_status" where
  "status_of SlotResolved = Resolved"
| "status_of SlotAmbiguous = Ambiguous"
| "status_of SlotUnresolved = Unresolved"

text \<open>One slot of \<open>LiveEntityResolver.resolve\<close>; \<open>_is_hebrew\<close> of a value that is not text raises.\<close>

definition resolve_slot ::
    "(pyval \<Rightarrow> pystr) \<Rightarrow> resolver_libs \<Rightarrow> pg_tables option \<Rightarrow> session \<Rightarrow> pyval dict \<Rightarrow> string \<times> string \<Rightarrow>
     resolution \<Rightarrow> pyerr + resolution" where
  "resolve_slot rp libs pg run slots sk res =
     (let slot = lit (fst sk); kind = snd sk in
      case vget slots slot of
        PNone \<Rightarrow> Inr res
      | PStr v \<Rightarrow>
          (let he = (if is_hebrew v then Some v else None);
               en = (if is_hebrew v then None else Some v) in
           case snd (resolve libs (lit kind) [] he en False None (Some run) pg) of
             Inl e \<Rightarrow> Inl e
           | Inr r \<Rightarrow>
               (case (rr_status r, rr_entity_id r) of
                  (SlotResolved, Some u) \<Rightarrow>
                    Inr \<lparr>rn_slot_statuses = dset (rn_slot_statuses res) slot Resolved,
                         rn_resolved_slots = dset (rn_resolved_slots res) slot (PStr (uuid_str u))\<rparr>
                | _ \<Rightarrow>
                    (case fallback_resolve rp run kind v of
                       Inl e \<Rightarrow> Inl e
                     | Inr (Some i) \<Rightarrow>
                         Inr \<lparr>rn_slot_statuses = dset (rn_slot_statuses res) slot Resolved,
                              rn_resolved_slots = dset (rn_resolved_slots res) slot (PStr i)\<rparr>
                     | Inr None \<Rightarrow>
                         Inr (res\<lparr>rn_slot_statuses :=
                           dset (rn_slot_statuses res) slot (status_of (rr_status r))\<rparr>))))
      | _ \<Rightarrow> Inl TypeError)"

fun resolve_slots ::
    "(string \<times> string \<Rightarrow> resolution \<Rightarrow> pyerr + resolution) \<Rightarrow> (string \<times> string) list \<Rightarrow> resolution \<Rightarrow>
     pyerr + resolution" where
  "resolve_slots f [] res = Inr res"
| "resolve_slots f (sk # sks) res =
     (case f sk res of Inl e \<Rightarrow> Inl e | Inr res' \<Rightarrow> resolve_slots f sks res')"

definition live_resolve ::
    "(pyval \<Rightarrow> pystr) \<Rightarrow> resolver_libs \<Rightarrow> pg_tables option \<Rightarrow> (pyerr + session) \<Rightarrow> decomposed_claim \<Rightarrow>
     pyerr + resolution" where
  "live_resolve rp libs pg open_session claim =
     (case open_session of
        Inl e \<Rightarrow> Inl e
      | Inr run \<Rightarrow>
          resolve_slots (resolve_slot rp libs pg run (dc_slots claim)) SLOT_TO_KIND
            \<lparr>rn_slot_statuses = [], rn_resolved_slots = dc_slots claim\<rparr>)"

section \<open>The pipeline\<close>

record pipeline =
  pl_graph :: "(pystr \<Rightarrow> pyval dict \<Rightarrow> pyerr + graph_evidence list) option"
  pl_lexical :: "(pystr \<Rightarrow> pyerr + lexical_evidence list) option"
  pl_resolver :: "(decomposed_claim \<Rightarrow> pyerr + resolution) option"
  pl_default_language :: language
  pl_review :: "(nat \<Rightarrow> env) option"

definition offline_resolution :: "decomposed_claim \<Rightarrow> resolution" where
  "offline_resolution claim =
     \<lparr>rn_slot_statuses = map (\<lambda>(slot, v). (slot, Resolved)) (filter (\<lambda>(slot, v). v \<noteq> PNone) (dc_slots claim)),
      rn_resolved_slots = dc_slots claim\<rparr>"

definition resolve_claim :: "pipeline \<Rightarrow> decomposed_claim \<Rightarrow> resolution" where
  "resolve_claim pl claim =
     (case pl_resolver pl of
        None \<Rightarrow> offline_resolution claim
      | Some resolver \<Rightarrow>
          (case resolver claim of
             Inl _ \<Rightarrow> \<lparr>rn_slot_statuses = [], rn_resolved_slots = dc_slots claim\<rparr>
           | Inr res \<Rightarrow> res))"

fun granularity_name :: "granularity \<Rightarrow> pystr" where
  "granularity_name Day = lit ''day''"
| "granularity_name Month = lit ''month''"
| "granularity_name Year = lit ''year''"
| "granularity_name Term = lit ''term''"
| "granularity_name Unknown = lit ''unknown''"

definition scope_dump :: "time_scope \<Rightarrow> pystr option dict" where
  "scope_dump sc =
     [(lit ''start'', ts_start sc), (lit ''end'', ts_end sc),
      (lit ''granularity'', Some (granularity_name (ts_granularity sc)))]"

definition dsetdefault :: "'v dict \<Rightarrow> pystr \<Rightarrow> 'v \<Rightarrow> 'v dict" where
  "dsetdefault d k v = (if dget d k = None then dset d k v else d)"

definition set_bound :: "string \<Rightarrow> pystr option \<Rightarrow> pyval dict \<Rightarrow> pyval dict" where
  "set_bound k t params =
     (case t of None \<Rightarrow> params | Some s \<Rightarrow> if s = [] then params else dsetdefault params (lit k) (PStr s))"

definition graph_params :: "pyval dict \<Rightarrow> time_scope \<Rightarrow> pyval dict" where
  "graph_params resolved_slots sc =
     set_bound ''time_end'' (ts_end sc) (set_bound ''time_start'' (ts_start sc) resolved_slots)"

definition or_empty :: "pyerr + 'a list \<Rightarrow> 'a list" where
  "or_empty r = (case r of Inl _ \<Rightarrow> [] | Inr xs \<Rightarrow> xs)"

definition retrieve ::
    "(pyval \<Rightarrow> pystr) \<Rightarrow> pipeline \<Rightarrow> decomposed_claim \<Rightarrow> pyval dict \<Rightarrow> time_scope \<Rightarrow> rerank_score list" where
  "retrieve rp pl claim resolved_slots sc =
     (let graph_hits = (case pl_graph pl of
            None \<Rightarrow> [] | Some g \<Rightarrow> or_empty (g (dc_claim_type claim) (graph_params resolved_slots sc)));
          lex_hits = (case pl_lexical pl of
            None \<Rightarrow> [] | Some l \<Rightarrow> or_empty (l (dc_normalized_text claim)))
      in rerank rp (dc_claim_type claim) (scope_dump sc)
           (map (\<lambda>(k, v). (k, py_str rp v)) (filter (\<lambda>(k, v). \<not> blank v) resolved_slots))
           (map Graph graph_hits @ map Lexical lex_hits))"

record claim_run =
  cl_claim :: decomposed_claim
  cl_scope :: time_scope
  cl_checkability :: checkability
  cl_ranked :: "rerank_score list"
  cl_outcome :: verdict_outcome

definition claim_inputs ::
    "(pyval \<Rightarrow> pystr) \<Rightarrow> decomposed_claim \<Rightarrow> resolution \<Rightarrow> checkability \<Rightarrow> rerank_score list \<Rightarrow> verdict_inputs"
where
  "claim_inputs rp claim res check ranked =
     \<lparr>vi_claim_id = dc_claim_id claim, vi_claim_type = dc_claim_type claim, vi_checkability = check,
      vi_ranked_evidence = ranked,
      vi_expected_vote_value = str_val (vget (dc_slots claim) (lit ''vote_value'')),
      vi_expected_seats = parse_int_slot rp (vget (dc_slots claim) (lit ''expected_seats'')),
      vi_expect_passed_threshold =
        parse_expect_passed_threshold rp (vget (dc_slots claim) (lit ''expect_passed_threshold'')),
      vi_government_decision_id =
        str_val (py_or (vget (rn_resolved_slots res) (lit ''government_decision_id''))
          (vget (dc_slots claim) (lit ''government_decision_id'')))\<rparr>"

definition claim_checkability :: "decomposed_claim \<Rightarrow> resolution \<Rightarrow> time_scope \<Rightarrow> checkability" where
  "claim_checkability claim res sc =
     classify \<lparr>ci_claim_type = dc_claim_type claim, ci_slots = dc_slots claim,
       ci_slot_resolver_status = rn_slot_statuses res, ci_time_granularity = ts_granularity sc\<rparr>"

definition run_claim ::
    "(pyval \<Rightarrow> pystr) \<Rightarrow> date \<Rightarrow> pipeline \<Rightarrow> decomposed_claim \<Rightarrow> pyerr + claim_run" where
  "run_claim rp today pl claim =
     (let res = resolve_claim pl claim in
      case normalize_time_scope today (str_val (dc_time_phrase claim)) None of
        Inl e \<Rightarrow> Inl e
      | Inr sc \<Rightarrow>
          (let check = claim_checkability claim res sc;
               ranked = retrieve rp pl claim (rn_resolved_slots res) sc in
           case decide_verdict rp (claim_inputs rp claim res check ranked) of
             Inl e \<Rightarrow> Inl e
           | Inr outcome \<Rightarrow>
               Inr \<lparr>cl_claim = claim, cl_scope = sc, cl_checkability = check, cl_ranked = ranked,
                    cl_outcome = outcome\<rparr>))"

fun method_name :: "claim_method \<Rightarrow> pystr" where
  "method_name Rules = lit ''rules''"
| "method_name Llm = lit ''llm''"

definition claim_payload :: "claim_run \<Rightarrow> pyval dict" where
  "claim_payload run =
     (let b = bundle_provenance (cl_outcome run) (cl_ranked run) (dc_claim_id (cl_claim run))
            (dc_claim_type (cl_claim run)) 5 None in
      [(lit ''verdict'', PDict (pb_verdict b)),
       (lit ''top_evidence'', PList (map PDict (pb_top_evidence b))),
       (lit ''uncertainty_note'', of_opt PStr (pb_uncertainty_note b)),
       (lit ''claim'', PDict
         [(lit ''claim_id'', PStr (dc_claim_id (cl_claim run))),
          (lit ''claim_type'', PStr (dc_claim_type (cl_claim run))),
          (lit ''normalized_text'', PStr (dc_normalized_text (cl_claim run))),
          (lit ''slots'', PDict (dc_slots (cl_claim run))),
          (lit ''time_phrase'', dc_time_phrase (cl_claim run)),
          (lit ''time_scope'', PDict (map (\<lambda>(k, v). (k, of_opt PStr v)) (scope_dump (cl_scope run)))),
          (lit ''checkability'', PStr (checkability_name (cl_checkability run))),
          (lit ''method'', PStr (method_name (dc_method (cl_claim run))))])])"

text \<open>The claims in order; claim number \<open>i\<close> opens its conflict task, if any, in environment \<open>i\<close>.\<close>

fun verify_claims ::
    "(pyval \<Rightarrow> pystr) \<Rightarrow> date \<Rightarrow> pipeline \<Rightarrow> nat \<Rightarrow> decomposed_claim list \<Rightarrow> review_db \<Rightarrow>
     review_db \<times> (pyerr + claim_run list)" where
  "verify_claims rp today pl i [] db = (db, Inr [])"
| "verify_claims rp today pl i (c # cs) db =
     (case run_claim rp today pl c of
        Inl e \<Rightarrow> (db, Inl e)
      | Inr run \<Rightarrow>
          (case (case pl_review pl of
                   None \<Rightarrow> (db, Inr None)
                 | Some envs \<Rightarrow>
                     maybe_open_conflict_task (envs i) (dc_claim_id c) (cl_outcome run) (cl_ranked run) db) of
             (db', Inl e) \<Rightarrow> (db', Inl e)
           | (db', Inr _) \<Rightarrow>
               (case verify_claims rp today pl (Suc i) cs db' of
                  (db'', Inl e) \<Rightarrow> (db'', Inl e)
                | (db'', Inr runs) \<Rightarrow> (db'', Inr (run # runs)))))"

definition verify_runs ::
    "(pyval \<Rightarrow> pystr) \<Rightarrow> (nat \<Rightarrow> pystr) \<Rightarrow> nat \<Rightarrow> date \<Rightarrow> pipeline \<Rightarrow> pystr \<Rightarrow> language option \<Rightarrow> review_db \<Rightarrow>
     review_db \<times> (pyerr + claim_run list)" where
  "verify_runs rp uuid4 n today pl statement lang db =
     (case decompose uuid4 n statement (case lang of None \<Rightarrow> pl_default_language pl | Some l \<Rightarrow> l) None of
        Inl e \<Rightarrow> (db, Inl e)
      | Inr (n', result) \<Rightarrow> verify_claims rp today pl 0 (dr_claims result) db)"

definition verify ::
    "(pyval \<Rightarrow> pystr) \<Rightarrow> (nat \<Rightarrow> pystr) \<Rightarrow> nat \<Rightarrow> date \<Rightarrow> pipeline \<Rightarrow> pystr \<Rightarrow> language option \<Rightarrow> review_db \<Rightarrow>
     review_db \<times> (pyerr + pyval dict list)" where
  "verify rp uuid4 n today pl statement lang db =
     (case verify_runs rp uuid4 n today pl statement lang db of
        (db', Inl e) \<Rightarrow> (db', Inl e)
      | (db', Inr runs) \<Rightarrow> (db', Inr (map claim_payload runs)))"

section \<open>Failing closed\<close>

lemma rules_claims_valid:
  assumes "decompose uuid4 n statement lang None = Inr (n', r)"
  shows "list_all (\<lambda>c. validate_slots (dc_claim_type c) (dc_slots c) = []) (dr_claims r)"
  using decompose_claims_ok [OF assms] by (simp add: list_all_iff claim_valid_def)

text \<open>No graph, no lexical index, or both of them failing on every call.\<close>

definition no_evidence :: "pipeline \<Rightarrow> bool" where
  "no_evidence pl \<longleftrightarrow>
     (\<forall>g ct params. pl_graph pl = Some g \<longrightarrow> or_empty (g ct params) = []) \<and>
     (\<forall>l t. pl_lexical pl = Some l \<longrightarrow> or_empty (l t) = [])"

lemma retrieve_nothing: "no_evidence pl \<Longrightarrow> retrieve rp pl claim slots sc = []"
  by (auto simp: retrieve_def no_evidence_def Let_def rerank_def distinct_docs_def split: option.split)

lemma run_claim_nothing:
  assumes "no_evidence pl"
  obtains run where "run_claim rp today pl c = Inr run" "cl_claim run = c"
    "vo_status (cl_outcome run) \<in> {NonCheckableVerdict, InsufficientEvidence}" "cl_ranked run = []"
proof -
  obtain sc where sc: "normalize_time_scope today (str_val (dc_time_phrase c)) None = Inr sc"
    using normalize_time_scope_ok by blast
  let ?check = "claim_checkability c (resolve_claim pl c) sc"
  obtain out where out: "decide_verdict rp (claim_inputs rp c (resolve_claim pl c) ?check []) = Inr out"
    "vo_status out \<in> {NonCheckableVerdict, InsufficientEvidence}"
    by (cases "?check = Checkable") (auto simp: decide_verdict_def claim_inputs_def)
  then show ?thesis
    by (intro that [of "\<lparr>cl_claim = c, cl_scope = sc, cl_checkability = ?check, cl_ranked = [],
        cl_outcome = out\<rparr>"]) (simp_all add: run_claim_def sc retrieve_nothing [OF assms])
qed

lemma verify_claims_nothing:
  assumes "no_evidence pl"
  shows "\<exists>runs. verify_claims rp today pl i cs db = (db, Inr runs) \<and> map cl_claim runs = cs \<and>
    list_all (\<lambda>run. vo_status (cl_outcome run) \<in> {NonCheckableVerdict, InsufficientEvidence}) runs"
proof (induction cs arbitrary: i)
  case (Cons c cs)
  obtain run where run: "run_claim rp today pl c = Inr run" "cl_claim run = c"
    "vo_status (cl_outcome run) \<in> {NonCheckableVerdict, InsufficientEvidence}"
    using run_claim_nothing [OF assms] by metis
  have "vo_status (cl_outcome run) \<noteq> Mixed" using run(3) by auto
  then have "(case pl_review pl of None \<Rightarrow> (db, Inr None)
      | Some envs \<Rightarrow> maybe_open_conflict_task (envs i) (dc_claim_id c) (cl_outcome run) (cl_ranked run) db) =
      (db, Inr None)"
    by (simp add: maybe_open_conflict_task_def split: option.split)
  then show ?case using run Cons.IH [of "Suc i"] by auto
qed simp

text \<open>
  Claim C17. The pipeline fails closed: when retrieval is missing or fails on every call, \<open>verify\<close> still
  returns, one bundle per claim of the decomposition in order, never with a supported,
  contradicted or mixed verdict, and the review tables are untouched; whatever the entity
  resolver does or raises.
\<close>

theorem verify_fails_closed:
  assumes "no_evidence pl"
  shows "\<exists>n' r runs. decompose uuid4 n statement (case lang of None \<Rightarrow> pl_default_language pl | Some l \<Rightarrow> l) None =
      Inr (n', r) \<and>
    verify rp uuid4 n today pl statement lang db = (db, Inr (map claim_payload runs)) \<and>
    map cl_claim runs = dr_claims r \<and>
    list_all (\<lambda>run. vo_status (cl_outcome run) \<in> {NonCheckableVerdict, InsufficientEvidence}) runs"
proof -
  let ?lang = "case lang of None \<Rightarrow> pl_default_language pl | Some l \<Rightarrow> l"
  obtain n' r where d: "decompose uuid4 n statement ?lang None = Inr (n', r)"
    using decompose_no_llm by blast
  obtain runs where "verify_claims rp today pl 0 (dr_claims r) db = (db, Inr runs)"
    "map cl_claim runs = dr_claims r"
    "list_all (\<lambda>run. vo_status (cl_outcome run) \<in> {NonCheckableVerdict, InsufficientEvidence}) runs"
    using verify_claims_nothing [OF assms] by metis
  then show ?thesis using d by (auto simp: verify_def verify_runs_def)
qed

definition broken_pipeline :: pipeline where
  "broken_pipeline = \<lparr>pl_graph = Some (\<lambda>ct params. Inl RuntimeError), pl_lexical = Some (\<lambda>t. Inl RuntimeError),
     pl_resolver = Some (\<lambda>c. Inl RuntimeError), pl_default_language = EN, pl_review = None\<rparr>"

lemma verify_fails_closed_witness:
  "\<exists>runs. verify no_repr (\<lambda>i. lit ''u'') 0 (2024, 1, 1) broken_pipeline [] None empty_db =
     (empty_db, Inr (map claim_payload runs))"
proof -
  have "no_evidence broken_pipeline" by (simp add: no_evidence_def broken_pipeline_def or_empty_def)
  from verify_fails_closed [OF this] show ?thesis by blast
qed

section \<open>Government decisions are never resolved\<close>

lemma label_of_decision: "label_of (lit ''government_decision'') = None"
  by (simp add: label_of_def LABEL_BY_KIND_def)

lemma resolve_slots_fail:
  "sk \<in> set sks \<Longrightarrow> (\<And>res. \<exists>e. f sk res = Inl e) \<Longrightarrow> \<exists>e. resolve_slots f sks res = Inl e"
proof (induction sks arbitrary: res)
  case (Cons x sks)
  show ?case
  proof (cases "f x res")
    case (Inr res')
    then have "x \<noteq> sk" using Cons.prems(2) by (metis sum.distinct(1))
    then show ?thesis using Inr Cons by simp
  qed simp
qed simp

lemma live_resolve_decision:
  assumes "vget (dc_slots claim) (lit ''government_decision_id'') = PStr v"
  shows "\<exists>e. live_resolve rp libs pg open_session claim = Inl e"
proof (cases open_session)
  case (Inr run)
  have "resolve_slot rp libs pg run (dc_slots claim) (''government_decision_id'', ''government_decision'') res =
      Inl ValueError" for res
    using assms by (simp add: resolve_slot_def resolve_def label_of_decision)
  moreover have "(''government_decision_id'', ''government_decision'') \<in> set SLOT_TO_KIND"
    by (simp add: SLOT_TO_KIND_def)
  ultimately show ?thesis using resolve_slots_fail by (fastforce simp: live_resolve_def Inr)
qed (simp add: live_resolve_def)

text \<open>
  Claim C18. A government-decision claim is never entity-resolved: the live resolver raises on its kind, the
  pipeline swallows the error together with the statuses of every other slot, and the claim is
  classified as checkable although nothing was resolved; the verdict then compares the raw text
  of the slot with the identifiers of the graph.
\<close>

theorem decision_resolution_fails_open:
  assumes "pl_resolver pl = Some (live_resolve rp libs pg open_session)"
    "vget (dc_slots claim) (lit ''government_decision_id'') = PStr v" "v \<noteq> []"
    "dc_claim_type claim = lit ''government_decision''"
    "validate_slots (dc_claim_type claim) (dc_slots claim) = []"
  shows "resolve_claim pl claim = \<lparr>rn_slot_statuses = [], rn_resolved_slots = dc_slots claim\<rparr> \<and>
    claim_checkability claim (resolve_claim pl claim) sc = Checkable \<and>
    vi_government_decision_id (claim_inputs rp claim (resolve_claim pl claim) check ranked) = Some v"
proof -
  have r: "resolve_claim pl claim = \<lparr>rn_slot_statuses = [], rn_resolved_slots = dc_slots claim\<rparr>"
    using live_resolve_decision [OF assms(2), of rp libs pg open_session]
    by (auto simp: resolve_claim_def assms(1))
  have "dc_claim_type claim \<notin> set TIME_REQUIRED_CLAIM_TYPES"
    by (simp add: assms(4) TIME_REQUIRED_CLAIM_TYPES_def)
  then have "claim_checkability claim (resolve_claim pl claim) sc = Checkable"
    using classify_valid_offline [OF assms(5), of "ts_granularity sc"] by (simp add: claim_checkability_def r)
  moreover have "py_or (PStr v) x = PStr v" for x using assms(3) by (simp add: py_or_def)
  ultimately show ?thesis using r assms(2) by (simp add: claim_inputs_def)
qed

definition decision_claim :: decomposed_claim where
  "decision_claim = \<lparr>dc_claim_id = lit ''u'', dc_raw_text = lit ''d'', dc_normalized_text = lit ''d'',
     dc_claim_type = lit ''government_decision'',
     dc_slots = [(lit ''government_decision_id'', PLit ''550''), (lit ''speaker_person_id'', PNone)],
     dc_time_phrase = PNone, dc_method = Rules, dc_source_rule = None\<rparr>"

definition live_pipeline :: pipeline where
  "live_pipeline = \<lparr>pl_graph = None, pl_lexical = None,
     pl_resolver = Some (live_resolve no_repr sample_libs None (Inr two_people)),
     pl_default_language = HE, pl_review = None\<rparr>"

lemma decision_resolution_fails_open_witness:
  "claim_checkability decision_claim (resolve_claim live_pipeline decision_claim) unknown_scope = Checkable"
proof -
  have r: "pl_resolver live_pipeline = Some (live_resolve no_repr sample_libs None (Inr two_people))"
    by (simp add: live_pipeline_def)
  have s: "vget (dc_slots decision_claim) (lit ''government_decision_id'') = PStr (lit ''550'')"
    and ne: "lit ''550'' \<noteq> []" and t: "dc_claim_type decision_claim = lit ''government_decision''"
    by (simp_all add: decision_claim_def)
  have v: "validate_slots (dc_claim_type decision_claim) (dc_slots decision_claim) = []"
    by (simp add: decision_claim_def validate_slots_def SLOT_TEMPLATES_def mk_template_def forbidden_def
        ALL_SLOTS_def empty_slot_def)
  from decision_resolution_fails_open [OF r s ne t v] show ?thesis by blast
qed

end
