(* ===== verification/Attribution.thy ===== *)
theory Attribution
  imports Pipeline
begin

text \<open>
  The second stage of declaration verification in
  \<open>services/verification/src/civic_verification/\<close>: \<open>relation_rules.py\<close>, \<open>attribution_judge.py\<close>
  and \<open>declaration_verifier.py\<close>, with the edge model of \<open>civic_ontology/models/attribution.py\<close>
  and the endpoints of \<open>apps/api/src/api/routers/declarations.py\<close>.

  UUIDs are their canonical texts. The bundles are the JSON values the pipeline produces.
\<close>

section \<open>Relation rules\<close>

datatype relation_type =
    SupportedBy
  | ContradictedBy
  | Overstates
  | Underspecifies
  | TimeScopeMismatch
  | EntityAmbiguous
  | NotCheckableAgainstRecord

definition VERDICT_TO_RELATION :: "(string \<times> relation_type) list" where
  "VERDICT_TO_RELATION =
     [(''supported'', SupportedBy), (''contradicted'', ContradictedBy), (''mixed'', Overstates),
      (''insufficient_evidence'', NotCheckableAgainstRecord), (''non_checkable'', NotCheckableAgainstRecord)]"

definition RELATION_PRIORITY :: "relation_type list" where
  "RELATION_PRIORITY =
     [ContradictedBy, EntityAmbiguous, TimeScopeMismatch, NotCheckableAgainstRecord, Overstates,
      Underspecifies, SupportedBy]"

definition base_relation :: "pystr \<Rightarrow> relation_type" where
  "base_relation status =
     (case find (\<lambda>(s, _). lit s = status) VERDICT_TO_RELATION of
        None \<Rightarrow> NotCheckableAgainstRecord
      | Some (_, r) \<Rightarrow> r)"

definition time_scope_reason :: "pyval dict \<Rightarrow> bool" where
  "time_scope_reason reason =
     (case vget reason (lit ''reason'') of PStr r \<Rightarrow> py_contains (lit ''time_scope'') r | _ \<Rightarrow> False)"

definition determine_relation :: "pystr \<Rightarrow> pystr \<Rightarrow> pyval dict list \<Rightarrow> nat \<Rightarrow> relation_type" where
  "determine_relation verdict_status checkability reasons lexical_hits =
     (if verdict_status = lit ''non_checkable'' \<and> checkability = lit ''insufficient_entity_resolution''
      then EntityAmbiguous
      else if verdict_status = lit ''non_checkable'' \<and> checkability = lit ''insufficient_time_scope''
      then TimeScopeMismatch
      else if verdict_status = lit ''contradicted'' \<and> list_ex time_scope_reason reasons
      then TimeScopeMismatch
      else if verdict_status = lit ''mixed'' \<and> lexical_hits = 1 then Underspecifies
      else base_relation verdict_status)"

datatype confidence_band = High | Medium | Low | Uncertain

definition determine_confidence_band :: "rat \<Rightarrow> confidence_band" where
  "determine_confidence_band overall =
     (if overall \<ge> 8 / 10 then High else if overall \<ge> 6 / 10 then Medium
      else if overall \<ge> 45 / 100 then Low else Uncertain)"

fun priority_index :: "relation_type list \<Rightarrow> relation_type \<Rightarrow> nat option" where
  "priority_index [] r = None"
| "priority_index (x # xs) r = (if x = r then Some 0 else map_option Suc (priority_index xs r))"

definition worse :: "(nat \<times> relation_type) option \<Rightarrow> relation_type \<Rightarrow> (nat \<times> relation_type) option" where
  "worse best r =
     (case priority_index RELATION_PRIORITY r of
        None \<Rightarrow> best
      | Some idx \<Rightarrow>
          (case best of
             None \<Rightarrow> Some (idx, r)
           | Some (best_idx, _) \<Rightarrow> if idx < best_idx then Some (idx, r) else best))"

definition worst_relation :: "relation_type list \<Rightarrow> relation_type" where
  "worst_relation rels =
     (if rels = [] then NotCheckableAgainstRecord
      else case foldl worse None rels of
             None \<Rightarrow> NotCheckableAgainstRecord
           | Some (_, r) \<Rightarrow> r)"

section \<open>Attribution edges\<close>

datatype to_object_type = VoteEvent | BillObject | PositionTerm | GovernmentDecision | ElectionResult | AtomicClaim

definition CLAIM_TYPE_TO_OBJECT_TYPE :: "(string \<times> to_object_type) list" where
  "CLAIM_TYPE_TO_OBJECT_TYPE =
     [(''vote_cast'', VoteEvent), (''bill_sponsorship'', BillObject), (''office_held'', PositionTerm),
      (''committee_membership'', AtomicClaim), (''committee_attendance'', AtomicClaim),
      (''election_result'', ElectionResult), (''statement_about_formal_action'', AtomicClaim)]"

definition determine_to_object_type :: "pystr \<Rightarrow> to_object_type" where
  "determine_to_object_type claim_type =
     (case find (\<lambda>(s, _). lit s = claim_type) CLAIM_TYPE_TO_OBJECT_TYPE of
        None \<Rightarrow> AtomicClaim
      | Some (_, t) \<Rightarrow> t)"

definition key_chain :: "pystr \<Rightarrow> string list" where
  "key_chain claim_type =
     (if claim_type = lit ''vote_cast'' then [''vote_event_id'']
      else if claim_type = lit ''bill_sponsorship'' then [''bill_id'']
      else if claim_type = lit ''office_held'' then [''position_term_id'', ''office_id'']
      else if claim_type = lit ''election_result'' then [''election_result_id'']
      else [])"

text \<open>\<open>UUID(str(raw))\<close>, whose only error is the \<open>ValueError\<close> the callers catch.\<close>

definition uuid_text :: "(pyval \<Rightarrow> pystr) \<Rightarrow> pyval \<Rightarrow> pystr option" where
  "uuid_text rp raw = (case parse_uuid (py_str rp raw) of Inl _ \<Rightarrow> None | Inr u \<Rightarrow> Some (uuid_str u))"

fun first_key :: "(pyval \<Rightarrow> pystr) \<Rightarrow> pyval dict \<Rightarrow> string list \<Rightarrow> pystr option" where
  "first_key rp node_ids [] = None"
| "first_key rp node_ids (k # ks) =
     (let raw = vget node_ids (lit k) in
      if blank raw then first_key rp node_ids ks
      else (case uuid_text rp raw of None \<Rightarrow> first_key rp node_ids ks | Some u \<Rightarrow> Some u))"

fun extract_to_object_id ::
    "(pyval \<Rightarrow> pystr) \<Rightarrow> pystr \<Rightarrow> pyval dict list \<Rightarrow> pystr \<Rightarrow> pystr" where
  "extract_to_object_id rp claim_type [] fallback_claim_id = fallback_claim_id"
| "extract_to_object_id rp claim_type (ev # evs) fallback_claim_id =
     (if vget ev (lit ''kind'') \<noteq> PLit ''graph'' \<or> vget ev (lit ''claim_type'') \<noteq> PStr claim_type
      then extract_to_object_id rp claim_type evs fallback_claim_id
      else
        (case vget ev (lit ''node_ids'') of
           PDict node_ids \<Rightarrow>
             (case first_key rp node_ids (key_chain claim_type) of
                Some u \<Rightarrow> u
              | None \<Rightarrow> extract_to_object_id rp claim_type evs fallback_claim_id)
         | _ \<Rightarrow> extract_to_object_id rp claim_type evs fallback_claim_id))"

definition push :: "(pyval \<Rightarrow> pystr) \<Rightarrow> pyval \<Rightarrow> pystr list \<Rightarrow> pystr list" where
  "push rp raw out =
     (case uuid_text rp raw of
        None \<Rightarrow> out
      | Some u \<Rightarrow> if u \<in> set out then out else out @ [u])"

definition push_present :: "(pyval \<Rightarrow> pystr) \<Rightarrow> pyval \<Rightarrow> pystr list \<Rightarrow> pystr list" where
  "push_present rp raw out = (if raw = PNone then out else push rp raw out)"

definition node_spans :: "(pyval \<Rightarrow> pystr) \<Rightarrow> pyval dict \<Rightarrow> pystr list \<Rightarrow> pystr list" where
  "node_spans rp node_ids out =
     (let out1 = push_present rp (vget node_ids (lit ''span_id'')) out in
      case vget node_ids (lit ''span_ids'') of
        PList items \<Rightarrow> fold (push rp) items out1
      | sids \<Rightarrow> push_present rp sids out1)"

definition evidence_spans :: "(pyval \<Rightarrow> pystr) \<Rightarrow> pyval dict \<Rightarrow> pystr list \<Rightarrow> pystr list" where
  "evidence_spans rp ev out =
     (let out1 = (case vget ev (lit ''node_ids'') of PDict node_ids \<Rightarrow> node_spans rp node_ids out | _ \<Rightarrow> out) in
      if vget ev (lit ''kind'') = PLit ''lexical'' then push_present rp (vget ev (lit ''span_id'')) out1
      else out1)"

definition extract_evidence_span_ids :: "(pyval \<Rightarrow> pystr) \<Rightarrow> pyval dict list \<Rightarrow> pystr list" where
  "extract_evidence_span_ids rp top_evidence = fold (evidence_spans rp) top_evidence []"

datatype review_status = Pending | Confirmed | Rejected | NeedsHumanReview

record attribution_edge =
  ae_attribution_id :: pystr
  ae_from_declaration_id :: pystr
  ae_to_object_id :: pystr
  ae_to_object_type :: to_object_type
  ae_relation_type :: relation_type
  ae_evidence_span_ids :: "pystr list"
  ae_confidence_band :: confidence_band
  ae_review_status :: review_status
  ae_created_at :: pystr

definition build_attribution_edge ::
    "(pyval \<Rightarrow> pystr) \<Rightarrow> pystr \<Rightarrow> pystr \<Rightarrow> pystr \<Rightarrow> pystr \<Rightarrow> pystr \<Rightarrow> pystr \<Rightarrow> pystr \<Rightarrow> rat \<Rightarrow> pyval dict list \<Rightarrow>
     pyval dict list \<Rightarrow> nat \<Rightarrow> bool \<Rightarrow> attribution_edge" where
  "build_attribution_edge rp uid now declaration_id claim_id claim_type verdict_status checkability
     confidence_overall top_evidence reasons lexical_hits needs_human_review =
     \<lparr>ae_attribution_id = uid, ae_from_declaration_id = declaration_id,
      ae_to_object_id = extract_to_object_id rp claim_type top_evidence claim_id,
      ae_to_object_type = determine_to_object_type claim_type,
      ae_relation_type = determine_relation verdict_status checkability reasons lexical_hits,
      ae_evidence_span_ids = extract_evidence_span_ids rp top_evidence,
      ae_confidence_band = determine_confidence_band confidence_overall,
      ae_review_status = (if needs_human_review then NeedsHumanReview else Pending),
      ae_created_at = now\<rparr>"

section \<open>The declaration verifier\<close>

definition sub_dict :: "pyval \<Rightarrow> pyval dict" where
  "sub_dict v = (case v of PDict d \<Rightarrow> d | _ \<Rightarrow> [])"

definition dicts :: "pyval \<Rightarrow> pyval dict list" where
  "dicts v = (case v of PList xs \<Rightarrow> map sub_dict xs | _ \<Rightarrow> [])"

definition float_of :: "pyval \<Rightarrow> rat" where
  "float_of v = (case v of PFloat x \<Rightarrow> x | PInt i \<Rightarrow> of_int i | _ \<Rightarrow> 0)"

definition edge_of_bundle ::
    "(pyval \<Rightarrow> pystr) \<Rightarrow> pystr \<Rightarrow> pystr \<Rightarrow> pystr \<Rightarrow> decomposed_claim \<Rightarrow> pyval dict \<Rightarrow> attribution_edge" where
  "edge_of_bundle rp uid now declaration_id claim bundle =
     (let verdict = sub_dict (vget bundle (lit ''verdict''));
          top_evidence = dicts (vget bundle (lit ''top_evidence''))
      in build_attribution_edge rp uid now declaration_id (dc_claim_id claim) (dc_claim_type claim)
           (py_str rp (vget verdict (lit ''status'')))
           (py_str rp (vget (sub_dict (vget bundle (lit ''claim''))) (lit ''checkability'')))
           (float_of (vget (sub_dict (vget verdict (lit ''confidence''))) (lit ''overall'')))
           top_evidence (dicts (vget verdict (lit ''reasons'')))
           (length (filter (\<lambda>e. vget e (lit ''kind'') = PLit ''lexical'') top_evidence))
           (truthy (vget verdict (lit ''needs_human_review''))))"

fun edges_of ::
    "(pyval \<Rightarrow> pystr) \<Rightarrow> (nat \<Rightarrow> pystr) \<Rightarrow> nat \<Rightarrow> pystr \<Rightarrow> pystr \<Rightarrow> (decomposed_claim \<times> pyval dict) list \<Rightarrow>
     attribution_edge list" where
  "edges_of rp uid i now declaration_id [] = []"
| "edges_of rp uid i now declaration_id ((c, b) # rest) =
     edge_of_bundle rp (uid i) now declaration_id c b # edges_of rp uid (Suc i) now declaration_id rest"

definition REVIEW_TRIGGER_RELATIONS :: "relation_type set" where
  "REVIEW_TRIGGER_RELATIONS =
     {Overstates, Underspecifies, TimeScopeMismatch, EntityAmbiguous, ContradictedBy}"

fun relation_name :: "relation_type \<Rightarrow> string" where
  "relation_name SupportedBy = ''supported_by''"
| "relation_name ContradictedBy = ''contradicted_by''"
| "relation_name Overstates = ''overstates''"
| "relation_name Underspecifies = ''underspecifies''"
| "relation_name TimeScopeMismatch = ''time_scope_mismatch''"
| "relation_name EntityAmbiguous = ''entity_ambiguous''"
| "relation_name NotCheckableAgainstRecord = ''not_checkable_against_record''"

fun band_name :: "confidence_band \<Rightarrow> string" where
  "band_name High = ''high''"
| "band_name Medium = ''medium''"
| "band_name Low = ''low''"
| "band_name Uncertain = ''uncertain''"

fun object_name :: "to_object_type \<Rightarrow> string" where
  "object_name VoteEvent = ''VoteEvent''"
| "object_name BillObject = ''Bill''"
| "object_name PositionTerm = ''PositionTerm''"
| "object_name GovernmentDecision = ''GovernmentDecision''"
| "object_name ElectionResult = ''ElectionResult''"
| "object_name AtomicClaim = ''AtomicClaim''"

fun review_status_name :: "review_status \<Rightarrow> string" where
  "review_status_name Pending = ''pending''"
| "review_status_name Confirmed = ''confirmed''"
| "review_status_name Rejected = ''rejected''"
| "review_status_name NeedsHumanReview = ''needs_human_review''"

definition edge_json :: "attribution_edge \<Rightarrow> pyval" where
  "edge_json e =
     obj [(''attribution_id'', PStr (ae_attribution_id e)),
          (''from_declaration_id'', PStr (ae_from_declaration_id e)),
          (''to_object_id'', PStr (ae_to_object_id e)),
          (''to_object_type'', PLit (object_name (ae_to_object_type e))),
          (''relation_type'', PLit (relation_name (ae_relation_type e))),
          (''evidence_span_ids'', PList (map PStr (ae_evidence_span_ids e))),
          (''confidence_band'', PLit (band_name (ae_confidence_band e))),
          (''review_status'', PLit (review_status_name (ae_review_status e))),
          (''created_at'', PStr (ae_created_at e))]"

definition build_review_payload ::
    "pystr \<Rightarrow> relation_type \<Rightarrow> attribution_edge list \<Rightarrow> pystr list \<Rightarrow> pystr \<Rightarrow> pyval dict" where
  "build_review_payload declaration_id overall edges derived_claim_ids utterance_text =
     [(lit ''declaration_id'', PStr declaration_id),
      (lit ''overall_relation'', PLit (relation_name overall)),
      (lit ''attribution_edges'', PList (map edge_json edges)),
      (lit ''derived_claim_ids'', PList (map PStr derived_claim_ids)),
      (lit ''utterance_text'', PStr (take 500 utterance_text))]"

record declaration_verification =
  dv_declaration :: declared
  dv_claims :: "decomposed_claim list"
  dv_claim_verdicts :: "pyval dict list"
  dv_attribution_edges :: "attribution_edge list"
  dv_overall_relation :: relation_type

text \<open>What the verifier draws from its surroundings: identifiers, the clock, today, and the review connection.\<close>

record verifier_env =
  ve_uuid4 :: "nat \<Rightarrow> pystr"
  ve_edge_id :: "nat \<Rightarrow> pystr"
  ve_now :: pystr
  ve_today :: date
  ve_review :: "env option"

definition verify_declaration_result ::
    "(pyval \<Rightarrow> pystr) \<Rightarrow> verifier_env \<Rightarrow> pipeline \<Rightarrow> declaration_result \<Rightarrow> language \<Rightarrow> review_db \<Rightarrow>
     review_db \<times> (pyerr + declaration_verification)" where
  "verify_declaration_result rp ve pl d lang db =
     (let decl = ddr_declaration d; claims = ddr_claims d in
      case verify rp (ve_uuid4 ve) 0 (ve_today ve) pl (dl_utterance_text decl) (Some lang) db of
        (db1, Inl e) \<Rightarrow> (db1, Inl e)
      | (db1, Inr bundles) \<Rightarrow>
          (let pairs = zip claims bundles;
               edges = edges_of rp (ve_edge_id ve) 0 (ve_now ve) (dl_declaration_id decl) pairs;
               overall = worst_relation (map ae_relation_type edges);
               db2 = (case ve_review ve of
                   None \<Rightarrow> db1
                 | Some env \<Rightarrow>
                     if overall \<in> REVIEW_TRIGGER_RELATIONS
                     then fst (open_review_task env (lit ''declaration'')
                            (build_review_payload (dl_declaration_id decl) overall edges
                              (dl_derived_atomic_claim_ids decl) (dl_utterance_text decl)) 1 db1)
                     else db1)
           in (db2, Inr \<lparr>dv_declaration = decl, dv_claims = claims, dv_claim_verdicts = map snd pairs,
                        dv_attribution_edges = edges, dv_overall_relation = overall\<rparr>)))"

section \<open>The declaration endpoints\<close>

type_synonym declaration_cache = "declaration_result dict"

definition ingest_declaration ::
    "(nat \<Rightarrow> pystr) \<Rightarrow> nat \<Rightarrow> date \<Rightarrow> pystr \<Rightarrow> pystr \<Rightarrow> language \<Rightarrow> pystr \<Rightarrow> pystr \<Rightarrow> declaration_cache \<Rightarrow>
     declaration_cache \<times> (pyerr + declaration_result)" where
  "ingest_declaration uuid4 n today now text lang source_document_id source_kind cache =
     (case declaration_decompose uuid4 n today now None text lang
        \<lparr>um_source_document_id = source_document_id, um_source_kind = source_kind,
         um_speaker_person_id = None, um_utterance_time = None, um_quoted_span = None,
         um_canonicalized_text = None\<rparr> of
        Inl e \<Rightarrow> (cache, Inl e)
      | Inr (n', d) \<Rightarrow> (dset cache (dl_declaration_id (ddr_declaration d)) d, Inr d))"

definition get_declaration :: "pystr \<Rightarrow> declaration_cache \<Rightarrow> pyerr + declaration_result" where
  "get_declaration declaration_id cache =
     (case dget cache declaration_id of None \<Rightarrow> Inl (HTTPException 404) | Some d \<Rightarrow> Inr d)"

definition verify_declaration ::
    "(pyval \<Rightarrow> pystr) \<Rightarrow> verifier_env \<Rightarrow> pipeline \<Rightarrow> pystr \<Rightarrow> language \<Rightarrow> declaration_cache \<Rightarrow> review_db \<Rightarrow>
     review_db \<times> (pyerr + declaration_verification)" where
  "verify_declaration rp ve pl declaration_id lang cache db =
     (case get_declaration declaration_id cache of
        Inl e \<Rightarrow> (db, Inl e)
      | Inr d \<Rightarrow> verify_declaration_result rp ve pl d lang db)"

section \<open>The worst relation\<close>

definition rank_of :: "relation_type \<Rightarrow> nat" where
  "rank_of r = (case priority_index RELATION_PRIORITY r of None \<Rightarrow> 7 | Some i \<Rightarrow> i)"

lemma priority_simps [simp]:
  "priority_index RELATION_PRIORITY r = Some (rank_of r)"
  by (cases r) (simp_all add: rank_of_def RELATION_PRIORITY_def)

lemma rank_inj: "rank_of r = rank_of s \<Longrightarrow> r = s"
  by (cases r; cases s) (simp_all add: rank_of_def RELATION_PRIORITY_def)

lemma fold_worse:
  assumes "best = None \<or> (\<exists>r. best = Some (rank_of r, r))"
  shows "(rels = [] \<and> foldl worse best rels = best) \<or>
    (\<exists>w. foldl worse best rels = Some (rank_of w, w) \<and>
       (w \<in> set rels \<or> best = Some (rank_of w, w)) \<and>
       list_all (\<lambda>r. rank_of w \<le> rank_of r) rels \<and>
       (\<forall>b. best = Some (rank_of b, b) \<longrightarrow> rank_of w \<le> rank_of b))"
  using assms
proof (induction rels arbitrary: best)
  case (Cons r rels)
  have "worse best r = None \<or> (\<exists>x. worse best r = Some (rank_of x, x))"
    using Cons.prems by (auto simp: worse_def split: option.splits)
  from Cons.IH [OF this] show ?case using Cons.prems
    by (auto simp: worse_def split: option.splits if_splits)
qed simp

lemma worst_relation_least:
  assumes "rels \<noteq> []"
  shows "worst_relation rels \<in> set rels \<and> list_all (\<lambda>r. rank_of (worst_relation rels) \<le> rank_of r) rels"
  using fold_worse [of None rels] assms by (auto simp: worst_relation_def)

lemma base_supported: "base_relation st = SupportedBy \<longleftrightarrow> st = lit ''supported''"
  by (auto simp: base_relation_def VERDICT_TO_RELATION_def)

lemma determine_supported: "determine_relation st ck reasons hits = SupportedBy \<longleftrightarrow> st = lit ''supported''"
  by (auto simp: determine_relation_def base_supported)

definition bundle_status :: "pyval dict \<Rightarrow> pyval" where
  "bundle_status b = vget (sub_dict (vget b (lit ''verdict''))) (lit ''status'')"

lemma payload_status: "bundle_status (claim_payload run) = PStr (status_name (vo_status (cl_outcome run)))"
  using bundle_verdict_status(1) by (simp add: bundle_status_def claim_payload_def Let_def sub_dict_def)

lemma edges_supported:
  assumes "list_all (\<lambda>(c, b). \<exists>s. bundle_status b = PStr s) pairs"
  shows "length (edges_of rp uid i now did pairs) = length pairs"
    "list_all (\<lambda>e. ae_relation_type e = SupportedBy) (edges_of rp uid i now did pairs) \<longleftrightarrow>
     list_all (\<lambda>(c, b). bundle_status b = PLit ''supported'') pairs"
  using assms
  by (induction rp uid i now did pairs rule: edges_of.induct)
    (auto simp: edge_of_bundle_def Let_def build_attribution_edge_def determine_supported bundle_status_def)

lemma verify_payloads:
  assumes "verify rp uuid4 n today pl text lang db = (db', Inr bundles)"
  obtains runs where "bundles = map claim_payload runs"
    "verify_runs rp uuid4 n today pl text lang db = (db', Inr runs)"
  using assms by (auto simp: verify_def split: prod.splits sum.splits)

lemma verify_result_elim:
  assumes "verify_declaration_result rp ve pl d lang db = (db', Inr res)"
  obtains db1 runs where
    "verify rp (ve_uuid4 ve) 0 (ve_today ve) pl (dl_utterance_text (ddr_declaration d)) (Some lang) db =
      (db1, Inr (map claim_payload runs))"
    "verify_runs rp (ve_uuid4 ve) 0 (ve_today ve) pl (dl_utterance_text (ddr_declaration d)) (Some lang) db =
      (db1, Inr runs)"
    "dv_claim_verdicts res = map snd (zip (ddr_claims d) (map claim_payload runs))"
    "dv_attribution_edges res = edges_of rp (ve_edge_id ve) 0 (ve_now ve)
       (dl_declaration_id (ddr_declaration d)) (zip (ddr_claims d) (map claim_payload runs))"
    "dv_overall_relation res = worst_relation (map ae_relation_type (dv_attribution_edges res))"
    "db' = db1"
proof -
  obtain db1 bundles where v: "verify rp (ve_uuid4 ve) 0 (ve_today ve) pl
      (dl_utterance_text (ddr_declaration d)) (Some lang) db = (db1, Inr bundles)"
    using assms by (auto simp: verify_declaration_result_def Let_def split: prod.splits sum.splits)
  obtain runs where r: "bundles = map claim_payload runs"
    "verify_runs rp (ve_uuid4 ve) 0 (ve_today ve) pl (dl_utterance_text (ddr_declaration d)) (Some lang) db =
      (db1, Inr runs)" using verify_payloads [OF v] by metis
  have "fst (open_review_task env (lit ''declaration'') p k db1) = db1" for env p k
    by (simp add: open_review_task_def review_kind_check_def)
  then have "db' = db1"
    using assms v by (auto simp: verify_declaration_result_def Let_def split: option.splits if_splits)
  then show ?thesis
    using that [of db1 runs] assms v r by (auto simp: verify_declaration_result_def Let_def)
qed

text \<open>
  Claim C19. A declaration is reported as supported by the record exactly when it has at least one paired
  claim verdict and every one of them is \<open>supported\<close>; there is one attribution edge per paired
  verdict, and the overall relation is the worst of their relations.
\<close>

theorem declaration_supported_iff:
  assumes "verify_declaration_result rp ve pl d lang db = (db', Inr res)"
  shows "(dv_overall_relation res = SupportedBy \<longleftrightarrow>
      dv_claim_verdicts res \<noteq> [] \<and> list_all (\<lambda>b. bundle_status b = PLit ''supported'') (dv_claim_verdicts res)) \<and>
    length (dv_attribution_edges res) = length (dv_claim_verdicts res) \<and>
    list_all (\<lambda>e. rank_of (dv_overall_relation res) \<le> rank_of (ae_relation_type e)) (dv_attribution_edges res)"
proof -
  obtain runs where e: "dv_claim_verdicts res = map snd (zip (ddr_claims d) (map claim_payload runs))"
    "dv_attribution_edges res = edges_of rp (ve_edge_id ve) 0 (ve_now ve)
       (dl_declaration_id (ddr_declaration d)) (zip (ddr_claims d) (map claim_payload runs))"
    "dv_overall_relation res = worst_relation (map ae_relation_type (dv_attribution_edges res))"
    using verify_result_elim [OF assms] by metis
  let ?pairs = "zip (ddr_claims d) (map claim_payload runs)" and ?rels = "map ae_relation_type (dv_attribution_edges res)"
  have "list_all (\<lambda>(c, b). \<exists>s. bundle_status b = PStr s) ?pairs"
    by (auto simp: list_all_iff payload_status dest!: set_zip_rightD)
  note ed = edges_supported [OF this, of rp "ve_edge_id ve" 0 "ve_now ve" "dl_declaration_id (ddr_declaration d)"]
  have len: "length (dv_attribution_edges res) = length (dv_claim_verdicts res)" using e ed(1) by simp
  have all: "list_all (\<lambda>e. ae_relation_type e = SupportedBy) (dv_attribution_edges res) \<longleftrightarrow>
      list_all (\<lambda>b. bundle_status b = PLit ''supported'') (dv_claim_verdicts res)"
    using ed(2) e(1,2) by (simp add: list_all_iff split_beta)
  show ?thesis
  proof (cases "dv_attribution_edges res = []")
    case True
    then show ?thesis using e(3) len by (simp add: worst_relation_def)
  next
    case False
    note least = worst_relation_least [of ?rels]
    have top: "rank_of r \<le> rank_of SupportedBy" for r by (cases r) (simp_all add: rank_of_def RELATION_PRIORITY_def)
    have "worst_relation ?rels = SupportedBy \<longleftrightarrow> list_all (\<lambda>e. ae_relation_type e = SupportedBy) (dv_attribution_edges res)"
      using least False top rank_inj by (auto simp: list_all_iff) (metis dual_order.antisym)
    then show ?thesis using all len least False e(3) by (auto simp: list_all_iff)
  qed
qed

text \<open>
  Claim C21. A review of a declaration is never opened: the verifier asks for a task of kind
  \<open>declaration\<close>, the check constraint of \<open>review_tasks\<close> rejects it, the exception is swallowed, and
  the review tables are those the claim pipeline left, even for a contradicted declaration.
\<close>

theorem declaration_review_lost:
  assumes "verify_declaration_result rp ve pl d lang db = (db', Inr res)"
  shows "db' = fst (verify rp (ve_uuid4 ve) 0 (ve_today ve) pl
      (dl_utterance_text (ddr_declaration d)) (Some lang) db)"
  using verify_result_elim [OF assms] by (metis fst_conv)

section \<open>Claims and bundles belong together\<close>

definition same_but_id :: "decomposed_claim \<Rightarrow> decomposed_claim \<Rightarrow> bool" where
  "same_but_id c c' \<longleftrightarrow> c\<lparr>dc_claim_id := []\<rparr> = c'\<lparr>dc_claim_id := []\<rparr>"

lemma rule_stage_same:
  assumes "rule_stage u n s ps = (n1, cs, es)" "rule_stage u' n' s ps = (n1', cs', es')"
  shows "list_all2 same_but_id cs cs'"
  using assms
proof (induction ps arbitrary: n n' n1 cs es n1' cs' es')
  case (Cons m ps)
  have same: "same_but_id (rule_match_to_claim i m s) (rule_match_to_claim j m s)" for i j
    by (simp add: same_but_id_def rule_match_to_claim_def)
  have v: "validate_slots (dc_claim_type (rule_match_to_claim i m s)) (dc_slots (rule_match_to_claim i m s)) =
      validate_slots (dc_claim_type (rule_match_to_claim j m s)) (dc_slots (rule_match_to_claim j m s))" for i j
    by (simp add: rule_match_to_claim_def)
  obtain k ds fs k' ds' fs' where r: "rule_stage u (Suc n) s ps = (k, ds, fs)" "rule_stage u' (Suc n') s ps = (k', ds', fs')"
    by (metis surj_pair)
  show ?case
    using Cons.prems Cons.IH [OF r] same [of "u n" "u' n'"] v [of "u n" "u' n'"] r
    by (auto simp: Let_def split: if_splits)
qed simp

lemma decompose_same:
  assumes "decompose u n s lang None = Inr (k, r)" "decompose u' n' (py_strip s) lang None = Inr (k', r')"
  shows "list_all2 same_but_id (dr_claims r) (dr_claims r')"
proof (cases "py_strip s = []")
  case True
  have "py_strip [] = []" by (simp add: py_strip_def py_lstrip_def py_rstrip_def)
  then show ?thesis using True assms by (auto simp: decompose_def empty_result_def)
next
  case False
  let ?sel = "selected (py_strip s) lang"
  obtain a cs es b cs' es' where "rule_stage u n (py_strip s) ?sel = (a, cs, es)"
    "rule_stage u' n' (py_strip s) ?sel = (b, cs', es')" by (metis surj_pair)
  moreover from this have "dr_claims r = cs" "dr_claims r' = cs'"
    using assms False by (auto simp: decompose_def Let_def py_strip_idem)
  ultimately show ?thesis using rule_stage_same by blast
qed

lemma verify_claims_order:
  "verify_claims rp today pl i cs db = (db', Inr runs) \<Longrightarrow> map cl_claim runs = cs"
proof (induction cs arbitrary: i db runs)
  case (Cons c cs)
  then obtain run db1 runs' j where "run_claim rp today pl c = Inr run"
    "verify_claims rp today pl (Suc i) cs db1 = (db', Inr runs')" "runs = run # runs'"
    by (auto split: sum.splits prod.splits)
  moreover from this(1) have "cl_claim run = c" by (auto simp: run_claim_def Let_def split: sum.splits)
  ultimately show ?case using Cons.IH by simp
qed simp

text \<open>The bundle is about a claim of this type with these slots.\<close>

definition about_claim :: "decomposed_claim \<Rightarrow> pyval dict \<Rightarrow> bool" where
  "about_claim c b \<longleftrightarrow>
     (let meta = sub_dict (vget b (lit ''claim'')) in
      vget meta (lit ''claim_type'') = PStr (dc_claim_type c) \<and> vget meta (lit ''slots'') = PDict (dc_slots c))"

lemma about_payload: "same_but_id c (cl_claim run) \<Longrightarrow> about_claim c (claim_payload run)"
proof -
  assume "same_but_id c (cl_claim run)"
  then have "dc_claim_type c = dc_claim_type (cl_claim run)" "dc_slots c = dc_slots (cl_claim run)"
    unfolding same_but_id_def
    by (metis decomposed_claim.select_convs(4) decomposed_claim.surjective decomposed_claim.update_convs(1),
        metis decomposed_claim.select_convs(5) decomposed_claim.surjective decomposed_claim.update_convs(1))
  then show ?thesis by (simp add: about_claim_def claim_payload_def Let_def sub_dict_def)
qed

lemma list_all2_sym: "list_all2 P xs ys \<Longrightarrow> (\<And>x y. P x y \<Longrightarrow> P y x) \<Longrightarrow> list_all2 P ys xs"
  by (simp add: list_all2_conv_all_nth)

text \<open>
  Claim C20. Zipping the claims of a declaration with the bundles of a second decomposition is sound when
  both use the same language and no LLM: there are as many bundles as claims, and the k-th
  bundle is about a claim of the type and with the slots of the k-th claim, so each verdict is
  attributed to the right claim.
\<close>

theorem declaration_pairing:
  assumes "declaration_decompose u n today now None text lang meta = Inr (n', d)"
    "verify_declaration_result rp ve pl d lang db = (db', Inr res)"
  shows "list_all2 about_claim (ddr_claims d) (dv_claim_verdicts res)"
proof -
  obtain k where dec: "decompose u n (py_strip text) lang None = Inr (k, ddr_decomposition d)"
    "ddr_claims d = dr_claims (ddr_decomposition d)" "dl_utterance_text (ddr_declaration d) = text"
    using declaration_decompose_elim [OF assms(1)] by metis
  obtain db1 runs where v: "verify_runs rp (ve_uuid4 ve) 0 (ve_today ve) pl text (Some lang) db = (db1, Inr runs)"
    "dv_claim_verdicts res = map snd (zip (ddr_claims d) (map claim_payload runs))"
    using verify_result_elim [OF assms(2)] dec(3) by metis
  obtain k' r where r: "decompose (ve_uuid4 ve) 0 text lang None = Inr (k', r)"
    "verify_claims rp (ve_today ve) pl 0 (dr_claims r) db = (db1, Inr runs)"
    using v(1) by (auto simp: verify_runs_def split: sum.splits)
  have "list_all2 same_but_id (ddr_claims d) (dr_claims r)"
    using list_all2_sym [OF decompose_same [OF r(1) dec(1)]] dec(2) by (simp add: same_but_id_def)
  then have "list_all2 same_but_id (ddr_claims d) (map cl_claim runs)"
    using verify_claims_order [OF r(2)] by simp
  then have pairs: "list_all2 about_claim (ddr_claims d) (map claim_payload runs)"
    by (auto simp: list_all2_conv_all_nth about_payload)
  moreover have "map snd (zip xs ys) = ys" if "list_all2 P xs ys" for P and xs :: "decomposed_claim list"
    and ys :: "pyval dict list"
    using that by (simp add: list_all2_lengthD)
  ultimately show ?thesis using v(2) by metis
qed

section \<open>A concrete declaration\<close>

definition sample_verifier :: verifier_env where
  "sample_verifier = \<lparr>ve_uuid4 = (\<lambda>i. [i]), ve_edge_id = (\<lambda>i. [i]), ve_now = [], ve_today = (2024, 1, 1),
     ve_review = Some (sample_env Autocommit (\<lambda>_. False))\<rparr>"

lemma sample_declaration:
  "\<exists>d. declaration_decompose (\<lambda>i. [i]) 0 (2024, 1, 1) [] None (lit ''x'') EN sample_meta = Inr (1, d) \<and>
     ddr_claims d = []"
  by (simp add: declaration_decompose_def Let_def strip_x decompose_def selected_def no_rule_matches_x
      sample_meta_def)

lemma sample_verification:
  "verify_declaration_result no_repr sample_verifier broken_pipeline d EN empty_db =
     (empty_db, Inr \<lparr>dv_declaration = ddr_declaration d, dv_claims = ddr_claims d, dv_claim_verdicts = [],
        dv_attribution_edges = [], dv_overall_relation = NotCheckableAgainstRecord\<rparr>)"
  if "ddr_claims d = []"
proof -
  have ev: "no_evidence broken_pipeline" by (simp add: no_evidence_def broken_pipeline_def or_empty_def)
  obtain k r where d: "decompose (\<lambda>i. [i]) 0 (dl_utterance_text (ddr_declaration d)) EN None = Inr (k, r)"
    using decompose_no_llm by blast
  obtain runs where "verify_claims no_repr (2024, 1, 1) broken_pipeline 0 (dr_claims r) empty_db = (empty_db, Inr runs)"
    using verify_claims_nothing [OF ev] by metis
  then have "verify no_repr (\<lambda>i. [i]) 0 (2024, 1, 1) broken_pipeline (dl_utterance_text (ddr_declaration d))
      (Some EN) empty_db = (empty_db, Inr (map claim_payload runs))"
    using d by (simp add: verify_def verify_runs_def)
  then show ?thesis
    using that by (simp add: verify_declaration_result_def Let_def sample_verifier_def worst_relation_def
        REVIEW_TRIGGER_RELATIONS_def)
qed

lemma declaration_supported_iff_witness:
  "\<exists>(d :: declaration_result) (res :: declaration_verification). verify_declaration_result no_repr sample_verifier broken_pipeline d EN empty_db = (empty_db, Inr res) \<and>
     dv_overall_relation res \<noteq> SupportedBy"
proof -
  obtain d :: declaration_result where d: "ddr_claims d = []" using sample_declaration by blast
  let ?res = "\<lparr>dv_declaration = ddr_declaration d, dv_claims = ddr_claims d, dv_claim_verdicts = [],
        dv_attribution_edges = [], dv_overall_relation = NotCheckableAgainstRecord\<rparr>"
  have "dv_overall_relation ?res \<noteq> SupportedBy"
    using declaration_supported_iff [OF sample_verification [OF d]] by simp
  with sample_verification [OF d] show ?thesis by blast
qed

lemma declaration_review_lost_witness:
  "\<exists>d :: declaration_result. fst (verify no_repr (\<lambda>i. [i]) 0 (2024, 1, 1) broken_pipeline
      (dl_utterance_text (ddr_declaration d)) (Some EN) empty_db) = empty_db"
proof -
  obtain d :: declaration_result where d: "ddr_claims d = []" using sample_declaration by blast
  from declaration_review_lost [OF sample_verification [OF d]] show ?thesis
    by (intro exI [of _ d]) (simp add: sample_verifier_def)
qed

lemma declaration_pairing_witness:
  "\<exists>d. declaration_decompose (\<lambda>i. [i]) 0 (2024, 1, 1) [] None (lit ''x'') EN sample_meta = Inr (1, d) \<and>
     list_all2 about_claim (ddr_claims d) []"
proof -
  obtain d where d: "declaration_decompose (\<lambda>i. [i]) 0 (2024, 1, 1) [] None (lit ''x'') EN sample_meta = Inr (1, d)"
    "ddr_claims d = []" using sample_declaration by blast
  from declaration_pairing [OF d(1) sample_verification [OF d(2)]] d(1) show ?thesis by auto
qed

end
