(* ===== verification/Archive.thy ===== *)
theory Archive
  imports Temporal
begin

text \<open>
  \<open>packages/clients/src/civic_clients/archive.py\<close> and \<open>minio_client.py\<close>, and
  \<open>services/archival/src/civic_archival/\<close> (\<open>archiver.py\<close>, \<open>fetcher.py\<close>, \<open>cli.py\<close>): the
  archive URIs, the object store, the table \<open>raw_fetch_objects\<close> of migration 0002, and the
  archival of a fetched payload. A payload is the list of its bytes; SHA-256 is a parameter
  that returns 64 lowercase hexadecimal digits.
\<close>

section \<open>Archive URIs\<close>

definition SOURCE_FAMILIES :: "pystr list" where
  "SOURCE_FAMILIES = [lit ''knesset'', lit ''gov_il'', lit ''elections'']"

record archive_coord =
  ac_bucket :: pystr
  ac_source_family :: pystr
  ac_year :: nat
  ac_month :: nat
  ac_day :: nat
  ac_sha256 :: pystr
  ac_extension :: pystr

definition URI_RE :: re where
  "URI_RE = rseq
     [RBol, rword (lit ''s3://''),
      RGrp ''bucket'' (RSeq (RSet False [CR 97 122, CR 48 57])
        (RRep True 1 (Some 62) (RSet False [CR 97 122, CR 48 57, CR 46 46, CR 45 45]))),
      rword (lit ''/''), RGrp ''source_family'' (rplus (RSet False [CR 97 122, CR 95 95])),
      rword (lit ''/''), RGrp ''year'' (RRep True 4 (Some 4) (RSet False [CDigit])),
      rword (lit ''/''), RGrp ''month'' (RRep True 2 (Some 2) (RSet False [CDigit])),
      rword (lit ''/''), RGrp ''day'' (RRep True 2 (Some 2) (RSet False [CDigit])),
      rword (lit ''/''), RGrp ''sha256'' (RRep True 64 (Some 64) (RSet False [CR 48 57, CR 97 102])),
      rword (lit ''.''), RGrp ''extension'' (rplus (RSet False [CR 97 122, CR 48 57])), REol]"

text \<open>
  A \<open>datetime\<close> enters the archive only through whether it is timezone-aware and, if it is,
  the UTC calendar date of its instant.
\<close>

datatype py_datetime = Naive | Aware date

definition ext_char :: "nat \<Rightarrow> bool" where
  "ext_char c \<longleftrightarrow> (97 \<le> c \<and> c \<le> 122) \<or> (48 \<le> c \<and> c \<le> 57)"

definition normalize_extension :: "pystr \<Rightarrow> pyerr + pystr" where
  "normalize_extension extension =
     (let ext = py_lower (dropWhile (\<lambda>c. c = 46) (py_strip extension)) in
      if ext = [] then Inl ValueError
      else if list_all ext_char ext then Inr ext
      else Inl ValueError)"

definition archive_uri_text :: "pystr \<Rightarrow> pystr \<Rightarrow> date \<Rightarrow> pystr \<Rightarrow> pystr \<Rightarrow> pystr" where
  "archive_uri_text bucket family utc digest ext =
     (case utc of (y, m, d) \<Rightarrow>
        lit ''s3://'' @ bucket @ lit ''/'' @ family @ lit ''/'' @
        pad0 4 y @ lit ''/'' @ pad0 2 m @ lit ''/'' @ pad0 2 d @ lit ''/'' @
        digest @ lit ''.'' @ ext)"

definition build_archive_uri ::
    "(nat list \<Rightarrow> pystr) \<Rightarrow> pystr \<Rightarrow> pystr \<Rightarrow> py_datetime \<Rightarrow> nat list \<Rightarrow> pystr \<Rightarrow> pyerr + pystr" where
  "build_archive_uri sha256 bucket source_family captured_at content extension =
     (if source_family \<notin> set SOURCE_FAMILIES then Inl ValueError
      else case captured_at of
        Naive \<Rightarrow> Inl ValueError
      | Aware utc \<Rightarrow>
          (case normalize_extension extension of
             Inl e \<Rightarrow> Inl e
           | Inr ext \<Rightarrow> Inr (archive_uri_text bucket source_family utc (sha256 content) ext)))"

definition the_group :: "rmatch \<Rightarrow> string \<Rightarrow> pystr" where
  "the_group m nm = (case group m nm of None \<Rightarrow> [] | Some t \<Rightarrow> t)"

definition parse_archive_uri :: "pystr \<Rightarrow> pyerr + archive_coord" where
  "parse_archive_uri uri =
     (case re_match URI_RE uri of
        None \<Rightarrow> Inl ValueError
      | Some m \<Rightarrow>
          let year = nat_of_digits (the_group m ''year'');
              month = nat_of_digits (the_group m ''month'');
              day = nat_of_digits (the_group m ''day'')
          in if the_group m ''source_family'' \<notin> set SOURCE_FAMILIES then Inl ValueError
             else if \<not> valid_date (year, month, day) then Inl ValueError
             else Inr \<lparr>ac_bucket = the_group m ''bucket'', ac_source_family = the_group m ''source_family'',
               ac_year = year, ac_month = month, ac_day = day,
               ac_sha256 = the_group m ''sha256'', ac_extension = the_group m ''extension''\<rparr>)"

text \<open>The path of an object inside its bucket, and the URI of a coordinate.\<close>

definition object_name :: "archive_coord \<Rightarrow> pystr" where
  "object_name c =
     ac_source_family c @ lit ''/'' @ pad0 4 (ac_year c) @ lit ''/'' @ pad0 2 (ac_month c) @ lit ''/'' @
     pad0 2 (ac_day c) @ lit ''/'' @ ac_sha256 c @ lit ''.'' @ ac_extension c"

definition coord_uri :: "archive_coord \<Rightarrow> pystr" where
  "coord_uri c = lit ''s3://'' @ ac_bucket c @ lit ''/'' @ object_name c"

section \<open>What the pattern of a URI matches\<close>

record uri_parts =
  up_bucket :: pystr
  up_family :: pystr
  up_year :: pystr
  up_month :: pystr
  up_day :: pystr
  up_sha :: pystr
  up_ext :: pystr

definition bucket_ok :: "pystr \<Rightarrow> bool" where
  "bucket_ok b \<longleftrightarrow> 2 \<le> length b \<and> length b \<le> 63 \<and> ext_char (hd b) \<and>
     list_all (\<lambda>c. ext_char c \<or> c = 46 \<or> c = 45) (tl b)"

definition sha_ok :: "pystr \<Rightarrow> bool" where
  "sha_ok h \<longleftrightarrow> length h = 64 \<and> list_all (\<lambda>c. (48 \<le> c \<and> c \<le> 57) \<or> (97 \<le> c \<and> c \<le> 102)) h"

definition ext_ok :: "pystr \<Rightarrow> bool" where
  "ext_ok e \<longleftrightarrow> e \<noteq> [] \<and> list_all ext_char e"

definition parts_ok :: "uri_parts \<Rightarrow> bool" where
  "parts_ok p \<longleftrightarrow> bucket_ok (up_bucket p) \<and>
     up_family p \<noteq> [] \<and> list_all (\<lambda>c. (97 \<le> c \<and> c \<le> 122) \<or> c = 95) (up_family p) \<and>
     length (up_year p) = 4 \<and> list_all is_digit (up_year p) \<and>
     length (up_month p) = 2 \<and> list_all is_digit (up_month p) \<and>
     length (up_day p) = 2 \<and> list_all is_digit (up_day p) \<and> sha_ok (up_sha p) \<and> ext_ok (up_ext p)"

definition parts_uri :: "uri_parts \<Rightarrow> pystr" where
  "parts_uri p = lit ''s3://'' @ up_bucket p @ lit ''/'' @ up_family p @ lit ''/'' @ up_year p @ lit ''/'' @
     up_month p @ lit ''/'' @ up_day p @ lit ''/'' @ up_sha p @ lit ''.'' @ up_ext p"

definition parts_groups :: "uri_parts \<Rightarrow> caps" where
  "parts_groups p = [(''extension'', up_ext p), (''sha256'', up_sha p), (''day'', up_day p),
     (''month'', up_month p), (''year'', up_year p), (''source_family'', up_family p), (''bucket'', up_bucket p)]"

lemma rmatches_grp_run:
  "rmatches (RGrp nm (RRep g lo hi (RSet False cs))) (pre, rest, k) st' \<longleftrightarrow>
     (\<exists>w r. rest = w @ r \<and> in_range lo hi (length w) \<and> list_all (in_set cs) w \<and>
        st' = (rev w @ pre, r, (nm, w) # k))"
  unfolding rmatches_grp rmatches_run by auto

lemma rmatches_grp_first_run:
  "rmatches (RGrp nm (RSeq (RSet False cs) (RRep g lo hi (RSet False ds)))) (pre, rest, k) st' \<longleftrightarrow>
     (\<exists>c w r. rest = c # w @ r \<and> in_set cs c \<and> in_range lo hi (length w) \<and> list_all (in_set ds) w \<and>
        st' = (rev w @ c # pre, r, (nm, c # w) # k))"
  unfolding rmatches_grp rmatches_seq rmatches_set by (auto simp: rmatches_run)

lemma in_set_classes:
  "in_set [CR 97 122, CR 48 57] = ext_char"
  "in_set [CR 97 122, CR 48 57, CR 46 46, CR 45 45] = (\<lambda>c. ext_char c \<or> c = 46 \<or> c = 45)"
  "in_set [CR 97 122, CR 95 95] = (\<lambda>c. (97 \<le> c \<and> c \<le> 122) \<or> c = 95)"
  "in_set [CDigit] = is_digit"
  "in_set [CR 48 57, CR 97 102] = (\<lambda>c. (48 \<le> c \<and> c \<le> 57) \<or> (97 \<le> c \<and> c \<le> 102))"
  by (auto simp: in_set_def ext_char_def fun_eq_iff)

text \<open>
  \<open>emits r R\<close>: \<open>r\<close> reads exactly the texts \<open>w\<close> with groups \<open>g\<close> before a rest \<open>q\<close> that \<open>R w g q\<close> admits,
  wherever it starts.
\<close>

definition emits :: "re \<Rightarrow> (pystr \<Rightarrow> caps \<Rightarrow> pystr \<Rightarrow> bool) \<Rightarrow> bool" where
  "emits r R \<longleftrightarrow> (\<forall>pre rest k st'. rmatches r (pre, rest, k) st' \<longleftrightarrow>
     (\<exists>w g q. rest = w @ q \<and> R w g q \<and> st' = (rev w @ pre, q, g @ k)))"

lemma emits_eol: "emits REol (\<lambda>w g q. w = [] \<and> g = [] \<and> (q = [] \<or> q = [10]))"
  by (simp add: emits_def rmatches_eol)

lemma emits_lit:
  assumes "emits b S"
  shows "emits (RSeq (rword x) b) (\<lambda>w g q. \<exists>v. w = x @ v \<and> S v g q)"
  using assms unfolding emits_def rmatches_seq by (auto simp: rmatches_word)

lemma emits_run:
  assumes "emits b S"
  shows "emits (RSeq (RGrp nm (RRep l lo hi (RSet False cs))) b)
    (\<lambda>w g q. \<exists>u v g'. w = u @ v \<and> g = g' @ [(nm, u)] \<and> in_range lo hi (length u) \<and> list_all (in_set cs) u \<and> S v g' q)"
  using assms unfolding emits_def rmatches_seq by (auto simp: rmatches_grp_run) blast+

lemma emits_first_run:
  assumes "emits b S"
  shows "emits (RSeq (RGrp nm (RSeq (RSet False cs) (RRep l lo hi (RSet False ds)))) b)
    (\<lambda>w g q. \<exists>c u v g'. w = (c # u) @ v \<and> g = g' @ [(nm, c # u)] \<and> in_set cs c \<and> in_range lo hi (length u) \<and>
       list_all (in_set ds) u \<and> S v g' q)"
  using assms unfolding emits_def rmatches_seq by (auto simp: rmatches_grp_first_run) blast+

definition uri_body :: "pystr \<Rightarrow> caps \<Rightarrow> pystr \<Rightarrow> bool" where
  "uri_body w g q \<longleftrightarrow> (\<exists>p. parts_ok p \<and> w = parts_uri p \<and> g = parts_groups p \<and> (q = [] \<or> q = [10]))"

lemma uri_bodyI:
  assumes "ext_char c" "in_range 1 (Some 62) (length b)" "list_all (\<lambda>c. ext_char c \<or> c = 46 \<or> c = 45) b"
    "in_range 1 None (length f)" "list_all (\<lambda>c. (97 \<le> c \<and> c \<le> 122) \<or> c = 95) f"
    "in_range 4 (Some 4) (length y)" "list_all is_digit y" "in_range 2 (Some 2) (length m)" "list_all is_digit m"
    "in_range 2 (Some 2) (length d)" "list_all is_digit d" "in_range 64 (Some 64) (length h)"
    "list_all (\<lambda>c. (48 \<le> c \<and> c \<le> 57) \<or> (97 \<le> c \<and> c \<le> 102)) h" "in_range 1 None (length e)" "list_all ext_char e"
    "q = [] \<or> q = [10]"
  shows "uri_body (lit ''s3://'' @ (c # b) @ lit ''/'' @ f @ lit ''/'' @ y @ lit ''/'' @ m @ lit ''/'' @ d @ lit ''/'' @
       h @ lit ''.'' @ e @ [])
     ((((((([] @ [(''extension'', e)]) @ [(''sha256'', h)]) @ [(''day'', d)]) @ [(''month'', m)]) @ [(''year'', y)]) @
        [(''source_family'', f)]) @ [(''bucket'', c # b)]) q"
  unfolding uri_body_def using assms
  by (intro exI [of _ "\<lparr>up_bucket = c # b, up_family = f, up_year = y, up_month = m, up_day = d, up_sha = h, up_ext = e\<rparr>"])
    (auto simp: parts_ok_def parts_uri_def parts_groups_def bucket_ok_def sha_ok_def ext_ok_def in_range_def)

lemma uri_bodyE:
  assumes "uri_body w g q"
  obtains c b f y m d h e where "ext_char c" "in_range 1 (Some 62) (length b)"
    "list_all (\<lambda>c. ext_char c \<or> c = 46 \<or> c = 45) b"
    "in_range 1 None (length f)" "list_all (\<lambda>c. (97 \<le> c \<and> c \<le> 122) \<or> c = 95) f"
    "in_range 4 (Some 4) (length y)" "list_all is_digit y" "in_range 2 (Some 2) (length m)" "list_all is_digit m"
    "in_range 2 (Some 2) (length d)" "list_all is_digit d" "in_range 64 (Some 64) (length h)"
    "list_all (\<lambda>c. (48 \<le> c \<and> c \<le> 57) \<or> (97 \<le> c \<and> c \<le> 102)) h" "in_range 1 None (length e)" "list_all ext_char e"
    "q = [] \<or> q = [10]"
    "w = lit ''s3://'' @ (c # b) @ lit ''/'' @ f @ lit ''/'' @ y @ lit ''/'' @ m @ lit ''/'' @ d @ lit ''/'' @
       h @ lit ''.'' @ e @ []"
    "g = ((((((([] @ [(''extension'', e)]) @ [(''sha256'', h)]) @ [(''day'', d)]) @ [(''month'', m)]) @ [(''year'', y)]) @
        [(''source_family'', f)]) @ [(''bucket'', c # b)])"
proof -
  obtain p where p: "parts_ok p" "w = parts_uri p" "g = parts_groups p" "q = [] \<or> q = [10]"
    using assms by (auto simp: uri_body_def)
  then have b: "bucket_ok (up_bucket p)" by (simp add: parts_ok_def)
  then obtain c b where "up_bucket p = c # b" by (cases "up_bucket p") (auto simp: bucket_ok_def)
  with p b show thesis
    by (intro that [of c b "up_family p" "up_year p" "up_month p" "up_day p" "up_sha p" "up_ext p"])
      (auto simp: parts_ok_def parts_uri_def parts_groups_def bucket_ok_def sha_ok_def ext_ok_def in_range_def Suc_le_eq)
qed

lemma uri_body_emits:
  obtains r where "URI_RE = RSeq RBol r" "emits r uri_body"
proof -
  obtain r R where r: "URI_RE = RSeq RBol r" "emits r R" "R = uri_body"
  proof -
    show thesis
      by (rule that, unfold URI_RE_def rseq.simps, rule refl,
          (rule emits_lit emits_run emits_first_run emits_eol)+, unfold in_set_classes,
          intro ext iffI, elim exE conjE, hypsubst, rule uri_bodyI, assumption+,
          elim uri_bodyE, hypsubst, (intro exI conjI, (assumption | rule refl)+)+)
  qed
  then show ?thesis using that by blast
qed

lemma URI_RE_matches: "rmatches URI_RE ([], s, []) st' \<longleftrightarrow>
    (\<exists>p t. parts_ok p \<and> (t = [] \<or> t = [10]) \<and> s = parts_uri p @ t \<and> st' = (rev (parts_uri p), t, parts_groups p))"
proof -
  obtain r where r: "URI_RE = RSeq RBol r" and e: "emits r uri_body" by (rule uri_body_emits)
  have "rmatches URI_RE ([], s, []) st' \<longleftrightarrow> rmatches r ([], s, []) st'"
    unfolding r by (auto simp: rmatches_seq rmatches_bol)
  then show ?thesis using e unfolding emits_def by (auto simp: uri_body_def)
qed

text \<open>A text splits into the parts of a URI in at most one way.\<close>

lemma split_at_unique:
  assumes "u @ c # v = u' @ c # v'" "c \<notin> set u" "c \<notin> set u'"
  shows "u = u' \<and> v = v'"
  using assms
proof (induction u arbitrary: u')
  case Nil
  then show ?case by (cases u') auto
next
  case (Cons a u)
  then show ?case by (cases u') auto
qed

lemma lit_slash: "lit ''/'' = [47]" "lit ''.'' = [46]"
  by (simp_all add: lit_def)

lemma parts_ok_free:
  assumes "parts_ok p"
  shows "47 \<notin> set (up_bucket p)" "47 \<notin> set (up_family p)" "47 \<notin> set (up_year p)" "47 \<notin> set (up_month p)"
    "47 \<notin> set (up_day p)" "46 \<notin> set (up_sha p)" "10 \<notin> set (up_ext p)"
proof -
  have b: "bucket_ok (up_bucket p)" using assms by (simp add: parts_ok_def)
  then obtain c b where "up_bucket p = c # b" by (cases "up_bucket p") (auto simp: bucket_ok_def)
  then show "47 \<notin> set (up_bucket p)" using b by (auto simp: bucket_ok_def list_all_iff ext_char_def)
qed (use assms in \<open>auto simp: parts_ok_def sha_ok_def ext_ok_def ext_char_def list_all_iff is_digit_def\<close>)

lemma parts_unique:
  assumes ok: "parts_ok p" "parts_ok p'" and t: "t = [] \<or> t = [10]" "t' = [] \<or> t' = [10]"
    and eq: "parts_uri p @ t = parts_uri p' @ t'"
  shows "p = p' \<and> t = t'"
proof -
  note f = parts_ok_free [OF ok(1)] and f' = parts_ok_free [OF ok(2)]
  have "up_bucket p = up_bucket p'" "up_family p = up_family p'" "up_year p = up_year p'"
    "up_month p = up_month p'" "up_day p = up_day p'" "up_sha p = up_sha p'"
    and e: "up_ext p @ t = up_ext p' @ t'"
    using eq unfolding parts_uri_def lit_slash
    by (simp_all, (metis (no_types, lifting) f f' split_at_unique)+)
  moreover have "t = t'"
  proof (rule ccontr)
    assume ne: "t \<noteq> t'"
    then have "10 \<in> set (up_ext p) \<or> 10 \<in> set (up_ext p')"
      using t e by (metis append_Nil2 in_set_conv_decomp)
    then show False using f(7) f'(7) by blast
  qed
  ultimately show ?thesis using e by (cases p; cases p') simp
qed

lemma match_URI_RE:
  assumes "parts_ok p" "t = [] \<or> t = [10]"
  shows "\<exists>m. re_match URI_RE (parts_uri p @ t) = Some m \<and> m_groups m = parts_groups p"
proof -
  let ?st = "([], parts_uri p @ t, []) :: mstate"
  have "rmatches URI_RE ?st (rev (parts_uri p), t, parts_groups p)"
    unfolding URI_RE_matches using assms by blast
  then obtain st sts where ms: "ms URI_RE ?st = st # sts"
    unfolding ms_iff [symmetric] by (cases "ms URI_RE ?st") auto
  then have "rmatches URI_RE ?st st" by (simp flip: ms_iff)
  then obtain q u where q: "parts_ok q" "u = [] \<or> u = [10]" "parts_uri p @ t = parts_uri q @ u"
      "st = (rev (parts_uri q), u, parts_groups q)" unfolding URI_RE_matches by blast
  have "p = q" using parts_unique [OF assms(1) q(1) assms(2) q(2,3)] by simp
  then show ?thesis using ms q(4) by (simp add: re_match_def mk_match_def)
qed

lemma match_URI_RE_parts:
  assumes "re_match URI_RE s = Some m"
  obtains p t where "parts_ok p" "t = [] \<or> t = [10]" "s = parts_uri p @ t" "m_groups m = parts_groups p"
proof -
  obtain st sts where ms: "ms URI_RE ([], s, []) = st # sts" "m = mk_match [] st"
    using assms by (auto simp: re_match_def split: list.splits)
  then have "rmatches URI_RE ([], s, []) st" by (simp flip: ms_iff)
  then obtain p t where "parts_ok p" "t = [] \<or> t = [10]" "s = parts_uri p @ t"
    "st = (rev (parts_uri p), t, parts_groups p)" unfolding URI_RE_matches by blast
  with ms(2) show thesis by (intro that [of p t]) (simp_all add: mk_match_def)
qed

section \<open>The round trip of URIs\<close>

text \<open>Reading back a zero-padded number, and writing out a number that was read.\<close>

definition ascii_digit :: "nat \<Rightarrow> nat" where
  "ascii_digit c = (if is_digit c then 48 + digit_val c else c)"

lemma nat_of_digits_zeros: "nat_of_digits (replicate j 48 @ w) = nat_of_digits w"
  by (induction j) (simp_all add: nat_of_digits_def digit_val_def)

lemma pad0_facts:
  assumes "0 < k" "n < 10 ^ k"
  shows "length (pad0 k n) = k" "list_all is_digit (pad0 k n)" "nat_of_digits (pad0 k n) = n"
  using length_digits_of_nat [OF assms] nat_of_digits_of_nat [of n]
  by (auto simp: pad0_def Let_def nat_of_digits_zeros list_all_iff is_digit_def)

lemma nat_of_digits_lt: "list_all is_digit w \<Longrightarrow> nat_of_digits w < 10 ^ length w"
proof (induction w rule: rev_induct)
  case (snoc c w)
  then show ?case using digit_val_lt [of c] by (simp add: nat_of_digits_snoc)
qed (simp add: nat_of_digits_def)

lemma nat_of_digits_inj:
  assumes "length v = length w" "list_all is_digit v" "list_all is_digit w" "nat_of_digits v = nat_of_digits w"
  shows "map ascii_digit v = map ascii_digit w"
  using assms
proof (induction w arbitrary: v rule: rev_induct)
  case (snoc c w)
  then obtain u b where v: "v = u @ [b]" by (cases v rule: rev_cases) auto
  have "10 * nat_of_digits u + digit_val b = 10 * nat_of_digits w + digit_val c"
    using snoc.prems(4) by (simp add: v nat_of_digits_snoc)
  moreover have "digit_val b < 10" "digit_val c < 10" using snoc.prems(2,3) by (auto simp: v digit_val_lt)
  ultimately have "digit_val b = digit_val c \<and> nat_of_digits u = nat_of_digits w" by presburger
  then show ?case using snoc.IH [of u] snoc.prems by (simp add: v ascii_digit_def)
qed simp

lemma ascii_digit_ascii: "48 \<le> c \<and> c \<le> 57 \<Longrightarrow> ascii_digit c = c"
  by (simp add: ascii_digit_def is_digit_def digit_val_def)

lemma pad0_of_digits:
  assumes "list_all is_digit w" "length w = k" "0 < k"
  shows "pad0 k (nat_of_digits w) = map ascii_digit w"
proof -
  let ?p = "pad0 k (nat_of_digits w)"
  have k: "0 < k" "nat_of_digits w < 10 ^ k" using assms nat_of_digits_lt by auto
  have "\<forall>c \<in> set ?p. 48 \<le> c \<and> c \<le> 57" using digits_of_nat_ascii by (auto simp: pad0_def Let_def)
  then have "map ascii_digit ?p = ?p" by (intro map_idI) (simp add: ascii_digit_ascii)
  then show ?thesis using nat_of_digits_inj [of ?p w] pad0_facts [OF k] assms(1,2) by simp
qed

definition coord_of :: "uri_parts \<Rightarrow> archive_coord" where
  "coord_of p = \<lparr>ac_bucket = up_bucket p, ac_source_family = up_family p,
     ac_year = nat_of_digits (up_year p), ac_month = nat_of_digits (up_month p),
     ac_day = nat_of_digits (up_day p), ac_sha256 = up_sha p, ac_extension = up_ext p\<rparr>"

definition coord_date :: "archive_coord \<Rightarrow> date" where
  "coord_date c = (ac_year c, ac_month c, ac_day c)"

lemma parse_parts:
  assumes "parts_ok p" "t = [] \<or> t = [10]"
  shows "parse_archive_uri (parts_uri p @ t) =
    (if up_family p \<in> set SOURCE_FAMILIES \<and> valid_date (coord_date (coord_of p)) then Inr (coord_of p)
     else Inl ValueError)"
proof -
  obtain m where m: "re_match URI_RE (parts_uri p @ t) = Some m" "m_groups m = parts_groups p"
    using match_URI_RE [OF assms] by blast
  have "the_group m nm = (case map_of (parts_groups p) nm of None \<Rightarrow> [] | Some u \<Rightarrow> u)" for nm
    by (simp add: the_group_def group_def m(2))
  then show ?thesis
    by (simp add: parse_archive_uri_def m(1) parts_groups_def coord_of_def coord_date_def Let_def)
qed

lemma parse_archive_uri_parts:
  assumes "parse_archive_uri uri = Inr c"
  obtains p t where "parts_ok p" "t = [] \<or> t = [10]" "uri = parts_uri p @ t" "c = coord_of p"
    "up_family p \<in> set SOURCE_FAMILIES" "valid_date (coord_date c)"
proof -
  obtain m where "re_match URI_RE uri = Some m"
    using assms by (auto simp: parse_archive_uri_def split: option.splits)
  then obtain p t where pt: "parts_ok p" "t = [] \<or> t = [10]" "uri = parts_uri p @ t"
    by (rule match_URI_RE_parts)
  then show thesis using assms that [OF pt] by (auto simp: parse_parts [OF pt(1,2)] split: if_splits)
qed

text \<open>A valid date fits its padding.\<close>

lemma valid_date_digits: "valid_date (y, m, d) \<Longrightarrow> y < 10 ^ 4 \<and> m < 10 ^ 2 \<and> d < 10 ^ 2"
  by (auto simp: days_in_month_def split: if_splits)

lemma canonical_parts:
  assumes "valid_date (y, m, d)" "bucket_ok b" "f \<in> set SOURCE_FAMILIES" "sha_ok h" "ext_ok e"
  defines "p \<equiv> \<lparr>up_bucket = b, up_family = f, up_year = pad0 4 y, up_month = pad0 2 m, up_day = pad0 2 d,
     up_sha = h, up_ext = e\<rparr>"
  shows "parts_ok p" "parse_archive_uri (parts_uri p) =
     Inr \<lparr>ac_bucket = b, ac_source_family = f, ac_year = y, ac_month = m, ac_day = d, ac_sha256 = h, ac_extension = e\<rparr>"
proof -
  note n = valid_date_digits [OF assms(1)]
  have pad: "length (pad0 4 y) = 4 \<and> list_all is_digit (pad0 4 y) \<and> nat_of_digits (pad0 4 y) = y"
    "length (pad0 2 m) = 2 \<and> list_all is_digit (pad0 2 m) \<and> nat_of_digits (pad0 2 m) = m"
    "length (pad0 2 d) = 2 \<and> list_all is_digit (pad0 2 d) \<and> nat_of_digits (pad0 2 d) = d"
    using pad0_facts [of 4 y] pad0_facts [of 2 m] pad0_facts [of 2 d] n by simp_all
  show ok: "parts_ok p"
    using assms(2-5) pad by (auto simp: parts_ok_def p_def SOURCE_FAMILIES_def lit_def)
  show "parse_archive_uri (parts_uri p) =
     Inr \<lparr>ac_bucket = b, ac_source_family = f, ac_year = y, ac_month = m, ac_day = d, ac_sha256 = h, ac_extension = e\<rparr>"
    using parse_parts [OF ok, of "[]"] assms(1,3) pad by (simp add: p_def coord_of_def coord_date_def)
qed

lemma normalize_extension_ok: "normalize_extension extension = Inr e \<Longrightarrow> ext_ok e"
  by (auto simp: normalize_extension_def ext_ok_def Let_def split: if_splits)

lemma build_parse:
  assumes "build_archive_uri sha256 bucket family (Aware (y, m, d)) content extension = Inr uri"
    and "valid_date (y, m, d)" "bucket_ok bucket" "sha_ok (sha256 content)"
  obtains e where "normalize_extension extension = Inr e" "uri = archive_uri_text bucket family (y, m, d) (sha256 content) e"
    "parse_archive_uri uri = Inr \<lparr>ac_bucket = bucket, ac_source_family = family, ac_year = y, ac_month = m,
       ac_day = d, ac_sha256 = sha256 content, ac_extension = e\<rparr>"
proof -
  obtain e where e: "normalize_extension extension = Inr e" "family \<in> set SOURCE_FAMILIES"
    "uri = archive_uri_text bucket family (y, m, d) (sha256 content) e"
    using assms(1) by (auto simp: build_archive_uri_def split: if_splits sum.splits)
  then show thesis
    using canonical_parts(2) [OF assms(2,3) e(2) assms(4) normalize_extension_ok [OF e(1)]]
    by (intro that [of e]) (simp_all add: archive_uri_text_def parts_uri_def)
qed

text \<open>Claim C22.
  Any URI that \<open>build_archive_uri\<close> produces, for a bucket name S3 admits and an aware timestamp, parses
  cleanly, to the bucket, the family, the UTC date and the digest it was built from, and the coordinate
  spells the same URI again.\<close>

theorem archive_uri_roundtrip:
  assumes "build_archive_uri sha256 bucket family (Aware utc) content extension = Inr uri"
    and "valid_date utc" "bucket_ok bucket" "sha_ok (sha256 content)"
  shows "\<exists>c. parse_archive_uri uri = Inr c \<and> coord_uri c = uri \<and> ac_bucket c = bucket \<and>
    ac_source_family c = family \<and> coord_date c = utc \<and> ac_sha256 c = sha256 content"
proof -
  obtain y m d where utc: "utc = (y, m, d)" by (cases utc)
  obtain e where "uri = archive_uri_text bucket family (y, m, d) (sha256 content) e"
    "parse_archive_uri uri = Inr \<lparr>ac_bucket = bucket, ac_source_family = family, ac_year = y, ac_month = m,
       ac_day = d, ac_sha256 = sha256 content, ac_extension = e\<rparr>"
    using build_parse [OF assms(1) [unfolded utc] assms(2) [unfolded utc] assms(3,4)] by metis
  then show ?thesis by (simp add: utc coord_uri_def object_name_def coord_date_def archive_uri_text_def)
qed

text \<open>
  The other way round holds up to two freedoms of the pattern: \<open>$\<close> lets a final line break pass, and \<open>\d\<close>
  reads the decimal digits of every script. What parses is the canonical URI of its coordinate with
  digits in some script, possibly followed by a line break.
\<close>

lemma ascii_digit_id: "ext_char c \<or> c = 46 \<or> c = 45 \<or> c = 47 \<or> c = 95 \<or> c = 58 \<Longrightarrow> ascii_digit c = c"
  by (auto simp: ext_char_def ascii_digit_ascii) (auto simp: ascii_digit_def is_digit_def)

lemma parse_archive_uri_canonical:
  assumes "parse_archive_uri uri = Inr c"
  shows "parse_archive_uri (coord_uri c) = Inr c \<and>
    (\<exists>t. (t = [] \<or> t = [10]) \<and> map ascii_digit uri = coord_uri c @ t)"
proof -
  obtain p t where p: "parts_ok p" "t = [] \<or> t = [10]" "uri = parts_uri p @ t" "c = coord_of p"
    "up_family p \<in> set SOURCE_FAMILIES" "valid_date (coord_date c)"
    using assms by (rule parse_archive_uri_parts)
  have pads: "pad0 4 (ac_year c) = map ascii_digit (up_year p)" "pad0 2 (ac_month c) = map ascii_digit (up_month p)"
    "pad0 2 (ac_day c) = map ascii_digit (up_day p)"
    using p(1) by (simp_all add: parts_ok_def p(4) coord_of_def pad0_of_digits)
  have id: "map ascii_digit w = w" if "list_all (\<lambda>c. ext_char c \<or> c = 46 \<or> c = 45 \<or> c = 47 \<or> c = 95 \<or> c = 58) w" for w
    using that by (auto simp: list_all_iff ascii_digit_id intro!: map_idI)
  have b: "bucket_ok (up_bucket p)" using p(1) by (simp add: parts_ok_def)
  then obtain a r where "up_bucket p = a # r" by (cases "up_bucket p") (auto simp: bucket_ok_def)
  then have bucket: "map ascii_digit (up_bucket p) = up_bucket p"
    using b by (intro id) (auto simp: bucket_ok_def ext_char_def list_all_iff)
  have parts: "map ascii_digit (up_family p) = up_family p" "map ascii_digit (up_sha p) = up_sha p"
    "map ascii_digit (up_ext p) = up_ext p"
    by (rule id, use p(1) in \<open>auto simp: parts_ok_def sha_ok_def ext_ok_def ext_char_def list_all_iff\<close>)+
  have fixed: "map ascii_digit (lit ''s3://'') = lit ''s3://''" "map ascii_digit (lit ''/'') = lit ''/''"
    "map ascii_digit (lit ''.'') = lit ''.''" by (rule id, simp add: lit_def ext_char_def)+
  have newline: "map ascii_digit t = t" using p(2) by (auto simp: ascii_digit_def is_digit_def)
  have "map ascii_digit uri = coord_uri c @ t"
    unfolding p(3) parts_uri_def coord_uri_def object_name_def pads using bucket parts fixed newline p(4)
    by (simp add: coord_of_def)
  moreover have "parse_archive_uri (coord_uri c) = Inr c"
  proof -
    have "coord_uri c = parts_uri (p\<lparr>up_year := pad0 4 (ac_year c), up_month := pad0 2 (ac_month c), up_day := pad0 2 (ac_day c)\<rparr>)"
      by (simp add: coord_uri_def object_name_def parts_uri_def p(4) coord_of_def)
    then show ?thesis
      using canonical_parts(2) [of "ac_year c" "ac_month c" "ac_day c" "up_bucket p" "up_family p" "up_sha p" "up_ext p"] p
      by (simp add: coord_date_def parts_ok_def coord_of_def parts_uri_def)
  qed
  ultimately show ?thesis using p(2) by blast
qed

section \<open>The object store\<close>

text \<open>
  The buckets and objects of MinIO, an object being its bytes and content type under its bucket and
  name, and the tables \<open>raw_fetch_objects\<close> and \<open>ingest_runs\<close> as the connection sees them.
\<close>

record raw_fetch_object =
  rw_object_id :: nat
  rw_ingest_run_id :: int
  rw_source_url :: pystr
  rw_archive_uri :: pystr
  rw_content_sha256 :: pystr
  rw_content_type :: "pystr option"
  rw_byte_size :: nat
  rw_source_tier :: int

record archive_state =
  as_buckets :: "pystr list"
  as_objects :: "((pystr \<times> pystr) \<times> (nat list \<times> pystr)) list"
  as_rows :: "raw_fetch_object list"
  as_run_ids :: "int list"

text \<open>
  What an archival call runs against: the digest, the configured bucket, the next \<open>uuid4\<close>, and
  whether the object store, the query, the insert or the commit raises.
\<close>

record archive_env =
  ae_sha256 :: "nat list \<Rightarrow> pystr"
  ae_bucket :: pystr
  ae_uuid4 :: nat
  ae_store_error :: "pyerr option"
  ae_select_error :: "pyerr option"
  ae_insert_error :: "pyerr option"
  ae_commit_error :: "pyerr option"

definition ensure_bucket :: "archive_env \<Rightarrow> pystr option \<Rightarrow> archive_state \<Rightarrow> archive_state \<times> (pyerr + pystr)" where
  "ensure_bucket env name st =
     (case ae_store_error env of
        Some e \<Rightarrow> (st, Inl e)
      | None \<Rightarrow>
          let bucket = (case name of Some b \<Rightarrow> if b = [] then ae_bucket env else b | None \<Rightarrow> ae_bucket env)
          in (if bucket \<in> set (as_buckets st) then st else st\<lparr>as_buckets := as_buckets st @ [bucket]\<rparr>, Inr bucket))"

definition put_object :: "pystr \<times> pystr \<Rightarrow> nat list \<times> pystr \<Rightarrow> archive_state \<Rightarrow> archive_state" where
  "put_object key obj st = st\<lparr>as_objects := (key, obj) # filter (\<lambda>(k, _). k \<noteq> key) (as_objects st)\<rparr>"

definition put_archive_object ::
    "archive_env \<Rightarrow> pystr \<Rightarrow> nat list \<Rightarrow> pystr \<Rightarrow> archive_state \<Rightarrow> archive_state \<times> (pyerr + pystr)" where
  "put_archive_object env uri content content_type st =
     (case parse_archive_uri uri of
        Inl e \<Rightarrow> (st, Inl e)
      | Inr coord \<Rightarrow>
          if ac_bucket coord \<noteq> ae_bucket env then (st, Inl ValueError)
          else case ae_store_error env of
            Some e \<Rightarrow> (st, Inl e)
          | None \<Rightarrow> (put_object (ac_bucket coord, object_name coord) (content, content_type) st, Inr (object_name coord)))"

section \<open>Archiving a payload\<close>

record fetch_result =
  fr_url :: pystr
  fr_status_code :: nat
  fr_content :: "nat list"
  fr_content_type :: pystr
  fr_fetched_at :: py_datetime

record archive_record =
  ar_object_id :: nat
  ar_ingest_run_id :: int
  ar_archive_uri :: pystr
  ar_content_sha256 :: pystr
  ar_byte_size :: nat
  ar_source_url :: pystr
  ar_content_type :: pystr
  ar_source_tier :: int
  ar_created :: bool

definition CONTENT_TYPE_EXT :: "pystr dict" where
  "CONTENT_TYPE_EXT =
     [(lit ''application/json'', lit ''json''), (lit ''application/xml'', lit ''xml''),
      (lit ''application/pdf'', lit ''pdf''), (lit ''text/html'', lit ''html''),
      (lit ''text/xml'', lit ''xml''), (lit ''text/csv'', lit ''csv''), (lit ''text/plain'', lit ''txt'')]"

definition extension_from_content_type :: "pystr \<Rightarrow> pystr" where
  "extension_from_content_type content_type =
     (let base = py_lower (py_strip (takeWhile (\<lambda>c. c \<noteq> 59) content_type))
      in case dget CONTENT_TYPE_EXT base of None \<Rightarrow> lit ''bin'' | Some e \<Rightarrow> e)"

definition find_existing :: "pystr \<Rightarrow> archive_state \<Rightarrow> raw_fetch_object option" where
  "find_existing digest st = find (\<lambda>r. rw_content_sha256 r = digest) (as_rows st)"

text \<open>The constraints of the table: two unique columns, a foreign key and a check.\<close>

definition insert_raw_fetch_object ::
    "archive_env \<Rightarrow> raw_fetch_object \<Rightarrow> archive_state \<Rightarrow> archive_state \<times> (pyerr + unit)" where
  "insert_raw_fetch_object env r st =
     (case ae_insert_error env of
        Some e \<Rightarrow> (st, Inl e)
      | None \<Rightarrow>
          if rw_object_id r \<in> rw_object_id ` set (as_rows st) \<or>
             rw_content_sha256 r \<in> rw_content_sha256 ` set (as_rows st) \<or>
             rw_ingest_run_id r \<notin> set (as_run_ids st) \<or> rw_source_tier r \<notin> {1, 2, 3}
          then (st, Inl DatabaseError)
          else (st\<lparr>as_rows := as_rows st @ [r]\<rparr>, Inr ()))"

definition existing_record :: "fetch_result \<Rightarrow> raw_fetch_object \<Rightarrow> archive_record" where
  "existing_record fr r =
     \<lparr>ar_object_id = rw_object_id r, ar_ingest_run_id = rw_ingest_run_id r, ar_archive_uri = rw_archive_uri r,
      ar_content_sha256 = rw_content_sha256 r, ar_byte_size = rw_byte_size r, ar_source_url = rw_source_url r,
      ar_content_type = (case rw_content_type r of
          None \<Rightarrow> fr_content_type fr | Some t \<Rightarrow> if t = [] then fr_content_type fr else t),
      ar_source_tier = rw_source_tier r, ar_created = False\<rparr>"

definition new_row :: "archive_env \<Rightarrow> pystr \<Rightarrow> pystr \<Rightarrow> fetch_result \<Rightarrow> int \<Rightarrow> int \<Rightarrow> raw_fetch_object" where
  "new_row env uri source_url fr run tier =
     \<lparr>rw_object_id = ae_uuid4 env, rw_ingest_run_id = run, rw_source_url = source_url, rw_archive_uri = uri,
      rw_content_sha256 = ae_sha256 env (fr_content fr), rw_content_type = Some (fr_content_type fr),
      rw_byte_size = length (fr_content fr), rw_source_tier = tier\<rparr>"

definition created_record :: "raw_fetch_object \<Rightarrow> fetch_result \<Rightarrow> archive_record" where
  "created_record r fr =
     \<lparr>ar_object_id = rw_object_id r, ar_ingest_run_id = rw_ingest_run_id r, ar_archive_uri = rw_archive_uri r,
      ar_content_sha256 = rw_content_sha256 r, ar_byte_size = rw_byte_size r, ar_source_url = rw_source_url r,
      ar_content_type = fr_content_type fr, ar_source_tier = rw_source_tier r, ar_created = True\<rparr>"

text \<open>
  The second half of \<open>archive_payload\<close>: build the URI, write the object, then the row. A connection the
  call opened itself (\<open>owns\<close>) is committed at the end; when that raises, the row is gone with it.
\<close>

definition archive_new ::
    "archive_env \<Rightarrow> bool \<Rightarrow> pystr \<Rightarrow> pystr \<Rightarrow> fetch_result \<Rightarrow> int \<Rightarrow> int \<Rightarrow> pystr \<Rightarrow>
     archive_state \<Rightarrow> archive_state \<times> (pyerr + archive_record)" where
  "archive_new env owns source_family source_url fr run tier extension st =
     (case build_archive_uri (ae_sha256 env) (ae_bucket env) source_family (fr_fetched_at fr) (fr_content fr) extension of
        Inl e \<Rightarrow> (st, Inl e)
      | Inr uri \<Rightarrow>
     (case ensure_bucket env None st of
        (st1, Inl e) \<Rightarrow> (st1, Inl e)
      | (st1, Inr _) \<Rightarrow>
     (case put_archive_object env uri (fr_content fr) (fr_content_type fr) st1 of
        (st2, Inl e) \<Rightarrow> (st2, Inl e)
      | (st2, Inr _) \<Rightarrow>
     (let row = new_row env uri source_url fr run tier in
      case insert_raw_fetch_object env row st2 of
        (st3, Inl e) \<Rightarrow> (st3, Inl e)
      | (st3, Inr _) \<Rightarrow>
          (case (owns, ae_commit_error env) of
             (True, Some e) \<Rightarrow> (st2, Inl e)
           | _ \<Rightarrow> (st3, Inr (created_record row fr)))))))"

definition archive_payload ::
    "archive_env \<Rightarrow> bool \<Rightarrow> pystr \<Rightarrow> pystr \<Rightarrow> fetch_result \<Rightarrow> int \<Rightarrow> int \<Rightarrow> pystr option \<Rightarrow>
     archive_state \<Rightarrow> archive_state \<times> (pyerr + archive_record)" where
  "archive_payload env owns source_family source_url fr run tier extension_hint st =
     (if source_family \<notin> set SOURCE_FAMILIES then (st, Inl ValueError)
      else if tier \<notin> {1, 2, 3} then (st, Inl ValueError)
      else
        let digest = ae_sha256 env (fr_content fr);
            extension = (case extension_hint of
                Some h \<Rightarrow> if h = [] then extension_from_content_type (fr_content_type fr) else h
              | None \<Rightarrow> extension_from_content_type (fr_content_type fr))
        in case ae_select_error env of
             Some e \<Rightarrow> (st, Inl e)
           | None \<Rightarrow>
               (case find_existing digest st of
                  Some r \<Rightarrow> (st, Inr (existing_record fr r))
                | None \<Rightarrow> archive_new env owns source_family source_url fr run tier extension st))"

section \<open>Archival is idempotent and content-addressed\<close>

lemmas archive_simps = archive_payload_def archive_new_def ensure_bucket_def put_archive_object_def
  insert_raw_fetch_object_def Let_def

lemma put_object_simps [simp]:
  "as_rows (put_object k v st) = as_rows st" "as_run_ids (put_object k v st) = as_run_ids st"
  "as_buckets (put_object k v st) = as_buckets st" "map_of (as_objects (put_object k v st)) k = Some v"
  "k \<noteq> k' \<Longrightarrow> map_of (as_objects (put_object k v st)) k' = map_of (as_objects st) k'"
proof -
  assume k: "k \<noteq> k'"
  have "map_of (filter (\<lambda>(j, _). j \<noteq> k) os) k' = map_of os k'" for os :: "((pystr \<times> pystr) \<times> (nat list \<times> pystr)) list"
    using k by (induction os) auto
  then show "map_of (as_objects (put_object k v st)) k' = map_of (as_objects st) k'"
    using k by (simp add: put_object_def)
qed (simp_all add: put_object_def)

text \<open>What a successful call leaves behind: the row found, or the row and the object it wrote.\<close>

lemma archive_payload_cases:
  assumes "archive_payload env owns fam url fr run tier hint st = (st', Inr r)"
  obtains (found) row where "find_existing (ae_sha256 env (fr_content fr)) st = Some row" "st' = st"
      "r = existing_record fr row"
  | (created) uri coord row ext where "find_existing (ae_sha256 env (fr_content fr)) st = None"
      "build_archive_uri (ae_sha256 env) (ae_bucket env) fam (fr_fetched_at fr) (fr_content fr) ext = Inr uri"
      "parse_archive_uri uri = Inr coord" "ac_bucket coord = ae_bucket env"
      "row = new_row env uri url fr run tier" "r = created_record row fr" "as_rows st' = as_rows st @ [row]"
      "rw_object_id row \<notin> rw_object_id ` set (as_rows st)"
      "rw_content_sha256 row \<notin> rw_content_sha256 ` set (as_rows st)" "run \<in> set (as_run_ids st)"
      "tier \<in> {1, 2, 3}" "as_run_ids st' = as_run_ids st"
      "as_objects st' = as_objects (put_object (ac_bucket coord, object_name coord) (fr_content fr, fr_content_type fr) st)"
      "fam \<in> set SOURCE_FAMILIES"
proof (cases "find_existing (ae_sha256 env (fr_content fr)) st")
  case (Some row)
  then show thesis using assms found by (auto simp: archive_payload_def Let_def split: if_splits option.splits)
next
  case None
  then obtain ext where new: "archive_new env owns fam url fr run tier ext st = (st', Inr r)"
    and ok: "fam \<in> set SOURCE_FAMILIES" "tier \<in> {1, 2, 3}"
    using assms by (auto simp: archive_payload_def Let_def split: if_splits option.splits)
  from new obtain uri where u: "build_archive_uri (ae_sha256 env) (ae_bucket env) fam (fr_fetched_at fr) (fr_content fr) ext = Inr uri"
    by (auto simp: archive_new_def split: sum.splits)
  obtain st1 b where b: "ensure_bucket env None st = (st1, Inr b)"
    using new u by (auto simp: archive_new_def split: sum.splits prod.splits)
  obtain st2 nm where p: "put_archive_object env uri (fr_content fr) (fr_content_type fr) st1 = (st2, Inr nm)"
    using new u b by (auto simp: archive_new_def split: sum.splits prod.splits)
  let ?row = "new_row env uri url fr run tier"
  have i: "insert_raw_fetch_object env ?row st2 = (st', Inr ()) \<and> r = created_record ?row fr"
    using new u b p by (auto simp: archive_new_def Let_def split: sum.splits prod.splits option.splits bool.splits)
  obtain coord where c: "parse_archive_uri uri = Inr coord" "ac_bucket coord = ae_bucket env"
    "st2 = put_object (ac_bucket coord, object_name coord) (fr_content fr, fr_content_type fr) st1"
    using p by (auto simp: put_archive_object_def split: sum.splits if_splits option.splits)
  have "as_rows st1 = as_rows st" "as_objects st1 = as_objects st" "as_run_ids st1 = as_run_ids st"
    using b by (auto simp: ensure_bucket_def Let_def split: option.splits if_splits)
  then show thesis
    using i c None u ok
    by (intro created [of ext uri coord ?row])
      (auto simp: insert_raw_fetch_object_def put_object_def new_row_def split: option.splits if_splits)
qed

lemma archived_then_found:
  assumes "archive_payload env owns fam url fr run tier hint st = (st', Inr r)"
  shows "\<exists>row. find_existing (ae_sha256 env (fr_content fr)) st' = Some row \<and> rw_object_id row = ar_object_id r \<and>
    rw_ingest_run_id row = ar_ingest_run_id r \<and> rw_archive_uri row = ar_archive_uri r \<and>
    rw_content_sha256 row = ar_content_sha256 r \<and> rw_byte_size row = ar_byte_size r \<and>
    rw_source_url row = ar_source_url r \<and> rw_source_tier row = ar_source_tier r"
  using assms
proof (cases rule: archive_payload_cases)
  case (found row)
  then show ?thesis by (simp add: existing_record_def)
next
  case (created uri coord row ext)
  have "find (\<lambda>r. rw_content_sha256 r = ae_sha256 env (fr_content fr)) (as_rows st @ [row]) = Some row"
    using created(1,5) by (auto simp: find_existing_def find_None_iff new_row_def find_Some_iff nth_append)
  then show ?thesis using created by (simp add: find_existing_def created_record_def new_row_def)
qed

text \<open>
  Connections. A call without a connection opens one of its own, which sees what is committed; a call on the caller's also
  sees the rows and runs of the caller's open transaction. The object store has no transactions.
\<close>

record archive_db =
  ad_committed :: archive_state
  ad_open_rows :: "raw_fetch_object list"
  ad_open_runs :: "int list"

definition caller_view :: "archive_db \<Rightarrow> archive_state" where
  "caller_view db = (ad_committed db)\<lparr>as_rows := as_rows (ad_committed db) @ ad_open_rows db,
     as_run_ids := as_run_ids (ad_committed db) @ ad_open_runs db\<rparr>"

definition commit_caller :: "archive_db \<Rightarrow> archive_db" where
  "commit_caller db = \<lparr>ad_committed = caller_view db, ad_open_rows = [], ad_open_runs = []\<rparr>"

text \<open>Whether a call gets as far as its \<open>INSERT\<close>.\<close>

definition reaches_insert ::
    "archive_env \<Rightarrow> pystr \<Rightarrow> fetch_result \<Rightarrow> int \<Rightarrow> pystr option \<Rightarrow> archive_state \<Rightarrow> bool" where
  "reaches_insert env source_family fr tier extension_hint st \<longleftrightarrow>
     source_family \<in> set SOURCE_FAMILIES \<and> tier \<in> {1, 2, 3} \<and> ae_select_error env = None \<and> ae_store_error env = None \<and>
     find_existing (ae_sha256 env (fr_content fr)) st = None \<and>
     (case build_archive_uri (ae_sha256 env) (ae_bucket env) source_family (fr_fetched_at fr) (fr_content fr)
         (case extension_hint of
            Some h \<Rightarrow> if h = [] then extension_from_content_type (fr_content_type fr) else h
          | None \<Rightarrow> extension_from_content_type (fr_content_type fr)) of
        Inl e \<Rightarrow> False
      | Inr uri \<Rightarrow> (case parse_archive_uri uri of Inl e \<Rightarrow> False | Inr c \<Rightarrow> ac_bucket c = ae_bucket env))"

text \<open>
  \<open>archive_payload\<close> against the two views. An insert of a digest that the caller's transaction has inserted waits for that
  transaction, which the waiting process itself holds: the call does not return.
\<close>

definition archive_call ::
    "archive_env \<Rightarrow> bool \<Rightarrow> pystr \<Rightarrow> pystr \<Rightarrow> fetch_result \<Rightarrow> int \<Rightarrow> int \<Rightarrow> pystr option \<Rightarrow> archive_db \<Rightarrow>
     (archive_db \<times> (pyerr + archive_record)) option" where
  "archive_call env owns source_family source_url fr run tier extension_hint db =
     (if owns then
        if reaches_insert env source_family fr tier extension_hint (ad_committed db) \<and>
           ae_sha256 env (fr_content fr) \<in> rw_content_sha256 ` set (ad_open_rows db)
        then None
        else (case archive_payload env True source_family source_url fr run tier extension_hint (ad_committed db) of
            (st, r) \<Rightarrow> Some (db\<lparr>ad_committed := st\<rparr>, r))
      else (case archive_payload env False source_family source_url fr run tier extension_hint (caller_view db) of
          (st, r) \<Rightarrow> Some
            (db\<lparr>ad_committed := (ad_committed db)\<lparr>as_buckets := as_buckets st, as_objects := as_objects st\<rparr>,
                ad_open_rows := drop (length (as_rows (ad_committed db))) (as_rows st)\<rparr>, r)))"

text \<open>What a call on the caller's connection leaves is what the next call on it sees.\<close>

lemma caller_view_after:
  assumes "archive_payload env owns fam url fr run tier hint (caller_view db) = (st, Inr r)"
  shows "caller_view (db\<lparr>ad_committed := (ad_committed db)\<lparr>as_buckets := as_buckets st, as_objects := as_objects st\<rparr>,
      ad_open_rows := drop (length (as_rows (ad_committed db))) (as_rows st)\<rparr>) = st"
proof -
  have "as_run_ids st = as_run_ids (caller_view db)" "\<exists>xs. as_rows st = as_rows (caller_view db) @ xs"
    using assms by (cases rule: archive_payload_cases; simp)+
  then show ?thesis by (auto simp: caller_view_def intro!: archive_state.equality)
qed

lemma found_in_caller_view:
  "find_existing d (ad_committed db) = Some row \<Longrightarrow> find_existing d (caller_view db) = Some row"
  by (auto simp: find_existing_def caller_view_def find_Some_iff nth_append)

text \<open>A payload that the call's connection sees is answered from its row.\<close>

lemma archive_call_known:
  assumes "find_existing (ae_sha256 env (fr_content fr)) (if owns then ad_committed db else caller_view db) = Some row"
    and "ae_select_error env = None" "fam \<in> set SOURCE_FAMILIES" "tier \<in> {1, 2, 3}"
  shows "archive_call env owns fam url fr run tier hint db = Some (db, Inr (existing_record fr row))"
  using assms by (cases owns) (auto simp: archive_call_def archive_payload_def reaches_insert_def caller_view_def Let_def)

lemma archive_call_found:
  assumes "archive_call env owns fam url fr run tier hint db = Some (db1, Inr r)"
  shows "\<exists>row. find_existing (ae_sha256 env (fr_content fr)) (if owns then ad_committed db1 else caller_view db1) = Some row \<and>
    rw_object_id row = ar_object_id r \<and> rw_ingest_run_id row = ar_ingest_run_id r \<and> rw_archive_uri row = ar_archive_uri r \<and>
    rw_content_sha256 row = ar_content_sha256 r \<and> rw_byte_size row = ar_byte_size r \<and>
    rw_source_url row = ar_source_url r \<and> rw_source_tier row = ar_source_tier r"
proof (cases owns)
  case True
  then obtain st where "archive_payload env True fam url fr run tier hint (ad_committed db) = (st, Inr r)" "db1 = db\<lparr>ad_committed := st\<rparr>"
    using assms by (auto simp: archive_call_def split: if_splits prod.splits)
  then show ?thesis using archived_then_found True by fastforce
next
  case False
  then obtain st where st: "archive_payload env False fam url fr run tier hint (caller_view db) = (st, Inr r)"
    "db1 = db\<lparr>ad_committed := (ad_committed db)\<lparr>as_buckets := as_buckets st, as_objects := as_objects st\<rparr>,
      ad_open_rows := drop (length (as_rows (ad_committed db))) (as_rows st)\<rparr>"
    using assms by (auto simp: archive_call_def split: prod.splits)
  then have "caller_view db1 = st" using caller_view_after by simp
  then show ?thesis using archived_then_found [OF st(1)] False by simp
qed

text \<open>Claim C23.
  Archiving is idempotent by content, wherever the first call can be seen: once a payload has been archived, archiving the
  same bytes again, from any URL, at any time and in any run, touches neither the store nor the table and returns the same
  record with \<open>created\<close> off. The first call is seen by every later one if it committed on a connection of its own, by those
  on the caller's connection, and by all once the caller has committed.\<close>

theorem archive_payload_idempotent:
  assumes "archive_call env owns fam url fr run tier hint db = Some (db1, Inr r)"
    and "db2 = db1 \<and> (owns \<or> \<not> owns') \<or> db2 = commit_caller db1"
    and "fr_content fr' = fr_content fr" "ae_sha256 env' = ae_sha256 env" "ae_select_error env' = None"
    and "fam' \<in> set SOURCE_FAMILIES" "tier' \<in> {1, 2, 3}"
  shows "\<exists>r'. archive_call env' owns' fam' url' fr' run' tier' hint' db2 = Some (db2, Inr r') \<and> \<not> ar_created r' \<and>
    ar_object_id r' = ar_object_id r \<and> ar_archive_uri r' = ar_archive_uri r \<and>
    ar_content_sha256 r' = ar_content_sha256 r \<and> ar_byte_size r' = ar_byte_size r \<and>
    ar_ingest_run_id r' = ar_ingest_run_id r \<and> ar_source_url r' = ar_source_url r \<and> ar_source_tier r' = ar_source_tier r"
proof -
  obtain row where row: "find_existing (ae_sha256 env (fr_content fr)) (if owns then ad_committed db1 else caller_view db1) = Some row"
    "rw_object_id row = ar_object_id r" "rw_ingest_run_id row = ar_ingest_run_id r" "rw_archive_uri row = ar_archive_uri r"
    "rw_content_sha256 row = ar_content_sha256 r" "rw_byte_size row = ar_byte_size r"
    "rw_source_url row = ar_source_url r" "rw_source_tier row = ar_source_tier r"
    using archive_call_found [OF assms(1)] by blast
  then have caller: "find_existing (ae_sha256 env (fr_content fr)) (caller_view db1) = Some row"
    using found_in_caller_view by (cases owns) auto
  have "caller_view (commit_caller db1) = caller_view db1" by (simp add: commit_caller_def caller_view_def)
  then have "find_existing (ae_sha256 env' (fr_content fr')) (if owns' then ad_committed db2 else caller_view db2) = Some row"
    using assms(2-4) row(1) caller by (auto simp: commit_caller_def split: if_splits)
  from archive_call_known [OF this assms(5-7)] show ?thesis using row(2-) by (simp add: existing_record_def)
qed

text \<open>The remaining case is not idempotent: a second connection does not see an open transaction, and waits for it for ever.\<close>

lemma second_connection_waits:
  assumes "archive_call env False fam url fr run tier hint db = Some (db1, Inr r)" "ar_created r"
    and "reaches_insert env' fam' fr tier' hint' (ad_committed db1)" "ae_sha256 env' = ae_sha256 env"
  shows "archive_call env' True fam' url' fr run' tier' hint' db1 = None"
proof -
  obtain st where st: "archive_payload env False fam url fr run tier hint (caller_view db) = (st, Inr r)"
    "db1 = db\<lparr>ad_committed := (ad_committed db)\<lparr>as_buckets := as_buckets st, as_objects := as_objects st\<rparr>,
      ad_open_rows := drop (length (as_rows (ad_committed db))) (as_rows st)\<rparr>"
    using assms(1) by (auto simp: archive_call_def split: prod.splits)
  obtain row where "as_rows st = as_rows (caller_view db) @ [row]" "rw_content_sha256 row = ae_sha256 env (fr_content fr)"
    using st(1) by (cases rule: archive_payload_cases) (use assms(2) in \<open>auto simp: existing_record_def new_row_def\<close>)
  then have "ae_sha256 env' (fr_content fr) \<in> rw_content_sha256 ` set (ad_open_rows db1)"
    using assms(4) by (auto simp: st(2) caller_view_def)
  then show ?thesis using assms(3) by (simp add: archive_call_def)
qed

text \<open>
  The invariant: digests and object ids are unique, every row belongs to a known run, and its URI leads to
  an object whose bytes have the digest that both the row and the URI carry.
\<close>

definition row_backed :: "(nat list \<Rightarrow> pystr) \<Rightarrow> archive_state \<Rightarrow> raw_fetch_object \<Rightarrow> bool" where
  "row_backed sha st r \<longleftrightarrow> rw_ingest_run_id r \<in> set (as_run_ids st) \<and> rw_source_tier r \<in> {1, 2, 3} \<and>
     (\<exists>c content ctype. parse_archive_uri (rw_archive_uri r) = Inr c \<and> ac_sha256 c = rw_content_sha256 r \<and>
        map_of (as_objects st) (ac_bucket c, object_name c) = Some (content, ctype) \<and> sha content = rw_content_sha256 r)"

definition archive_ok :: "(nat list \<Rightarrow> pystr) \<Rightarrow> archive_state \<Rightarrow> bool" where
  "archive_ok sha st \<longleftrightarrow> distinct (map rw_content_sha256 (as_rows st)) \<and> distinct (map rw_object_id (as_rows st)) \<and>
     list_all (row_backed sha st) (as_rows st)"

text \<open>An object name determines its coordinate, so an overwrite can only replace bytes of the same digest.\<close>

lemma object_name_inj:
  assumes "parse_archive_uri u = Inr c" "parse_archive_uri u' = Inr c'"
    "ac_bucket c = ac_bucket c'" "object_name c = object_name c'"
  shows "c = c'"
proof -
  have "parse_archive_uri (coord_uri c) = Inr c" "parse_archive_uri (coord_uri c') = Inr c'"
    using parse_archive_uri_canonical assms(1,2) by blast+
  moreover have "coord_uri c = coord_uri c'" using assms(3,4) by (simp add: coord_uri_def)
  ultimately show ?thesis by (metis sum.inject(2))
qed

lemma row_backed_put:
  assumes "row_backed sha st r" "parse_archive_uri u = Inr coord" "ac_sha256 coord = sha content"
    and "as_objects st' = as_objects (put_object (ac_bucket coord, object_name coord) (content, ctype) st)"
    and "as_run_ids st' = as_run_ids st"
  shows "row_backed sha st' r"
proof -
  obtain c cont ct where c: "parse_archive_uri (rw_archive_uri r) = Inr c" "ac_sha256 c = rw_content_sha256 r"
    "map_of (as_objects st) (ac_bucket c, object_name c) = Some (cont, ct)" "sha cont = rw_content_sha256 r"
    using assms(1) by (auto simp: row_backed_def)
  show ?thesis
  proof (cases "ac_bucket c = ac_bucket coord \<and> object_name c = object_name coord")
    case True
    then have "c = coord" using object_name_inj [OF c(1) assms(2)] by simp
    then show ?thesis using assms c by (auto simp: row_backed_def)
  next
    case False
    then show ?thesis using assms c by (auto simp: row_backed_def)
  qed
qed

lemma archive_new_effect:
  assumes "archive_new env owns fam url fr run tier ext st = (st', res)"
    and "bucket_ok (ae_bucket env)" "sha_ok (ae_sha256 env (fr_content fr))"
    and "\<And>d. fr_fetched_at fr = Aware d \<Longrightarrow> valid_date d" "tier \<in> {1, 2, 3}"
  shows "as_run_ids st' = as_run_ids st \<and>
    ((as_objects st' = as_objects st \<and> as_rows st' = as_rows st) \<or>
     (\<exists>uri coord. parse_archive_uri uri = Inr coord \<and> ac_sha256 coord = ae_sha256 env (fr_content fr) \<and>
        as_objects st' = as_objects (put_object (ac_bucket coord, object_name coord) (fr_content fr, fr_content_type fr) st) \<and>
        (as_rows st' = as_rows st \<or>
         (let row = new_row env uri url fr run tier in as_rows st' = as_rows st @ [row] \<and>
            rw_object_id row \<notin> rw_object_id ` set (as_rows st) \<and>
            rw_content_sha256 row \<notin> rw_content_sha256 ` set (as_rows st) \<and> run \<in> set (as_run_ids st)))))"
proof (cases "build_archive_uri (ae_sha256 env) (ae_bucket env) fam (fr_fetched_at fr) (fr_content fr) ext")
  case (Inl e)
  then show ?thesis using assms(1) by (simp add: archive_new_def)
next
  case (Inr uri)
  then obtain d where d: "fr_fetched_at fr = Aware d" by (auto simp: build_archive_uri_def split: if_splits py_datetime.splits)
  obtain coord where coord: "parse_archive_uri uri = Inr coord" "ac_bucket coord = ae_bucket env"
    "ac_sha256 coord = ae_sha256 env (fr_content fr)"
  proof -
    obtain y m dd where dd: "d = (y, m, dd)" by (cases d)
    show thesis
    proof (rule build_parse [of "ae_sha256 env" "ae_bucket env" fam y m dd "fr_content fr" ext uri])
      show "build_archive_uri (ae_sha256 env) (ae_bucket env) fam (Aware (y, m, dd)) (fr_content fr) ext = Inr uri"
        using Inr d dd by simp
      show "valid_date (y, m, dd)" using assms(4) d dd by blast
    qed (use assms(2,3) that in simp_all)
  qed
  show ?thesis
  proof (cases "ae_store_error env")
    case (Some e)
    then show ?thesis using assms(1) Inr by (simp add: archive_new_def ensure_bucket_def)
  next
    case None
    obtain st1 b where b: "ensure_bucket env None st = (st1, Inr b)"
      using None by (simp add: ensure_bucket_def Let_def)
    then have st1: "as_rows st1 = as_rows st" "as_objects st1 = as_objects st" "as_run_ids st1 = as_run_ids st"
      by (auto simp: ensure_bucket_def Let_def split: option.splits if_splits)
    let ?st2 = "put_object (ac_bucket coord, object_name coord) (fr_content fr, fr_content_type fr) st1"
    have p: "put_archive_object env uri (fr_content fr) (fr_content_type fr) st1 = (?st2, Inr (object_name coord))"
      using coord None by (simp add: put_archive_object_def)
    have "as_objects ?st2 = as_objects (put_object (ac_bucket coord, object_name coord) (fr_content fr, fr_content_type fr) st)"
      using st1 by (simp add: put_object_def)
    moreover have "as_run_ids st' = as_run_ids st \<and> as_objects st' = as_objects ?st2 \<and>
      (as_rows st' = as_rows st \<or> (let row = new_row env uri url fr run tier in as_rows st' = as_rows st @ [row] \<and>
            rw_object_id row \<notin> rw_object_id ` set (as_rows st) \<and>
            rw_content_sha256 row \<notin> rw_content_sha256 ` set (as_rows st) \<and> run \<in> set (as_run_ids st)))"
      using assms(1,5) st1
      by (auto simp: archive_new_def Inr b p insert_raw_fetch_object_def Let_def new_row_def
          split: option.splits if_splits bool.splits)
    ultimately show ?thesis using coord(1,3) by (simp only: Let_def) metis
  qed
qed

lemma archive_payload_ok:
  assumes "archive_ok (ae_sha256 env) st"
    and "archive_payload env owns fam url fr run tier hint st = (st', res)"
    and "bucket_ok (ae_bucket env)" "sha_ok (ae_sha256 env (fr_content fr))"
    and "\<And>d. fr_fetched_at fr = Aware d \<Longrightarrow> valid_date d"
  shows "archive_ok (ae_sha256 env) st'"
proof (cases "st' = st")
  case True
  then show ?thesis using assms(1) by simp
next
  case False
  let ?sha = "ae_sha256 env"
  obtain ext where "archive_new env owns fam url fr run tier ext st = (st', res)" and t: "tier \<in> {1, 2, 3}"
    using assms(2) False by (auto simp: archive_payload_def Let_def split: if_splits option.splits)
  note eff = archive_new_effect [OF this(1) assms(3-5) t]
  note ok = assms(1) [unfolded archive_ok_def]
  consider (same) "as_objects st' = as_objects st" "as_rows st' = as_rows st" "as_run_ids st' = as_run_ids st"
    | (put) uri coord where "parse_archive_uri uri = Inr coord" "ac_sha256 coord = ?sha (fr_content fr)"
        "as_objects st' = as_objects (put_object (ac_bucket coord, object_name coord) (fr_content fr, fr_content_type fr) st)"
        "as_run_ids st' = as_run_ids st"
        "as_rows st' = as_rows st \<or>
         (let row = new_row env uri url fr run tier in as_rows st' = as_rows st @ [row] \<and>
            rw_object_id row \<notin> rw_object_id ` set (as_rows st) \<and>
            rw_content_sha256 row \<notin> rw_content_sha256 ` set (as_rows st) \<and> run \<in> set (as_run_ids st))"
    using eff by blast
  then show ?thesis
  proof cases
    case same
    then have "row_backed ?sha st' r = row_backed ?sha st r" for r by (simp add: row_backed_def)
    then show ?thesis using ok same by (simp add: archive_ok_def list_all_iff)
  next
    case put
    have old: "row_backed ?sha st' r" if "r \<in> set (as_rows st)" for r
      using that ok row_backed_put [of ?sha st r, OF _ put(1-4)] by (auto simp: list_all_iff)
    have new: "row_backed ?sha st' (new_row env uri url fr run tier)" if "run \<in> set (as_run_ids st)"
      using that put(1-4) t by (auto simp: row_backed_def new_row_def)
    show ?thesis using put(5) ok old new by (auto simp: archive_ok_def list_all_iff Let_def)
  qed
qed

text \<open>Claim C24.
  Every archival call, whether it succeeds or one of its steps raises, keeps the archive content-addressed:
  one row per digest, and every row's URI leads to stored bytes with the digest of the row. A failed insert
  can leave an object without a row, never a row without its object.\<close>

theorem archive_ok_preserved:
  assumes "archive_ok (ae_sha256 env) st"
    and "archive_payload env owns fam url fr run tier hint st = (st', res)"
    and "bucket_ok (ae_bucket env)" "sha_ok (ae_sha256 env (fr_content fr))"
    and "\<And>d. fr_fetched_at fr = Aware d \<Longrightarrow> valid_date d"
  shows "archive_ok (ae_sha256 env) st'"
  using assms by (rule archive_payload_ok)

section \<open>Fetching\<close>

text \<open>
  One response of the HTTP client: status, body and the two headers the code reads. \<open>pf\<close> is \<open>float\<close> on
  a string, \<open>None\<close> where it raises \<open>ValueError\<close>; \<open>time.sleep\<close> raises \<open>ValueError\<close> on a negative duration.
\<close>

record http_response =
  hr_status :: nat
  hr_content :: "nat list"
  hr_retry_after :: "pystr option"
  hr_content_type :: "pystr option"

text \<open>The client answers each GET with the next of its responses, or raises; the count of GETs is threaded.\<close>

type_synonym http_client = "nat \<Rightarrow> pystr \<Rightarrow> pyerr + http_response"

definition retry_wait :: "(pystr \<Rightarrow> rat option) \<Rightarrow> pystr \<Rightarrow> rat" where
  "retry_wait pf header = min (case pf header of None \<Rightarrow> 1 | Some w \<Rightarrow> w) 30"

definition needs_retry :: "http_response \<Rightarrow> pystr option" where
  "needs_retry r = (if hr_status r = 429 then hr_retry_after r else None)"

definition finish_fetch :: "pystr \<Rightarrow> bool \<Rightarrow> py_datetime \<Rightarrow> http_response \<Rightarrow> pyerr + fetch_result" where
  "finish_fetch url allow_error now r =
     (if \<not> allow_error \<and> hr_status r \<ge> 400 then Inl (HTTPException (hr_status r))
      else Inr \<lparr>fr_url = url, fr_status_code = hr_status r, fr_content = hr_content r,
        fr_content_type = (case hr_content_type r of None \<Rightarrow> lit ''application/octet-stream'' | Some t \<Rightarrow> t),
        fr_fetched_at = now\<rparr>)"

definition fetch ::
    "(pystr \<Rightarrow> rat option) \<Rightarrow> http_client \<Rightarrow> date \<Rightarrow> nat \<Rightarrow> pystr \<Rightarrow> bool \<Rightarrow> nat \<times> (pyerr + fetch_result)" where
  "fetch pf client today n url allow_error =
     (case client n url of
        Inl e \<Rightarrow> (n + 1, Inl e)
      | Inr r \<Rightarrow>
          (case needs_retry r of
             None \<Rightarrow> (n + 1, finish_fetch url allow_error (Aware today) r)
           | Some header \<Rightarrow>
               if retry_wait pf header < 0 then (n + 1, Inl ValueError)
               else case client (n + 1) url of
                 Inl e \<Rightarrow> (n + 2, Inl e)
               | Inr r' \<Rightarrow> (n + 2, finish_fetch url allow_error (Aware today) r')))"

text \<open>
  At most two requests are made, and a result is an answer below 400 unless errors are allowed. A redirect
  that the client does not follow (a 3xx without a location) is a result, although the documentation says
  every answer outside 2xx raises.
\<close>

lemma fetch_spec:
  assumes "fetch pf client today n url allow_error = (n', res)"
  shows "n < n' \<and> n' \<le> n + 2 \<and>
    (\<forall>fr. res = Inr fr \<longrightarrow> fr_url fr = url \<and> fr_fetched_at fr = Aware today \<and>
       (allow_error \<or> fr_status_code fr < 400) \<and>
       (\<exists>r. client (n' - 1) url = Inr r \<and> fr_content fr = hr_content r \<and> fr_status_code fr = hr_status r))"
  using assms
  by (auto simp: fetch_def finish_fetch_def split: sum.splits option.splits if_splits)

lemma fetch_not_2xx:
  "fetch pf (\<lambda>n u. Inr \<lparr>hr_status = 304, hr_content = [], hr_retry_after = None, hr_content_type = None\<rparr>) today n url False =
     (n + 1, Inr \<lparr>fr_url = url, fr_status_code = 304, fr_content = [],
        fr_content_type = lit ''application/octet-stream'', fr_fetched_at = Aware today\<rparr>)"
  by (simp add: fetch_def needs_retry_def finish_fetch_def)

section \<open>Truncating a capture\<close>

text \<open>\<open>bytes.splitlines(keepends=True)\<close>: a line ends after a line feed, a carriage return, or both.\<close>

function splitlines_keep :: "nat list \<Rightarrow> nat list list" where
  "splitlines_keep bs =
     (if bs = [] then []
      else
        let line = takeWhile (\<lambda>b. b \<noteq> 10 \<and> b \<noteq> 13) bs; rest = dropWhile (\<lambda>b. b \<noteq> 10 \<and> b \<noteq> 13) bs
        in case rest of
             [] \<Rightarrow> [line]
           | b # r \<Rightarrow>
               if b = 13 \<and> r \<noteq> [] \<and> hd r = 10 then (line @ [13, 10]) # splitlines_keep (tl r)
               else (line @ [b]) # splitlines_keep r)"
  by pat_completeness auto
termination
proof (relation "measure length", goal_cases)
  case (2 bs line rest b r)
  then have "length (b # r) \<le> length bs" by (metis length_dropWhile_le)
  then show ?case by (cases r) auto
next
  case (3 bs line rest b r)
  then have "length (b # r) \<le> length bs" by (metis length_dropWhile_le)
  then show ?case by simp
qed simp

declare splitlines_keep.simps [simp del]

text \<open>\<open>xs[:k]\<close>: a negative bound counts from the end.\<close>

definition py_take :: "int \<Rightarrow> 'a list \<Rightarrow> 'a list" where
  "py_take k xs = (if 0 \<le> k then take (nat k) xs else take (length xs - nat (- k)) xs)"

definition truncate_capture :: "nat list \<Rightarrow> int option \<Rightarrow> int option \<Rightarrow> nat list" where
  "truncate_capture content max_bytes max_lines =
     (let content' = (case max_lines of None \<Rightarrow> content | Some n \<Rightarrow> concat (py_take n (splitlines_keep content)))
      in case max_bytes of
           None \<Rightarrow> content'
         | Some k \<Rightarrow> if int (length content') > k then py_take k content' else content')"

lemma concat_splitlines_keep: "concat (splitlines_keep bs) = bs"
proof (induction bs rule: splitlines_keep.induct)
  case (1 bs)
  have e: "takeWhile (\<lambda>b. b \<noteq> 10 \<and> b \<noteq> 13) bs @ dropWhile (\<lambda>b. b \<noteq> 10 \<and> b \<noteq> 13) bs = bs" by simp
  show ?case
  proof (cases "dropWhile (\<lambda>b. b \<noteq> 10 \<and> b \<noteq> 13) bs")
    case Nil
    then have "takeWhile (\<lambda>b. b \<noteq> 10 \<and> b \<noteq> 13) bs = bs" using e by simp
    then have "splitlines_keep bs = (if bs = [] then [] else [bs])"
      unfolding splitlines_keep.simps [of bs] Let_def Nil by simp
    then show ?thesis by simp
  next
    case (Cons b r)
    then have "bs \<noteq> []" by auto
    have hd_tl: "r \<noteq> [] \<Longrightarrow> hd r # tl r = r" by simp
    show ?thesis
    proof (cases "b = 13 \<and> r \<noteq> [] \<and> hd r = 10")
      case True
      then have "r = 10 # tl r" using hd_tl by metis
      then have "takeWhile (\<lambda>b. b \<noteq> 10 \<and> b \<noteq> 13) bs @ 13 # 10 # tl r = bs" using e Cons True by metis
      then show ?thesis using 1(1) \<open>bs \<noteq> []\<close> Cons True
        by (simp add: splitlines_keep.simps [of bs] Let_def)
    next
      case False
      then show ?thesis using 1(2) \<open>bs \<noteq> []\<close> Cons e
        by (auto simp: splitlines_keep.simps [of bs] Let_def)
    qed
  qed
qed

lemma py_take_prefix: "\<exists>ys. xs = py_take k xs @ ys"
  unfolding py_take_def by (metis append_take_drop_id)

text \<open>A recorded cassette is a prefix of the payload, within the byte bound when one is given.\<close>

lemma truncate_capture_prefix:
  "\<exists>rest. content = truncate_capture content max_bytes max_lines @ rest"
  "0 \<le> k \<Longrightarrow> int (length (truncate_capture content (Some k) max_lines)) \<le> k"
proof -
  define c' where "c' = (case max_lines of None \<Rightarrow> content | Some n \<Rightarrow> concat (py_take n (splitlines_keep content)))"
  have c': "\<exists>r. content = c' @ r"
  proof (cases max_lines)
    case (Some n)
    obtain ys where "splitlines_keep content = py_take n (splitlines_keep content) @ ys" using py_take_prefix by blast
    then show ?thesis using concat_splitlines_keep [of content] Some by (metis c'_def concat_append option.simps(5))
  qed (simp add: c'_def)
  have t: "truncate_capture content mb max_lines =
      (case mb of None \<Rightarrow> c' | Some k \<Rightarrow> if int (length c') > k then py_take k c' else c')" for mb
    unfolding truncate_capture_def c'_def [symmetric] Let_def ..
  show "\<exists>rest. content = truncate_capture content max_bytes max_lines @ rest"
    using c' py_take_prefix [of c'] unfolding t by (cases max_bytes) (auto, metis append.assoc)
  show "0 \<le> k \<Longrightarrow> int (length (truncate_capture content (Some k) max_lines)) \<le> k"
    unfolding t by (auto simp: py_take_def)
qed

section \<open>Concrete inputs\<close>

definition sample_sha :: "nat list \<Rightarrow> pystr" where
  "sample_sha content = replicate 63 48 @ [48 + length content mod 10]"

definition sample_env :: archive_env where
  "sample_env = \<lparr>ae_sha256 = sample_sha, ae_bucket = lit ''archive'', ae_uuid4 = 7, ae_store_error = None,
     ae_select_error = None, ae_insert_error = None, ae_commit_error = None\<rparr>"

definition sample_fetch :: fetch_result where
  "sample_fetch = \<lparr>fr_url = lit ''u'', fr_status_code = 200, fr_content = [123, 125],
     fr_content_type = lit ''application/json; charset=utf-8'', fr_fetched_at = Aware (2024, 2, 29)\<rparr>"

definition empty_archive :: archive_state where
  "empty_archive = \<lparr>as_buckets = [], as_objects = [], as_rows = [], as_run_ids = [1]\<rparr>"

lemma sample_facts:
  "sha_ok (sample_sha c)" "bucket_ok (lit ''archive'')" "valid_date (2024, 2, 29)"
  "normalize_extension (lit ''.JSON'') = Inr (lit ''json'')" "normalize_extension (lit ''json'') = Inr (lit ''json'')"
  by (auto simp: sha_ok_def sample_sha_def list_all_iff bucket_ok_def ext_char_def days_in_month_def leap_def lit_def
      normalize_extension_def py_strip_def py_lstrip_def py_rstrip_def is_space_def py_lower_def lower_char_def)

lemma archive_uri_roundtrip_witness:
  "\<exists>uri c. build_archive_uri sample_sha (lit ''archive'') (lit ''knesset'') (Aware (2024, 2, 29)) [1, 2] (lit ''.JSON'') = Inr uri \<and>
     parse_archive_uri uri = Inr c \<and> coord_uri c = uri"
proof -
  obtain uri where u: "build_archive_uri sample_sha (lit ''archive'') (lit ''knesset'') (Aware (2024, 2, 29)) [1, 2] (lit ''.JSON'') = Inr uri"
    by (simp add: build_archive_uri_def SOURCE_FAMILIES_def sample_facts)
  from archive_uri_roundtrip [OF u sample_facts(3,2,1)] u show ?thesis by blast
qed

lemma sample_archived:
  "\<exists>st r. archive_payload sample_env False (lit ''knesset'') (lit ''u'') sample_fetch 1 1 None empty_archive = (st, Inr r) \<and>
     ar_created r \<and> length (as_rows st) = 1"
proof -
  have ext: "extension_from_content_type (lit ''application/json; charset=utf-8'') = lit ''json''"
    by (simp add: extension_from_content_type_def CONTENT_TYPE_EXT_def lit_def py_strip_def
        py_lstrip_def py_rstrip_def is_space_def py_lower_def lower_char_def)
  obtain uri where u: "build_archive_uri sample_sha (lit ''archive'') (lit ''knesset'') (Aware (2024, 2, 29)) [123, 125] (lit ''json'') = Inr uri"
    by (simp add: build_archive_uri_def SOURCE_FAMILIES_def sample_facts)
  obtain e where "parse_archive_uri uri = Inr \<lparr>ac_bucket = lit ''archive'', ac_source_family = lit ''knesset'', ac_year = 2024,
      ac_month = 2, ac_day = 29, ac_sha256 = sample_sha [123, 125], ac_extension = e\<rparr>"
    using build_parse [OF u sample_facts(3,2,1)] by blast
  then show ?thesis using u
    by (simp add: archive_payload_def archive_new_def ext SOURCE_FAMILIES_def sample_env_def find_existing_def
        empty_archive_def sample_fetch_def ensure_bucket_def put_archive_object_def insert_raw_fetch_object_def
        put_object_def new_row_def created_record_def Let_def)
qed

text \<open>A call on the caller's connection, then one on it again, and one on a new connection after the commit.\<close>

definition sample_db :: archive_db where
  "sample_db = \<lparr>ad_committed = empty_archive, ad_open_rows = [], ad_open_runs = []\<rparr>"

lemma archive_payload_idempotent_witness:
  "\<exists>db r r' r''. archive_call sample_env False (lit ''knesset'') (lit ''u'') sample_fetch 1 1 None sample_db = Some (db, Inr r) \<and>
     ar_created r \<and>
     archive_call (sample_env\<lparr>ae_uuid4 := 8\<rparr>) False (lit ''gov_il'') (lit ''v'') sample_fetch 2 3 (Some (lit ''bin'')) db = Some (db, Inr r') \<and>
     archive_call (sample_env\<lparr>ae_uuid4 := 8\<rparr>) True (lit ''gov_il'') (lit ''v'') sample_fetch 2 3 (Some (lit ''bin'')) (commit_caller db) =
       Some (commit_caller db, Inr r'') \<and>
     ar_object_id r' = ar_object_id r \<and> ar_object_id r'' = ar_object_id r"
proof -
  have "caller_view sample_db = empty_archive" by (simp add: caller_view_def sample_db_def)
  then obtain db r where s: "archive_call sample_env False (lit ''knesset'') (lit ''u'') sample_fetch 1 1 None sample_db = Some (db, Inr r)"
    "ar_created r" using sample_archived by (auto simp: archive_call_def)
  have e: "ae_sha256 (sample_env\<lparr>ae_uuid4 := 8\<rparr>) = ae_sha256 sample_env" "ae_select_error (sample_env\<lparr>ae_uuid4 := 8\<rparr>) = None"
    "lit ''gov_il'' \<in> set SOURCE_FAMILIES" "(3 :: int) \<in> {1, 2, 3}"
    by (simp_all add: sample_env_def SOURCE_FAMILIES_def)
  show ?thesis
    using s archive_payload_idempotent [OF s(1) disjI1 refl e, of db False] archive_payload_idempotent [OF s(1) disjI2 refl e, of _ True]
    by blast
qed

lemma archive_ok_preserved_witness:
  "\<exists>st r. archive_payload sample_env False (lit ''knesset'') (lit ''u'') sample_fetch 1 1 None empty_archive = (st, Inr r) \<and>
     length (as_rows st) = 1 \<and> archive_ok sample_sha st"
proof -
  obtain st r where s: "archive_payload sample_env False (lit ''knesset'') (lit ''u'') sample_fetch 1 1 None empty_archive = (st, Inr r)"
    "length (as_rows st) = 1" using sample_archived by blast
  have "archive_ok (ae_sha256 sample_env) empty_archive" by (simp add: archive_ok_def empty_archive_def)
  from archive_ok_preserved [OF this s(1)] s show ?thesis
    by (auto simp: sample_env_def sample_facts(1,2) sample_fetch_def simp del: valid_date.simps simp: sample_facts(3))
qed

text \<open>A URI with a line break after it parses, and is not the URI of its coordinate.\<close>

lemma archive_uri_newline:
  assumes "parse_archive_uri u = Inr c" "coord_uri c = u"
  shows "parse_archive_uri (u @ [10]) = Inr c"
proof -
  obtain p t where p: "parts_ok p" "t = [] \<or> t = [10]" "u = parts_uri p @ t" "c = coord_of p"
    "up_family p \<in> set SOURCE_FAMILIES" "valid_date (coord_date c)"
    using assms(1) by (rule parse_archive_uri_parts)
  have "10 \<notin> set u"
  proof -
    have "10 \<notin> set (pad0 k n)" for k n using digits_of_nat_ascii [of n] by (fastforce simp: pad0_def Let_def)
    moreover have "bucket_ok (up_bucket p)" using p(1) by (simp add: parts_ok_def)
    then have "10 \<notin> set (up_bucket p)"
      by (cases "up_bucket p") (auto simp: bucket_ok_def list_all_iff ext_char_def)
    ultimately show ?thesis
      using p(1,4) assms(2) [symmetric]
      by (auto simp: coord_uri_def object_name_def coord_of_def parts_ok_def sha_ok_def ext_ok_def list_all_iff
          ext_char_def lit_def)
  qed
  then have "t = []" using p(2,3) by auto
  then show ?thesis using parse_parts [OF p(1), of "[10]"] p by simp
qed

end
