(* ===== verification/Graph_Store.thy ===== *)
theory Graph_Store
  imports Py_Uuid
begin

text \<open>
  The Neo4j graph as the ingestion writes it: \<open>run_upsert\<close> of \<open>civic_clients/neo4j.py\<close> and the
  Cypher templates of \<open>infra/neo4j/upserts/\<close> it executes. A node is its label and its key property,
  which a constraint makes unique; a relationship is its type and end points, which is what \<open>MERGE\<close>
  matches on. A property that is not set reads as null, as in Cypher. The bookkeeping properties
  \<open>created_at\<close> and \<open>updated_at\<close> are left out: no template matches on them. The one query that returns
  one of them, \<open>infra/neo4j/retrieval/bill_sponsorship.cypher\<close>, gives the \<open>created_at\<close> of the sponsorship as the
  property \<open>sponsored_at\<close> of the evidence, which no rule of the verdict reads.
\<close>

section \<open>Graphs and templates\<close>

type_synonym node = "string \<times> pystr"
type_synonym edge = "string \<times> node \<times> node"
type_synonym props = "string \<Rightarrow> pyval"
type_synonym params = "(string \<times> pyval) list"

record graph =
  g_nodes :: "node \<Rightarrow> props option"
  g_edges :: "edge \<Rightarrow> props option"

definition empty_graph :: graph where
  "empty_graph = \<lparr>g_nodes = (\<lambda>_. None), g_edges = (\<lambda>_. None)\<rparr>"

text \<open>
  How a template sets one property of a node. On creation it is the first parameter of \<open>ps_create\<close> that is
  not null, on a match its own parameter or else the old value; where the template ends its \<open>coalesce\<close> with
  the empty string, a value still null becomes that (\<open>ps_fill\<close>); \<open>ps_date\<close> sends the parameter through
  \<open>datetime()\<close>.
\<close>

record prop_spec =
  ps_name :: string
  ps_create :: "string list"
  ps_fill :: bool
  ps_date :: bool

record node_template =
  nt_label :: string
  nt_key :: string
  nt_props :: "prop_spec list"

text \<open>
  A relationship template: its end points by label and key, the condition of its \<open>WHERE\<close>, and its
  properties, each set to its parameter on every call (\<open>Always\<close>) or kept when the parameter is null (\<open>Keep\<close>).
\<close>

datatype edge_guard = NoGuard | NotNull string | OneOf string "pyval list"

datatype edge_prop = Always string | AlwaysDate string | KeepDate string

record edge_template =
  et_type :: string
  et_from :: "string \<times> string"
  et_to :: "string \<times> string"
  et_guard :: edge_guard
  et_props :: "edge_prop list"

datatype template = NodeT node_template | EdgeT edge_template

definition plain :: "string \<Rightarrow> prop_spec" where
  "plain p = \<lparr>ps_name = p, ps_create = [p], ps_fill = False, ps_date = False\<rparr>"

definition filled :: "string \<Rightarrow> string list \<Rightarrow> prop_spec" where
  "filled p others = \<lparr>ps_name = p, ps_create = p # others, ps_fill = True, ps_date = False\<rparr>"

definition dated :: "string \<Rightarrow> prop_spec" where
  "dated p = \<lparr>ps_name = p, ps_create = [p], ps_fill = False, ps_date = True\<rparr>"

definition person_upsert :: node_template where
  "person_upsert = \<lparr>nt_label = ''Person'', nt_key = ''person_id'',
     nt_props = [plain ''canonical_name'', plain ''hebrew_name'', filled ''english_name'' [],
       plain ''external_ids'', plain ''source_tier'']\<rparr>"

definition party_upsert :: node_template where
  "party_upsert = \<lparr>nt_label = ''Party'', nt_key = ''party_id'',
     nt_props = [plain ''canonical_name'', plain ''hebrew_name'', filled ''english_name'' [], plain ''abbreviation'']\<rparr>"

definition office_upsert :: node_template where
  "office_upsert = \<lparr>nt_label = ''Office'', nt_key = ''office_id'',
     nt_props = [plain ''canonical_name'', filled ''hebrew_name'' [''canonical_name''], filled ''english_name'' [],
       plain ''office_type'', plain ''scope'']\<rparr>"

definition position_term_upsert :: node_template where
  "position_term_upsert = \<lparr>nt_label = ''PositionTerm'', nt_key = ''position_term_id'',
     nt_props = [plain ''person_id'', plain ''office_id'', plain ''appointing_body'', dated ''valid_from'',
       dated ''valid_to'', plain ''is_acting'', plain ''source_document_id'']\<rparr>"

definition committee_upsert :: node_template where
  "committee_upsert = \<lparr>nt_label = ''Committee'', nt_key = ''committee_id'',
     nt_props = [plain ''canonical_name'', plain ''hebrew_name'', filled ''english_name'' []]\<rparr>"

definition bill_upsert :: node_template where
  "bill_upsert = \<lparr>nt_label = ''Bill'', nt_key = ''bill_id'',
     nt_props = [plain ''title'', filled ''hebrew_name'' [''title''], filled ''english_name'' [],
       plain ''knesset_number'', plain ''status'']\<rparr>"

definition vote_event_upsert :: node_template where
  "vote_event_upsert = \<lparr>nt_label = ''VoteEvent'', nt_key = ''vote_event_id'',
     nt_props = [plain ''bill_id'', dated ''occurred_at'', plain ''vote_type'']\<rparr>"

definition attendance_event_upsert :: node_template where
  "attendance_event_upsert = \<lparr>nt_label = ''AttendanceEvent'', nt_key = ''attendance_event_id'',
     nt_props = [plain ''committee_id'', dated ''occurred_at'']\<rparr>"

definition membership_term_upsert :: node_template where
  "membership_term_upsert = \<lparr>nt_label = ''MembershipTerm'', nt_key = ''membership_term_id'',
     nt_props = [plain ''person_id'', plain ''org_id'', plain ''org_type'', dated ''valid_from'', dated ''valid_to'']\<rparr>"

definition election_result_upsert :: node_template where
  "election_result_upsert = \<lparr>nt_label = ''ElectionResult'', nt_key = ''election_result_id'',
     nt_props = [dated ''election_date'', plain ''knesset_number'', plain ''list_name'', plain ''ballot_letters'',
       plain ''list_party_id'', plain ''votes'', plain ''seats_won'', plain ''vote_share'', plain ''passed_threshold'',
       plain ''source_document_id'']\<rparr>"

definition government_decision_upsert :: node_template where
  "government_decision_upsert = \<lparr>nt_label = ''GovernmentDecision'', nt_key = ''government_decision_id'',
     nt_props = [plain ''decision_number'', plain ''government_number'', dated ''decision_date'', plain ''title'',
       plain ''summary'', plain ''issuing_body'', plain ''source_document_id'']\<rparr>"

text \<open>The relationship templates.\<close>

definition term_edge :: "string \<Rightarrow> string \<times> string \<Rightarrow> edge_template" where
  "term_edge typ to = \<lparr>et_type = typ, et_from = (''Person'', ''person_id''), et_to = to, et_guard = NotNull ''valid_from'',
     et_props = [AlwaysDate ''valid_from'', KeepDate ''valid_to'']\<rparr>"

definition member_of :: edge_template where
  "member_of = term_edge ''MEMBER_OF'' (''Party'', ''party_id'')"

definition held_office :: edge_template where
  "held_office = term_edge ''HELD_OFFICE'' (''Office'', ''office_id'')"

definition member_of_committee :: edge_template where
  "member_of_committee = term_edge ''MEMBER_OF_COMMITTEE'' (''Committee'', ''committee_id'')"

definition plain_edge :: "string \<Rightarrow> string \<times> string \<Rightarrow> string \<times> string \<Rightarrow> edge_template" where
  "plain_edge typ frm to = \<lparr>et_type = typ, et_from = frm, et_to = to, et_guard = NoGuard, et_props = []\<rparr>"

definition has_position_term :: edge_template where
  "has_position_term = plain_edge ''HAS_POSITION_TERM'' (''Person'', ''person_id'') (''PositionTerm'', ''position_term_id'')"

definition about_office :: edge_template where
  "about_office = plain_edge ''ABOUT_OFFICE'' (''PositionTerm'', ''position_term_id'') (''Office'', ''office_id'')"

definition sponsored :: edge_template where
  "sponsored = plain_edge ''SPONSORED'' (''Person'', ''person_id'') (''Bill'', ''bill_id'')"

definition for_party :: edge_template where
  "for_party = plain_edge ''FOR_PARTY'' (''ElectionResult'', ''election_result_id'') (''Party'', ''party_id'')"

definition cast_vote :: edge_template where
  "cast_vote = \<lparr>et_type = ''CAST_VOTE'', et_from = (''Person'', ''person_id''), et_to = (''VoteEvent'', ''vote_event_id''),
     et_guard = OneOf ''value'' [PLit ''for'', PLit ''against'', PLit ''abstain''], et_props = [Always ''value'']\<rparr>"

definition attended :: edge_template where
  "attended = \<lparr>et_type = ''ATTENDED'', et_from = (''Person'', ''person_id''),
     et_to = (''AttendanceEvent'', ''attendance_event_id''),
     et_guard = OneOf ''presence'' [PLit ''present'', PLit ''absent'', PLit ''partial''], et_props = [Always ''presence'']\<rparr>"

section \<open>Executing a template\<close>

text \<open>Every parameter a statement mentions must be supplied, or Neo4j rejects it.\<close>

definition guard_params :: "edge_guard \<Rightarrow> string list" where
  "guard_params g = (case g of NoGuard \<Rightarrow> [] | NotNull p \<Rightarrow> [p] | OneOf p _ \<Rightarrow> [p])"

definition edge_prop_name :: "edge_prop \<Rightarrow> string" where
  "edge_prop_name e = (case e of Always p \<Rightarrow> p | AlwaysDate p \<Rightarrow> p | KeepDate p \<Rightarrow> p)"

fun template_params :: "template \<Rightarrow> string list" where
  "template_params (NodeT t) = nt_key t # concat (map (\<lambda>s. ps_name s # ps_create s) (nt_props t))"
| "template_params (EdgeT t) =
     snd (et_from t) # snd (et_to t) # guard_params (et_guard t) @ map edge_prop_name (et_props t)"

definition missing_params :: "template \<Rightarrow> params \<Rightarrow> string list" where
  "missing_params t ps = filter (\<lambda>p. p \<notin> fst ` set ps) (template_params t)"

definition param :: "params \<Rightarrow> string \<Rightarrow> pyval" where
  "param ps p = (case map_of ps p of None \<Rightarrow> PNone | Some v \<Rightarrow> v)"

fun coalesce :: "pyval list \<Rightarrow> pyval" where
  "coalesce [] = PNone"
| "coalesce (v # vs) = (if v = PNone then coalesce vs else v)"

text \<open>\<open>datetime(x)\<close>, which \<open>dtm\<close> stands for, rejects what it cannot read; null is never sent to it.\<close>

definition as_date :: "(pyval \<Rightarrow> pyval option) \<Rightarrow> pyval \<Rightarrow> pyval" where
  "as_date dtm v = (if v = PNone then PNone else case dtm v of None \<Rightarrow> PNone | Some d \<Rightarrow> d)"

definition date_ok :: "(pyval \<Rightarrow> pyval option) \<Rightarrow> pyval \<Rightarrow> bool" where
  "date_ok dtm v \<longleftrightarrow> v = PNone \<or> (\<exists>d. dtm v = Some d \<and> d \<noteq> PNone)"

definition spec_value :: "(pyval \<Rightarrow> pyval option) \<Rightarrow> prop_spec \<Rightarrow> params \<Rightarrow> pyval \<Rightarrow> pyval" where
  "spec_value dtm s ps v = (if ps_date s then as_date dtm v else v)"

definition fill_value :: "prop_spec \<Rightarrow> pyval" where
  "fill_value s = (if ps_fill s then PStr [] else PNone)"

definition create_prop :: "(pyval \<Rightarrow> pyval option) \<Rightarrow> params \<Rightarrow> prop_spec \<Rightarrow> pyval" where
  "create_prop dtm ps s = coalesce [spec_value dtm s ps (coalesce (map (param ps) (ps_create s))), fill_value s]"

definition match_prop :: "(pyval \<Rightarrow> pyval option) \<Rightarrow> params \<Rightarrow> prop_spec \<Rightarrow> pyval \<Rightarrow> pyval" where
  "match_prop dtm ps s old = coalesce [spec_value dtm s ps (param ps (ps_name s)), old, fill_value s]"

text \<open>A node is looked up by a string key; any other value matches none, and cannot be merged when null.\<close>

definition node_at :: "string \<times> string \<Rightarrow> params \<Rightarrow> node option" where
  "node_at lk ps = (case param ps (snd lk) of PStr s \<Rightarrow> Some (fst lk, s) | _ \<Rightarrow> None)"

definition set_props :: "(prop_spec \<Rightarrow> pyval) \<Rightarrow> prop_spec list \<Rightarrow> props \<Rightarrow> props" where
  "set_props f ss old = (\<lambda>p. case find (\<lambda>s. ps_name s = p) ss of None \<Rightarrow> old p | Some s \<Rightarrow> f s)"

definition merge_node :: "(pyval \<Rightarrow> pyval option) \<Rightarrow> node_template \<Rightarrow> params \<Rightarrow> props option \<Rightarrow> props" where
  "merge_node dtm t ps old =
     (case old of
        None \<Rightarrow> set_props (create_prop dtm ps) (nt_props t) (\<lambda>p. if p = nt_key t then param ps p else PNone)
      | Some pr \<Rightarrow> set_props (\<lambda>s. match_prop dtm ps s (pr (ps_name s))) (nt_props t) pr)"

definition guard_holds :: "edge_guard \<Rightarrow> params \<Rightarrow> bool" where
  "guard_holds g ps =
     (case g of
        NoGuard \<Rightarrow> True
      | NotNull p \<Rightarrow> param ps p \<noteq> PNone
      | OneOf p vs \<Rightarrow> param ps p \<noteq> PNone \<and> list_ex (py_eq (param ps p)) vs)"

definition edge_value :: "(pyval \<Rightarrow> pyval option) \<Rightarrow> params \<Rightarrow> edge_prop \<Rightarrow> pyval \<Rightarrow> pyval" where
  "edge_value dtm ps e old =
     (case e of
        Always p \<Rightarrow> param ps p
      | AlwaysDate p \<Rightarrow> as_date dtm (param ps p)
      | KeepDate p \<Rightarrow> coalesce [as_date dtm (param ps p), old])"

definition merge_edge :: "(pyval \<Rightarrow> pyval option) \<Rightarrow> edge_template \<Rightarrow> params \<Rightarrow> props option \<Rightarrow> props" where
  "merge_edge dtm t ps old =
     (let pr = (case old of None \<Rightarrow> (\<lambda>_. PNone) | Some pr \<Rightarrow> pr)
      in (\<lambda>p. case find (\<lambda>e. edge_prop_name e = p) (et_props t) of
                None \<Rightarrow> pr p
              | Some e \<Rightarrow> edge_value dtm ps e (pr p)))"

fun dates_ok :: "(pyval \<Rightarrow> pyval option) \<Rightarrow> template \<Rightarrow> params \<Rightarrow> bool" where
  "dates_ok dtm (NodeT t) ps = list_all (\<lambda>s. ps_date s \<longrightarrow> date_ok dtm (param ps (ps_name s))) (nt_props t)"
| "dates_ok dtm (EdgeT t) ps =
     list_all (\<lambda>e. case e of Always _ \<Rightarrow> True | AlwaysDate p \<Rightarrow> date_ok dtm (param ps p) | KeepDate p \<Rightarrow> date_ok dtm (param ps p))
       (et_props t)"

text \<open>The pair of nodes an edge statement matches, when both exist and its condition holds.\<close>

definition matched_edge :: "edge_template \<Rightarrow> params \<Rightarrow> graph \<Rightarrow> edge option" where
  "matched_edge t ps g =
     (case (node_at (et_from t) ps, node_at (et_to t) ps) of
        (Some a, Some b) \<Rightarrow>
          if g_nodes g a \<noteq> None \<and> g_nodes g b \<noteq> None \<and> guard_holds (et_guard t) ps then Some (et_type t, a, b) else None
      | _ \<Rightarrow> None)"

text \<open>
  \<open>run_upsert\<close>: one statement in a transaction of its own, which either takes effect or raises. Dates are
  read only where the statement gets to them: on an unmatched edge nothing is.
\<close>

fun run_upsert :: "(pyval \<Rightarrow> pyval option) \<Rightarrow> template \<Rightarrow> params \<Rightarrow> graph \<Rightarrow> pyerr + graph" where
  "run_upsert dtm (NodeT t) ps g =
     (if missing_params (NodeT t) ps \<noteq> [] then Inl DatabaseError
      else case node_at (nt_label t, nt_key t) ps of
        None \<Rightarrow> Inl DatabaseError
      | Some n \<Rightarrow>
          if \<not> dates_ok dtm (NodeT t) ps then Inl DatabaseError
          else Inr (g\<lparr>g_nodes := (g_nodes g)(n := Some (merge_node dtm t ps (g_nodes g n)))\<rparr>))"
| "run_upsert dtm (EdgeT t) ps g =
     (if missing_params (EdgeT t) ps \<noteq> [] then Inl DatabaseError
      else case matched_edge t ps g of
        None \<Rightarrow> Inr g
      | Some e \<Rightarrow>
          if \<not> dates_ok dtm (EdgeT t) ps then Inl DatabaseError
          else Inr (g\<lparr>g_edges := (g_edges g)(e := Some (merge_edge dtm t ps (g_edges g e)))\<rparr>))"

text \<open>The calls of an upsert function in order, stopping at the first that raises.\<close>

type_synonym call = "template \<times> params"

fun run_calls :: "(pyval \<Rightarrow> pyval option) \<Rightarrow> call list \<Rightarrow> graph \<Rightarrow> graph \<times> pyerr option" where
  "run_calls dtm [] g = (g, None)"
| "run_calls dtm ((t, ps) # cs) g =
     (case run_upsert dtm t ps g of Inl e \<Rightarrow> (g, Some e) | Inr g' \<Rightarrow> run_calls dtm cs g')"

lemma run_calls_append:
  "run_calls dtm (cs @ ds) g =
     (case run_calls dtm cs g of (g', None) \<Rightarrow> run_calls dtm ds g' | (g', Some e) \<Rightarrow> (g', Some e))"
  by (induction dtm cs g rule: run_calls.induct) (auto split: sum.splits)

section \<open>Relationships never dangle\<close>

declare split_paired_All [simp del] split_paired_Ex [simp del]

definition graph_ok :: "graph \<Rightarrow> bool" where
  "graph_ok g \<longleftrightarrow> (\<forall>typ a b. g_edges g (typ, a, b) \<noteq> None \<longrightarrow> g_nodes g a \<noteq> None \<and> g_nodes g b \<noteq> None)"

lemma matched_edgeD:
  assumes "matched_edge t ps g = Some e"
  obtains a b where "e = (et_type t, a, b)" "node_at (et_from t) ps = Some a" "node_at (et_to t) ps = Some b"
    "g_nodes g a \<noteq> None" "g_nodes g b \<noteq> None" "guard_holds (et_guard t) ps"
  using assms by (auto simp: matched_edge_def split: option.splits if_splits)

lemma graph_ok_empty: "graph_ok empty_graph"
  by (simp add: graph_ok_def empty_graph_def)

lemma run_upsert_ok:
  assumes "graph_ok g" "run_upsert dtm t ps g = Inr g'"
  shows "graph_ok g' \<and> (\<forall>n. g_nodes g n \<noteq> None \<longrightarrow> g_nodes g' n \<noteq> None) \<and>
    (\<forall>e. g_edges g e \<noteq> None \<longrightarrow> g_edges g' e \<noteq> None)"
proof (cases t)
  case (NodeT nt)
  then obtain n where g': "g' = g\<lparr>g_nodes := (g_nodes g)(n := Some (merge_node dtm nt ps (g_nodes g n)))\<rparr>"
    using assms(2) by (auto split: if_splits option.splits)
  show ?thesis using assms(1) by (auto simp: g' graph_ok_def)
next
  case (EdgeT et)
  show ?thesis
  proof (cases "matched_edge et ps g")
    case (Some e)
    then obtain a b where e: "e = (et_type et, a, b)" "g_nodes g a \<noteq> None" "g_nodes g b \<noteq> None"
      by (rule matched_edgeD)
    have g': "g' = g\<lparr>g_edges := (g_edges g)(e := Some (merge_edge dtm et ps (g_edges g e)))\<rparr>"
      using assms(2) EdgeT Some by (auto split: if_splits)
    show ?thesis using assms(1) e(2,3) by (auto simp: g' graph_ok_def e(1))
  qed (use assms EdgeT in \<open>auto split: if_splits\<close>)
qed

lemma run_calls_ok:
  assumes "graph_ok g" "run_calls dtm cs g = (g', r)"
  shows "graph_ok g' \<and> (\<forall>n. g_nodes g n \<noteq> None \<longrightarrow> g_nodes g' n \<noteq> None)"
  using assms
proof (induction dtm cs g rule: run_calls.induct)
  case (2 dtm t ps cs g)
  then show ?case using run_upsert_ok [OF 2(2), of dtm t ps] by (auto split: sum.splits)
qed simp

section \<open>Re-running a sequence of upserts changes nothing\<close>

text \<open>
  On one property a statement that matches is a constant, the identity, or fills a null with the empty
  string; such functions compose to such functions and are idempotent.
\<close>

definition fill :: "pyval \<Rightarrow> pyval" where
  "fill v = (if v = PNone then PStr [] else v)"

definition settler :: "(pyval \<Rightarrow> pyval) \<Rightarrow> bool" where
  "settler m \<longleftrightarrow> (\<exists>v. m = (\<lambda>_. v)) \<or> m = id \<or> m = fill"

lemma settler_comp: "settler m \<Longrightarrow> settler k \<Longrightarrow> settler (m \<circ> k)"
  unfolding settler_def by (auto simp: fill_def fun_eq_iff)

lemma settler_idem: "settler m \<Longrightarrow> m (m v) = m v"
  by (auto simp: settler_def fill_def)

lemma settler_absorb: "settler m \<Longrightarrow> settler k \<Longrightarrow> k c = c \<Longrightarrow> m (k (m c)) = m c"
  by (auto simp: settler_def fill_def)

text \<open>A step on one node or relationship: what it creates it would leave alone on a match.\<close>

definition merge_step :: "props \<Rightarrow> (string \<Rightarrow> pyval \<Rightarrow> pyval) \<Rightarrow> props option \<Rightarrow> props option" where
  "merge_step c m x = (case x of None \<Rightarrow> Some c | Some pr \<Rightarrow> Some (\<lambda>p. m p (pr p)))"

definition absorbing :: "(props option \<Rightarrow> props option) \<Rightarrow> bool" where
  "absorbing f \<longleftrightarrow> f = id \<or> (\<exists>c m. f = merge_step c m \<and> (\<forall>p. settler (m p) \<and> m p (c p) = c p))"

lemma absorbing_id: "absorbing id"
  by (simp add: absorbing_def)

lemma absorbing_idem: "absorbing f \<Longrightarrow> f (f x) = f x"
  by (auto simp: absorbing_def merge_step_def settler_idem split: option.splits)

lemma absorbing_comp:
  assumes "absorbing f" "absorbing h"
  shows "absorbing (h \<circ> f)"
proof -
  consider "f = id \<or> h = id"
    | c m d k where "f = merge_step c m" "\<forall>p. settler (m p) \<and> m p (c p) = c p"
        "h = merge_step d k" "\<forall>p. settler (k p) \<and> k p (d p) = d p"
    using assms unfolding absorbing_def by blast
  then show ?thesis
  proof cases
    case 1
    then show ?thesis using assms by auto
  next
    case (2 c m d k)
    have "h \<circ> f = merge_step (\<lambda>p. k p (c p)) (\<lambda>p. k p \<circ> m p)"
      by (auto simp: 2(1,3) merge_step_def fun_eq_iff split: option.splits)
    moreover have "settler (k p \<circ> m p) \<and> (k p \<circ> m p) (k p (c p)) = k p (c p)" for p
      using 2(2,4) by (simp add: settler_comp settler_absorb)
    ultimately show ?thesis unfolding absorbing_def by blast
  qed
qed

lemma absorbing_fold: "list_all absorbing fs \<Longrightarrow> absorbing (fold (\<circ>) fs id)"
proof -
  have "absorbing (fold (\<circ>) fs a)" if "list_all absorbing fs" "absorbing a" for a
    using that by (induction fs arbitrary: a) (auto intro: absorbing_comp)
  then show "list_all absorbing fs \<Longrightarrow> absorbing (fold (\<circ>) fs id)" using absorbing_id by blast
qed

fun wf_template :: "template \<Rightarrow> bool" where
  "wf_template (NodeT t) = list_all (\<lambda>s. ps_name s \<noteq> nt_key t \<and> ps_create s \<noteq> [] \<and> hd (ps_create s) = ps_name s \<and>
     (ps_date s \<longrightarrow> tl (ps_create s) = [])) (nt_props t)"
| "wf_template (EdgeT t) = True"

definition node_step :: "(pyval \<Rightarrow> pyval option) \<Rightarrow> call \<Rightarrow> node \<Rightarrow> props option \<Rightarrow> props option" where
  "node_step dtm c n =
     (case c of
        (NodeT t, ps) \<Rightarrow> if node_at (nt_label t, nt_key t) ps = Some n then Some \<circ> merge_node dtm t ps else id
      | _ \<Rightarrow> id)"

definition edge_step :: "(pyval \<Rightarrow> pyval option) \<Rightarrow> call \<Rightarrow> edge \<Rightarrow> props option \<Rightarrow> props option" where
  "edge_step dtm c e =
     (case c of
        (EdgeT t, ps) \<Rightarrow>
          if guard_holds (et_guard t) ps \<and> fst e = et_type t \<and> node_at (et_from t) ps = Some (fst (snd e)) \<and>
             node_at (et_to t) ps = Some (snd (snd e))
          then Some \<circ> merge_edge dtm t ps else id
      | _ \<Rightarrow> id)"

lemma settler_match_prop: "settler (match_prop dtm ps s)"
proof (cases "spec_value dtm s ps (param ps (ps_name s)) = PNone")
  case True
  then have "match_prop dtm ps s = (if ps_fill s then fill else id)"
    by (auto simp: match_prop_def fill_value_def fill_def fun_eq_iff)
  then show ?thesis by (simp add: settler_def)
next
  case False
  then have "match_prop dtm ps s = (\<lambda>_. spec_value dtm s ps (param ps (ps_name s)))"
    by (simp add: match_prop_def fun_eq_iff)
  then show ?thesis unfolding settler_def by blast
qed

lemma settler_edge_value: "settler (edge_value dtm ps e)"
  by (cases e) (auto simp: edge_value_def settler_def fun_eq_iff)

text \<open>The value a template creates is one it keeps when it matches.\<close>

lemma create_then_match:
  assumes "ps_create s \<noteq> []" "hd (ps_create s) = ps_name s" "ps_date s \<longrightarrow> tl (ps_create s) = []"
    "ps_date s \<longrightarrow> date_ok dtm (param ps (ps_name s))"
  shows "match_prop dtm ps s (create_prop dtm ps s) = create_prop dtm ps s"
proof -
  obtain qs where q: "ps_create s = ps_name s # qs" using assms(1,2) by (cases "ps_create s") auto
  show ?thesis
  proof (cases "param ps (ps_name s) = PNone")
    case True
    then show ?thesis
      by (simp add: match_prop_def spec_value_def as_date_def create_prop_def)
  next
    case False
    then show ?thesis using assms(3,4) q
      by (auto simp: match_prop_def spec_value_def as_date_def create_prop_def date_ok_def)
  qed
qed

lemma absorbing_merge_node:
  assumes "wf_template (NodeT t)" "dates_ok dtm (NodeT t) ps"
  shows "absorbing (Some \<circ> merge_node dtm t ps)"
proof -
  define m where "m = (\<lambda>p. case find (\<lambda>s. ps_name s = p) (nt_props t) of None \<Rightarrow> id | Some s \<Rightarrow> match_prop dtm ps s)"
  define c where "c = merge_node dtm t ps None"
  have name: "find (\<lambda>s. ps_name s = p) (nt_props t) = Some s \<Longrightarrow> s \<in> set (nt_props t) \<and> ps_name s = p" for p s
    by (auto simp: find_Some_iff)
  have "Some \<circ> merge_node dtm t ps = merge_step c m"
    by (auto simp: fun_eq_iff merge_step_def c_def m_def merge_node_def set_props_def dest: name split: option.splits)
  moreover have "settler (m p) \<and> m p (c p) = c p" for p
  proof (cases "find (\<lambda>s. ps_name s = p) (nt_props t)")
    case None
    then show ?thesis by (simp add: m_def settler_def)
  next
    case (Some s)
    then have "match_prop dtm ps s (create_prop dtm ps s) = create_prop dtm ps s"
      using assms name [OF Some] by (intro create_then_match) (auto simp: list_all_iff)
    then show ?thesis by (simp add: m_def c_def merge_node_def set_props_def Some settler_match_prop)
  qed
  ultimately show ?thesis unfolding absorbing_def by blast
qed

lemma absorbing_merge_edge: "absorbing (Some \<circ> merge_edge dtm t ps)"
proof -
  define m where "m = (\<lambda>p. case find (\<lambda>e. edge_prop_name e = p) (et_props t) of None \<Rightarrow> id | Some e \<Rightarrow> edge_value dtm ps e)"
  have s: "settler (m p)" for p
    by (auto simp: m_def settler_edge_value split: option.splits) (simp add: settler_def)
  have "Some \<circ> merge_edge dtm t ps = merge_step (\<lambda>p. m p PNone) m"
    by (auto simp: fun_eq_iff merge_step_def m_def merge_edge_def Let_def split: option.splits)
  then show ?thesis unfolding absorbing_def using s settler_idem by blast
qed

lemma absorbing_steps:
  assumes "wf_template t" "dates_ok dtm t ps"
  shows "absorbing (node_step dtm (t, ps) n)" "absorbing (edge_step dtm (t, ps) e)"
  using assms absorbing_merge_node absorbing_merge_edge absorbing_id
  by (auto simp: node_step_def edge_step_def split: template.splits)

text \<open>
  A sequence is self-contained when every relationship it writes has both end points written before it. On such a
  sequence a statement acts on each node and relationship by itself, whatever the rest of the graph holds.
\<close>

fun self_contained :: "node list \<Rightarrow> call list \<Rightarrow> bool" where
  "self_contained ns [] = True"
| "self_contained ns ((NodeT t, ps) # cs) = self_contained (case node_at (nt_label t, nt_key t) ps of None \<Rightarrow> ns | Some n \<Rightarrow> n # ns) cs"
| "self_contained ns ((EdgeT t, ps) # cs) =
     ((guard_holds (et_guard t) ps \<longrightarrow>
        (case (node_at (et_from t) ps, node_at (et_to t) ps) of
           (Some a, Some b) \<Rightarrow> a \<in> set ns \<and> b \<in> set ns | _ \<Rightarrow> False)) \<and> self_contained ns cs)"

definition call_fine :: "(pyval \<Rightarrow> pyval option) \<Rightarrow> call \<Rightarrow> bool" where
  "call_fine dtm c =
     (case c of
        (NodeT t, ps) \<Rightarrow> missing_params (NodeT t) ps = [] \<and> node_at (nt_label t, nt_key t) ps \<noteq> None \<and> dates_ok dtm (NodeT t) ps
      | (EdgeT t, ps) \<Rightarrow> missing_params (EdgeT t) ps = [] \<and> (guard_holds (et_guard t) ps \<longrightarrow> dates_ok dtm (EdgeT t) ps))"

definition has_nodes :: "node list \<Rightarrow> graph \<Rightarrow> bool" where
  "has_nodes ns g \<longleftrightarrow> list_all (\<lambda>n. g_nodes g n \<noteq> None) ns"

definition next_nodes :: "node list \<Rightarrow> call \<Rightarrow> node list" where
  "next_nodes ns c =
     (case c of
        (NodeT t, ps) \<Rightarrow> (case node_at (nt_label t, nt_key t) ps of None \<Rightarrow> ns | Some n \<Rightarrow> n # ns)
      | _ \<Rightarrow> ns)"

definition stepped :: "(pyval \<Rightarrow> pyval option) \<Rightarrow> call \<Rightarrow> graph \<Rightarrow> graph \<Rightarrow> bool" where
  "stepped dtm c g g' \<longleftrightarrow> (\<forall>n. g_nodes g' n = node_step dtm c n (g_nodes g n)) \<and>
     (\<forall>e. g_edges g' e = edge_step dtm c e (g_edges g e))"

lemma closed_Cons: "self_contained ns (c # cs) \<Longrightarrow> self_contained (next_nodes ns c) cs"
  by (cases c; cases "fst c") (auto simp: next_nodes_def)

lemma next_nodes_stepped:
  assumes "has_nodes ns g" "stepped dtm c g g'"
  shows "has_nodes (next_nodes ns c) g'"
proof -
  have "node_step dtm c n (Some pr) \<noteq> None" for n pr
    by (cases c; cases "fst c") (auto simp: node_step_def)
  moreover have "node_step dtm (NodeT t, ps) n x \<noteq> None" if "node_at (nt_label t, nt_key t) ps = Some n" for t ps n x
    using that by (simp add: node_step_def)
  ultimately show ?thesis
    using assms by (cases c; cases "fst c")
      (force simp: next_nodes_def has_nodes_def stepped_def list_all_iff split: option.splits)+
qed

lemma upsert_node_stepped:
  "call_fine dtm (NodeT t, ps) \<Longrightarrow> \<exists>g'. run_upsert dtm (NodeT t) ps g = Inr g' \<and> stepped dtm (NodeT t, ps) g g'"
  "\<not> call_fine dtm (NodeT t, ps) \<Longrightarrow> \<exists>e. run_upsert dtm (NodeT t) ps g = Inl e"
  by (auto simp: call_fine_def stepped_def node_step_def edge_step_def split: option.splits)

lemma upsert_edge_stepped:
  assumes "self_contained ns ((EdgeT t, ps) # cs)" "has_nodes ns g"
  shows "call_fine dtm (EdgeT t, ps) \<Longrightarrow> \<exists>g'. run_upsert dtm (EdgeT t) ps g = Inr g' \<and> stepped dtm (EdgeT t, ps) g g'"
    and "\<not> call_fine dtm (EdgeT t, ps) \<Longrightarrow> \<exists>e. run_upsert dtm (EdgeT t) ps g = Inl e"
proof -
  consider (skip) "matched_edge t ps g = None" "\<not> guard_holds (et_guard t) ps"
    | (hit) a b where "matched_edge t ps g = Some (et_type t, a, b)" "guard_holds (et_guard t) ps"
        "node_at (et_from t) ps = Some a" "node_at (et_to t) ps = Some b"
  proof (cases "guard_holds (et_guard t) ps")
    case True
    then obtain a b where "node_at (et_from t) ps = Some a" "node_at (et_to t) ps = Some b" "a \<in> set ns" "b \<in> set ns"
      using assms(1) by (auto split: option.splits)
    then show thesis using assms(2) True by (intro hit [of a b]) (auto simp: matched_edge_def has_nodes_def list_all_iff)
  next
    case False
    then show thesis by (intro skip) (auto simp: matched_edge_def split: option.splits)
  qed
  then have "(call_fine dtm (EdgeT t, ps) \<longrightarrow> (\<exists>g'. run_upsert dtm (EdgeT t) ps g = Inr g' \<and> stepped dtm (EdgeT t, ps) g g')) \<and>
      (\<not> call_fine dtm (EdgeT t, ps) \<longrightarrow> (\<exists>e. run_upsert dtm (EdgeT t) ps g = Inl e))"
  proof cases
    case skip
    then show ?thesis by (simp add: call_fine_def stepped_def node_step_def edge_step_def)
  next
    case (hit a b)
    have "edge_step dtm (EdgeT t, ps) e = (if e = (et_type t, a, b) then Some \<circ> merge_edge dtm t ps else id)" for e
      using hit(2-4) by (cases e) (auto simp: edge_step_def)
    then show ?thesis using hit by (auto simp: call_fine_def stepped_def node_step_def)
  qed
  then show "call_fine dtm (EdgeT t, ps) \<Longrightarrow> \<exists>g'. run_upsert dtm (EdgeT t) ps g = Inr g' \<and> stepped dtm (EdgeT t, ps) g g'"
    "\<not> call_fine dtm (EdgeT t, ps) \<Longrightarrow> \<exists>e. run_upsert dtm (EdgeT t) ps g = Inl e" by blast+
qed

lemma upsert_stepped:
  assumes "self_contained ns ((t, ps) # cs)" "has_nodes ns g"
  shows "(call_fine dtm (t, ps) \<and> (\<exists>g'. run_upsert dtm t ps g = Inr g' \<and> stepped dtm (t, ps) g g')) \<or>
    (\<not> call_fine dtm (t, ps) \<and> (\<exists>e. run_upsert dtm t ps g = Inl e))"
proof (cases t)
  case (NodeT nt)
  then show ?thesis using upsert_node_stepped [of dtm nt ps g] by blast
next
  case (EdgeT et)
  then show ?thesis using upsert_edge_stepped [of ns et ps cs g dtm] assms by blast
qed

lemma run_closed:
  assumes "self_contained ns cs" "has_nodes ns g"
  shows "(snd (run_calls dtm cs g) = None \<longleftrightarrow> list_all (call_fine dtm) cs) \<and>
    (list_all (call_fine dtm) cs \<longrightarrow>
      (\<forall>n. g_nodes (fst (run_calls dtm cs g)) n = fold (\<lambda>c. node_step dtm c n) cs (g_nodes g n)) \<and>
      (\<forall>e. g_edges (fst (run_calls dtm cs g)) e = fold (\<lambda>c. edge_step dtm c e) cs (g_edges g e)))"
  using assms
proof (induction cs arbitrary: ns g)
  case (Cons c cs)
  obtain t ps where c: "c = (t, ps)" by (cases c)
  from upsert_stepped [OF Cons.prems [unfolded c], of dtm]
  show ?case
  proof (elim disjE conjE exE)
    fix g' assume g': "call_fine dtm (t, ps)" "run_upsert dtm t ps g = Inr g'" "stepped dtm (t, ps) g g'"
    then have "has_nodes (next_nodes ns c) g'" using next_nodes_stepped Cons.prems(2) c by blast
    from Cons.IH [OF closed_Cons [OF Cons.prems(1)] this]
    show ?thesis using g' by (simp add: c stepped_def)
  next
    fix e assume "\<not> call_fine dtm (t, ps)" "run_upsert dtm t ps g = Inl e"
    then show ?thesis by (simp add: c)
  qed
qed simp

lemma fold_steps: "fold (\<lambda>c. f c) cs x = fold (\<circ>) (map f cs) id x"
proof -
  have "fold (\<circ>) (map f cs) a x = fold (\<lambda>c. f c) cs (a x)" for a
    by (induction cs arbitrary: a x) simp_all
  then show ?thesis by simp
qed

lemma fold_idem:
  assumes "\<And>c. c \<in> set cs \<Longrightarrow> absorbing (f c)"
  shows "fold (\<lambda>c. f c) cs (fold (\<lambda>c. f c) cs x) = fold (\<lambda>c. f c) cs x"
proof -
  have "list_all absorbing (map f cs)" using assms by (auto simp: list_all_iff)
  then show ?thesis unfolding fold_steps [of f cs] by (rule absorbing_idem [OF absorbing_fold])
qed

lemma run_closed_twice:
  assumes "self_contained [] cs" "list_all (\<lambda>c. wf_template (fst c)) cs" "run_calls dtm cs g = (g', None)"
  shows "run_calls dtm cs g' = (g', None)"
proof -
  have e: "has_nodes [] g" "has_nodes [] g'" by (simp_all add: has_nodes_def)
  have fine: "list_all (call_fine dtm) cs" using run_closed [OF assms(1) e(1), of dtm] assms(3) by simp
  have absorb: "absorbing (node_step dtm c n) \<and> absorbing (edge_step dtm c ed)" if "c \<in> set cs" for c n ed
  proof (cases "dates_ok dtm (fst c) (snd c)")
    case True
    then show ?thesis using that assms(2) absorbing_steps [of "fst c" dtm "snd c"] by (auto simp: list_all_iff)
  next
    case False
    moreover have "call_fine dtm c" using that fine by (simp add: list_all_iff)
    ultimately obtain t ps where "c = (EdgeT t, ps)" "\<not> guard_holds (et_guard t) ps"
      by (cases c; cases "fst c") (auto simp: call_fine_def)
    then show ?thesis by (simp add: node_step_def edge_step_def absorbing_id)
  qed
  obtain g'' where g'': "run_calls dtm cs g' = (g'', None)"
    using run_closed [OF assms(1) e(2), of dtm] fine by (metis prod.collapse)
  have once: "\<forall>n. g_nodes g' n = fold (\<lambda>c. node_step dtm c n) cs (g_nodes g n)"
    "\<forall>e. g_edges g' e = fold (\<lambda>c. edge_step dtm c e) cs (g_edges g e)"
    using run_closed [OF assms(1) e(1), of dtm] fine assms(3) by simp_all
  have "g_nodes g'' n = g_nodes g' n" "g_edges g'' ed = g_edges g' ed" for n ed
    using run_closed [OF assms(1) e(2), of dtm] fine g'' once absorb
    by (simp_all add: fold_idem [of cs "\<lambda>c. node_step dtm c n"] fold_idem [of cs "\<lambda>c. edge_step dtm c ed"])
  then have "g'' = g'" by (intro graph.equality) (auto simp: fun_eq_iff)
  then show ?thesis using g'' by simp
qed

lemma closed_take: "self_contained ns cs \<Longrightarrow> self_contained ns (take k cs)"
proof (induction k arbitrary: ns cs)
  case (Suc k)
  show ?case
  proof (cases cs)
    case (Cons c ds)
    obtain t ps where c: "c = (t, ps)" by (cases c)
    show ?thesis using Suc Cons c by (cases t) auto
  qed simp
qed simp

lemma run_calls_failed:
  assumes "run_calls dtm cs g = (g', Some e)"
  obtains k t ps where "cs = take k cs @ (t, ps) # drop (Suc k) cs" "run_calls dtm (take k cs) g = (g', None)"
    "run_upsert dtm t ps g' = Inl e"
proof -
  have "\<exists>k t ps. cs = take k cs @ (t, ps) # drop (Suc k) cs \<and> run_calls dtm (take k cs) g = (g', None) \<and>
    run_upsert dtm t ps g' = Inl e"
    using assms
  proof (induction dtm cs g rule: run_calls.induct)
    case (2 dtm t ps cs g)
    show ?case
    proof (cases "run_upsert dtm t ps g")
      case (Inl x)
      then show ?thesis using 2(2) by (intro exI [of _ 0]) auto
    next
      case (Inr h)
      then obtain k u qs where "cs = take k cs @ (u, qs) # drop (Suc k) cs"
        "run_calls dtm (take k cs) h = (g', None)" "run_upsert dtm u qs g' = Inl e"
        using 2 by auto
      then show ?thesis using Inr by (intro exI [of _ "Suc k"] exI [of _ u] exI [of _ qs]) auto
    qed
  qed simp
  then show thesis using that by blast
qed

text \<open>Whatever the outcome, running the same calls again ends in the same graph with the same outcome.\<close>

lemma run_calls_idempotent:
  assumes "self_contained [] cs" "list_all (\<lambda>c. wf_template (fst c)) cs" "run_calls dtm cs g = (g', r)"
  shows "run_calls dtm cs g' = (g', r)"
proof (cases r)
  case None
  then show ?thesis using run_closed_twice assms by blast
next
  case (Some e)
  then obtain k t ps where k: "cs = take k cs @ (t, ps) # drop (Suc k) cs" "run_calls dtm (take k cs) g = (g', None)"
    "run_upsert dtm t ps g' = Inl e" using run_calls_failed assms(3) by blast
  have "list_all (\<lambda>c. wf_template (fst c)) (take k cs)" using assms(2) by (auto simp: list_all_iff dest: in_set_takeD)
  from run_closed_twice [OF closed_take [OF assms(1)] this k(2)]
  have "run_calls dtm (take k cs @ (t, ps) # drop (Suc k) cs) g' = (g', Some e)"
    by (simp add: run_calls_append k(3))
  then show ?thesis using k(1) Some by simp
qed

end
