(* ===== verification/Ingest_Rows.thy ===== *)
theory Ingest_Rows
  imports Entity_Resolution
begin

text \<open>
  The parsers and normalizers of the eight Knesset adapters under \<open>services/ingestion/knesset/\<close>:
  \<open>people\<close>, \<open>committees\<close>, \<open>positions\<close>, \<open>committee_memberships\<close>, \<open>sponsorships\<close>, \<open>bill_initiators\<close>,
  \<open>votes\<close> and \<open>attendance\<close>, with the \<open>mk_individual_id\<close> lookup they share. A generator is the rows it
  yields and the exception that ends it, if one does. \<open>uuid5\<close> is the parameter \<open>u5\<close> of its namespace and name.
\<close>

type_synonym 'a gen = "'a list \<times> pyerr option"

type_synonym row = "pyval dict"

fun gen_bind :: "'a list \<Rightarrow> ('a \<Rightarrow> 'b gen) \<Rightarrow> 'b gen" where
  "gen_bind [] f = ([], None)"
| "gen_bind (x # xs) f =
     (case f x of
        (ys, Some e) \<Rightarrow> (ys, Some e)
      | (ys, None) \<Rightarrow> (case gen_bind xs f of (zs, r) \<Rightarrow> (ys @ zs, r)))"

text \<open>A parser loops over the values of a page; anything but a dictionary has no \<open>get\<close>.\<close>

definition parse_rows :: "(row \<Rightarrow> pyerr + row option) \<Rightarrow> pyval list \<Rightarrow> row gen" where
  "parse_rows f vs = gen_bind vs (\<lambda>v.
     case v of
       PDict r \<Rightarrow> (case f r of Inl e \<Rightarrow> ([], Some e) | Inr None \<Rightarrow> ([], None) | Inr (Some d) \<Rightarrow> ([d], None))
     | _ \<Rightarrow> ([], Some AttributeError))"

definition yield1 :: "pyerr + 'a \<Rightarrow> 'a gen" where
  "yield1 r = (case r of Inl e \<Rightarrow> ([], Some e) | Inr x \<Rightarrow> ([x], None))"

abbreviation rget :: "row \<Rightarrow> string \<Rightarrow> pyval" where
  "rget r k \<equiv> vget r (lit k)"

text \<open>\<open>row[k]\<close>.\<close>

definition rkey :: "row \<Rightarrow> string \<Rightarrow> pyerr + pyval" where
  "rkey r k = (case dget r (lit k) of None \<Rightarrow> Inl KeyError | Some v \<Rightarrow> Inr v)"

text \<open>\<open>(v or "").strip()\<close>, and the same with \<open>or None\<close> after it.\<close>

definition strip_or_empty :: "pyval \<Rightarrow> pyerr + pystr" where
  "strip_or_empty v = (if \<not> truthy v then Inr [] else case v of PStr s \<Rightarrow> Inr (py_strip s) | _ \<Rightarrow> Inl AttributeError)"

definition str_or_none :: "pystr \<Rightarrow> pyval" where
  "str_or_none s = (if s = [] then PNone else PStr s)"

definition strip_or_none :: "pyval \<Rightarrow> pyerr + pyval" where
  "strip_or_none v = map_sum id str_or_none (strip_or_empty v)"

section \<open>Deterministic identifiers\<close>

text \<open>The namespace \<open>00000000-0000-4000-8000-00000000beef\<close>.\<close>

definition PHASE2_UUID_NAMESPACE :: nat where
  "PHASE2_UUID_NAMESPACE = 0x4000800000000000beef"

type_synonym uuid5 = "nat \<Rightarrow> pystr \<Rightarrow> nat"

definition ext_uuid :: "uuid5 \<Rightarrow> string \<Rightarrow> pystr \<Rightarrow> nat" where
  "ext_uuid u5 kind ext_id = u5 PHASE2_UUID_NAMESPACE (lit kind @ lit '':'' @ ext_id)"

section \<open>The \<open>mk_individual_id\<close> lookup\<close>

text \<open>
  \<open>mk_individual_lookup.py\<close>. \<open>csv.DictReader\<close> has split the payload into rows of strings; a later row
  overwrites an earlier one with the same identifier.
\<close>

type_synonym mk_lookup = "pystr dict"

fun add_mk_rows :: "row list \<Rightarrow> mk_lookup \<Rightarrow> pyerr + mk_lookup" where
  "add_mk_rows [] out = Inr out"
| "add_mk_rows (r # rs) out =
     bind_err (strip_or_empty (rget r ''mk_individual_id'')) (\<lambda>mk_id.
     bind_err (strip_or_empty (rget r ''PersonID'')) (\<lambda>person_id.
       if mk_id = [] \<or> person_id = [] then add_mk_rows rs out
       else add_mk_rows rs (dset out mk_id person_id)))"

definition parse_mk_csv :: "row list \<Rightarrow> pyerr + mk_lookup" where
  "parse_mk_csv rows = add_mk_rows rows []"

definition mk_get :: "(pyval \<Rightarrow> pystr) \<Rightarrow> mk_lookup \<Rightarrow> pyval \<Rightarrow> pystr option" where
  "mk_get rp lookup mk_id = dget lookup (py_str rp mk_id)"

definition mk_resolve :: "(pyval \<Rightarrow> pystr) \<Rightarrow> mk_lookup \<Rightarrow> pyval \<Rightarrow> pyerr + pystr" where
  "mk_resolve rp lookup mk_id = (case dget lookup (py_str rp mk_id) of None \<Rightarrow> Inl KeyError | Some p \<Rightarrow> Inr p)"

text \<open>The last row that carries both identifiers decides.\<close>

definition mk_pairs :: "row list \<Rightarrow> (pystr \<times> pystr) list" where
  "mk_pairs rows = concat (map (\<lambda>r.
     case (strip_or_empty (rget r ''mk_individual_id''), strip_or_empty (rget r ''PersonID'')) of
       (Inr m, Inr p) \<Rightarrow> if m = [] \<or> p = [] then [] else [(m, p)]
     | _ \<Rightarrow> []) rows)"

lemma add_mk_rows_get:
  "add_mk_rows rows out = Inr lookup \<Longrightarrow>
     dget lookup k = (case map_of (rev (mk_pairs rows)) k of None \<Rightarrow> dget out k | Some p \<Rightarrow> Some p)"
proof (induction rows arbitrary: out)
  case Nil
  then show ?case by (simp add: mk_pairs_def)
next
  case (Cons r rs)
  obtain m p where mp: "strip_or_empty (rget r ''mk_individual_id'') = Inr m" "strip_or_empty (rget r ''PersonID'') = Inr p"
    using Cons.prems by (auto simp: bind_err_Inr)
  show ?case
  proof (cases "m = [] \<or> p = []")
    case True
    then show ?thesis using Cons.prems Cons.IH [of out] mp by (simp add: mk_pairs_def)
  next
    case False
    then have "add_mk_rows rs (dset out m p) = Inr lookup" using Cons.prems mp by simp
    from Cons.IH [OF this] False mp show ?thesis
      by (auto simp: mk_pairs_def map_add_Some_iff map_add_None split: option.splits)
  qed
qed

lemma mk_get_last_row:
  assumes "parse_mk_csv rows = Inr lookup"
  shows "mk_get rp lookup (PStr k) = map_of (rev (mk_pairs rows)) k"
  using add_mk_rows_get [OF assms [unfolded parse_mk_csv_def], of k]
  by (simp add: mk_get_def split: option.splits)

section \<open>Parsers\<close>

definition parse_person :: "(pyval \<Rightarrow> pystr) \<Rightarrow> row \<Rightarrow> pyerr + row option" where
  "parse_person rp r = Inr
     (if rget r ''PersonID'' = PNone \<or> rget r ''PersonID'' = PStr [] then None
      else Some
        [(lit ''person_id_external'', PStr (py_str rp (rget r ''PersonID''))),
         (lit ''first_name_he'', rget r ''FirstName''), (lit ''last_name_he'', rget r ''LastName''),
         (lit ''gender'', rget r ''GenderDesc''), (lit ''is_current'', PBool (truthy (rget r ''IsCurrent''))),
         (lit ''last_updated_at'', rget r ''LastUpdatedDate'')])"

definition parse_committee :: "(pyval \<Rightarrow> pystr) \<Rightarrow> row \<Rightarrow> pyerr + row option" where
  "parse_committee rp r = Inr
     (if \<not> truthy (rget r ''CommitteeID'') then None
      else Some
        [(lit ''committee_id_external'', PStr (py_str rp (rget r ''CommitteeID''))),
         (lit ''name_he'', rget r ''Name''), (lit ''knesset_number'', rget r ''KnessetNum''),
         (lit ''committee_type'', rget r ''CommitteeTypeDesc''), (lit ''start_date'', rget r ''StartDate''),
         (lit ''end_date'', rget r ''FinishDate''), (lit ''is_current'', PBool (truthy (rget r ''IsCurrent'')))])"

text \<open>\<open>str(v) if v else None\<close>.\<close>

definition str_if :: "(pyval \<Rightarrow> pystr) \<Rightarrow> pyval \<Rightarrow> pyval" where
  "str_if rp v = (if truthy v then PStr (py_str rp v) else PNone)"

definition parse_position :: "(pyval \<Rightarrow> pystr) \<Rightarrow> row \<Rightarrow> pyerr + row option" where
  "parse_position rp r = Inr
     (if \<not> truthy (rget r ''PersonToPositionID'') \<or> \<not> truthy (rget r ''PersonID'') then None
      else Some
        [(lit ''person_to_position_id_external'', PStr (py_str rp (rget r ''PersonToPositionID''))),
         (lit ''person_id_external'', PStr (py_str rp (rget r ''PersonID''))),
         (lit ''position_id'', rget r ''PositionID''),
         (lit ''faction_id_external'', str_if rp (rget r ''FactionID'')),
         (lit ''faction_name'', rget r ''FactionName''),
         (lit ''committee_id_external'', str_if rp (rget r ''CommitteeID'')),
         (lit ''committee_name'', rget r ''CommitteeName''),
         (lit ''gov_ministry_id'', str_if rp (rget r ''GovMinistryID'')),
         (lit ''gov_ministry_name'', rget r ''GovMinistryName''), (lit ''duty_desc'', rget r ''DutyDesc''),
         (lit ''start_date'', rget r ''StartDate''), (lit ''finish_date'', rget r ''FinishDate''),
         (lit ''knesset_num'', rget r ''KnessetNum''), (lit ''is_current'', rget r ''IsCurrent'')])"

text \<open>\<open>v or None\<close>.\<close>

definition or_none :: "pyval \<Rightarrow> pyval" where
  "or_none v = (if truthy v then v else PNone)"

definition parse_committee_membership :: "row \<Rightarrow> pyerr + row option" where
  "parse_committee_membership r =
     bind_err (strip_or_empty (rget r ''mk_individual_id'')) (\<lambda>mk_id.
     bind_err (strip_or_empty (rget r ''committee_id'')) (\<lambda>committee_id.
       if mk_id = [] \<or> committee_id = [] then Inr None
       else
         bind_err (strip_or_none (rget r ''committee_name'')) (\<lambda>committee_name.
         bind_err (strip_or_none (rget r ''position_name'')) (\<lambda>position_name.
         bind_err (strip_or_none (rget r ''start_date'')) (\<lambda>start_date.
         bind_err (strip_or_none (rget r ''finish_date'')) (\<lambda>finish_date. Inr (Some
           [(lit ''mk_individual_id'', PStr mk_id), (lit ''committee_id_external'', PStr committee_id),
            (lit ''committee_name'', committee_name), (lit ''position_id'', or_none (rget r ''position_id'')),
            (lit ''position_name'', position_name), (lit ''start_date'', start_date),
            (lit ''finish_date'', finish_date), (lit ''knesset'', or_none (rget r ''knesset''))])))))))"

definition parse_bill :: "(pyval \<Rightarrow> pystr) \<Rightarrow> row \<Rightarrow> pyerr + row option" where
  "parse_bill rp r = Inr
     (if \<not> truthy (rget r ''BillID'') then None
      else Some
        [(lit ''bill_id_external'', PStr (py_str rp (rget r ''BillID''))), (lit ''title_he'', rget r ''Name''),
         (lit ''knesset_number'', rget r ''KnessetNum''), (lit ''sub_type'', rget r ''SubTypeDesc''),
         (lit ''status_id'', rget r ''StatusID''), (lit ''publication_date'', rget r ''PublicationDate'')])"

definition parse_bill_initiator :: "(pyval \<Rightarrow> pystr) \<Rightarrow> row \<Rightarrow> pyerr + row option" where
  "parse_bill_initiator rp r = Inr
     (if \<not> (truthy (rget r ''BillInitiatorID'') \<and> truthy (rget r ''BillID'') \<and> truthy (rget r ''PersonID'')) then None
      else if \<not> truthy (rget r ''IsInitiator'') then None
      else Some
        [(lit ''bill_initiator_id_external'', PStr (py_str rp (rget r ''BillInitiatorID''))),
         (lit ''bill_id_external'', PStr (py_str rp (rget r ''BillID''))),
         (lit ''person_id_external'', PStr (py_str rp (rget r ''PersonID''))), (lit ''ordinal'', rget r ''Ordinal'')])"

text \<open>\<open>int(v)\<close> where both \<open>TypeError\<close> and \<open>ValueError\<close> are caught.\<close>

definition try_int :: "pyval \<Rightarrow> int option" where
  "try_int v = (case py_int v of Inl _ \<Rightarrow> None | Inr i \<Rightarrow> Some i)"

definition parse_vote :: "(pyval \<Rightarrow> pystr) \<Rightarrow> row \<Rightarrow> pyerr + row option" where
  "parse_vote rp r = Inr
     (let vote_id = rget r ''vote_id''; kmmbr_id = rget r ''kmmbr_id'' in
      if \<not> truthy vote_id \<or> \<not> truthy kmmbr_id then None
      else
        let vote_result = (case try_int (py_or (rget r ''vote_result'') (PInt 0)) of None \<Rightarrow> 0 | Some i \<Rightarrow> i);
            knesset_num = (if truthy (rget r ''knesset_num'') then of_opt PInt (try_int (rget r ''knesset_num'')) else PNone);
            person = dropWhile (\<lambda>c. c = 48) (py_str rp kmmbr_id)
        in Some
          [(lit ''vote_id_external'', PStr (py_str rp vote_id)),
           (lit ''person_id_external'', PStr (if person = [] then lit ''0'' else person)),
           (lit ''person_name_he'', rget r ''kmmbr_name''), (lit ''vote_result'', PInt vote_result),
           (lit ''knesset_number'', knesset_num), (lit ''faction_id_external'', str_if rp (rget r ''faction_id'')),
           (lit ''faction_name_he'', rget r ''faction_name'')])"

definition coerce_int :: "pyval \<Rightarrow> pyval" where
  "coerce_int v = (if v = PNone \<or> v = PStr [] then PNone else of_opt PInt (try_int v))"

text \<open>\<open>s.replace(" ", "T", 1)\<close> where a blank occurs.\<close>

definition replace_first_space :: "pystr \<Rightarrow> pystr" where
  "replace_first_space s = takeWhile (\<lambda>c. c \<noteq> 32) s @ 84 # tl (dropWhile (\<lambda>c. c \<noteq> 32) s)"

definition attendance_iso_datetime :: "(pyval \<Rightarrow> pystr) \<Rightarrow> pyval \<Rightarrow> pyval" where
  "attendance_iso_datetime rp v =
     (if v = PNone \<or> v = PStr [] then PNone
      else
        let s = py_strip (py_str rp v) in
        if s = [] then PNone
        else if 84 \<in> set s then PStr s
        else if 32 \<in> set s then PStr (replace_first_space s)
        else if length s = 10 then PStr (s @ lit ''T00:00:00'')
        else PStr s)"

definition parse_attendance_row :: "(pyval \<Rightarrow> pystr) \<Rightarrow> row \<Rightarrow> pyerr + row option" where
  "parse_attendance_row rp r =
     (let raw = rget r ''CommitteeSessionID'';
          session_id = (case raw of PStr s \<Rightarrow> PStr (py_strip s) | _ \<Rightarrow> raw);
          committee_id = rget r ''CommitteeID''
      in if \<not> truthy session_id \<or> \<not> truthy committee_id then Inr None
         else
           bind_err (strip_or_none (rget r ''TypeDesc'')) (\<lambda>session_type.
           bind_err (strip_or_none (rget r ''SessionUrl'')) (\<lambda>session_url. Inr (Some
             [(lit ''session_id_external'', PStr (py_str rp session_id)),
              (lit ''committee_id_external'', PStr (py_str rp committee_id)),
              (lit ''knesset_number'', coerce_int (rget r ''KnessetNum'')),
              (lit ''occurred_at'', attendance_iso_datetime rp (rget r ''StartDate'')),
              (lit ''finished_at'', attendance_iso_datetime rp (rget r ''FinishDate'')),
              (lit ''session_type'', session_type), (lit ''session_url'', session_url),
              (lit ''attended_mk_individual_ids_raw'', rget r ''attended_mk_individual_ids'')]))))"

text \<open>The parsers of whole pages.\<close>

definition parse_persons :: "(pyval \<Rightarrow> pystr) \<Rightarrow> pyval list \<Rightarrow> row gen" where
  "parse_persons rp vs = parse_rows (parse_person rp) vs"

definition parse_committees :: "(pyval \<Rightarrow> pystr) \<Rightarrow> pyval list \<Rightarrow> row gen" where
  "parse_committees rp vs = parse_rows (parse_committee rp) vs"

definition parse_positions :: "(pyval \<Rightarrow> pystr) \<Rightarrow> pyval list \<Rightarrow> row gen" where
  "parse_positions rp vs = parse_rows (parse_position rp) vs"

definition parse_committee_memberships :: "pyval list \<Rightarrow> row gen" where
  "parse_committee_memberships vs = parse_rows parse_committee_membership vs"

definition parse_bills :: "(pyval \<Rightarrow> pystr) \<Rightarrow> pyval list \<Rightarrow> row gen" where
  "parse_bills rp vs = parse_rows (parse_bill rp) vs"

definition parse_bill_initiators :: "(pyval \<Rightarrow> pystr) \<Rightarrow> pyval list \<Rightarrow> row gen" where
  "parse_bill_initiators rp vs = parse_rows (parse_bill_initiator rp) vs"

definition parse_votes :: "(pyval \<Rightarrow> pystr) \<Rightarrow> pyval list \<Rightarrow> row gen" where
  "parse_votes rp vs = parse_rows (parse_vote rp) vs"

definition parse_attendance :: "(pyval \<Rightarrow> pystr) \<Rightarrow> pyval list \<Rightarrow> row gen" where
  "parse_attendance rp vs = parse_rows (parse_attendance_row rp) vs"

section \<open>Normalizers\<close>

text \<open>
  The text of an external identifier in a row. The parsers put a string there; an f-string would print
  any other value as \<open>str\<close> does.
\<close>

definition row_ext :: "(pyval \<Rightarrow> pystr) \<Rightarrow> row \<Rightarrow> string \<Rightarrow> pyerr + pystr" where
  "row_ext rp r k = map_sum id (py_str rp) (rkey r k)"

record normalized_party = np_party_id :: nat  np_canonical_name :: pystr  np_hebrew_name :: "pystr option"

record normalized_office = no_office_id :: nat  no_canonical_name :: pystr  no_office_type :: pystr  no_scope :: pystr

record normalized_person =
  pn_person_id :: nat
  pn_canonical_name :: pystr
  pn_hebrew_name :: "pystr option"
  pn_external_ids :: "pystr dict"
  pn_is_current :: bool
  pn_party :: "normalized_party option"
  pn_office :: "normalized_office option"

text \<open>\<open>normalize_hebrew(v or "")\<close>: a value that is neither empty nor a string is a \<open>TypeError\<close>.\<close>

definition normalized_name :: "(pystr \<Rightarrow> pystr) \<Rightarrow> pyval \<Rightarrow> pyerr + pystr" where
  "normalized_name nfc v =
     (if \<not> truthy v then Inr [] else case v of PStr s \<Rightarrow> Inr (normalize_hebrew nfc s) | _ \<Rightarrow> Inl TypeError)"

definition hebrew_name :: "(pystr \<Rightarrow> pystr) \<Rightarrow> row \<Rightarrow> pyerr + pystr option" where
  "hebrew_name nfc r =
     bind_err (normalized_name nfc (rget r ''first_name_he'')) (\<lambda>first.
     bind_err (normalized_name nfc (rget r ''last_name_he'')) (\<lambda>last.
       let pieces = filter (\<lambda>p. p \<noteq> []) [first, last]
       in Inr (if pieces = [] then None else Some (py_join [32] pieces))))"

definition normalize_person ::
    "uuid5 \<Rightarrow> (pyval \<Rightarrow> pystr) \<Rightarrow> (pystr \<Rightarrow> pystr) \<Rightarrow> row \<Rightarrow> normalized_person gen" where
  "normalize_person u5 rp nfc r = yield1
     (bind_err (row_ext rp r ''person_id_external'') (\<lambda>ext_id.
      bind_err (hebrew_name nfc r) (\<lambda>hebrew. Inr
        \<lparr>pn_person_id = ext_uuid u5 ''knesset_person'' ext_id,
         pn_canonical_name = (case hebrew of Some h \<Rightarrow> h | None \<Rightarrow> lit ''person:'' @ ext_id),
         pn_hebrew_name = hebrew, pn_external_ids = [(lit ''knesset_person_id'', ext_id)],
         pn_is_current = truthy (rget r ''is_current''), pn_party = None, pn_office = None\<rparr>)))"

record normalized_membership =
  nm_membership_term_id :: nat
  nm_person_id :: nat
  nm_committee_id :: nat
  nm_valid_from :: pyval
  nm_valid_to :: pyval

record normalized_committee =
  nc_committee_id :: nat
  nc_canonical_name :: pyval
  nc_hebrew_name :: pyval
  nc_knesset_number :: pyval
  nc_committee_type :: pyval
  nc_start_date :: pyval
  nc_end_date :: pyval
  nc_is_current :: bool
  nc_memberships :: "normalized_membership list"

definition normalize_committee :: "uuid5 \<Rightarrow> (pyval \<Rightarrow> pystr) \<Rightarrow> row \<Rightarrow> normalized_committee gen" where
  "normalize_committee u5 rp r = yield1
     (bind_err (row_ext rp r ''committee_id_external'') (\<lambda>ext. Inr
        \<lparr>nc_committee_id = ext_uuid u5 ''knesset_committee'' ext,
         nc_canonical_name = py_or (rget r ''name_he'') (PStr (lit ''committee:'' @ ext)),
         nc_hebrew_name = rget r ''name_he'', nc_knesset_number = rget r ''knesset_number'',
         nc_committee_type = rget r ''committee_type'', nc_start_date = rget r ''start_date'',
         nc_end_date = rget r ''end_date'', nc_is_current = truthy (rget r ''is_current''), nc_memberships = []\<rparr>))"

definition POSITION_TYPE :: "(int \<times> string) list" where
  "POSITION_TYPE = [(30, ''prime_minister''), (39, ''committee_chair''), (42, ''committee_member''), (43, ''mk''),
     (48, ''deputy_speaker''), (49, ''minister''), (50, ''deputy_prime_minister''), (51, ''deputy_minister''),
     (54, ''mk''), (61, ''mk''), (65, ''committee_chair''), (67, ''committee_member'')]"

definition GOVERNMENT_OFFICE_TYPES :: "string list" where
  "GOVERNMENT_OFFICE_TYPES = [''prime_minister'', ''minister'', ''deputy_prime_minister'', ''deputy_minister'']"

text \<open>
  \<open>position_id in _POSITION_TYPE\<close> hashes the identifier, so a list or a dictionary is a \<open>TypeError\<close>; a
  number finds the entry it equals.
\<close>

definition office_type :: "pyval \<Rightarrow> pyval \<Rightarrow> pyerr + pystr" where
  "office_type position_id duty_desc =
     (if position_id \<noteq> PNone \<and> \<not> hashable position_id then Inl TypeError
      else case find (\<lambda>(k, _). py_eq position_id (PInt k)) POSITION_TYPE of
        Some (_, t) \<Rightarrow> Inr (lit t)
      | None \<Rightarrow>
          if truthy duty_desc then (case duty_desc of PStr s \<Rightarrow> Inr (py_strip s) | _ \<Rightarrow> Inl AttributeError)
          else Inr (lit ''unknown''))"

definition office_canonical_name :: "pystr \<Rightarrow> pyval \<Rightarrow> pyval \<Rightarrow> pyval" where
  "office_canonical_name position_type gov_ministry_name duty_desc =
     (if truthy gov_ministry_name \<and> position_type \<in> lit ` set GOVERNMENT_OFFICE_TYPES then gov_ministry_name
      else if truthy duty_desc then duty_desc else PNone)"

record normalized_party_membership =
  pm_party_id :: nat
  pm_party_name :: pystr
  pm_valid_from :: pyval
  pm_valid_to :: pyval

record normalized_office_held =
  oh_office_id :: nat
  oh_canonical_name :: pyval
  oh_office_type :: pystr
  oh_scope :: pystr
  oh_valid_from :: pyval
  oh_valid_to :: pyval

record normalized_position_term =
  pt_position_term_id :: nat
  pt_person_id :: nat
  pt_office_id :: nat
  pt_appointing_body :: pystr
  pt_valid_from :: pyval
  pt_valid_to :: pyval
  pt_is_acting :: bool

record normalized_position_bundle =
  pb_person_id :: nat
  pb_person_to_position_id_external :: pyval
  pb_party :: "normalized_party_membership option"
  pb_office :: "normalized_office_held option"
  pb_position_term :: "normalized_position_term option"

definition position_party ::
    "uuid5 \<Rightarrow> (pyval \<Rightarrow> pystr) \<Rightarrow> row \<Rightarrow> pyerr + normalized_party_membership option" where
  "position_party u5 rp r =
     (if \<not> truthy (rget r ''faction_id_external'') then Inr None
      else bind_err (strip_or_empty (rget r ''faction_name'')) (\<lambda>name.
        let ext = py_str rp (rget r ''faction_id_external'') in Inr (Some
          \<lparr>pm_party_id = ext_uuid u5 ''knesset_party'' ext,
           pm_party_name = (if name = [] then lit ''party:'' @ ext else name),
           pm_valid_from = rget r ''start_date'', pm_valid_to = rget r ''finish_date''\<rparr>)))"

definition position_office ::
    "uuid5 \<Rightarrow> (pyval \<Rightarrow> pystr) \<Rightarrow> row \<Rightarrow> nat \<Rightarrow>
     pyerr + (normalized_office_held \<times> normalized_position_term) option" where
  "position_office u5 rp r person_id =
     (if rget r ''position_id'' = PNone then Inr None
      else
        let position_id = rget r ''position_id'';
            office_ext = py_str rp position_id @ lit '':'' @ py_str rp (py_or (rget r ''gov_ministry_id'') (PLit ''-''));
            office_id = ext_uuid u5 ''knesset_office'' office_ext
        in bind_err (office_type position_id (rget r ''duty_desc'')) (\<lambda>typ.
           bind_err (row_ext rp r ''person_to_position_id_external'') (\<lambda>ptp_ext. Inr (Some
             (\<lparr>oh_office_id = office_id,
               oh_canonical_name = office_canonical_name typ (rget r ''gov_ministry_name'') (rget r ''duty_desc''),
               oh_office_type = typ, oh_scope = lit ''national'',
               oh_valid_from = rget r ''start_date'', oh_valid_to = rget r ''finish_date''\<rparr>,
              \<lparr>pt_position_term_id = ext_uuid u5 ''knesset_position_term'' ptp_ext,
               pt_person_id = person_id, pt_office_id = office_id,
               pt_appointing_body = (if typ \<in> lit ` set GOVERNMENT_OFFICE_TYPES then lit ''government'' else lit ''knesset''),
               pt_valid_from = rget r ''start_date'', pt_valid_to = rget r ''finish_date'', pt_is_acting = False\<rparr>)))))"

definition normalize_position :: "uuid5 \<Rightarrow> (pyval \<Rightarrow> pystr) \<Rightarrow> row \<Rightarrow> normalized_position_bundle gen" where
  "normalize_position u5 rp r =
     (case row_ext rp r ''person_id_external'' of
        Inl e \<Rightarrow> ([], Some e)
      | Inr person_ext \<Rightarrow>
          if \<not> truthy (rget r ''start_date'') then ([], None)
          else
            let person_id = ext_uuid u5 ''knesset_person'' person_ext;
                res = bind_err (position_party u5 rp r) (\<lambda>party.
                  bind_err (position_office u5 rp r person_id) (\<lambda>office. Inr (party, office)))
            in case res of
                 Inl e \<Rightarrow> ([], Some e)
               | Inr (None, None) \<Rightarrow> ([], None)
               | Inr (party, office) \<Rightarrow> yield1
                   (bind_err (rkey r ''person_to_position_id_external'') (\<lambda>ptp. Inr
                     \<lparr>pb_person_id = person_id, pb_person_to_position_id_external = ptp, pb_party = party,
                      pb_office = map_option fst office, pb_position_term = map_option snd office\<rparr>)))"

record normalized_committee_membership =
  cm_person_id :: nat
  cm_committee_id :: nat
  cm_mk_individual_id :: pyval
  cm_committee_id_external :: pyval
  cm_committee_name :: pyval
  cm_position_name :: pyval
  cm_valid_from :: pyval
  cm_valid_to :: pyval
  cm_knesset :: pyval

definition membership_iso_datetime :: "pyval \<Rightarrow> pyerr + pyval" where
  "membership_iso_datetime v =
     (case v of
        PNone \<Rightarrow> Inr PNone
      | PStr d \<Rightarrow>
          (let s = py_strip d in
           if s = [] then Inr PNone
           else if 84 \<in> set s then Inr (PStr s)
           else if length s = 10 then Inr (PStr (s @ lit ''T00:00:00''))
           else Inr (PStr s))
      | _ \<Rightarrow> Inl AttributeError)"

definition normalize_committee_membership ::
    "uuid5 \<Rightarrow> (pyval \<Rightarrow> pystr) \<Rightarrow> mk_lookup \<Rightarrow> row \<Rightarrow> normalized_committee_membership gen" where
  "normalize_committee_membership u5 rp lookup r =
     (case rkey r ''mk_individual_id'' of
        Inl e \<Rightarrow> ([], Some e)
      | Inr mk_id \<Rightarrow>
          (case mk_get rp lookup mk_id of
             None \<Rightarrow> ([], None)
           | Some person_external \<Rightarrow>
               (case membership_iso_datetime (rget r ''start_date'') of
                  Inl e \<Rightarrow> ([], Some e)
                | Inr PNone \<Rightarrow> ([], None)
                | Inr valid_from \<Rightarrow> yield1
                    (bind_err (rkey r ''committee_id_external'') (\<lambda>committee.
                     bind_err (membership_iso_datetime (rget r ''finish_date'')) (\<lambda>valid_to. Inr
                       \<lparr>cm_person_id = ext_uuid u5 ''knesset_person'' person_external,
                        cm_committee_id = ext_uuid u5 ''knesset_committee'' (py_str rp committee),
                        cm_mk_individual_id = mk_id, cm_committee_id_external = committee,
                        cm_committee_name = rget r ''committee_name'', cm_position_name = rget r ''position_name'',
                        cm_valid_from = valid_from, cm_valid_to = valid_to,
                        cm_knesset = coerce_int (rget r ''knesset'')\<rparr>))))))"

record normalized_bill =
  nb_bill_id :: nat
  nb_title :: pystr
  nb_knesset_number :: pyval
  nb_status :: pyval
  nb_sub_type :: pyval
  nb_publication_date :: pyval
  nb_sponsorships :: "nat list"

definition normalize_bill :: "uuid5 \<Rightarrow> (pyval \<Rightarrow> pystr) \<Rightarrow> row \<Rightarrow> normalized_bill gen" where
  "normalize_bill u5 rp r = yield1
     (bind_err (row_ext rp r ''bill_id_external'') (\<lambda>ext.
      bind_err (case py_or (rget r ''title_he'') (PStr (lit ''bill:'' @ ext)) of
                  PStr s \<Rightarrow> Inr (py_strip s) | _ \<Rightarrow> Inl AttributeError) (\<lambda>title. Inr
        \<lparr>nb_bill_id = ext_uuid u5 ''knesset_bill'' ext, nb_title = title, nb_knesset_number = rget r ''knesset_number'',
         nb_status = (if rget r ''status_id'' = PNone then PNone
           else PStr (lit ''status:'' @ py_str rp (rget r ''status_id''))),
         nb_sub_type = rget r ''sub_type'', nb_publication_date = rget r ''publication_date'', nb_sponsorships = []\<rparr>)))"

record normalized_bill_sponsorship =
  bs_bill_id :: nat
  bs_person_id :: nat
  bs_bill_id_external :: pyval
  bs_person_id_external :: pyval
  bs_ordinal :: pyval

definition normalize_bill_initiator :: "uuid5 \<Rightarrow> (pyval \<Rightarrow> pystr) \<Rightarrow> row \<Rightarrow> normalized_bill_sponsorship gen" where
  "normalize_bill_initiator u5 rp r = yield1
     (bind_err (rkey r ''bill_id_external'') (\<lambda>bill_ext.
      bind_err (rkey r ''person_id_external'') (\<lambda>person_ext. Inr
        \<lparr>bs_bill_id = ext_uuid u5 ''knesset_bill'' (py_str rp bill_ext),
         bs_person_id = ext_uuid u5 ''knesset_person'' (py_str rp person_ext),
         bs_bill_id_external = bill_ext, bs_person_id_external = person_ext, bs_ordinal = rget r ''ordinal''\<rparr>)))"

definition KNS_VOTE_RESULT :: "(int \<times> string) list" where
  "KNS_VOTE_RESULT = [(1, ''for''), (2, ''against''), (3, ''abstain'')]"

record normalized_cast_vote = cv_person_id :: nat  cv_value :: pystr

record normalized_vote_event =
  ve_vote_event_id :: nat
  ve_bill_id :: "nat option"
  ve_occurred_at :: pyval
  ve_vote_type :: pyval
  ve_knesset_number :: pyval
  ve_cast_votes :: "normalized_cast_vote list"

definition vote_value_of :: "pyval \<Rightarrow> pyerr + pystr option" where
  "vote_value_of raw =
     (if \<not> hashable raw then Inl TypeError
      else Inr (map_option (lit \<circ> snd) (find (\<lambda>(k, _). py_eq raw (PInt k)) KNS_VOTE_RESULT)))"

definition normalize_vote :: "uuid5 \<Rightarrow> (pyval \<Rightarrow> pystr) \<Rightarrow> row \<Rightarrow> normalized_vote_event gen" where
  "normalize_vote u5 rp r = yield1
     (bind_err (row_ext rp r ''vote_id_external'') (\<lambda>ext.
      bind_err (vote_value_of (rget r ''vote_result'')) (\<lambda>mapped. Inr
        \<lparr>ve_vote_event_id = ext_uuid u5 ''knesset_vote'' ext, ve_bill_id = None, ve_occurred_at = PNone,
         ve_vote_type = PNone, ve_knesset_number = rget r ''knesset_number'',
         ve_cast_votes = (case mapped of
             Some v \<Rightarrow>
               if truthy (rget r ''person_id_external'')
               then [\<lparr>cv_person_id = ext_uuid u5 ''knesset_person'' (py_str rp (rget r ''person_id_external'')), cv_value = v\<rparr>]
               else []
           | None \<Rightarrow> [])\<rparr>)))"

record normalized_attendee = at_person_id :: nat  at_presence :: pystr  at_mk_individual_id :: pystr

record normalized_attendance_event =
  ae_attendance_event_id :: nat
  ae_committee_id :: nat
  ae_occurred_at :: pyval
  ae_knesset_number :: pyval
  ae_session_type :: pyval
  ae_session_url :: pyval
  ae_attendees :: "normalized_attendee list"

text \<open>\<open>jl\<close> is \<open>json.loads\<close>, \<open>None\<close> where it raises.\<close>

definition stripped_texts :: "(pyval \<Rightarrow> pystr) \<Rightarrow> pyval list \<Rightarrow> pystr list" where
  "stripped_texts rp vs = filter (\<lambda>s. s \<noteq> []) (map (py_strip \<circ> py_str rp) vs)"

definition parse_attended_ids :: "(pyval \<Rightarrow> pystr) \<Rightarrow> (pystr \<Rightarrow> pyval option) \<Rightarrow> pyval \<Rightarrow> pystr list" where
  "parse_attended_ids rp jl raw =
     (if raw = PNone \<or> raw = PStr [] \<or> raw = PLit ''[]'' then []
      else case raw of
        PList vs \<Rightarrow> stripped_texts rp vs
      | _ \<Rightarrow> (case jl (py_str rp raw) of Some (PList vs) \<Rightarrow> stripped_texts rp vs | _ \<Rightarrow> []))"

definition attendees_of :: "uuid5 \<Rightarrow> mk_lookup \<Rightarrow> pystr list \<Rightarrow> normalized_attendee list" where
  "attendees_of u5 lookup ids = List.map_filter (\<lambda>mk_id. map_option (\<lambda>person.
     \<lparr>at_person_id = ext_uuid u5 ''knesset_person'' person, at_presence = lit ''present'', at_mk_individual_id = mk_id\<rparr>)
     (dget lookup mk_id)) ids"

definition normalize_attendance ::
    "uuid5 \<Rightarrow> (pyval \<Rightarrow> pystr) \<Rightarrow> (pystr \<Rightarrow> pyval option) \<Rightarrow> mk_lookup option \<Rightarrow> row \<Rightarrow> normalized_attendance_event gen" where
  "normalize_attendance u5 rp jl lookup r = yield1
     (bind_err (row_ext rp r ''session_id_external'') (\<lambda>session_ext.
      bind_err (row_ext rp r ''committee_id_external'') (\<lambda>committee_ext. Inr
        \<lparr>ae_attendance_event_id = ext_uuid u5 ''knesset_attendance_event'' session_ext,
         ae_committee_id = ext_uuid u5 ''knesset_committee'' committee_ext,
         ae_occurred_at = rget r ''occurred_at'', ae_knesset_number = rget r ''knesset_number'',
         ae_session_type = rget r ''session_type'', ae_session_url = rget r ''session_url'',
         ae_attendees = (case lookup of
             None \<Rightarrow> []
           | Some l \<Rightarrow> attendees_of u5 l (parse_attended_ids rp jl (rget r ''attended_mk_individual_ids_raw'')))\<rparr>)))"

end
