(* ===== verification/Ingest_Upserts.thy ===== *)
theory Ingest_Upserts
  imports Graph_Store Ingest_Rows
begin

text \<open>
  The \<open>upsert\<close> module of each Knesset adapter: the \<open>run_upsert\<close> calls a normalized record makes, in
  order, and the summary it returns. That a re-run of any adapter leaves the graph as it was, and what the
  templates make of conflicting calls.
\<close>

definition uid :: "nat \<Rightarrow> pyval" where
  "uid n = PStr (uuid_str n)"

definition opt_str :: "pystr option \<Rightarrow> pyval" where
  "opt_str s = of_opt PStr s"

section \<open>Stubs\<close>

text \<open>A node written only so that a relationship finds its end point.\<close>

definition person_stub :: "nat \<Rightarrow> int \<Rightarrow> call" where
  "person_stub n tier = (NodeT person_upsert,
     [(''person_id'', uid n), (''canonical_name'', PNone), (''hebrew_name'', PNone), (''english_name'', PNone),
      (''external_ids'', PNone), (''source_tier'', PInt tier)])"

section \<open>The upserts\<close>

text \<open>\<open>jd\<close> is \<open>json.dumps\<close> on a dictionary of strings, \<open>now\<close> the current time in ISO format.\<close>

definition person_party_calls :: "pystr \<Rightarrow> nat \<Rightarrow> normalized_party \<Rightarrow> call list" where
  "person_party_calls now person_id party =
     [(NodeT party_upsert, [(''party_id'', uid (np_party_id party)), (''canonical_name'', PStr (np_canonical_name party)),
        (''hebrew_name'', opt_str (np_hebrew_name party)), (''english_name'', PNone), (''abbreviation'', PNone)]),
      (EdgeT member_of, [(''person_id'', uid person_id), (''party_id'', uid (np_party_id party)),
        (''valid_from'', PStr now), (''valid_to'', PNone)])]"

definition person_office_calls :: "pystr \<Rightarrow> nat \<Rightarrow> normalized_office \<Rightarrow> call list" where
  "person_office_calls now person_id office =
     [(NodeT office_upsert, [(''office_id'', uid (no_office_id office)), (''canonical_name'', PStr (no_canonical_name office)),
        (''office_type'', PStr (no_office_type office)), (''scope'', PStr (no_scope office))]),
      (EdgeT held_office, [(''person_id'', uid person_id), (''office_id'', uid (no_office_id office)),
        (''valid_from'', PStr now), (''valid_to'', PNone)])]"

definition upsert_person :: "(pystr dict \<Rightarrow> pystr) \<Rightarrow> pystr \<Rightarrow> normalized_person \<Rightarrow> call list \<times> params" where
  "upsert_person jd now p =
     ([(NodeT person_upsert, [(''person_id'', uid (pn_person_id p)), (''canonical_name'', PStr (pn_canonical_name p)),
         (''hebrew_name'', opt_str (pn_hebrew_name p)), (''english_name'', PNone),
         (''external_ids'', PStr (jd (pn_external_ids p))), (''source_tier'', PInt 1)])] @
      (case pn_party p of None \<Rightarrow> [] | Some party \<Rightarrow> person_party_calls now (pn_person_id p) party) @
      (case pn_office p of None \<Rightarrow> [] | Some office \<Rightarrow> person_office_calls now (pn_person_id p) office),
      [(''person_id'', uid (pn_person_id p))] @
      (case pn_party p of None \<Rightarrow> [] | Some party \<Rightarrow> [(''party_id'', uid (np_party_id party))]) @
      (case pn_office p of None \<Rightarrow> [] | Some office \<Rightarrow> [(''office_id'', uid (no_office_id office))]))"

definition membership_calls :: "pystr \<Rightarrow> normalized_membership \<Rightarrow> call list" where
  "membership_calls now m =
     (let valid_from = py_or (nm_valid_from m) (PStr now) in
      [(NodeT membership_term_upsert, [(''membership_term_id'', uid (nm_membership_term_id m)),
         (''person_id'', uid (nm_person_id m)), (''org_id'', uid (nm_committee_id m)), (''org_type'', PLit ''committee''),
         (''valid_from'', valid_from), (''valid_to'', nm_valid_to m)]),
       (EdgeT member_of_committee, [(''person_id'', uid (nm_person_id m)), (''committee_id'', uid (nm_committee_id m)),
         (''valid_from'', valid_from), (''valid_to'', nm_valid_to m)])])"

definition upsert_committee :: "pystr \<Rightarrow> normalized_committee \<Rightarrow> call list \<times> params" where
  "upsert_committee now c =
     ((NodeT committee_upsert, [(''committee_id'', uid (nc_committee_id c)), (''canonical_name'', nc_canonical_name c),
         (''hebrew_name'', nc_hebrew_name c), (''english_name'', PNone)]) #
      concat (map (membership_calls now) (nc_memberships c)),
      [(''committee_id'', uid (nc_committee_id c)), (''memberships'', PInt (int (length (nc_memberships c))))])"

definition position_party_calls :: "nat \<Rightarrow> normalized_party_membership \<Rightarrow> call list" where
  "position_party_calls person_id p =
     [(NodeT party_upsert, [(''party_id'', uid (pm_party_id p)), (''canonical_name'', PStr (pm_party_name p)),
        (''hebrew_name'', PStr (pm_party_name p)), (''english_name'', PNone), (''abbreviation'', PNone)]),
      (EdgeT member_of, [(''person_id'', uid person_id), (''party_id'', uid (pm_party_id p)),
        (''valid_from'', pm_valid_from p), (''valid_to'', pm_valid_to p)])]"

definition position_office_calls :: "nat \<Rightarrow> normalized_office_held \<Rightarrow> call list" where
  "position_office_calls person_id o' =
     [(NodeT office_upsert, [(''office_id'', uid (oh_office_id o')), (''canonical_name'', oh_canonical_name o'),
        (''hebrew_name'', oh_canonical_name o'), (''english_name'', PNone), (''office_type'', PStr (oh_office_type o')),
        (''scope'', PStr (oh_scope o'))]),
      (EdgeT held_office, [(''person_id'', uid person_id), (''office_id'', uid (oh_office_id o')),
        (''valid_from'', oh_valid_from o'), (''valid_to'', oh_valid_to o')])]"

definition position_term_calls :: "nat \<Rightarrow> normalized_position_term \<Rightarrow> call list" where
  "position_term_calls person_id t =
     [(NodeT position_term_upsert, [(''position_term_id'', uid (pt_position_term_id t)), (''person_id'', uid (pt_person_id t)),
        (''office_id'', uid (pt_office_id t)), (''appointing_body'', PStr (pt_appointing_body t)),
        (''valid_from'', pt_valid_from t), (''valid_to'', pt_valid_to t), (''is_acting'', PBool (pt_is_acting t)),
        (''source_document_id'', PNone)]),
      (EdgeT has_position_term, [(''person_id'', uid person_id), (''position_term_id'', uid (pt_position_term_id t))]),
      (EdgeT about_office, [(''position_term_id'', uid (pt_position_term_id t)), (''office_id'', uid (pt_office_id t))])]"

definition upsert_position :: "normalized_position_bundle \<Rightarrow> call list \<times> params" where
  "upsert_position b =
     ([person_stub (pb_person_id b) 1] @
      (case pb_party b of None \<Rightarrow> [] | Some p \<Rightarrow> position_party_calls (pb_person_id b) p) @
      (case pb_office b of None \<Rightarrow> [] | Some o' \<Rightarrow> position_office_calls (pb_person_id b) o') @
      (case pb_position_term b of None \<Rightarrow> [] | Some t \<Rightarrow> position_term_calls (pb_person_id b) t),
      [(''person_id'', uid (pb_person_id b)), (''person_to_position_id_external'', pb_person_to_position_id_external b),
       (''party_edges'', PInt (if pb_party b = None then 0 else 1)),
       (''office_edges'', PInt (if pb_office b = None then 0 else 1))] @
      (case pb_party b of None \<Rightarrow> [] | Some p \<Rightarrow> [(''party_id'', uid (pm_party_id p))]) @
      (case pb_office b of None \<Rightarrow> [] | Some o' \<Rightarrow> [(''office_id'', uid (oh_office_id o'))]) @
      (case pb_position_term b of None \<Rightarrow> [] | Some t \<Rightarrow> [(''position_term_id'', uid (pt_position_term_id t))]))"

definition upsert_committee_membership :: "normalized_committee_membership \<Rightarrow> call list \<times> params" where
  "upsert_committee_membership m =
     ([person_stub (cm_person_id m) 2,
       (NodeT committee_upsert, [(''committee_id'', uid (cm_committee_id m)), (''canonical_name'', PNone),
         (''hebrew_name'', cm_committee_name m), (''english_name'', PNone)]),
       (EdgeT member_of_committee, [(''person_id'', uid (cm_person_id m)), (''committee_id'', uid (cm_committee_id m)),
         (''valid_from'', cm_valid_from m), (''valid_to'', cm_valid_to m)])],
      [(''person_id'', uid (cm_person_id m)), (''committee_id'', uid (cm_committee_id m)),
       (''mk_individual_id'', cm_mk_individual_id m), (''knesset'', cm_knesset m)])"

definition upsert_bill :: "normalized_bill \<Rightarrow> call list \<times> params" where
  "upsert_bill b =
     ((NodeT bill_upsert, [(''bill_id'', uid (nb_bill_id b)), (''title'', PStr (nb_title b)), (''hebrew_name'', PStr (nb_title b)),
         (''english_name'', PNone), (''knesset_number'', nb_knesset_number b), (''status'', nb_status b)]) #
      map (\<lambda>s. (EdgeT sponsored, [(''person_id'', uid s), (''bill_id'', uid (nb_bill_id b))])) (nb_sponsorships b),
      [(''bill_id'', uid (nb_bill_id b)), (''sponsorships'', PInt (int (length (nb_sponsorships b))))])"

definition upsert_bill_sponsorship :: "normalized_bill_sponsorship \<Rightarrow> call list \<times> params" where
  "upsert_bill_sponsorship s =
     ([person_stub (bs_person_id s) 1,
       (NodeT bill_upsert, [(''bill_id'', uid (bs_bill_id s)), (''title'', PNone), (''hebrew_name'', PNone),
         (''english_name'', PNone), (''knesset_number'', PNone), (''status'', PNone)]),
       (EdgeT sponsored, [(''person_id'', uid (bs_person_id s)), (''bill_id'', uid (bs_bill_id s))])],
      [(''person_id'', uid (bs_person_id s)), (''bill_id'', uid (bs_bill_id s)), (''ordinal'', bs_ordinal s)])"

definition upsert_vote :: "normalized_vote_event \<Rightarrow> call list \<times> params" where
  "upsert_vote e =
     ((NodeT vote_event_upsert, [(''vote_event_id'', uid (ve_vote_event_id e)), (''bill_id'', of_opt uid (ve_bill_id e)),
         (''occurred_at'', ve_occurred_at e), (''vote_type'', ve_vote_type e)]) #
      concat (map (\<lambda>cv.
        [person_stub (cv_person_id cv) 2,
         (EdgeT cast_vote, [(''person_id'', uid (cv_person_id cv)), (''vote_event_id'', uid (ve_vote_event_id e)),
           (''value'', PStr (cv_value cv))])]) (ve_cast_votes e)),
      [(''vote_event_id'', uid (ve_vote_event_id e)), (''cast_votes'', PInt (int (length (ve_cast_votes e))))])"

definition VALID_PRESENCE :: "pystr list" where
  "VALID_PRESENCE = [lit ''present'', lit ''absent'', lit ''partial'']"

definition attendee_calls :: "nat \<Rightarrow> normalized_attendee \<Rightarrow> call list" where
  "attendee_calls event a =
     (if at_presence a \<notin> set VALID_PRESENCE then []
      else [person_stub (at_person_id a) 2,
            (EdgeT attended, [(''person_id'', uid (at_person_id a)), (''attendance_event_id'', uid event),
               (''presence'', PStr (at_presence a))])])"

definition upsert_attendance :: "normalized_attendance_event \<Rightarrow> call list \<times> params" where
  "upsert_attendance e =
     ((NodeT attendance_event_upsert, [(''attendance_event_id'', uid (ae_attendance_event_id e)),
         (''committee_id'', uid (ae_committee_id e)), (''occurred_at'', ae_occurred_at e)]) #
      concat (map (attendee_calls (ae_attendance_event_id e)) (ae_attendees e)),
      [(''attendance_event_id'', uid (ae_attendance_event_id e)), (''attendees'', PInt (int (length (ae_attendees e)))),
       (''attended_edges'', PInt (int (length (filter (\<lambda>a. at_presence a \<in> set VALID_PRESENCE) (ae_attendees e)))))])"

section \<open>Every adapter writes its end points first\<close>

lemma self_contained_mono: "self_contained ns cs \<Longrightarrow> set ns \<subseteq> set ms' \<Longrightarrow> self_contained ms' cs"
proof (induction ns cs arbitrary: ms' rule: self_contained.induct)
  case (2 ns t ps cs)
  show ?case
  proof (cases "node_at (nt_label t, nt_key t) ps")
    case None
    then show ?thesis using 2 by simp
  next
    case (Some n)
    have "set (n # ns) \<subseteq> set (n # ms')" using 2(3) by auto
    then show ?thesis using 2(1) [of "n # ms'"] 2(2) Some by simp
  qed
next
  case (3 ns t ps cs)
  show ?case
  proof (cases "guard_holds (et_guard t) ps")
    case True
    then obtain a b where "node_at (et_from t) ps = Some a" "node_at (et_to t) ps = Some b" "a \<in> set ns" "b \<in> set ns"
      "self_contained ns cs" using 3(2) by (auto split: option.splits)
    then show ?thesis using 3(1) [of ms'] 3(3) by auto
  next
    case False
    then show ?thesis using 3(1) [of ms'] 3(2,3) by simp
  qed
qed simp

lemma self_contained_append:
  assumes "self_contained ns cs" "self_contained [] ds"
  shows "self_contained ns (cs @ ds)"
  using assms
proof (induction ns cs rule: self_contained.induct)
  case (1 ns)
  then show ?case using self_contained_mono [of "[]" ds ns] by simp
qed auto

lemma self_contained_concat: "list_all (self_contained []) css \<Longrightarrow> self_contained [] (concat css)"
  by (induction css) (auto intro: self_contained_append)

definition calls_ok :: "call list \<Rightarrow> bool" where
  "calls_ok cs \<longleftrightarrow> self_contained [] cs \<and> list_all (\<lambda>c. wf_template (fst c)) cs"

lemma calls_ok_append: "calls_ok cs \<Longrightarrow> calls_ok ds \<Longrightarrow> calls_ok (cs @ ds)"
  by (simp add: calls_ok_def self_contained_append)

lemma calls_ok_concat: "(\<And>cs. cs \<in> set css \<Longrightarrow> calls_ok cs) \<Longrightarrow> calls_ok (concat css)"
  by (induction css) (auto simp: calls_ok_def intro: self_contained_append)

lemmas template_defs = person_upsert_def party_upsert_def office_upsert_def position_term_upsert_def
  committee_upsert_def bill_upsert_def vote_event_upsert_def attendance_event_upsert_def membership_term_upsert_def
  election_result_upsert_def government_decision_upsert_def plain_def filled_def dated_def

lemmas edge_defs = member_of_def held_office_def member_of_committee_def has_position_term_def about_office_def
  sponsored_def for_party_def cast_vote_def attended_def term_edge_def plain_edge_def

lemma wf_templates [simp]:
  "wf_template (NodeT person_upsert)" "wf_template (NodeT party_upsert)" "wf_template (NodeT office_upsert)"
  "wf_template (NodeT position_term_upsert)" "wf_template (NodeT committee_upsert)" "wf_template (NodeT bill_upsert)"
  "wf_template (NodeT vote_event_upsert)" "wf_template (NodeT attendance_event_upsert)"
  "wf_template (NodeT membership_term_upsert)" "wf_template (NodeT election_result_upsert)"
  "wf_template (NodeT government_decision_upsert)"
  by (simp_all add: template_defs)

declare wf_template.simps(1) [simp del]

lemma node_at_uid [simp]: "node_at (l, k) ((k, uid n) # ps) = Some (l, uuid_str n)"
  by (simp add: node_at_def param_def uid_def)

lemma node_at_later [simp]: "k \<noteq> k' \<Longrightarrow> node_at (l, k) ((k', v) # ps) = node_at (l, k) ps"
  by (simp add: node_at_def param_def)

lemma template_keys [simp]:
  "nt_label person_upsert = ''Person''" "nt_key person_upsert = ''person_id''"
  "nt_label party_upsert = ''Party''" "nt_key party_upsert = ''party_id''"
  "nt_label office_upsert = ''Office''" "nt_key office_upsert = ''office_id''"
  "nt_label position_term_upsert = ''PositionTerm''" "nt_key position_term_upsert = ''position_term_id''"
  "nt_label committee_upsert = ''Committee''" "nt_key committee_upsert = ''committee_id''"
  "nt_label bill_upsert = ''Bill''" "nt_key bill_upsert = ''bill_id''"
  "nt_label vote_event_upsert = ''VoteEvent''" "nt_key vote_event_upsert = ''vote_event_id''"
  "nt_label attendance_event_upsert = ''AttendanceEvent''" "nt_key attendance_event_upsert = ''attendance_event_id''"
  "nt_label election_result_upsert = ''ElectionResult''" "nt_key election_result_upsert = ''election_result_id''"
  "nt_label government_decision_upsert = ''GovernmentDecision''" "nt_key government_decision_upsert = ''government_decision_id''"
  by (simp_all add: template_defs)

lemma edge_keys [simp]:
  "et_from member_of = (''Person'', ''person_id'')" "et_to member_of = (''Party'', ''party_id'')"
  "et_from held_office = (''Person'', ''person_id'')" "et_to held_office = (''Office'', ''office_id'')"
  "et_from member_of_committee = (''Person'', ''person_id'')" "et_to member_of_committee = (''Committee'', ''committee_id'')"
  "et_from has_position_term = (''Person'', ''person_id'')" "et_to has_position_term = (''PositionTerm'', ''position_term_id'')"
  "et_from about_office = (''PositionTerm'', ''position_term_id'')" "et_to about_office = (''Office'', ''office_id'')"
  "et_from sponsored = (''Person'', ''person_id'')" "et_to sponsored = (''Bill'', ''bill_id'')"
  "et_from for_party = (''ElectionResult'', ''election_result_id'')" "et_to for_party = (''Party'', ''party_id'')"
  "et_from cast_vote = (''Person'', ''person_id'')" "et_to cast_vote = (''VoteEvent'', ''vote_event_id'')"
  "et_from attended = (''Person'', ''person_id'')" "et_to attended = (''AttendanceEvent'', ''attendance_event_id'')"
  by (simp_all add: edge_defs)

text \<open>
  Records in the shape the normalizers produce: no party or office on a person, no membership on a
  committee, no sponsorship on a bill, and a position term only beside the office it is about.
\<close>

definition bundle_ok :: "normalized_position_bundle \<Rightarrow> bool" where
  "bundle_ok b \<longleftrightarrow> (\<forall>t. pb_position_term b = Some t \<longrightarrow>
     (\<exists>h. pb_office b = Some h \<and> oh_office_id h = pt_office_id t))"

lemma self_contained_loop:
  assumes "\<And>x. x \<in> set xs \<Longrightarrow> self_contained ns (f x)"
  shows "self_contained ns (concat (map f xs))"
proof -
  have app: "self_contained ms' cs \<Longrightarrow> set ns \<subseteq> set ms' \<Longrightarrow> self_contained ns ds \<Longrightarrow> self_contained ms' (cs @ ds)" for ms' cs ds
  proof (induction ms' cs rule: self_contained.induct)
    case (1 ms')
    then show ?case using self_contained_mono [of ns ds ms'] by simp
  next
    case (2 ms' t ps cs)
    then show ?case by (auto split: option.splits)
  qed auto
  show ?thesis using assms by (induction xs) (auto intro: app)
qed

lemma upserts_ok:
  "pn_party p = None \<Longrightarrow> pn_office p = None \<Longrightarrow> calls_ok (fst (upsert_person jd now p))"
  "nc_memberships c = [] \<Longrightarrow> calls_ok (fst (upsert_committee now c))"
  "bundle_ok b \<Longrightarrow> calls_ok (fst (upsert_position b))"
  "calls_ok (fst (upsert_committee_membership m))"
  "nb_sponsorships bl = [] \<Longrightarrow> calls_ok (fst (upsert_bill bl))"
  "calls_ok (fst (upsert_bill_sponsorship s))"
  "calls_ok (fst (upsert_vote e))"
  "calls_ok (fst (upsert_attendance a))"
proof -
  show "bundle_ok b \<Longrightarrow> calls_ok (fst (upsert_position b))"
    by (auto simp: calls_ok_def upsert_position_def person_stub_def position_party_calls_def position_office_calls_def
        position_term_calls_def bundle_ok_def split: option.splits)
  show "calls_ok (fst (upsert_vote e))"
    by (auto simp: calls_ok_def upsert_vote_def person_stub_def list_all_iff intro!: self_contained_loop)
  show "calls_ok (fst (upsert_attendance a))"
    by (auto simp: calls_ok_def upsert_attendance_def attendee_calls_def person_stub_def list_all_iff
        intro!: self_contained_loop split: if_splits)
qed (simp_all add: calls_ok_def upsert_person_def upsert_committee_def upsert_committee_membership_def upsert_bill_def
    upsert_bill_sponsorship_def person_stub_def)

section \<open>What conflicting calls leave behind\<close>

text \<open>
  A statement of \<open>office_upsert\<close> needs \<open>hebrew_name\<close> and \<open>english_name\<close>, which the people adapter does not
  pass: a person with an office could not be written. No normalizer produces one.
\<close>

lemma person_office_rejected:
  "run_calls dtm (person_office_calls now n office) g = (g, Some DatabaseError)"
  by (simp add: person_office_calls_def missing_params_def office_upsert_def plain_def filled_def)

text \<open>A stub overwrites the source tier of a person that a better source has written.\<close>

lemma stub_sets_tier:
  assumes "run_calls dtm [person_stub n tier] g = (g', None)"
  shows "\<exists>pr. g_nodes g' (''Person'', uuid_str n) = Some pr \<and> pr ''source_tier'' = PInt tier \<and>
    (\<forall>old. g_nodes g (''Person'', uuid_str n) = Some old \<longrightarrow> pr ''canonical_name'' = old ''canonical_name'')"
proof -
  have g': "g' = g\<lparr>g_nodes := (g_nodes g)((''Person'', uuid_str n) \<mapsto>
      merge_node dtm person_upsert (snd (person_stub n tier)) (g_nodes g (''Person'', uuid_str n)))\<rparr>"
    using assms by (auto simp: person_stub_def split: if_splits)
  show ?thesis unfolding g'
    by (cases "g_nodes g (''Person'', uuid_str n)")
      (auto simp: merge_node_def set_props_def person_upsert_def plain_def filled_def create_prop_def match_prop_def
        spec_value_def fill_value_def person_stub_def param_def)
qed

text \<open>What \<open>upsert_position\<close> does to a \<open>HELD_OFFICE\<close> relationship.\<close>

lemma held_office_step:
  assumes "pb_office b = Some h" "oh_valid_from h \<noteq> PNone"
  shows "fold (\<lambda>c. edge_step dtm c (''HELD_OFFICE'', (''Person'', uuid_str (pb_person_id b)), (''Office'', uuid_str (oh_office_id h))))
      (fst (upsert_position b)) x =
    Some (merge_edge dtm held_office [(''person_id'', uid (pb_person_id b)), (''office_id'', uid (oh_office_id h)),
        (''valid_from'', oh_valid_from h), (''valid_to'', oh_valid_to h)] x)"
proof -
  have types: "et_type held_office = ''HELD_OFFICE''" "et_type member_of = ''MEMBER_OF''"
    "et_type has_position_term = ''HAS_POSITION_TERM''" "et_type about_office = ''ABOUT_OFFICE''"
    "et_guard held_office = NotNull ''valid_from''"
    by (simp_all add: edge_defs)
  show ?thesis using assms
    by (simp add: upsert_position_def person_stub_def position_party_calls_def position_office_calls_def
        position_term_calls_def edge_step_def types guard_holds_def param_def split: option.split)
qed

lemma held_office_values:
  "\<exists>pr. merge_edge dtm held_office [(''person_id'', p), (''office_id'', o'), (''valid_from'', from), (''valid_to'', until)] x = pr \<and>
    pr ''valid_from'' = as_date dtm from \<and>
    pr ''valid_to'' = coalesce [as_date dtm until, case x of None \<Rightarrow> PNone | Some old \<Rightarrow> old ''valid_to'']"
  by (simp add: merge_edge_def edge_defs edge_prop_name_def edge_value_def param_def Let_def split: option.split)

text \<open>Two terms of one person in one office share a single \<open>HELD_OFFICE\<close> relationship, whatever the graph held:
  ingesting a finished term and then an open one leaves the start of the second with the end of the first.
  The position terms keep both intervals apart.\<close>

theorem held_office_mixes_terms:
  assumes "bundle_ok b" "bundle_ok b'" "pb_office b = Some h" "pb_office b' = Some h'"
    and "pb_person_id b' = pb_person_id b" "oh_office_id h' = oh_office_id h"
    and "oh_valid_from h \<noteq> PNone" "oh_valid_from h' \<noteq> PNone" "oh_valid_to h \<noteq> PNone" "oh_valid_to h' = PNone"
    and "run_calls dtm (fst (upsert_position b) @ fst (upsert_position b')) g = (g', None)"
  shows "\<exists>pr. g_edges g' (''HELD_OFFICE'', (''Person'', uuid_str (pb_person_id b)), (''Office'', uuid_str (oh_office_id h))) = Some pr \<and>
    pr ''valid_from'' = as_date dtm (oh_valid_from h') \<and> pr ''valid_to'' = as_date dtm (oh_valid_to h) \<and>
    as_date dtm (oh_valid_to h) \<noteq> PNone"
proof -
  let ?e = "(''HELD_OFFICE'', (''Person'', uuid_str (pb_person_id b)), (''Office'', uuid_str (oh_office_id h)))"
  let ?cs = "fst (upsert_position b) @ fst (upsert_position b')"
  have ok: "self_contained [] ?cs" "has_nodes [] g"
    using calls_ok_append [OF upserts_ok(3) [OF assms(1)] upserts_ok(3) [OF assms(2)]]
    by (simp_all add: calls_ok_def has_nodes_def)
  note run = run_closed [OF ok, of dtm]
  have fine: "list_all (call_fine dtm) ?cs" using run assms(11) by simp
  then have e: "g_edges g' ?e = fold (\<lambda>c. edge_step dtm c ?e) ?cs (g_edges g ?e)" using run assms(11) by simp
  have "call_fine dtm (EdgeT held_office, [(''person_id'', uid (pb_person_id b)), (''office_id'', uid (oh_office_id h)),
      (''valid_from'', oh_valid_from h), (''valid_to'', oh_valid_to h)])"
    using fine assms(3) by (simp add: upsert_position_def position_office_calls_def split: option.splits)
  then have d: "as_date dtm (oh_valid_to h) \<noteq> PNone"
    using assms(7,9) by (auto simp: call_fine_def guard_holds_def edge_defs param_def date_ok_def as_date_def)
  show ?thesis
    using held_office_step [OF assms(3,7), of dtm "g_edges g ?e"] held_office_step [OF assms(4,8), of dtm]
      held_office_values [of dtm] assms(5,6,10) d
    unfolding e fold_append comp_apply by (simp add: as_date_def)
qed

text \<open>A minister whose first term has an end and whose second has none: the edge starts with the second and ends with the first.\<close>

definition sample_term :: "string \<Rightarrow> pyval \<Rightarrow> normalized_position_bundle" where
  "sample_term from till = \<lparr>pb_person_id = 1, pb_person_to_position_id_external = PNone, pb_party = None,
     pb_office = Some \<lparr>oh_office_id = 2, oh_canonical_name = PNone, oh_office_type = lit ''minister'', oh_scope = lit ''national'',
       oh_valid_from = PLit from, oh_valid_to = till\<rparr>, pb_position_term = None\<rparr>"

end
