(* ===== verification/Ingest.thy ===== *)
theory Ingest
  imports Archive Ingest_Upserts
begin

text \<open>
  \<open>services/ingestion/_common/src/civic_ingest/\<close>: the OData and CSV pages (\<open>odata.py\<close>, \<open>csv_page.py\<close>), the
  adapter loop (\<open>adapter.py\<close>) and the ingest run around it (\<open>orchestrator.py\<close>), and the driver of
  \<open>scripts/seed_demo.py\<close>, which replays the eight Knesset adapters over recorded payloads. \<open>json.loads\<close>,
  \<open>csv.DictReader\<close>, \<open>urlparse\<close> and \<open>urljoin\<close> are parameters.
\<close>

section \<open>Pages\<close>

record odata_page =
  op_value :: "pyval list"
  op_next_link :: pyval
  op_total_count :: pyval

definition parse_odata_page :: "(nat list \<Rightarrow> pyerr + pyval) \<Rightarrow> nat list \<Rightarrow> pyerr + odata_page" where
  "parse_odata_page jl payload =
     (case jl payload of
        Inl e \<Rightarrow> Inl e
      | Inr (PDict d) \<Rightarrow>
          if dget d (lit ''value'') = None then Inl ValueError
          else (case py_or (rget d ''value'') (PList []) of
                  PList vs \<Rightarrow> Inr
                    \<lparr>op_value = vs,
                     op_next_link = py_or (rget d ''@odata.nextLink'') (rget d ''odata.nextLink''),
                     op_total_count = py_or (rget d ''@odata.count'') (rget d ''odata.count'')\<rparr>
                | _ \<Rightarrow> Inl ValueError)
      | Inr _ \<Rightarrow> Inl ValueError)"

definition parse_csv_page :: "(nat list \<Rightarrow> pyerr + row list) \<Rightarrow> nat list \<Rightarrow> pyerr + odata_page" where
  "parse_csv_page cr payload =
     (case cr payload of
        Inl e \<Rightarrow> Inl e
      | Inr rows \<Rightarrow> Inr \<lparr>op_value = map PDict rows, op_next_link = PNone, op_total_count = PInt (int (length rows))\<rparr>)"

section \<open>The adapter loop\<close>

text \<open>
  The callbacks of \<open>run_adapter\<close> over a state \<open>'s\<close>; \<open>'n\<close> is the type of its normalized records. An
  \<open>archive\<close> callback may be absent, and may return no record.
\<close>

record ('s, 'n) adapter =
  ad_fetch :: "pystr \<Rightarrow> 's \<Rightarrow> 's \<times> (pyerr + fetch_result)"
  ad_archive :: "(fetch_result \<Rightarrow> 's \<Rightarrow> 's \<times> (pyerr + archive_record option)) option"
  ad_page_parser :: "nat list \<Rightarrow> pyerr + odata_page"
  ad_parse :: "pyval list \<Rightarrow> row gen"
  ad_normalize :: "row \<Rightarrow> 'n gen"
  ad_upsert :: "'n \<Rightarrow> 's \<Rightarrow> 's \<times> pyerr option"
  ad_has_scheme :: "pystr \<Rightarrow> bool"
  ad_urljoin :: "pystr \<Rightarrow> pystr \<Rightarrow> pystr"

record adapter_result =
  ar_pages :: nat
  ar_rows_parsed :: nat
  ar_rows_upserted :: nat
  ar_archive_uris :: "pystr list"

definition no_result :: adapter_result where
  "no_result = \<lparr>ar_pages = 0, ar_rows_parsed = 0, ar_rows_upserted = 0, ar_archive_uris = []\<rparr>"

text \<open>The body of the inner loop: the records of one row are written one by one.\<close>

fun upsert_records ::
    "('n \<Rightarrow> 's \<Rightarrow> 's \<times> pyerr option) \<Rightarrow> 'n list \<Rightarrow> adapter_result \<Rightarrow> 's \<Rightarrow> 's \<times> (pyerr + adapter_result)" where
  "upsert_records up [] res st = (st, Inr res)"
| "upsert_records up (n # ns) res st =
     (case up n st of
        (st', Some e) \<Rightarrow> (st', Inl e)
      | (st', None) \<Rightarrow> upsert_records up ns (res\<lparr>ar_rows_upserted := ar_rows_upserted res + 1\<rparr>) st')"

fun process_rows ::
    "('s, 'n) adapter \<Rightarrow> row list \<Rightarrow> adapter_result \<Rightarrow> 's \<Rightarrow> 's \<times> (pyerr + adapter_result)" where
  "process_rows ad [] res st = (st, Inr res)"
| "process_rows ad (r # rs) res st =
     (case ad_normalize ad r of
        (ns, err) \<Rightarrow>
          (case upsert_records (ad_upsert ad) ns (res\<lparr>ar_rows_parsed := ar_rows_parsed res + 1\<rparr>) st of
             (st', Inl e) \<Rightarrow> (st', Inl e)
           | (st', Inr res') \<Rightarrow>
               (case err of Some e \<Rightarrow> (st', Inl e) | None \<Rightarrow> process_rows ad rs res' st')))"

definition archive_page ::
    "('s, 'n) adapter \<Rightarrow> fetch_result \<Rightarrow> adapter_result \<Rightarrow> 's \<Rightarrow> 's \<times> (pyerr + adapter_result)" where
  "archive_page ad fr res st =
     (case ad_archive ad of
        None \<Rightarrow> (st, Inr res)
      | Some archive \<Rightarrow>
          (case archive fr st of
             (st', Inl e) \<Rightarrow> (st', Inl e)
           | (st', Inr None) \<Rightarrow> (st', Inr res)
           | (st', Inr (Some rec)) \<Rightarrow> (st', Inr
               (if ar_archive_uri rec = [] then res
                else res\<lparr>ar_archive_uris := ar_archive_uris res @ [ar_archive_uri rec]\<rparr>))))"

definition run_page ::
    "('s, 'n) adapter \<Rightarrow> pystr \<Rightarrow> adapter_result \<Rightarrow> 's \<Rightarrow> 's \<times> (pyerr + adapter_result \<times> odata_page)" where
  "run_page ad url res st =
     (case ad_fetch ad url st of
        (st1, Inl e) \<Rightarrow> (st1, Inl e)
      | (st1, Inr fr) \<Rightarrow>
     (case ad_page_parser ad (fr_content fr) of
        Inl e \<Rightarrow> (st1, Inl e)
      | Inr page \<Rightarrow>
     (case archive_page ad fr res st1 of
        (st2, Inl e) \<Rightarrow> (st2, Inl e)
      | (st2, Inr res1) \<Rightarrow>
     (case ad_parse ad (op_value page) of
        (rows, err) \<Rightarrow>
     (case process_rows ad rows res1 st2 of
        (st3, Inl e) \<Rightarrow> (st3, Inl e)
      | (st3, Inr res2) \<Rightarrow>
          (case err of
             Some e \<Rightarrow> (st3, Inl e)
           | None \<Rightarrow> (st3, Inr (res2\<lparr>ar_pages := ar_pages res2 + 1\<rparr>, page))))))))"

text \<open>The URL of the next page; \<open>urlparse\<close> of anything but a string raises.\<close>

definition next_url :: "('s, 'n) adapter \<Rightarrow> pystr \<Rightarrow> odata_page \<Rightarrow> pyerr + pystr option" where
  "next_url ad url page =
     (case op_next_link page of
        PNone \<Rightarrow> Inr None
      | PStr next \<Rightarrow> Inr (Some (if ad_has_scheme ad next then next else ad_urljoin ad url next))
      | _ \<Rightarrow> Inl AttributeError)"

definition page_limit :: "int option \<Rightarrow> nat \<Rightarrow> bool" where
  "page_limit max_pages pages = (case max_pages of None \<Rightarrow> False | Some n \<Rightarrow> int pages \<ge> n)"

text \<open>The \<open>while\<close> loop. Not returning is \<open>None\<close>.\<close>

partial_function (option) adapter_loop ::
    "('s, 'n) adapter \<Rightarrow> int option \<Rightarrow> pystr \<Rightarrow> nat \<Rightarrow> adapter_result \<Rightarrow> 's \<Rightarrow>
     ('s \<times> (pyerr + adapter_result)) option" where
  "adapter_loop ad max_pages url pages res st =
     (case run_page ad url res st of
        (st', Inl e) \<Rightarrow> Some (st', Inl e)
      | (st', Inr (res', page)) \<Rightarrow>
          if page_limit max_pages (pages + 1) then Some (st', Inr res')
          else case next_url ad url page of
            Inl e \<Rightarrow> Some (st', Inl e)
          | Inr None \<Rightarrow> Some (st', Inr res')
          | Inr (Some u) \<Rightarrow> adapter_loop ad max_pages u (pages + 1) res' st')"

definition adapter_stats :: "string option \<Rightarrow> adapter_result \<Rightarrow> params" where
  "adapter_stats adapter res =
     [(''pages'', PInt (int (ar_pages res))), (''rows_parsed'', PInt (int (ar_rows_parsed res))),
      (''rows_upserted'', PInt (int (ar_rows_upserted res))),
      (''archive_uri_count'', PInt (int (length (ar_archive_uris res))))] @
     (case adapter of None \<Rightarrow> [] | Some a \<Rightarrow> [(''adapter'', PLit a)])"

definition run_adapter ::
    "('s, 'n) adapter \<Rightarrow> pystr \<Rightarrow> int option \<Rightarrow> 's \<Rightarrow> ('s \<times> (pyerr + adapter_result)) option" where
  "run_adapter ad source_url max_pages st = adapter_loop ad max_pages source_url 0 no_result st"

section \<open>When the loop ends\<close>

lemma run_page_pages:
  assumes "run_page ad url res st = (st', Inr (res', page))"
  shows "ar_pages res' = ar_pages res + 1"
proof -
  have u: "upsert_records up ns r s = (s', Inr r') \<Longrightarrow> ar_pages r' = ar_pages r" for up ns r s s' and r' :: adapter_result
    by (induction up ns r s rule: upsert_records.induct) (auto split: prod.splits option.splits)
  have p: "process_rows ad' rs r s = (s', Inr r') \<Longrightarrow> ar_pages r' = ar_pages r" for ad' :: "('s, 'n) adapter" and rs r s s' r'
    by (induction ad' rs r s rule: process_rows.induct) (auto split: prod.splits sum.splits option.splits dest: u)
  have "archive_page ad fr res s = (s', Inr r) \<Longrightarrow> ar_pages r = ar_pages res" for fr s s' r
    by (auto simp: archive_page_def split: option.splits prod.splits sum.splits if_splits)
  then show ?thesis using assms
    by (auto simp: run_page_def split: prod.splits sum.splits option.splits dest!: p)
qed

text \<open>With a page limit the loop fetches at most that many pages, and at least one.\<close>

lemma adapter_loop_limited:
  "\<exists>st' r. adapter_loop ad (Some n) url pages res st = Some (st', r) \<and>
     (\<forall>res'. r = Inr res' \<longrightarrow> ar_pages res < ar_pages res' \<and> ar_pages res' + pages \<le> ar_pages res + max (pages + 1) (nat n))"
proof (induction "nat n - pages" arbitrary: url pages res st rule: less_induct)
  case less
  obtain st1 r1 where rp: "run_page ad url res st = (st1, r1)" by fastforce
  show ?case
  proof (cases r1)
    case (Inl e)
    then show ?thesis by (subst adapter_loop.simps) (simp add: rp)
  next
    case (Inr p)
    obtain res1 page where p: "p = (res1, page)" by (cases p)
    have n1: "ar_pages res1 = ar_pages res + 1"
      using run_page_pages [of ad url res st st1 res1 page] rp Inr p by simp
    show ?thesis
    proof (cases "page_limit (Some n) (pages + 1)")
      case True
      then show ?thesis using n1 by (subst adapter_loop.simps) (simp add: rp Inr p)
    next
      case False
      then have lt: "pages + 1 < nat n" by (simp add: page_limit_def)
      show ?thesis
      proof (cases "next_url ad url page")
        case (Inl e)
        then show ?thesis using False by (subst adapter_loop.simps) (simp add: rp Inr p)
      next
        case nu: (Inr u)
        show ?thesis
        proof (cases u)
          case None
          then show ?thesis using False n1 nu by (subst adapter_loop.simps) (simp add: rp Inr p)
        next
          case (Some v)
          obtain st' r where ih: "adapter_loop ad (Some n) v (pages + 1) res1 st1 = Some (st', r)"
            "\<forall>res'. r = Inr res' \<longrightarrow> ar_pages res1 < ar_pages res' \<and>
               ar_pages res' + (pages + 1) \<le> ar_pages res1 + max (pages + 1 + 1) (nat n)"
          proof -
            have "nat n - (pages + 1) < nat n - pages" using lt by simp
            from less [OF this, of v res1 st1] show ?thesis using that by blast
          qed
          show ?thesis using False ih n1 nu Some lt
            by (subst adapter_loop.simps) (auto simp: rp Inr p max_def)
        qed
      qed
    qed
  qed
qed

text \<open>
  Some run of the page at \<open>url\<close> leads to \<open>u\<close>. Without a limit the loop ends when these links cannot be followed for ever:
  the source is then in the accessible part of the converse relation.
\<close>

definition links_to :: "('s, 'n) adapter \<Rightarrow> pystr \<Rightarrow> pystr \<Rightarrow> bool" where
  "links_to ad url u \<longleftrightarrow> (\<exists>res st st' res' page. run_page ad url res st = (st', Inr (res', page)) \<and> next_url ad url page = Inr (Some u))"

lemma adapter_loop_accessible:
  "Wellfounded.accp (\<lambda>u url. links_to ad url u) url \<Longrightarrow> \<exists>out. adapter_loop ad m url pages res st = Some out"
proof (induction arbitrary: pages res st rule: accp.induct)
  case (accI url)
  obtain st1 r1 where rp: "run_page ad url res st = (st1, r1)" by fastforce
  show ?case
  proof (cases r1)
    case (Inl e)
    then show ?thesis by (subst adapter_loop.simps) (simp add: rp)
  next
    case (Inr p)
    obtain res1 page where p: "p = (res1, page)" by (cases p)
    have "\<exists>out. adapter_loop ad m v (pages + 1) res1 st1 = Some out" if "next_url ad url page = Inr (Some v)" for v
      using accI.IH rp Inr p that unfolding links_to_def by blast
    then show ?thesis by (subst adapter_loop.simps) (auto simp: rp Inr p split: sum.splits option.splits)
  qed
qed

lemma accessible_if_no_chain:
  assumes "\<nexists>f. f (0 :: nat) = x \<and> (\<forall>i. r (f i) (f (Suc i)))"
  shows "Wellfounded.accp (\<lambda>v u. r u v) x"
proof (rule ccontr)
  let ?bad = "\<lambda>u. \<not> Wellfounded.accp (\<lambda>v u. r u v) u"
  assume "?bad x"
  have "\<exists>v. ?bad v \<and> r u v" if "?bad u" for u
    using that accp.accI by metis
  then obtain next_bad where n: "?bad u \<Longrightarrow> ?bad (next_bad u) \<and> r u (next_bad u)" for u by metis
  let ?f = "\<lambda>i. (next_bad ^^ i) x"
  have "?bad (?f i)" for i using \<open>?bad x\<close> n by (induction i) auto
  then have "?f 0 = x \<and> (\<forall>i. r (?f i) (?f (Suc i)))" using n by simp
  with assms show False by (elim notE) (rule exI [of _ ?f])
qed

text \<open>A feed of finitely many pages whose links do not run in a circle has no endless chain.\<close>

lemma finite_acyclic_no_chain:
  assumes "finite {(url, u). links_to ad url u}" "acyclic {(url, u). links_to ad url u}"
  shows "\<nexists>f. f (0 :: nat) = source_url \<and> (\<forall>i. links_to ad (f i) (f (Suc i)))"
  using finite_acyclic_wf_converse [OF assms] by (auto simp: wf_iff_no_infinite_down_chain)

text \<open>Claim C25.
  \<open>run_adapter\<close> returns whenever a page limit is set or there is no endless chain of links from the source, which holds
  of a feed of finitely many pages without a circle; and under a limit \<open>n\<close> it counts between one and \<open>max 1 n\<close> pages.
  Neither is given by the server: one that links every page to a fresh address keeps an unlimited run going.\<close>

theorem run_adapter_terminates:
  assumes "max_pages = Some n \<or> (\<nexists>f. f (0 :: nat) = source_url \<and> (\<forall>i. links_to ad (f i) (f (Suc i))))"
  shows "\<exists>st' r. run_adapter ad source_url max_pages st = Some (st', r) \<and>
    (\<forall>res. r = Inr res \<longrightarrow> max_pages = Some n \<longrightarrow> 1 \<le> ar_pages res \<and> ar_pages res \<le> max 1 (nat n))"
proof (cases "max_pages = Some n")
  case True
  then show ?thesis
    using adapter_loop_limited [of ad n source_url 0 no_result st] by (auto simp: run_adapter_def no_result_def)
next
  case False
  then show ?thesis
    using adapter_loop_accessible [OF accessible_if_no_chain, of source_url ad max_pages 0 no_result st] assms
    by (fastforce simp: run_adapter_def)
qed

text \<open>
  A chain of addresses each of which links to the next, whatever the state, keeps an unlimited loop going for ever. The
  empty link makes a chain of one address: the code only stops at \<open>None\<close>, and \<open>urljoin\<close> of a base and the empty string
  is the base.
\<close>

lemma adapter_loop_endless:
  assumes "\<And>i res st. \<exists>st' res' page. run_page ad (f i) res st = (st', Inr (res', page)) \<and> next_url ad (f i) page = Inr (Some (f (Suc i)))"
  shows "adapter_loop ad None (f i) pages res st = None"
proof (rule ccontr)
  assume "adapter_loop ad None (f i) pages res st \<noteq> None"
  then obtain out where out: "adapter_loop ad None (f i) pages res st = Some out" by blast
  have "u = f i \<Longrightarrow> m = None \<Longrightarrow> a = ad \<Longrightarrow> False" if "adapter_loop a m u n r s = Some out" for a m u n r s i
    using that
  proof (induction arbitrary: i rule: adapter_loop.raw_induct [rotated, consumes 1])
    case (1 loop a m u n r s y)
    obtain st' res' page where p: "run_page ad (f i) r s = (st', Inr (res', page))" "next_url ad (f i) page = Inr (Some (f (Suc i)))"
      using assms by blast
    then have "loop ad None (f (Suc i)) (Suc n) res' st' = Some y" using 1 by (auto simp: page_limit_def)
    then show ?case using 1(1) [where i = "Suc i"] by (cases y) blast
  qed
  then show False using out by blast
qed

lemma adapter_loop_circles:
  assumes "\<And>res st. \<exists>st' res' page. run_page ad url res st = (st', Inr (res', page)) \<and> next_url ad url page = Inr (Some url)"
  shows "adapter_loop ad None url pages res st = None"
  using adapter_loop_endless [of ad "\<lambda>_. url"] assms by blast

lemma empty_link_circles:
  assumes "\<And>base. ad_urljoin ad base [] = base" "\<not> ad_has_scheme ad []"
    and "\<And>res st. \<exists>st' res' page. run_page ad url res st = (st', Inr (res', page)) \<and> op_next_link page = PStr []"
  shows "run_adapter ad url None st = None"
proof -
  have "\<exists>st' res' page. run_page ad url res st = (st', Inr (res', page)) \<and> next_url ad url page = Inr (Some url)" for res st
    using assms(3) [of res st] assms(1,2) by (auto simp: next_url_def)
  then show ?thesis unfolding run_adapter_def by (rule adapter_loop_circles)
qed


text \<open>A feed whose page at a URL links to the URL without its first character.\<close>

definition sample_feed :: "(nat, unit) adapter" where
  "sample_feed = \<lparr>ad_fetch = (\<lambda>url st. (st + 1, Inr \<lparr>fr_url = url, fr_status_code = 200, fr_content = url,
       fr_content_type = [], fr_fetched_at = Naive\<rparr>)),
     ad_archive = None,
     ad_page_parser = (\<lambda>content. Inr \<lparr>op_value = [], op_next_link = (if content = [] then PNone else PStr (tl content)),
       op_total_count = PNone\<rparr>),
     ad_parse = (\<lambda>_. ([], None)), ad_normalize = (\<lambda>_. ([], None)), ad_upsert = (\<lambda>_ st. (st, None)),
     ad_has_scheme = (\<lambda>_. True), ad_urljoin = (\<lambda>_ u. u)\<rparr>"

lemma run_adapter_terminates_witness:
  "(\<exists>st' r. run_adapter sample_feed (lit ''abc'') (Some 2) 0 = Some (st', r)) \<and>
   (\<exists>st' r. run_adapter sample_feed (lit ''abc'') None 0 = Some (st', r))"
proof -
  have shorter: "links_to sample_feed url u \<Longrightarrow> length u < length url" for url u
    by (auto simp: links_to_def run_page_def sample_feed_def archive_page_def next_url_def split: if_splits)
  have "\<nexists>f. f (0 :: nat) = lit ''abc'' \<and> (\<forall>i. links_to sample_feed (f i) (f (Suc i)))"
    using shorter wf_iff_no_infinite_down_chain [of "measure length :: (pystr \<times> pystr) set"] by (metis in_measure wf_measure)
  then show ?thesis
    using run_adapter_terminates [of "Some 2" 2 "lit ''abc''" sample_feed 0]
      run_adapter_terminates [of None 2 "lit ''abc''" sample_feed 0] by blast
qed

end
