(* ===== verification/Ingest_Run.thy ===== *)
theory Ingest_Run
  imports Ingest "HOL-Library.AList"
begin

text \<open>
  The \<open>IngestRun\<close> context manager of \<open>civic_ingest/orchestrator.py\<close>, which opens a row of \<open>ingest_runs\<close>,
  lets its body write \<open>raw_fetch_objects\<close> on the same connection and closes the row, and
  \<open>scripts/seed_demo.py\<close>, which replays eight recorded payloads through the adapter loop inside one run.
\<close>

section \<open>IngestRun\<close>

record ingest_run =
  ir_id :: int
  ir_run_id :: nat
  ir_source_family :: pystr
  ir_status :: string
  ir_stats :: params
  ir_finished :: bool

text \<open>
  The committed database, the object store inside \<open>w_archive\<close> and the graph. \<open>w_next\<close> is the identity
  sequence of \<open>ingest_runs\<close>.
\<close>

record world =
  w_runs :: "ingest_run list"
  w_next :: int
  w_archive :: archive_state
  w_graph :: graph

text \<open>
  What the body of the \<open>with\<close> block works on: the archive as its open transaction sees it, whether that
  transaction is aborted, the graph, and the \<open>stats\<close> of the run object.
\<close>

record run_state =
  rs_archive :: archive_state
  rs_aborted :: bool
  rs_graph :: graph
  rs_stats :: params

definition add_stats :: "params \<Rightarrow> run_state \<Rightarrow> run_state" where
  "add_stats upd st = st\<lparr>rs_stats := fold (\<lambda>(k, v). AList.update k v) upd (rs_stats st)\<rparr>"

text \<open>\<open>__enter__\<close>: the row is inserted and committed on its own.\<close>

definition enter_run :: "nat \<Rightarrow> pystr \<Rightarrow> world \<Rightarrow> world \<times> (pyerr + int)" where
  "enter_run run_id source_family w =
     (let i = w_next w; w' = w\<lparr>w_next := i + 1\<rparr>
      in if run_id \<in> ir_run_id ` set (w_runs w) then (w', Inl DatabaseError)
         else (w'\<lparr>w_runs := w_runs w @ [\<lparr>ir_id = i, ir_run_id = run_id, ir_source_family = source_family,
                    ir_status = ''running'', ir_stats = [], ir_finished = False\<rparr>],
                  w_archive := (w_archive w)\<lparr>as_run_ids := as_run_ids (w_archive w) @ [i]\<rparr>\<rparr>,
               Inr i))"

text \<open>
  \<open>__exit__\<close>: the update of the row and the commit. On an aborted transaction the update raises; so
  may the server (\<open>exit_err\<close>). The connection is then closed uncommitted: the rows the body wrote are
  gone, the objects and the graph stay.
\<close>

definition exit_run :: "nat \<Rightarrow> pyerr option \<Rightarrow> bool \<Rightarrow> run_state \<Rightarrow> world \<Rightarrow> world \<times> pyerr option" where
  "exit_run run_id exit_err ok st w =
     (if rs_aborted st \<or> exit_err \<noteq> None
      then (w\<lparr>w_archive := (rs_archive st)\<lparr>as_rows := as_rows (w_archive w)\<rparr>, w_graph := rs_graph st\<rparr>,
            Some (if rs_aborted st then DatabaseError else the exit_err))
      else (w\<lparr>w_runs := map (\<lambda>r. if ir_run_id r = run_id
                then r\<lparr>ir_status := (if ok then ''succeeded'' else ''failed''), ir_stats := rs_stats st, ir_finished := True\<rparr>
                else r) (w_runs w),
              w_archive := rs_archive st, w_graph := rs_graph st\<rparr>, None))"

definition with_run ::
    "nat \<Rightarrow> pystr \<Rightarrow> pyerr option \<Rightarrow> (int \<Rightarrow> run_state \<Rightarrow> run_state \<times> (pyerr + 'a)) \<Rightarrow> world \<Rightarrow> world \<times> (pyerr + 'a)" where
  "with_run run_id source_family exit_err body w =
     (case enter_run run_id source_family w of
        (w1, Inl e) \<Rightarrow> (w1, Inl e)
      | (w1, Inr i) \<Rightarrow>
          (case body i \<lparr>rs_archive = w_archive w1, rs_aborted = False, rs_graph = w_graph w1, rs_stats = []\<rparr> of
             (st, res) \<Rightarrow>
               (case exit_run run_id exit_err (\<not> isl res) st w1 of
                  (w2, Some e) \<Rightarrow> (w2, Inl e)
                | (w2, None) \<Rightarrow> (w2, res))))"

section \<open>Seeding from recorded payloads\<close>

text \<open>
  One entry of the adapter list: a name, the extension of its cassette, the bytes of the cassette when
  the file exists, and the callbacks. \<open>sd_normalize\<close> yields, for every normalized record, the calls its
  upsert makes.
\<close>

record seed_step =
  sd_name :: string
  sd_ext :: string
  sd_cassette :: "nat list option"
  sd_page_parser :: "nat list \<Rightarrow> pyerr + odata_page"
  sd_parse :: "pyval list \<Rightarrow> row gen"
  sd_normalize :: "row \<Rightarrow> call list gen"

definition gen_map :: "('a \<Rightarrow> 'b) \<Rightarrow> 'a gen \<Rightarrow> 'b gen" where
  "gen_map f g = (map f (fst g), snd g)"

definition stub_fetch :: "py_datetime \<Rightarrow> string \<Rightarrow> nat list \<Rightarrow> pystr \<Rightarrow> fetch_result" where
  "stub_fetch now suffix content url =
     \<lparr>fr_url = url, fr_status_code = 200, fr_content = content,
      fr_content_type = lit (if suffix = ''csv'' then ''text/csv'' else ''application/json''), fr_fetched_at = now\<rparr>"

definition seed_url :: "string \<Rightarrow> pystr" where
  "seed_url name = lit ''https://seed-demo.test/'' @ lit name"

text \<open>
  The archive callback runs on the connection of the run, so a statement that fails aborts its
  transaction: what the archiver's SQL raises is \<open>DatabaseError\<close> here, and nothing else it calls raises that.
\<close>

definition seed_archive ::
    "archive_env \<Rightarrow> string \<Rightarrow> string \<Rightarrow> int \<Rightarrow> fetch_result \<Rightarrow> run_state \<Rightarrow> run_state \<times> (pyerr + archive_record option)" where
  "seed_archive env name ext db_id fr st =
     (case archive_payload env False (lit ''knesset'') (seed_url name) fr db_id 1 (Some (lit ext)) (rs_archive st) of
        (a, Inl e) \<Rightarrow> (st\<lparr>rs_archive := a, rs_aborted := rs_aborted st \<or> e = DatabaseError\<rparr>, Inl e)
      | (a, Inr r) \<Rightarrow> (st\<lparr>rs_archive := a\<rparr>, Inr (Some r)))"

text \<open>With \<open>max_pages=1\<close> no link is followed, so the two URL functions of the adapter are never called.\<close>

definition seed_adapter ::
    "archive_env \<Rightarrow> py_datetime \<Rightarrow> (pyval \<Rightarrow> pyval option) \<Rightarrow> int \<Rightarrow> seed_step \<Rightarrow> nat list \<Rightarrow> (run_state, call list) adapter" where
  "seed_adapter env now dtm db_id s content =
     \<lparr>ad_fetch = (\<lambda>url st. (st, Inr (stub_fetch now (sd_ext s) content url))),
      ad_archive = Some (seed_archive env (sd_name s) (sd_ext s) db_id),
      ad_page_parser = sd_page_parser s, ad_parse = sd_parse s, ad_normalize = sd_normalize s,
      ad_upsert = (\<lambda>cs st. case run_calls dtm cs (rs_graph st) of (g, e) \<Rightarrow> (st\<lparr>rs_graph := g\<rparr>, e)),
      ad_has_scheme = (\<lambda>_. True), ad_urljoin = (\<lambda>_ u. u)\<rparr>"

fun seed_loop ::
    "(string \<Rightarrow> archive_env) \<Rightarrow> py_datetime \<Rightarrow> (pyval \<Rightarrow> pyval option) \<Rightarrow> int \<Rightarrow> seed_step list \<Rightarrow> nat \<Rightarrow> run_state \<Rightarrow>
     (run_state \<times> (pyerr + nat)) option" where
  "seed_loop env now dtm db_id [] n st = Some (st, Inr n)"
| "seed_loop env now dtm db_id (s # ss) n st =
     (case sd_cassette s of
        None \<Rightarrow> seed_loop env now dtm db_id ss n st
      | Some content \<Rightarrow>
          (case run_adapter (seed_adapter (env (sd_name s)) now dtm db_id s content) (seed_url (sd_name s)) (Some 1) st of
             None \<Rightarrow> None
           | Some (st', Inl e) \<Rightarrow> Some (st', Inl e)
           | Some (st', Inr res) \<Rightarrow>
               seed_loop env now dtm db_id ss (n + ar_rows_upserted res)
                 (add_stats (adapter_stats (Some (sd_name s)) res) st')))"


text \<open>
  The eight adapters in the order of the script. \<open>u5\<close> is \<open>uuid5\<close>, \<open>rp\<close> the text of a value, \<open>nfc\<close> the
  normal form, \<open>jd\<close> and \<open>jl\<close> JSON writing and reading, \<open>cr\<close> the CSV reader, \<open>stamp\<close> the current time.
\<close>

record seed_libs =
  sl_u5 :: uuid5
  sl_rp :: "pyval \<Rightarrow> pystr"
  sl_nfc :: "pystr \<Rightarrow> pystr"
  sl_jd :: "pystr dict \<Rightarrow> pystr"
  sl_jl :: "nat list \<Rightarrow> pyerr + pyval"
  sl_js :: "pystr \<Rightarrow> pyval option"
  sl_cr :: "nat list \<Rightarrow> pyerr + row list"

definition seed_steps :: "seed_libs \<Rightarrow> pystr \<Rightarrow> mk_lookup \<Rightarrow> (string \<Rightarrow> nat list option) \<Rightarrow> seed_step list" where
  "seed_steps l now lookup cassette =
     (let u5 = sl_u5 l; rp = sl_rp l; json = parse_odata_page (sl_jl l); csv = parse_csv_page (sl_cr l);
          step = (\<lambda>name ext page parse norm. \<lparr>sd_name = name, sd_ext = ext, sd_cassette = cassette name,
             sd_page_parser = page, sd_parse = parse, sd_normalize = norm\<rparr>)
      in [step ''people'' ''json'' json (parse_persons rp)
            (\<lambda>r. gen_map (fst \<circ> upsert_person (sl_jd l) now) (normalize_person u5 rp (sl_nfc l) r)),
          step ''committees'' ''json'' json (parse_committees rp)
            (\<lambda>r. gen_map (fst \<circ> upsert_committee now) (normalize_committee u5 rp r)),
          step ''positions'' ''json'' json (parse_positions rp)
            (\<lambda>r. gen_map (fst \<circ> upsert_position) (normalize_position u5 rp r)),
          step ''committee_memberships'' ''csv'' csv parse_committee_memberships
            (\<lambda>r. gen_map (fst \<circ> upsert_committee_membership) (normalize_committee_membership u5 rp lookup r)),
          step ''sponsorships'' ''json'' json (parse_bills rp)
            (\<lambda>r. gen_map (fst \<circ> upsert_bill) (normalize_bill u5 rp r)),
          step ''bill_initiators'' ''json'' json (parse_bill_initiators rp)
            (\<lambda>r. gen_map (fst \<circ> upsert_bill_sponsorship) (normalize_bill_initiator u5 rp r)),
          step ''votes'' ''csv'' csv (parse_votes rp)
            (\<lambda>r. gen_map (fst \<circ> upsert_vote) (normalize_vote u5 rp r)),
          step ''attendance'' ''csv'' csv (parse_attendance rp)
            (\<lambda>r. gen_map (fst \<circ> upsert_attendance) (normalize_attendance u5 rp (sl_js l) (Some lookup) r))])"

text \<open>
  \<open>main\<close> after the stack answered its pings: the lookup is read before the run opens. The result is the
  number of records written; the script prints it and returns 0.
\<close>

definition seed_demo ::
    "seed_libs \<Rightarrow> (string \<Rightarrow> archive_env) \<Rightarrow> py_datetime \<Rightarrow> pystr \<Rightarrow> (pyval \<Rightarrow> pyval option) \<Rightarrow> row list \<Rightarrow>
     (string \<Rightarrow> nat list option) \<Rightarrow> nat \<Rightarrow> pyerr option \<Rightarrow> world \<Rightarrow> world \<times> (pyerr + nat)" where
  "seed_demo l env now stamp dtm lookup_rows cassette run_id exit_err w =
     (case parse_mk_csv lookup_rows of
        Inl e \<Rightarrow> (w, Inl e)
      | Inr lookup \<Rightarrow>
          with_run run_id (lit ''knesset'') exit_err
            (\<lambda>db_id st. case seed_loop env now dtm db_id (seed_steps l stamp lookup cassette) 0 st of
               Some out \<Rightarrow> out
             | None \<Rightarrow> (st, Inl RuntimeError)) w)"

section \<open>One page per adapter\<close>

lemma run_adapter_one:
  "run_adapter ad url (Some 1) st =
     Some (case run_page ad url no_result st of (st', Inl e) \<Rightarrow> (st', Inl e) | (st', Inr (res, _)) \<Rightarrow> (st', Inr res))"
  by (auto simp: run_adapter_def adapter_loop.simps [of ad "Some 1" url 0] page_limit_def split: prod.splits sum.splits)

text \<open>So the loop of the script always returns, and \<open>RuntimeError\<close> in \<open>seed_demo\<close> stands for nothing.\<close>

lemma seed_loop_total: "\<exists>st' r. seed_loop env now dtm i ss n st = Some (st', r)"
  by (induction env now dtm i ss n st rule: seed_loop.induct)
    (auto simp: run_adapter_one split: option.splits prod.splits sum.splits)

definition row_calls :: "seed_step \<Rightarrow> row list \<Rightarrow> call list list" where
  "row_calls s rs = concat (map (fst \<circ> sd_normalize s) rs)"

text \<open>The rows of a page are written exactly when no normalizer raises and the calls go through in order.\<close>

lemma seed_upsert:
  "ad_upsert (seed_adapter env now dtm i s content) cs st = (case run_calls dtm cs (rs_graph st) of (g, e) \<Rightarrow> (st\<lparr>rs_graph := g\<rparr>, e))"
  by (simp add: seed_adapter_def)

lemma upsert_records_seed:
  "upsert_records (ad_upsert (seed_adapter env now dtm i s content)) css res st =
     (case run_calls dtm (concat css) (rs_graph st) of
        (g, None) \<Rightarrow> (st\<lparr>rs_graph := g\<rparr>, Inr (res\<lparr>ar_rows_upserted := ar_rows_upserted res + length css\<rparr>))
      | (g, Some e) \<Rightarrow> (st\<lparr>rs_graph := g\<rparr>, Inl e))"
proof (induction css arbitrary: res st)
  case Nil
  show ?case by simp
next
  case (Cons cs css)
  obtain g e where g: "run_calls dtm cs (rs_graph st) = (g, e)" by fastforce
  then have "ad_upsert (seed_adapter env now dtm i s content) cs st = (st\<lparr>rs_graph := g\<rparr>, e)"
    by (simp add: seed_upsert)
  then show ?case
    by (cases e) (auto simp: Cons.IH run_calls_append g split: option.splits prod.splits)
qed

lemma process_rows_seed:
  assumes "list_all (\<lambda>r. snd (sd_normalize s r) = None) rs" "run_calls dtm (concat (row_calls s rs)) (rs_graph st) = (g, None)"
  shows "process_rows (seed_adapter env now dtm i s content) rs res st = (st\<lparr>rs_graph := g\<rparr>, Inr
     (res\<lparr>ar_rows_parsed := ar_rows_parsed res + length rs, ar_rows_upserted := ar_rows_upserted res + length (row_calls s rs)\<rparr>))"
  using assms
proof (induction rs arbitrary: res st)
  case Nil
  then show ?case by (simp add: row_calls_def)
next
  case (Cons r rs)
  obtain css where n: "sd_normalize s r = (css, None)" using Cons.prems(1) by (cases "sd_normalize s r") auto
  then have rc: "row_calls s (r # rs) = css @ row_calls s rs" by (simp add: row_calls_def)
  then obtain g1 where g: "run_calls dtm (concat css) (rs_graph st) = (g1, None)"
    "run_calls dtm (concat (row_calls s rs)) g1 = (g, None)"
    using Cons.prems(2) by (auto simp: run_calls_append split: prod.splits option.splits)
  have a: "ad_normalize (seed_adapter env now dtm i s content) = sd_normalize s" by (simp add: seed_adapter_def)
  show ?case
    using Cons.IH [of "st\<lparr>rs_graph := g1\<rparr>"] Cons.prems(1) g n rc
    by (simp add: a upsert_records_seed)
qed

lemma process_rows_seedD:
  assumes "process_rows (seed_adapter env now dtm i s content) rs res st = (st', Inr res')"
  shows "list_all (\<lambda>r. snd (sd_normalize s r) = None) rs \<and>
    (\<exists>g. run_calls dtm (concat (row_calls s rs)) (rs_graph st) = (g, None))"
  using assms
proof (induction rs arbitrary: res st)
  case Nil
  then show ?case by (simp add: row_calls_def)
next
  case (Cons r rs)
  obtain css err where n: "sd_normalize s r = (css, err)" by fastforce
  have a: "ad_normalize (seed_adapter env now dtm i s content) = sd_normalize s" by (simp add: seed_adapter_def)
  obtain g1 where g: "run_calls dtm (concat css) (rs_graph st) = (g1, None)" and e: "err = None"
    and rest: "process_rows (seed_adapter env now dtm i s content) rs
      (res\<lparr>ar_rows_parsed := ar_rows_parsed res + 1, ar_rows_upserted := ar_rows_upserted res + length css\<rparr>)
      (st\<lparr>rs_graph := g1\<rparr>) = (st', Inr res')"
    using Cons.prems by (auto simp: a n upsert_records_seed split: prod.splits option.splits)
  then show ?case using Cons.IH [OF rest] by (auto simp: row_calls_def n run_calls_append)
qed

text \<open>What a cassette amounts to: its rows and the graph calls of all of them, when nothing in it raises.\<close>

definition step_rows :: "seed_step \<Rightarrow> nat list \<Rightarrow> row gen" where
  "step_rows s content =
     (case sd_page_parser s content of Inl e \<Rightarrow> ([], Some e) | Inr page \<Rightarrow> sd_parse s (op_value page))"

definition step_clean :: "seed_step \<Rightarrow> nat list \<Rightarrow> bool" where
  "step_clean s content \<longleftrightarrow> \<not> isl (sd_page_parser s content) \<and> snd (step_rows s content) = None \<and>
     list_all (\<lambda>r. snd (sd_normalize s r) = None) (fst (step_rows s content))"

definition step_calls :: "seed_step \<Rightarrow> nat list \<Rightarrow> call list list" where
  "step_calls s content = row_calls s (fst (step_rows s content))"

abbreviation step_archive ::
    "archive_env \<Rightarrow> py_datetime \<Rightarrow> int \<Rightarrow> seed_step \<Rightarrow> nat list \<Rightarrow> archive_state \<Rightarrow> archive_state \<times> (pyerr + archive_record)" where
  "step_archive env now i s content \<equiv> archive_payload env False (lit ''knesset'') (seed_url (sd_name s))
     (stub_fetch now (sd_ext s) content (seed_url (sd_name s))) i 1 (Some (lit (sd_ext s)))"

lemma seed_callbacks:
  "ad_fetch (seed_adapter env now dtm i s content) url st = (st, Inr (stub_fetch now (sd_ext s) content url))"
  "ad_archive (seed_adapter env now dtm i s content) = Some (seed_archive env (sd_name s) (sd_ext s) i)"
  "ad_page_parser (seed_adapter env now dtm i s content) = sd_page_parser s"
  "ad_parse (seed_adapter env now dtm i s content) = sd_parse s"
  by (simp_all add: seed_adapter_def)

lemma run_page_seedD:
  assumes "run_page (seed_adapter env now dtm i s content) (seed_url (sd_name s)) no_result st = (st', Inr (res, page))"
  obtains a r g where "step_clean s content" "step_archive env now i s content (rs_archive st) = (a, Inr r)"
    "run_calls dtm (concat (step_calls s content)) (rs_graph st) = (g, None)" "st' = st\<lparr>rs_archive := a, rs_graph := g\<rparr>"
    "ar_rows_upserted res = length (step_calls s content)"
proof -
  let ?ad = "seed_adapter env now dtm i s content"
  obtain pg where pg: "sd_page_parser s content = Inr pg"
    using assms by (auto simp: run_page_def seed_callbacks stub_fetch_def split: sum.splits)
  obtain a r where a: "step_archive env now i s content (rs_archive st) = (a, Inr r)"
    using assms by (auto simp: run_page_def seed_callbacks pg archive_page_def seed_archive_def stub_fetch_def
        split: sum.splits prod.splits)
  have a': "archive_payload env False (lit ''knesset'') (seed_url (sd_name s))
      (stub_fetch now (sd_ext s) content (seed_url (sd_name s))) i 1 (Some (lit (sd_ext s))) (rs_archive st) = (a, Inr r)"
    by (rule a)
  define res1 where "res1 = (if ar_archive_uri r = [] then no_result
    else no_result\<lparr>ar_archive_uris := ar_archive_uris no_result @ [ar_archive_uri r]\<rparr>)"
  have up: "archive_page ?ad (stub_fetch now (sd_ext s) content (seed_url (sd_name s))) no_result st = (st\<lparr>rs_archive := a\<rparr>, Inr res1)"
    by (simp add: archive_page_def seed_callbacks seed_archive_def a' res1_def)
  have fr: "fr_content (stub_fetch now (sd_ext s) content (seed_url (sd_name s))) = content" by (simp add: stub_fetch_def)
  obtain rows res2 where rows: "sd_parse s (op_value pg) = (rows, None)"
    and p: "process_rows ?ad rows res1 (st\<lparr>rs_archive := a\<rparr>) = (st', Inr res2)" "ar_rows_upserted res = ar_rows_upserted res2"
    using assms by (auto simp: run_page_def seed_callbacks pg up fr split: prod.splits option.splits sum.splits)
  have n1: "ar_rows_upserted res1 = 0" by (simp add: res1_def no_result_def)
  have sr: "step_rows s content = (rows, None)" by (simp add: step_rows_def pg rows)
  obtain g where g: "list_all (\<lambda>r. snd (sd_normalize s r) = None) rows"
    "run_calls dtm (concat (row_calls s rows)) (rs_graph (st\<lparr>rs_archive := a\<rparr>)) = (g, None)"
    using process_rows_seedD [OF p(1)] by auto
  note q = process_rows_seed [OF g, of env now i content res1]
  show thesis
    by (rule that [of a r g]) (use a g q p n1 in \<open>auto simp: step_clean_def sr pg step_calls_def\<close>)
qed

lemma run_page_seed:
  assumes "step_clean s content" "step_archive env now i s content (rs_archive st) = (a, Inr r)"
    "run_calls dtm (concat (step_calls s content)) (rs_graph st) = (g, None)"
  shows "\<exists>res page. run_page (seed_adapter env now dtm i s content) (seed_url (sd_name s)) no_result st =
    (st\<lparr>rs_archive := a, rs_graph := g\<rparr>, Inr (res, page)) \<and> ar_rows_upserted res = length (step_calls s content)"
proof -
  let ?ad = "seed_adapter env now dtm i s content"
  obtain pg rows where pg: "sd_page_parser s content = Inr pg" "sd_parse s (op_value pg) = (rows, None)"
    "list_all (\<lambda>r. snd (sd_normalize s r) = None) rows"
    using assms(1) by (cases "sd_page_parser s content"; cases "step_rows s content") (auto simp: step_clean_def step_rows_def)
  then have sr: "step_rows s content = (rows, None)" by (simp add: step_rows_def)
  have "run_calls dtm (concat (row_calls s rows)) (rs_graph (st\<lparr>rs_archive := a\<rparr>)) = (g, None)"
    using assms(3) by (simp add: step_calls_def sr)
  note q = process_rows_seed [OF pg(3) this, of env now i content]
  have fr: "fr_content (stub_fetch now (sd_ext s) content (seed_url (sd_name s))) = content" by (simp add: stub_fetch_def)
  show ?thesis
    by (simp add: run_page_def seed_callbacks pg archive_page_def seed_archive_def fr assms(2) q step_calls_def sr no_result_def)
qed

text \<open>The whole loop: the cassettes are clean, every payload is archived, and all calls go through in order.\<close>

fun archive_steps ::
    "(string \<Rightarrow> archive_env) \<Rightarrow> py_datetime \<Rightarrow> int \<Rightarrow> (seed_step \<times> nat list) list \<Rightarrow> archive_state \<Rightarrow> archive_state option" where
  "archive_steps env now i [] a = Some a"
| "archive_steps env now i ((s, content) # ss) a =
     (case step_archive (env (sd_name s)) now i s content a of
        (a', Inr r) \<Rightarrow> archive_steps env now i ss a'
      | (_, Inl e) \<Rightarrow> None)"

definition present :: "seed_step list \<Rightarrow> (seed_step \<times> nat list) list" where
  "present ss = concat (map (\<lambda>s. case sd_cassette s of None \<Rightarrow> [] | Some c \<Rightarrow> [(s, c)]) ss)"

abbreviation all_calls :: "(seed_step \<times> nat list) list \<Rightarrow> call list list" where
  "all_calls ss \<equiv> concat (map (\<lambda>(s, c). step_calls s c) ss)"

lemma present_Cons: "present (s # ss) = (case sd_cassette s of None \<Rightarrow> present ss | Some c \<Rightarrow> (s, c) # present ss)"
  by (simp add: present_def split: option.splits)

lemma add_stats_simps [simp]:
  "rs_archive (add_stats u st) = rs_archive st" "rs_graph (add_stats u st) = rs_graph st"
  "rs_aborted (add_stats u st) = rs_aborted st"
  by (simp_all add: add_stats_def)

lemma seed_loopD:
  assumes "seed_loop env now dtm i ss n st = Some (st', Inr m)"
  shows "list_all (\<lambda>(s, c). step_clean s c) (present ss) \<and>
    archive_steps env now i (present ss) (rs_archive st) = Some (rs_archive st') \<and>
    run_calls dtm (concat (all_calls (present ss))) (rs_graph st) = (rs_graph st', None) \<and>
    m = n + length (all_calls (present ss)) \<and> rs_aborted st' = rs_aborted st"
  using assms
proof (induction ss arbitrary: n st)
  case Nil
  then show ?case by (simp add: present_def)
next
  case (Cons s ss)
  show ?case
  proof (cases "sd_cassette s")
    case None
    then show ?thesis using Cons by (simp add: present_Cons)
  next
    case (Some c)
    obtain st1 res page where p: "run_page (seed_adapter (env (sd_name s)) now dtm i s c) (seed_url (sd_name s)) no_result st = (st1, Inr (res, page))"
      "seed_loop env now dtm i ss (n + ar_rows_upserted res) (add_stats (adapter_stats (Some (sd_name s)) res) st1) = Some (st', Inr m)"
      using Cons.prems by (auto simp: Some run_adapter_one split: prod.splits sum.splits)
    obtain a r g where a: "step_clean s c" "step_archive (env (sd_name s)) now i s c (rs_archive st) = (a, Inr r)"
      "run_calls dtm (concat (step_calls s c)) (rs_graph st) = (g, None)" "st1 = st\<lparr>rs_archive := a, rs_graph := g\<rparr>"
      "ar_rows_upserted res = length (step_calls s c)"
      using p(1) by (rule run_page_seedD)
    show ?thesis using Cons.IH [OF p(2)] a by (simp add: present_Cons Some run_calls_append)
  qed
qed

lemma seed_loop_runs:
  assumes "list_all (\<lambda>(s, c). step_clean s c) (present ss)" "archive_steps env now i (present ss) (rs_archive st) = Some a"
    "run_calls dtm (concat (all_calls (present ss))) (rs_graph st) = (g, None)"
  shows "\<exists>st'. seed_loop env now dtm i ss n st = Some (st', Inr (n + length (all_calls (present ss)))) \<and>
    rs_archive st' = a \<and> rs_graph st' = g \<and> rs_aborted st' = rs_aborted st"
  using assms
proof (induction ss arbitrary: n st)
  case Nil
  then show ?case by (simp add: present_def)
next
  case (Cons s ss)
  show ?case
  proof (cases "sd_cassette s")
    case None
    then show ?thesis using Cons by (simp add: present_Cons)
  next
    case (Some c)
    obtain a1 r where a: "step_archive (env (sd_name s)) now i s c (rs_archive st) = (a1, Inr r)"
      "archive_steps env now i (present ss) a1 = Some a"
      using Cons.prems(2) by (auto simp: present_Cons Some split: prod.splits sum.splits)
    obtain g1 where g: "run_calls dtm (concat (step_calls s c)) (rs_graph st) = (g1, None)"
      "run_calls dtm (concat (all_calls (present ss))) g1 = (g, None)"
      using Cons.prems(3) by (auto simp: present_Cons Some run_calls_append split: prod.splits option.splits)
    have "step_clean s c" using Cons.prems(1) by (simp add: present_Cons Some)
    from run_page_seed [of s c, OF this a(1) g(1)] obtain res page where
      p: "run_page (seed_adapter (env (sd_name s)) now dtm i s c) (seed_url (sd_name s)) no_result st =
        (st\<lparr>rs_archive := a1, rs_graph := g1\<rparr>, Inr (res, page))" "ar_rows_upserted res = length (step_calls s c)" by blast
    show ?thesis
      using Cons.IH [of "add_stats (adapter_stats (Some (sd_name s)) res) (st\<lparr>rs_archive := a1, rs_graph := g1\<rparr>)" "n + ar_rows_upserted res"]
        Cons.prems(1) a(2) g(2) p
      by (simp add: present_Cons Some run_adapter_one add.assoc)
  qed
qed

section \<open>Seeding twice\<close>

text \<open>Once archived, a payload stays archived: rows are only appended.\<close>

lemma find_existing_kept:
  "archive_payload env owns fam url fr run tier hint a = (a', Inr r) \<Longrightarrow> find_existing d a = Some row \<Longrightarrow>
     find_existing d a' = Some row"
proof (erule archive_payload_cases)
  have "find P xs = Some y \<Longrightarrow> find P (xs @ ys) = Some y" for P :: "raw_fetch_object \<Rightarrow> bool" and xs ys y
    by (induction xs) auto
  then show "find_existing d a = Some row \<Longrightarrow> as_rows a' = as_rows a @ [r'] \<Longrightarrow> find_existing d a' = Some row" for r'
    by (simp add: find_existing_def)
qed simp

lemma archive_steps_kept:
  "archive_steps env now i ss a = Some a' \<Longrightarrow> find_existing d a = Some row \<Longrightarrow> find_existing d a' = Some row"
  by (induction env now i ss a rule: archive_steps.induct) (auto split: prod.splits sum.splits dest: find_existing_kept)

lemma archive_steps_found:
  assumes "archive_steps env now i ss a = Some a'" "(s, c) \<in> set ss"
  shows "\<exists>row. find_existing (ae_sha256 (env (sd_name s)) c) a' = Some row"
  using assms
proof (induction env now i ss a rule: archive_steps.induct)
  case (2 env now i s' content ss a)
  obtain a1 r where a1: "step_archive (env (sd_name s')) now i s' content a = (a1, Inr r)" "archive_steps env now i ss a1 = Some a'"
    using 2(2) by (auto split: prod.splits sum.splits)
  show ?case
  proof (cases "(s, c) = (s', content)")
    case True
    obtain row where "find_existing (ae_sha256 (env (sd_name s')) content) a1 = Some row"
      using archived_then_found [OF a1(1)] by (auto simp: stub_fetch_def)
    then show ?thesis using archive_steps_kept [OF a1(2)] True by auto
  next
    case False
    then have "(s, c) \<in> set ss" using 2(3) by auto
    from 2(1) [OF a1(1) [symmetric] refl a1(2) this] show ?thesis .
  qed
qed simp

lemma archive_steps_again:
  assumes "\<And>s c. (s, c) \<in> set ss \<Longrightarrow> \<exists>row. find_existing (ae_sha256 (env (sd_name s)) c) a = Some row"
    and "\<And>s. ae_select_error (env s) = None"
  shows "archive_steps env now i ss a = Some a"
  using assms(1)
proof (induction ss)
  case (Cons p ss)
  obtain s c where p: "p = (s, c)" by (cases p)
  obtain row where "find_existing (ae_sha256 (env (sd_name s)) c) a = Some row" using Cons.prems p by fastforce
  then have "step_archive (env (sd_name s)) now i s c a = (a, Inr (existing_record (stub_fetch now (sd_ext s) c (seed_url (sd_name s))) row))"
    using assms(2) by (simp add: archive_payload_def SOURCE_FAMILIES_def stub_fetch_def)
  then show ?case using Cons by (simp add: p)
qed simp

text \<open>
  What the normalizers yield needs nothing that is not in the graph by then, and nothing that depends on
  the time of the run.
\<close>

lemma yield1_set: "x \<in> set (fst (yield1 r)) \<longleftrightarrow> r = Inr x"
  by (auto simp: yield1_def split: sum.splits)

lemma normalized_shapes:
  "p \<in> set (fst (normalize_person u5 rp nfc r)) \<Longrightarrow> pn_party p = None \<and> pn_office p = None"
  "c \<in> set (fst (normalize_committee u5 rp r)) \<Longrightarrow> nc_memberships c = []"
  "b \<in> set (fst (normalize_bill u5 rp r)) \<Longrightarrow> nb_sponsorships b = []"
  by (auto simp: normalize_person_def normalize_committee_def normalize_bill_def yield1_set bind_err_Inr)

lemma position_office_link:
  "position_office u5 rp r n = Inr (Some (h, t)) \<Longrightarrow> oh_office_id h = pt_office_id t"
  by (auto simp: position_office_def Let_def bind_err_Inr split: if_splits)

lemma normalize_position_ok:
  assumes "b \<in> set (fst (normalize_position u5 rp r))"
  shows "bundle_ok b"
proof -
  obtain n party office where o: "position_office u5 rp r n = Inr office" "pb_office b = map_option fst office"
    "pb_position_term b = map_option snd office"
    using assms
    by (auto simp: normalize_position_def Let_def yield1_set bind_err_Inr split: sum.splits if_splits prod.splits option.splits)
  then show ?thesis by (auto simp: bundle_ok_def dest: position_office_link)
qed

lemma seed_steps_calls_ok:
  assumes "s \<in> set (seed_steps l stamp lookup cassette)" "cs \<in> set (fst (sd_normalize s r))"
  shows "calls_ok cs"
  using assms
  by (auto simp: seed_steps_def Let_def gen_map_def dest!: normalized_shapes normalize_position_ok intro: upserts_ok)

lemma seed_steps_stamp: "seed_steps l stamp lookup cassette = seed_steps l stamp' lookup cassette"
proof -
  have "upsert_person jd stamp p = upsert_person jd stamp' p" if "pn_party p = None \<and> pn_office p = None" for jd p
    using that by (simp add: upsert_person_def)
  then have "gen_map (fst \<circ> upsert_person (sl_jd l) stamp) (normalize_person u5 rp nfc r) =
      gen_map (fst \<circ> upsert_person (sl_jd l) stamp') (normalize_person u5 rp nfc r)" for u5 rp nfc r
    using normalized_shapes(1) [of _ u5 rp nfc r] by (auto simp: gen_map_def)
  moreover have "upsert_committee stamp c = upsert_committee stamp' c" if "nc_memberships c = []" for c
    using that by (simp add: upsert_committee_def)
  then have "gen_map (fst \<circ> upsert_committee stamp) (normalize_committee u5 rp r) =
      gen_map (fst \<circ> upsert_committee stamp') (normalize_committee u5 rp r)" for u5 rp r
    using normalized_shapes(2) [of _ u5 rp r] by (auto simp: gen_map_def)
  ultimately show ?thesis by (simp only: seed_steps_def)
qed

lemma present_set: "(s, c) \<in> set (present ss) \<longleftrightarrow> s \<in> set ss \<and> sd_cassette s = Some c"
  by (auto simp: present_def split: option.splits)

lemma all_calls_ok: "calls_ok (concat (all_calls (present (seed_steps l stamp lookup cassette))))"
proof (rule calls_ok_concat)
  fix cs assume "cs \<in> set (all_calls (present (seed_steps l stamp lookup cassette)))"
  then obtain s c where s: "(s, c) \<in> set (present (seed_steps l stamp lookup cassette))" "cs \<in> set (step_calls s c)" by auto
  then obtain r where "cs \<in> set (fst (sd_normalize s r))" by (auto simp: step_calls_def row_calls_def)
  then show "calls_ok cs" using s(1) seed_steps_calls_ok by (auto simp: present_set)
qed

lemma with_run_success:
  assumes "with_run run_id fam None body w = (w', Inr (n :: 'a))"
  obtains st where "run_id \<notin> ir_run_id ` set (w_runs w)"
    "body (w_next w) \<lparr>rs_archive = (w_archive w)\<lparr>as_run_ids := as_run_ids (w_archive w) @ [w_next w]\<rparr>, rs_aborted = False,
       rs_graph = w_graph w, rs_stats = []\<rparr> = (st, Inr n)"
    "w_archive w' = rs_archive st" "w_graph w' = rs_graph st" "\<not> rs_aborted st"
proof -
  have fresh: "run_id \<notin> ir_run_id ` set (w_runs w)"
    using assms by (auto simp: with_run_def enter_run_def Let_def)
  obtain st res where b: "body (w_next w) \<lparr>rs_archive = (w_archive w)\<lparr>as_run_ids := as_run_ids (w_archive w) @ [w_next w]\<rparr>,
      rs_aborted = False, rs_graph = w_graph w, rs_stats = []\<rparr> = (st, res)" by fastforce
  show thesis
    by (rule that [of st]) (use assms fresh b in \<open>auto simp: with_run_def enter_run_def Let_def exit_run_def split: if_splits\<close>)
qed

text \<open>Claim C26.
  Seeding is idempotent: after a seed that succeeded, another one from the same cassettes, at another time and
  in a new run, succeeds with the same count and changes neither the graph, nor the archived rows, nor the
  stored objects; it only adds its own row to \<open>ingest_runs\<close>, marked succeeded.\<close>

theorem seed_demo_idempotent:
  assumes "seed_demo l env now stamp dtm lookup_rows cassette run_id None w = (w1, Inr n)"
    and "\<And>name. ae_sha256 (env' name) = ae_sha256 (env name)" "\<And>name. ae_select_error (env' name) = None"
    and "run_id' \<notin> ir_run_id ` set (w_runs w1)"
  shows "\<exists>w2 row. seed_demo l env' now' stamp' dtm lookup_rows cassette run_id' None w1 = (w2, Inr n) \<and>
    w_graph w2 = w_graph w1 \<and> as_rows (w_archive w2) = as_rows (w_archive w1) \<and>
    as_objects (w_archive w2) = as_objects (w_archive w1) \<and> as_buckets (w_archive w2) = as_buckets (w_archive w1) \<and>
    w_runs w2 = w_runs w1 @ [row] \<and> ir_run_id row = run_id' \<and> ir_status row = ''succeeded''"
proof -
  obtain lookup where lk: "parse_mk_csv lookup_rows = Inr lookup"
    using assms(1) by (auto simp: seed_demo_def split: sum.splits)
  define ss where "ss = seed_steps l stamp' lookup cassette"
  define body where "body env now = (\<lambda>db_id st. case seed_loop env now dtm db_id ss 0 st of Some out \<Rightarrow> out | None \<Rightarrow> (st, Inl RuntimeError))" for env now
  have sd: "seed_demo l env now x dtm lookup_rows cassette r None w = with_run r (lit ''knesset'') None (body env now) w" for env now x r w
    by (simp add: seed_demo_def lk body_def ss_def seed_steps_stamp [of l x _ _ stamp'])
  obtain st where st: "body env now (w_next w) \<lparr>rs_archive = (w_archive w)\<lparr>as_run_ids := as_run_ids (w_archive w) @ [w_next w]\<rparr>,
      rs_aborted = False, rs_graph = w_graph w, rs_stats = []\<rparr> = (st, Inr n)"
    "w_archive w1 = rs_archive st" "w_graph w1 = rs_graph st"
    using assms(1) unfolding sd by (rule with_run_success)
  note loop = seed_loopD [of env now dtm "w_next w" ss 0]
  obtain st0 where st0: "seed_loop env now dtm (w_next w) ss 0 st0 = Some (st, Inr n)"
    using st(1) by (auto simp: body_def split: option.splits)
  have clean: "list_all (\<lambda>(s, c). step_clean s c) (present ss)" and n: "n = length (all_calls (present ss))"
    and arch: "archive_steps env now (w_next w) (present ss) (rs_archive st0) = Some (w_archive w1)"
    and calls: "run_calls dtm (concat (all_calls (present ss))) (rs_graph st0) = (w_graph w1, None)"
    using loop [OF st0] st(2,3) by simp_all
  have graph: "run_calls dtm (concat (all_calls (present ss))) (w_graph w1) = (w_graph w1, None)"
    using run_calls_idempotent [OF _ _ calls] all_calls_ok [of l stamp' lookup cassette] by (simp add: calls_ok_def ss_def)
  let ?a = "(w_archive w1)\<lparr>as_run_ids := as_run_ids (w_archive w1) @ [w_next w1]\<rparr>"
  have again: "archive_steps env' now' (w_next w1) (present ss) ?a = Some ?a"
    by (rule archive_steps_again) (use archive_steps_found [OF arch] assms(2,3) in \<open>auto simp: find_existing_def\<close>)
  let ?st = "\<lparr>rs_archive = ?a, rs_aborted = False, rs_graph = w_graph w1, rs_stats = []\<rparr>"
  obtain st2 where st2: "seed_loop env' now' dtm (w_next w1) ss 0 ?st = Some (st2, Inr n)" "rs_archive st2 = ?a"
    "rs_graph st2 = w_graph w1" "\<not> rs_aborted st2"
    using seed_loop_runs [OF clean, of env' now' "w_next w1" ?st ?a dtm "w_graph w1" 0] again graph n by auto
  then have "body env' now' (w_next w1) ?st = (st2, Inr n)" by (simp add: body_def)
  moreover have "map (\<lambda>r. if ir_run_id r = run_id' then f r else r) (w_runs w1) = w_runs w1" for f
    using assms(4) by (intro map_idI) auto
  ultimately show ?thesis
    using assms(4) st2(2-) by (simp add: sd with_run_def enter_run_def Let_def exit_run_def)
qed

section \<open>The life of a run\<close>

text \<open>Claim C27.
  A run leaves exactly one row. It is closed as succeeded or failed with the statistics of the body, and the
  body's archived rows are committed either way; but when the transaction was aborted by a failed statement, or
  the closing statement itself fails, the row stays \<open>running\<close> and the archived rows are gone, while the graph and the
  stored objects keep what the body wrote.\<close>

theorem run_lifecycle:
  assumes "run_id \<notin> ir_run_id ` set (w_runs w)" "with_run run_id fam exit_err body w = (w', out)"
  shows "\<exists>st res row. body (w_next w) \<lparr>rs_archive = (w_archive w)\<lparr>as_run_ids := as_run_ids (w_archive w) @ [w_next w]\<rparr>,
        rs_aborted = False, rs_graph = w_graph w, rs_stats = []\<rparr> = (st, res) \<and>
    w_runs w' = w_runs w @ [row] \<and> ir_run_id row = run_id \<and> ir_id row = w_next w \<and>
    w_graph w' = rs_graph st \<and> as_objects (w_archive w') = as_objects (rs_archive st) \<and>
    (if rs_aborted st \<or> exit_err \<noteq> None
     then ir_status row = ''running'' \<and> \<not> ir_finished row \<and> as_rows (w_archive w') = as_rows (w_archive w) \<and> isl out
     else ir_status row = (if isl res then ''failed'' else ''succeeded'') \<and> ir_finished row \<and> ir_stats row = rs_stats st \<and>
       as_rows (w_archive w') = as_rows (rs_archive st) \<and> out = res)"
proof -
  obtain st res where b: "body (w_next w) \<lparr>rs_archive = (w_archive w)\<lparr>as_run_ids := as_run_ids (w_archive w) @ [w_next w]\<rparr>,
      rs_aborted = False, rs_graph = w_graph w, rs_stats = []\<rparr> = (st, res)" by fastforce
  have "map (\<lambda>r. if ir_run_id r = run_id then f r else r) (w_runs w) = w_runs w" for f
    using assms(1) by (intro map_idI) auto
  then show ?thesis
    using assms b by (auto simp: with_run_def enter_run_def Let_def exit_run_def split: if_splits)
qed

text \<open>The statistics are overwritten adapter by adapter: the row keeps those of the last one.\<close>

lemma only_last_stats:
  "rs_stats (add_stats (adapter_stats (Some b) r2) (add_stats (adapter_stats (Some a) r1) (st\<lparr>rs_stats := []\<rparr>))) =
     adapter_stats (Some b) r2"
  by (simp add: add_stats_def adapter_stats_def)

section \<open>The archive through a run\<close>

definition world_ok :: "(nat list \<Rightarrow> pystr) \<Rightarrow> world \<Rightarrow> bool" where
  "world_ok sha w \<longleftrightarrow> archive_ok sha (w_archive w) \<and> as_run_ids (w_archive w) = map ir_id (w_runs w) \<and>
     distinct (map ir_run_id (w_runs w)) \<and> distinct (map ir_id (w_runs w)) \<and> (\<forall>r \<in> set (w_runs w). ir_id r < w_next w)"

definition extends :: "(nat list \<Rightarrow> pystr) \<Rightarrow> archive_state \<Rightarrow> archive_state \<Rightarrow> bool" where
  "extends sha a a' \<longleftrightarrow> as_run_ids a' = as_run_ids a \<and> (\<exists>rs. as_rows a' = as_rows a @ rs) \<and> (archive_ok sha a \<longrightarrow> archive_ok sha a')"

lemma extends_refl [simp]: "extends sha a a"
  by (simp add: extends_def)

lemma extends_trans: "extends sha a b \<Longrightarrow> extends sha b c \<Longrightarrow> extends sha a c"
  by (auto simp: extends_def)

lemma archive_payload_extends:
  assumes "archive_payload env owns fam url fr run tier hint a = (a', out)"
    "bucket_ok (ae_bucket env)" "sha_ok (ae_sha256 env (fr_content fr))" "\<And>d. fr_fetched_at fr = Aware d \<Longrightarrow> valid_date d"
  shows "extends (ae_sha256 env) a a'"
proof -
  have "as_run_ids a' = as_run_ids a \<and> (\<exists>rs. as_rows a' = as_rows a @ rs)"
  proof (cases "a' = a")
    case False
    then obtain ext where n: "archive_new env owns fam url fr run tier ext a = (a', out)" "tier \<in> {1, 2, 3}"
      using assms(1) by (auto simp: archive_payload_def Let_def split: if_splits option.splits)
    show ?thesis using archive_new_effect [OF n(1) assms(2-4) n(2)] by (auto simp: Let_def)
  qed simp
  then show ?thesis using archive_payload_ok [OF _ assms(1)] assms(2-) by (auto simp: extends_def)
qed

lemma seed_page_extends:
  assumes "run_page (seed_adapter env now dtm i s content) url res st = (st', out)"
    "bucket_ok (ae_bucket env)" "sha_ok (ae_sha256 env content)" "\<And>d. now = Aware d \<Longrightarrow> valid_date d"
  shows "extends (ae_sha256 env) (rs_archive st) (rs_archive st')"
proof -
  let ?ad = "seed_adapter env now dtm i s content"
  have up: "rs_archive (fst (upsert_records (ad_upsert ?ad) css r t)) = rs_archive t" for css r t
    by (simp add: upsert_records_seed split: prod.splits option.splits)
  have rows: "rs_archive (fst (process_rows ?ad rs r t)) = rs_archive t" for rs r t
  proof (induction rs arbitrary: r t)
    case (Cons x rs)
    obtain ns err where n: "ad_normalize ?ad x = (ns, err)" by fastforce
    obtain t' o' where u: "upsert_records (ad_upsert ?ad) ns (r\<lparr>ar_rows_parsed := ar_rows_parsed r + 1\<rparr>) t = (t', o')" by fastforce
    have "rs_archive t' = rs_archive t" using up [of ns "r\<lparr>ar_rows_parsed := ar_rows_parsed r + 1\<rparr>" t] u by simp
    then show ?case using Cons by (cases o') (auto simp: n u [simplified] split: option.splits)
  qed simp
  have arch: "extends (ae_sha256 env) (rs_archive st) (rs_archive t)"
    if "archive_page ?ad (stub_fetch now (sd_ext s) content url) res st = (t, o')" for t o'
  proof -
    obtain a r where a: "archive_payload env False (lit ''knesset'') (seed_url (sd_name s))
        (stub_fetch now (sd_ext s) content url) i 1 (Some (lit (sd_ext s))) (rs_archive st) = (a, r)" by fastforce
    have "extends (ae_sha256 env) (rs_archive st) a"
      by (rule archive_payload_extends [OF a assms(2)]) (use assms(3,4) in \<open>simp_all add: stub_fetch_def\<close>)
    moreover have "rs_archive t = a"
      using that a by (cases r) (auto simp: archive_page_def seed_callbacks seed_archive_def split: if_splits)
    ultimately show ?thesis by simp
  qed
  have ft: "ad_fetch ?ad url st = (st, Inr (stub_fetch now (sd_ext s) content url))" by (simp add: seed_callbacks)
  show ?thesis
  proof (cases "sd_page_parser s (fr_content (stub_fetch now (sd_ext s) content url))")
    case (Inl e)
    then show ?thesis using assms(1) by (auto simp: run_page_def ft seed_callbacks)
  next
    case (Inr pg)
    obtain t o' where t: "archive_page ?ad (stub_fetch now (sd_ext s) content url) res st = (t, o')" by fastforce
    obtain rs err where rs: "sd_parse s (op_value pg) = (rs, err)" by fastforce
    have "rs_archive st' = rs_archive t"
    proof (cases o')
      case (Inl e)
      then show ?thesis using assms(1) Inr t by (simp add: run_page_def ft seed_callbacks)
    next
      case o: (Inr r1)
      obtain t2 o2 where t2: "process_rows ?ad rs r1 t = (t2, o2)" by fastforce
      then have "rs_archive t2 = rs_archive t" using rows [of rs r1 t] by simp
      then show ?thesis
        using assms(1) Inr t rs o t2 by (auto simp: run_page_def ft seed_callbacks split: sum.splits option.splits)
    qed
    then show ?thesis using arch [OF t] by simp
  qed
qed

lemma seed_loop_extends:
  assumes "seed_loop env now dtm i ss n st = Some (st', out)"
    "\<And>name. bucket_ok (ae_bucket (env name))" "\<And>name. ae_sha256 (env name) = sha" "\<And>c. sha_ok (sha c)"
    "\<And>d. now = Aware d \<Longrightarrow> valid_date d"
  shows "extends sha (rs_archive st) (rs_archive st')"
  using assms(1)
proof (induction ss arbitrary: n st)
  case (Cons s ss)
  show ?case
  proof (cases "sd_cassette s")
    case None
    then show ?thesis using Cons by simp
  next
    case (Some c)
    obtain st1 o1 where p: "run_page (seed_adapter (env (sd_name s)) now dtm i s c) (seed_url (sd_name s)) no_result st = (st1, o1)"
      by fastforce
    have e: "extends sha (rs_archive st) (rs_archive st1)"
      using seed_page_extends [OF p] assms(2-) by simp
    show ?thesis
    proof (cases o1)
      case (Inl x)
      then show ?thesis using Cons.prems p e by (simp add: Some run_adapter_one)
    next
      case (Inr x)
      then obtain res page where x: "o1 = Inr (res, page)" by (cases x) auto
      then have "extends sha (rs_archive st1) (rs_archive st')"
        using Cons.IH [of "n + ar_rows_upserted res" "add_stats (adapter_stats (Some (sd_name s)) res) st1"] Cons.prems p
        by (simp add: Some run_adapter_one)
      then show ?thesis using e extends_trans by blast
    qed
  qed
qed simp

text \<open>
  Seeding keeps the archive content-addressed and the runs distinct, however it ends: also the roll-back
  of an aborted run leaves every remaining row backed by its object.
\<close>

lemma archive_ok_rollback:
  assumes "extends sha a a'" "archive_ok sha a"
  shows "archive_ok sha (a'\<lparr>as_rows := as_rows a\<rparr>)"
proof -
  have "row_backed sha (a'\<lparr>as_rows := rs\<rparr>) = row_backed sha a'" for rs by (rule ext) (simp add: row_backed_def)
  then show ?thesis using assms by (auto simp: extends_def archive_ok_def)
qed

lemma archive_ok_new_run: "archive_ok sha a \<Longrightarrow> archive_ok sha (a\<lparr>as_run_ids := as_run_ids a @ [i]\<rparr>)"
  by (auto simp: archive_ok_def row_backed_def list_all_iff)

lemma with_run_ok:
  assumes "world_ok sha w" "with_run run_id fam exit_err body w = (w', out)"
    and "\<And>i st st' r. body i st = (st', r) \<Longrightarrow> extends sha (rs_archive st) (rs_archive st')"
  shows "world_ok sha w'"
proof (cases "run_id \<in> ir_run_id ` set (w_runs w)")
  case True
  then show ?thesis using assms(1,2) by (fastforce simp: with_run_def enter_run_def Let_def world_ok_def)
next
  case False
  let ?a = "(w_archive w)\<lparr>as_run_ids := as_run_ids (w_archive w) @ [w_next w]\<rparr>"
  obtain st res where b: "body (w_next w) \<lparr>rs_archive = ?a, rs_aborted = False, rs_graph = w_graph w, rs_stats = []\<rparr> = (st, res)"
    by fastforce
  have e: "extends sha ?a (rs_archive st)" using assms(3) [OF b] by simp
  have ok: "archive_ok sha ?a" using assms(1) archive_ok_new_run [of sha "w_archive w"] by (auto simp: world_ok_def)
  have "archive_ok sha (rs_archive st)" "as_run_ids (rs_archive st) = as_run_ids (w_archive w) @ [w_next w]"
    using e ok by (auto simp: extends_def)
  moreover have "archive_ok sha ((rs_archive st)\<lparr>as_rows := as_rows (w_archive w)\<rparr>)"
    using archive_ok_rollback [OF e ok] by simp
  moreover have "map (\<lambda>r. if ir_run_id r = run_id then f r else r) (w_runs w) = w_runs w" for f
    using False by (intro map_idI) auto
  ultimately show ?thesis
    using assms(1,2) False b
    by (fastforce simp: with_run_def enter_run_def Let_def exit_run_def world_ok_def split: if_splits)
qed

lemma seed_demo_ok:
  assumes "world_ok sha w" "seed_demo l env now stamp dtm lookup_rows cassette run_id exit_err w = (w', out)"
    and "\<And>name. bucket_ok (ae_bucket (env name))" "\<And>name. ae_sha256 (env name) = sha" "\<And>c. sha_ok (sha c)"
    and "\<And>d. now = Aware d \<Longrightarrow> valid_date d"
  shows "world_ok sha w'"
proof (cases "parse_mk_csv lookup_rows")
  case (Inl e)
  then show ?thesis using assms(1,2) by (simp add: seed_demo_def)
next
  case (Inr lookup)
  show ?thesis
    by (rule with_run_ok [OF assms(1) assms(2) [unfolded seed_demo_def Inr sum.case]])
      (auto split: option.splits dest: seed_loop_extends [OF _ assms(3-6)])
qed

section \<open>A seed on a concrete payload\<close>

definition sample_libs :: seed_libs where
  "sample_libs = \<lparr>sl_u5 = (\<lambda>_ s. length s), sl_rp = (\<lambda>_. []), sl_nfc = (\<lambda>s. s), sl_jd = (\<lambda>_. []),
     sl_jl = (\<lambda>_. Inr (PDict [(lit ''value'', PList [PDict
       [(lit ''PersonID'', PInt 30), (lit ''IsCurrent'', PBool True)]])])),
     sl_js = (\<lambda>_. None), sl_cr = (\<lambda>_. Inr [])\<rparr>"

definition sample_cassette :: "string \<Rightarrow> nat list option" where
  "sample_cassette name = (if name = ''people'' then Some [123, 125] else None)"

definition empty_world :: world where
  "empty_world = \<lparr>w_runs = [], w_next = 1, w_archive = empty_archive\<lparr>as_run_ids := []\<rparr>, w_graph = empty_graph\<rparr>"

lemma sample_seed:
  "\<exists>w1. seed_demo sample_libs (\<lambda>_. sample_env) (Aware (2024, 2, 29)) [] (\<lambda>_. None) [] sample_cassette 5 None empty_world =
     (w1, Inr 1) \<and> map ir_status (w_runs w1) = [''succeeded''] \<and> map ir_run_id (w_runs w1) = [5] \<and> length (as_rows (w_archive w1)) = 1"
proof -
  let ?a = "empty_archive"
  define s where "s = hd (seed_steps sample_libs [] [] sample_cassette)"
  obtain uri where u: "build_archive_uri sample_sha (lit ''archive'') (lit ''knesset'') (Aware (2024, 2, 29)) [123, 125] (lit ''json'') = Inr uri"
    by (simp add: build_archive_uri_def SOURCE_FAMILIES_def sample_facts)
  obtain e where p: "parse_archive_uri uri = Inr \<lparr>ac_bucket = lit ''archive'', ac_source_family = lit ''knesset'', ac_year = 2024,
      ac_month = 2, ac_day = 29, ac_sha256 = sample_sha [123, 125], ac_extension = e\<rparr>"
    using build_parse [OF u sample_facts(3,2,1)] by blast
  have hd: "s = \<lparr>sd_name = ''people'', sd_ext = ''json'', sd_cassette = Some [123, 125],
      sd_page_parser = parse_odata_page (sl_jl sample_libs), sd_parse = parse_persons (sl_rp sample_libs),
      sd_normalize = (\<lambda>r. gen_map (fst \<circ> upsert_person (sl_jd sample_libs) [])
         (normalize_person (sl_u5 sample_libs) (sl_rp sample_libs) (sl_nfc sample_libs) r))\<rparr>"
    by (simp add: s_def seed_steps_def Let_def sample_cassette_def)
  have pr: "present (seed_steps sample_libs [] [] sample_cassette) = [(s, [123, 125])]"
    by (simp add: s_def present_def seed_steps_def Let_def sample_cassette_def)
  obtain a r where a: "step_archive sample_env (Aware (2024, 2, 29)) 1 s [123, 125] ?a = (a, Inr r)" "length (as_rows a) = 1"
    using u p
    by (simp add: hd archive_payload_def archive_new_def SOURCE_FAMILIES_def sample_env_def find_existing_def lit_def [of "''json''"]
        empty_archive_def stub_fetch_def ensure_bucket_def put_archive_object_def insert_raw_fetch_object_def
        put_object_def new_row_def created_record_def Let_def)
  obtain row where rows: "step_rows s [123, 125] = ([row], None)" "row_ext (sl_rp sample_libs) row ''person_id_external'' = Inr (digits_of_nat 30)"
    "rget row ''first_name_he'' = PNone" "rget row ''last_name_he'' = PNone"
    by (simp add: hd step_rows_def parse_odata_page_def sample_libs_def parse_persons_def parse_rows_def parse_person_def
        dget_def vget_def lit_def py_or_def row_ext_def rkey_def str_of_int_def)
  have jd: "sl_jd sample_libs = (\<lambda>_. [])" by (simp add: sample_libs_def)
  obtain n where nz: "sd_normalize s row = ([[(NodeT person_upsert,
      [(''person_id'', uid n), (''canonical_name'', PStr (lit ''person:'' @ digits_of_nat 30)), (''hebrew_name'', PNone),
       (''english_name'', PNone), (''external_ids'', PStr []), (''source_tier'', PInt 1)])]], None)"
    by (simp add: hd gen_map_def normalize_person_def rows yield1_def bind_err_def hebrew_name_def normalized_name_def
        upsert_person_def opt_str_def of_opt_def jd)
  have clean: "step_clean s [123, 125]"
    by (simp add: step_clean_def rows nz) (simp add: hd parse_odata_page_def sample_libs_def dget_def lit_def py_or_def)
  have calls: "step_calls s [123, 125] = fst (sd_normalize s row)" by (simp add: step_calls_def rows row_calls_def)
  obtain g where g: "run_calls (\<lambda>_. None) (concat (step_calls s [123, 125])) empty_graph = (g, None)"
    by (simp add: calls nz missing_params_def person_upsert_def plain_def filled_def)
  let ?st = "\<lparr>rs_archive = empty_archive, rs_aborted = False, rs_graph = empty_graph, rs_stats = []\<rparr>"
  obtain st where "seed_loop (\<lambda>_. sample_env) (Aware (2024, 2, 29)) (\<lambda>_. None) 1 (seed_steps sample_libs [] [] sample_cassette) 0 ?st =
      Some (st, Inr 1)" "rs_archive st = a" "\<not> rs_aborted st"
    using seed_loop_runs [of "seed_steps sample_libs [] [] sample_cassette" "\<lambda>_. sample_env" "Aware (2024, 2, 29)" 1 ?st a
        "\<lambda>_. None" g 0] clean a(1) g by (auto simp: pr calls nz)
  then show ?thesis
    using a(2) by (simp add: seed_demo_def parse_mk_csv_def with_run_def enter_run_def exit_run_def empty_world_def
        empty_archive_def Let_def)
qed


lemma seed_demo_idempotent_witness:
  "\<exists>w1 w2. seed_demo sample_libs (\<lambda>_. sample_env) (Aware (2024, 2, 29)) [] (\<lambda>_. None) [] sample_cassette 5 None empty_world = (w1, Inr 1) \<and>
     seed_demo sample_libs (\<lambda>_. sample_env\<lparr>ae_uuid4 := 8\<rparr>) (Aware (2024, 3, 1)) [] (\<lambda>_. None) [] sample_cassette 6 None w1 = (w2, Inr 1) \<and>
     length (as_rows (w_archive w2)) = 1 \<and> w_graph w2 = w_graph w1"
proof -
  obtain w1 where w1: "seed_demo sample_libs (\<lambda>_. sample_env) (Aware (2024, 2, 29)) [] (\<lambda>_. None) [] sample_cassette 5 None empty_world = (w1, Inr 1)"
    "map ir_run_id (w_runs w1) = [5]" "length (as_rows (w_archive w1)) = 1"
    using sample_seed by auto
  have "6 \<notin> set (map ir_run_id (w_runs w1))" by (simp add: w1(2))
  then have "6 \<notin> ir_run_id ` set (w_runs w1)" by simp
  note fresh = this
  let ?env = "\<lambda>_ :: string. sample_env\<lparr>ae_uuid4 := 8\<rparr>"
  have env: "ae_sha256 (?env name) = ae_sha256 sample_env" "ae_select_error (?env name) = None" for name
    by (simp_all add: sample_env_def)
  obtain w2 where "seed_demo sample_libs ?env (Aware (2024, 3, 1)) [] (\<lambda>_. None) [] sample_cassette 6 None w1 = (w2, Inr 1)"
    "as_rows (w_archive w2) = as_rows (w_archive w1)" "w_graph w2 = w_graph w1"
    using seed_demo_idempotent [OF w1(1), where env' = ?env, OF env fresh, of "Aware (2024, 3, 1)" "[]"] by blast
  then show ?thesis using w1 by (intro exI [of _ w1] exI [of _ w2]) simp
qed

lemma run_lifecycle_witness:
  "\<exists>w' out row. with_run 5 (lit ''knesset'') None (\<lambda>_ st. (st\<lparr>rs_aborted := True\<rparr>, Inl DatabaseError :: pyerr + nat)) empty_world = (w', out) \<and>
     w_runs w' = [row] \<and> ir_status row = ''running'' \<and> isl out"
proof -
  obtain w' out where w: "with_run 5 (lit ''knesset'') None (\<lambda>_ st. (st\<lparr>rs_aborted := True\<rparr>, Inl DatabaseError :: pyerr + nat)) empty_world = (w', out)"
    by fastforce
  have "(5 :: nat) \<notin> ir_run_id ` set (w_runs empty_world)" by (simp add: empty_world_def)
  from run_lifecycle [OF this w]
  have "\<exists>row. w_runs w' = [row] \<and> ir_status row = ''running'' \<and> isl out" by (auto simp: empty_world_def)
  with w show ?thesis by blast
qed

end
