(* ===== verification/Gov_Decisions.thy ===== *)
theory Gov_Decisions
  imports Ingest_Run
begin

text \<open>
  The government-decision adapter of \<open>services/ingestion/gov_il/\<close>: the BudgetKey search page (\<open>parse.py\<close>),
  its normalization (\<open>normalize.py\<close>), the single graph call of a decision (\<open>upsert.py\<close>) and the paginated
  run of \<open>cli.py\<close> inside an \<open>IngestRun\<close>. \<open>json.loads\<close>, \<open>uuid5\<close> and the fetcher are parameters.
\<close>

section \<open>parse\<close>

record budgetkey_row =
  bk_budgetkey_id :: pystr
  bk_procedure_number_str :: pyval
  bk_government_raw :: pyval
  bk_publish_date :: pyval
  bk_title :: pystr
  bk_body :: pyval
  bk_office :: pyval
  bk_policy_type :: pyval
  bk_url_id :: pyval

definition FORMAL_POLICY :: pystr where
  "FORMAL_POLICY = heb ''hxlTvt''"

definition is_formal_decision :: "row \<Rightarrow> pyerr + bool" where
  "is_formal_decision source = str_in FORMAL_POLICY (py_or (rget source ''policy_type'') (PStr []))"

definition source_to_row :: "(pyval \<Rightarrow> pystr) \<Rightarrow> row \<Rightarrow> pyerr + budgetkey_row option" where
  "source_to_row rp source =
     (if \<not> truthy (rget source ''id'') then Inr None
      else bind_err (strip_or_empty (rget source ''title'')) (\<lambda>title.
        if title = [] then Inr None
        else Inr (Some
          \<lparr>bk_budgetkey_id = py_str rp (rget source ''id''),
           bk_procedure_number_str = or_none (rget source ''procedure_number_str''),
           bk_government_raw = or_none (rget source ''government''),
           bk_publish_date = or_none (rget source ''publish_date''), bk_title = title,
           bk_body = or_none (rget source ''text''), bk_office = or_none (rget source ''office''),
           bk_policy_type = or_none (rget source ''policy_type''), bk_url_id = or_none (rget source ''url_id'')\<rparr>)))"

definition hit_row :: "(pyval \<Rightarrow> pystr) \<Rightarrow> pyval \<Rightarrow> pyerr + budgetkey_row option" where
  "hit_row rp hit =
     bind_err (get_default hit ''source'' PNone) (\<lambda>s.
       case py_or s (PDict []) of
         PDict source \<Rightarrow>
           bind_err (is_formal_decision source) (\<lambda>formal. if formal then source_to_row rp source else Inr None)
       | _ \<Rightarrow> Inl AttributeError)"

definition parse_response ::
    "(nat list \<Rightarrow> pyerr + pyval) \<Rightarrow> (pyval \<Rightarrow> pystr) \<Rightarrow> nat list \<Rightarrow> pyerr + budgetkey_row list" where
  "parse_response jl rp bytes =
     bind_err (jl bytes) (\<lambda>data. bind_err (get_default data ''search_results'' (PList [])) (\<lambda>results.
       bind_err (iterate results) (collect (hit_row rp))))"

definition total_overall :: "(nat list \<Rightarrow> pyerr + pyval) \<Rightarrow> nat list \<Rightarrow> pyerr + int" where
  "total_overall jl bytes =
     bind_err (jl bytes) (\<lambda>data. bind_err (get_default data ''search_counts'' (PDict [])) (\<lambda>counts.
       bind_err (get_default counts ''_current'' (PDict [])) (\<lambda>current.
         bind_err (get_default current ''total_overall'' (PInt 0)) py_int)))"

section \<open>normalize\<close>

record gov_decision =
  gd_id :: nat
  gd_decision_number :: pyval
  gd_government_number :: pyval
  gd_decision_date :: pyval
  gd_title :: pystr
  gd_summary :: pyval
  gd_issuing_body :: pyval
  gd_source_url :: pyval

definition GOV_NUMBER_RE :: re where
  "GOV_NUMBER_RE = rseq [rword (heb ''h''), ropt (RSet False [CR 45 45]), spaces0, RGrp ''n'' (rplus (RSet False [CDigit]))]"

definition SUMMARY_MAX_CHARS :: nat where
  "SUMMARY_MAX_CHARS = 2000"

definition parse_government_number :: "pyval \<Rightarrow> pyerr + pyval" where
  "parse_government_number raw =
     (if \<not> truthy raw then Inr PNone
      else case raw of
        PStr s \<Rightarrow>
          (case re_search GOV_NUMBER_RE s of
             None \<Rightarrow> Inr PNone
           | Some m \<Rightarrow> (case int_of_str (the_group m ''n'') of None \<Rightarrow> Inr PNone | Some i \<Rightarrow> Inr (PInt i)))
      | _ \<Rightarrow> Inl TypeError)"

definition summary_of :: "pyval \<Rightarrow> pyerr + pyval" where
  "summary_of body =
     (if \<not> truthy body then Inr PNone
      else case body of PStr s \<Rightarrow> Inr (PStr (take SUMMARY_MAX_CHARS (py_strip s))) | _ \<Rightarrow> Inl AttributeError)"

definition govil_url :: "pyval \<Rightarrow> pyerr + pyval" where
  "govil_url url_id =
     (if \<not> truthy url_id then Inr PNone
      else case url_id of
        PStr s \<Rightarrow> Inr (PStr (lit ''https://www.gov.il/he/departments/policies/'' @ s)) | _ \<Rightarrow> Inl TypeError)"

definition normalize_decision :: "uuid5 \<Rightarrow> budgetkey_row \<Rightarrow> pyerr + gov_decision" where
  "normalize_decision u5 r =
     bind_err (parse_government_number (bk_government_raw r)) (\<lambda>number.
     bind_err (summary_of (bk_body r)) (\<lambda>summary.
     bind_err (govil_url (bk_url_id r)) (\<lambda>url. Inr
       \<lparr>gd_id = ext_uuid u5 ''budgetkey_gov_decision'' (bk_budgetkey_id r), gd_decision_number = bk_procedure_number_str r,
        gd_government_number = number, gd_decision_date = bk_publish_date r, gd_title = bk_title r, gd_summary = summary,
        gd_issuing_body = bk_office r, gd_source_url = url\<rparr>)))"

section \<open>upsert\<close>

definition upsert_government_decision :: "gov_decision \<Rightarrow> call list" where
  "upsert_government_decision d =
     [(NodeT government_decision_upsert,
       [(''government_decision_id'', uid (gd_id d)), (''decision_number'', gd_decision_number d),
        (''government_number'', gd_government_number d), (''decision_date'', gd_decision_date d),
        (''title'', PStr (gd_title d)), (''summary'', gd_summary d), (''issuing_body'', gd_issuing_body d),
        (''source_document_id'', PNone)])]"

section \<open>The run\<close>

text \<open>The manifest of an adapter, as far as its command line uses it.\<close>

record manifest_entry =
  mf_family :: pystr
  mf_adapter :: string
  mf_source_url :: pystr
  mf_source_tier :: int

text \<open>Archiving on the connection of the run, as in the seed script.\<close>

definition archive_in_run ::
    "archive_env \<Rightarrow> manifest_entry \<Rightarrow> string \<Rightarrow> int \<Rightarrow> pystr \<Rightarrow> fetch_result \<Rightarrow> run_state \<Rightarrow> run_state \<times> (pyerr + unit)" where
  "archive_in_run env mf ext db_id url fr st =
     (case archive_payload env False (mf_family mf) url fr db_id (mf_source_tier mf) (Some (lit ext)) (rs_archive st) of
        (a, Inl e) \<Rightarrow> (st\<lparr>rs_archive := a, rs_aborted := rs_aborted st \<or> e = DatabaseError\<rparr>, Inl e)
      | (a, Inr r) \<Rightarrow> (st\<lparr>rs_archive := a\<rparr>, Inr ()))"

text \<open>
  The inner loop of a command line: records are normalized one at a time and written before the next is
  looked at; with \<open>--dry-run\<close> they are only counted.
\<close>

fun write_all ::
    "bool \<Rightarrow> (pyval \<Rightarrow> pyval option) \<Rightarrow> ('r \<Rightarrow> pyerr + call list option) \<Rightarrow> 'r list \<Rightarrow> nat \<Rightarrow> run_state \<Rightarrow>
     run_state \<times> (pyerr + nat)" where
  "write_all dry dtm nz [] n st = (st, Inr n)"
| "write_all dry dtm nz (r # rs) n st =
     (case nz r of
        Inl e \<Rightarrow> (st, Inl e)
      | Inr None \<Rightarrow> write_all dry dtm nz rs n st
      | Inr (Some cs) \<Rightarrow>
          (case if dry then (rs_graph st, None) else run_calls dtm cs (rs_graph st) of
             (g, Some e) \<Rightarrow> (st\<lparr>rs_graph := g\<rparr>, Inl e)
           | (g, None) \<Rightarrow> write_all dry dtm nz rs (n + 1) (st\<lparr>rs_graph := g\<rparr>)))"

text \<open>What a run works against: the \<open>k\<close>-th fetch and the archiver it meets are indexed by \<open>k\<close>.\<close>

record gov_env =
  ge_jl :: "nat list \<Rightarrow> pyerr + pyval"
  ge_rp :: "pyval \<Rightarrow> pystr"
  ge_u5 :: uuid5
  ge_fetch :: "nat \<Rightarrow> pystr \<Rightarrow> pyerr + fetch_result"
  ge_archive :: "nat \<Rightarrow> archive_env"
  ge_dtm :: "pyval \<Rightarrow> pyval option"
  ge_manifest :: manifest_entry
  ge_dry :: bool

definition PAGE_SIZE :: nat where
  "PAGE_SIZE = 50"

definition gov_page_url :: "nat \<Rightarrow> pystr" where
  "gov_page_url offset = lit ''https://next.obudget.org/search/gov_decisions?q='' @ heb ''hxlTh+mspr'' @
     lit ''&size='' @ digits_of_nat PAGE_SIZE @ lit ''&from='' @ digits_of_nat offset"

definition gov_normalize :: "uuid5 \<Rightarrow> budgetkey_row \<Rightarrow> pyerr + call list option" where
  "gov_normalize u5 r = map_sum id (Some \<circ> upsert_government_decision) (normalize_decision u5 r)"

text \<open>One round of the \<open>while True\<close>: the rows of the page and how many of them were written.\<close>

definition gov_page :: "gov_env \<Rightarrow> int \<Rightarrow> nat \<Rightarrow> nat \<Rightarrow> run_state \<Rightarrow> run_state \<times> (pyerr + budgetkey_row list \<times> nat)" where
  "gov_page env db_id pages offset st =
     (let url = gov_page_url offset in
      case ge_fetch env pages url of
        Inl e \<Rightarrow> (st, Inl e)
      | Inr fr \<Rightarrow>
     (case if ge_dry env then (st, Inr ())
           else archive_in_run (ge_archive env pages) (ge_manifest env) ''json'' db_id url fr st of
        (st1, Inl e) \<Rightarrow> (st1, Inl e)
      | (st1, Inr _) \<Rightarrow>
     (case parse_response (ge_jl env) (ge_rp env) (fr_content fr) of
        Inl e \<Rightarrow> (st1, Inl e)
      | Inr rows \<Rightarrow>
     (case write_all (ge_dry env) (ge_dtm env) (gov_normalize (ge_u5 env)) rows 0 st1 of
        (st2, Inl e) \<Rightarrow> (st2, Inl e)
      | (st2, Inr n) \<Rightarrow> (st2, Inr (rows, n))))))"

partial_function (option) gov_loop ::
    "gov_env \<Rightarrow> int \<Rightarrow> int option \<Rightarrow> nat \<Rightarrow> nat \<Rightarrow> nat \<Rightarrow> nat \<Rightarrow> run_state \<Rightarrow>
     (run_state \<times> (pyerr + nat \<times> nat \<times> nat)) option" where
  "gov_loop env db_id max_pages offset pages parsed upserted st =
     (if page_limit max_pages pages then Some (st, Inr (pages, parsed, upserted))
      else case gov_page env db_id pages offset st of
        (st', Inl e) \<Rightarrow> Some (st', Inl e)
      | (st', Inr (rows, n)) \<Rightarrow>
          if length rows < PAGE_SIZE then Some (st', Inr (pages + 1, parsed + length rows, upserted + n))
          else gov_loop env db_id max_pages (offset + PAGE_SIZE) (pages + 1) (parsed + length rows) (upserted + n) st')"

definition gov_stats :: "manifest_entry \<Rightarrow> nat \<times> nat \<times> nat \<Rightarrow> params" where
  "gov_stats mf counts = (case counts of (pages, parsed, upserted) \<Rightarrow>
     [(''adapter'', PLit (mf_adapter mf)), (''pages'', PInt (int pages)), (''rows_parsed'', PInt (int parsed)),
      (''rows_upserted'', PInt (int upserted))])"

text \<open>
  The command \<open>run\<close>. The body of the \<open>with\<close> block is evaluated on the state the run opens in; when the loop
  does not return, neither does the command.
\<close>

definition gov_run ::
    "gov_env \<Rightarrow> int option \<Rightarrow> nat \<Rightarrow> pyerr option \<Rightarrow> world \<Rightarrow> (world \<times> (pyerr + nat \<times> nat \<times> nat)) option" where
  "gov_run env max_pages run_id exit_err w =
     (let family = mf_family (ge_manifest env) in
      case enter_run run_id family w of
        (w1, Inl e) \<Rightarrow> Some (w1, Inl e)
      | (w1, Inr i) \<Rightarrow>
          (case gov_loop env i max_pages 0 0 0 0 \<lparr>rs_archive = w_archive w1, rs_aborted = False, rs_graph = w_graph w1, rs_stats = []\<rparr> of
             None \<Rightarrow> None
           | Some (st, Inl e) \<Rightarrow> Some (with_run run_id family exit_err (\<lambda>_ _. (st, Inl e)) w)
           | Some (st, Inr counts) \<Rightarrow>
               Some (with_run run_id family exit_err (\<lambda>_ _. (add_stats (gov_stats (ge_manifest env) counts) st, Inr counts)) w)))"

section \<open>Which decisions a run sees\<close>

definition hits_of :: "pyval \<Rightarrow> pyval list" where
  "hits_of data = (case get_default data ''search_results'' (PList []) of Inr (PList hs) \<Rightarrow> hs | _ \<Rightarrow> [])"

definition informal_hit :: "pyval \<Rightarrow> bool" where
  "informal_hit h = (case h of
     PDict d \<Rightarrow> (case rget d ''source'' of
        PDict s \<Rightarrow> (case rget s ''policy_type'' of PStr p \<Rightarrow> \<not> py_contains FORMAL_POLICY p | _ \<Rightarrow> False)
      | _ \<Rightarrow> False)
   | _ \<Rightarrow> False)"

lemma informal_hit_dropped:
  assumes "informal_hit h"
  shows "hit_row rp h = Inr None"
proof -
  obtain d s p where h: "h = PDict d" "rget d ''source'' = PDict s" "rget s ''policy_type'' = PStr p" "\<not> py_contains FORMAL_POLICY p"
    using assms by (auto simp: informal_hit_def split: pyval.splits)
  then have "s \<noteq> []" by auto
  moreover have "get_default h ''source'' PNone = Inr (PDict s)"
    using h(1,2) by (auto simp: get_default_def vget_def)
  moreover have "\<not> py_contains FORMAL_POLICY []" by (simp add: FORMAL_POLICY_def)
  ultimately show ?thesis using h by (simp add: hit_row_def bind_err_def is_formal_decision_def str_in_def py_or_def)
qed

text \<open>
  The import of government decisions stops at the first page on which one hit is filtered out: if the first
  page of (at most) fifty hits holds one that is not a formal decision, the run ends after that page with fewer
  than fifty rows, however many decisions the service reports and whatever page limit was asked for.\<close>

theorem gov_run_stops_early:
  assumes "gov_loop env db_id max_pages 0 0 0 0 st = Some (st', Inr (pages, parsed, upserted))"
    and "ge_fetch env 0 (gov_page_url 0) = Inr fr" "ge_jl env (fr_content fr) = Inr data"
    and "length (hits_of data) \<le> PAGE_SIZE" "h \<in> set (hits_of data)" "informal_hit h"
  shows "pages \<le> 1 \<and> parsed < PAGE_SIZE \<and> upserted \<le> parsed"
proof (cases "page_limit max_pages 0")
  case True
  then show ?thesis using assms(1) by (subst (asm) gov_loop.simps) (simp add: PAGE_SIZE_def)
next
  case False
  have cnt: "write_all dry dtm nz rs n s = (s', Inr m) \<Longrightarrow> m \<le> n + length rs" for dry dtm nz and rs :: "budgetkey_row list" and n s s' m
    by (induction dry dtm nz rs n s rule: write_all.induct) (fastforce split: sum.splits option.splits prod.splits if_splits)+
  have short: "length rows < PAGE_SIZE" if "parse_response (ge_jl env) rp (fr_content fr) = Inr rows" for rp rows
  proof -
    obtain hs where "get_default data ''search_results'' (PList []) = Inr (PList hs)" "hits_of data = hs"
    proof (cases "get_default data ''search_results'' (PList [])")
      case (Inr v)
      then show thesis using assms(5) that by (cases v) (simp_all add: hits_of_def)
    qed (use assms(5) in \<open>simp add: hits_of_def\<close>)
    then have "collect (hit_row rp) (hits_of data) = Inr rows"
      using that assms(3) by (simp add: parse_response_def bind_err_Inr iterate_def)
    then show ?thesis using collect_skipped [of "hit_row rp" "hits_of data" rows h] assms(4,5) informal_hit_dropped [OF assms(6)] by simp
  qed
  show ?thesis
    using assms(1) False short
    by (subst (asm) gov_loop.simps)
      (auto simp: gov_page_def Let_def assms(2) split: prod.splits sum.splits if_splits dest!: cnt)
qed


text \<open>A service with 120 decisions whose first fifty hits are procedures: nothing is imported.\<close>

definition sample_hit :: pyval where
  "sample_hit = PDict [(lit ''source'', PDict [(lit ''policy_type'', PStr (heb ''nhlyM''))])]"

definition sample_page :: pyval where
  "sample_page = PDict
     [(lit ''search_counts'', PDict [(lit ''_current'', PDict [(lit ''total_overall'', PInt 120)])]),
      (lit ''search_results'', PList (replicate 50 sample_hit))]"

definition sample_gov :: gov_env where
  "sample_gov = \<lparr>ge_jl = (\<lambda>_. Inr sample_page), ge_rp = (\<lambda>_. []), ge_u5 = (\<lambda>_ s. length s),
     ge_fetch = (\<lambda>_ url. Inr (stub_fetch (Aware (2024, 2, 29)) ''json'' [] url)), ge_archive = (\<lambda>_. sample_env),
     ge_dtm = Some, ge_manifest = \<lparr>mf_family = lit ''gov_il'', mf_adapter = ''government_decisions'', mf_source_url = [],
       mf_source_tier = 1\<rparr>, ge_dry = True\<rparr>"

lemma sample_hit_informal: "informal_hit sample_hit"
  by (simp add: informal_hit_def sample_hit_def FORMAL_POLICY_def heb_letter_def heb_letters_def)

lemma sample_page_facts:
  "hits_of sample_page = replicate 50 sample_hit" "parse_response (\<lambda>_. Inr sample_page) rp bs = Inr []"
proof -
  have g: "get_default sample_page ''search_results'' (PList []) = Inr (PList (replicate 50 sample_hit))"
    by (simp add: sample_page_def get_default_def)
  have "collect (hit_row rp) (replicate k sample_hit) = Inr []" for k
    by (induction k) (simp_all add: bind_err_def informal_hit_dropped [OF sample_hit_informal])
  then show "hits_of sample_page = replicate 50 sample_hit" "parse_response (\<lambda>_. Inr sample_page) rp bs = Inr []"
    by (simp_all add: hits_of_def parse_response_def bind_err_def iterate_def g)
qed

end
