(* ===== verification/Elections.thy ===== *)
theory Elections
  imports Gov_Decisions
begin

text \<open>
  The election adapter of \<open>services/ingestion/elections/\<close>: the results page read with regular expressions
  (\<open>parse.py\<close>), its normalization with the official threshold (\<open>normalize.py\<close>, \<open>party_list_mapping.py\<close> and its
  YAML table), the three graph calls of a list (\<open>upsert.py\<close>) and the run of \<open>cli.py\<close>. UTF-8 decoding, \<open>float\<close> on a
  text and \<open>uuid5\<close> are parameters; \<open>0.0325\<close> is the rational \<open>13/400\<close>.
\<close>

section \<open>parse\<close>

abbreviation any0 :: re where
  "any0 \<equiv> RRep False 0 None (RSet True [])"

abbreviation until :: "char \<Rightarrow> re" where
  "until c \<equiv> rstar (RSet True [CR (of_char c) (of_char c)])"

definition SUMMARY_TABLE :: re where
  "SUMMARY_TABLE = rseq [rword (lit ''class=\"ResultsSummaryTable\"''), any0, rword (lit ''<tr>''), spaces0, rword (lit ''<th''),
     any0, rword (lit ''</tr>''), spaces0, rword (lit ''<tr>''), RGrp ''1'' any0, rword (lit ''</tr>'')]"

definition CELL_NUMBERS :: re where
  "CELL_NUMBERS = rseq [rword (lit ''<td''), until CHR ''>'', rword (lit ''>''), spaces0,
     RGrp ''1'' (rplus (RSet False [CDigit, CR 44 44, CR 46 46, CR 37 37])), spaces0, rword (lit ''</td>'')]"

definition TBODY :: re where
  "TBODY = rseq [rword (lit ''<tbody>''), RGrp ''1'' any0, rword (lit ''</tbody>'')]"

definition TR_SPLIT :: re where
  "TR_SPLIT = rword (lit ''<tr>'')"

definition ALL_TD :: re where
  "ALL_TD = rseq [rword (lit ''<td''), until CHR ''>'', rword (lit ''>''), RGrp ''1'' any0, rword (lit ''</td>'')]"

definition FLOAT_DIR :: re where
  "FLOAT_DIR = rseq [rword (lit ''class=\"FloatDir\">''), spaces0, RGrp ''1'' (rplus (RSet False [CDigit, CR 44 44])), spaces0,
     rword (lit ''<'')]"

definition TAG_STRIP :: re where
  "TAG_STRIP = rseq [rword (lit ''<''), rplus (RSet True [CR 62 62]), rword (lit ''>'')]"

text \<open>\<open>split\<close>: the texts between the matches; \<open>sub('', s)\<close> is what they are together.\<close>

fun pieces :: "nat \<Rightarrow> rmatch list \<Rightarrow> pystr \<Rightarrow> pystr list" where
  "pieces pos [] s = [drop pos s]"
| "pieces pos (m # mts) s = take (m_start m - pos) (drop pos s) # pieces (m_end m) mts s"

definition re_split :: "re \<Rightarrow> pystr \<Rightarrow> pystr list" where
  "re_split r s = pieces 0 (finditer r s) s"

definition re_remove :: "re \<Rightarrow> pystr \<Rightarrow> pystr" where
  "re_remove r s = concat (re_split r s)"

definition strip_tags :: "pystr \<Rightarrow> pystr" where
  "strip_tags html = py_strip (re_remove TAG_STRIP html)"

definition without :: "nat \<Rightarrow> pystr \<Rightarrow> pystr" where
  "without c s = filter (\<lambda>d. d \<noteq> c) s"

record election_row =
  el_list_name :: pystr
  el_ballot_letters :: pystr
  el_seats_won :: int
  el_vote_share_pct :: pystr
  el_votes :: int

record election_page =
  ep_knesset_number :: int
  ep_election_date :: pystr
  ep_total_valid_votes :: int
  ep_total_votes_cast :: int
  ep_total_invalid_votes :: int
  ep_eligible_voters :: int
  ep_rows :: "election_row list"

text \<open>
  The four totals (eligible, cast, valid, invalid) under one \<open>try\<close>: the first cell that is no integer leaves
  it and everything after it at zero.
\<close>

definition summary_totals :: "pystr list \<Rightarrow> int \<times> int \<times> int \<times> int" where
  "summary_totals nums =
     (let num = (\<lambda>k. if k < length nums then int_of_str (nums ! k) else Some 0) in
      case num 0 of None \<Rightarrow> (0, 0, 0, 0) | Some eligible \<Rightarrow>
      (case num 1 of None \<Rightarrow> (eligible, 0, 0, 0) | Some votes_cast \<Rightarrow>
      (case num 3 of None \<Rightarrow> (eligible, votes_cast, 0, 0) | Some valid \<Rightarrow>
      (case num 4 of None \<Rightarrow> (eligible, votes_cast, valid, 0) | Some invalid \<Rightarrow> (eligible, votes_cast, valid, invalid)))))"

definition page_totals :: "pystr \<Rightarrow> int \<times> int \<times> int \<times> int" where
  "page_totals content =
     (case re_search SUMMARY_TABLE content of
        None \<Rightarrow> (0, 0, 0, 0)
      | Some m \<Rightarrow> summary_totals (map (\<lambda>c. without 37 (without 44 c)) (findall1 CELL_NUMBERS ''1'' (the_group m ''1''))))"

definition row_votes :: "pystr \<Rightarrow> pyerr + int" where
  "row_votes cell =
     (case re_search FLOAT_DIR cell of
        None \<Rightarrow> Inr 0
      | Some m \<Rightarrow> (case int_of_str (without 44 (the_group m ''1'')) of None \<Rightarrow> Inl ValueError | Some v \<Rightarrow> Inr v))"

definition parse_tr :: "pystr \<Rightarrow> pyerr + election_row option" where
  "parse_tr chunk =
     (if \<not> py_contains (lit ''scope=\"row\"'') chunk then Inr None
      else
        let cells = findall1 ALL_TD ''1'' chunk in
        if length cells < 4 then Inr None
        else
          let list_name = strip_tags (cells ! 0) in
          if list_name = [] then Inr None
          else (case int_of_str (strip_tags (cells ! 2)) of
             None \<Rightarrow> Inr None
           | Some seats \<Rightarrow> bind_err (row_votes (last cells)) (\<lambda>votes. Inr (Some
               \<lparr>el_list_name = list_name, el_ballot_letters = strip_tags (cells ! 1), el_seats_won = seats,
                el_vote_share_pct = strip_tags (cells ! 3), el_votes = votes\<rparr>))))"

definition parse_tbody :: "pystr \<Rightarrow> pyerr + election_row list" where
  "parse_tbody html = collect parse_tr (re_split TR_SPLIT html)"

definition parse_election_page ::
    "(nat list \<Rightarrow> pystr) \<Rightarrow> nat list \<Rightarrow> int \<Rightarrow> pystr \<Rightarrow> pyerr + election_page" where
  "parse_election_page utf8 html_bytes knesset_number election_date =
     (let content = utf8 html_bytes in
      case page_totals content of
        (eligible, votes_cast, valid, invalid) \<Rightarrow>
          bind_err (case re_search TBODY content of None \<Rightarrow> Inr [] | Some m \<Rightarrow> parse_tbody (the_group m ''1'')) (\<lambda>rows. Inr
            \<lparr>ep_knesset_number = knesset_number, ep_election_date = election_date, ep_total_valid_votes = valid,
             ep_total_votes_cast = votes_cast, ep_total_invalid_votes = invalid, ep_eligible_voters = eligible,
             ep_rows = rows\<rparr>))"

section \<open>normalize\<close>

text \<open>\<open>party_list_mapping.yaml\<close>: the faction of each ballot, where it has one.\<close>

record election_section =
  es_election_date :: pystr
  es_lists :: "(pystr \<times> int option) list"

definition PARTY_LISTS :: "(int \<times> election_section) list" where
  "PARTY_LISTS =
     [(24, \<lparr>es_election_date = lit ''2021-03-23T00:00:00'', es_lists =
        [(heb ''mxl'', Some 962), (heb ''ph'', Some 967), (heb ''ws'', Some 971), (heb ''kN'', Some 969),
         (heb ''b'', Some 966), (heb ''amt'', Some 963), (heb ''g'', Some 965), (heb ''l'', Some 968),
         (heb ''T'', Some 961), (heb ''vdeM'', Some 964), (heb ''t'', Some 972), (heb ''mrc'', Some 970),
         (heb ''eM'', Some 973)] @
        map (\<lambda>b. (heb b, None))
          [''yz'', ''r'', ''Pz'', ''kK'', ''rn'', ''y'', ''qC'', ''zC'', ''rP'', ''qK'', ''n'', ''q'', ''k'', ''cy'', ''yq'',
           ''ny'', ''z'', ''qy'', ''C'', ''yr'', ''ck'', ''cP'', ''nr'', ''yP'', ''rq'']\<rparr>),
      (25, \<lparr>es_election_date = lit ''2022-11-01T00:00:00'', es_lists =
        [(heb ''mxl'', Some 1096), (heb ''ph'', Some 1102), (heb ''T'', Some 1097), (heb ''kN'', Some 1098),
         (heb ''ws'', Some 1095), (heb ''g'', Some 1101), (heb ''l'', Some 1104), (heb ''eM'', Some 1099),
         (heb ''vM'', Some 1103), (heb ''amt'', Some 1100)] @
        map (\<lambda>b. (heb b, None))
          [''mrc'', ''b'', ''ac'', ''qC'', ''yz'', ''c'', ''P'', ''q'', ''t'', ''ny'', ''qn'', ''nq'', ''y'', ''qK'', ''nC'', ''C'',
           ''rz'', ''K'', ''z'', ''qy'', ''yq'', ''nz'', ''nr'', ''zC'', ''yC'', ''nP'', ''yn'', ''zn'']\<rparr>)]"

definition election_section_of :: "int \<Rightarrow> pyerr + election_section" where
  "election_section_of knesset_number =
     (case map_of PARTY_LISTS knesset_number of None \<Rightarrow> Inl KeyError | Some s \<Rightarrow> Inr s)"

definition get_election_date :: "int \<Rightarrow> pyerr + pystr" where
  "get_election_date knesset_number = bind_err (election_section_of knesset_number) (\<lambda>s. Inr (es_election_date s))"

definition resolve_party_id :: "uuid5 \<Rightarrow> int \<Rightarrow> pystr \<Rightarrow> pyerr + nat" where
  "resolve_party_id u5 knesset_number ballot_letters =
     bind_err (election_section_of knesset_number) (\<lambda>s. Inr
       (case map_of (es_lists s) ballot_letters of
          Some (Some faction) \<Rightarrow> ext_uuid u5 ''knesset_party'' (str_of_int faction)
        | _ \<Rightarrow> ext_uuid u5 ''cec_list'' (str_of_int knesset_number @ lit '':'' @ ballot_letters)))"

definition THRESHOLD_RULE :: rat where
  "THRESHOLD_RULE = 13 / 400"

definition parse_vote_share :: "(pystr \<Rightarrow> rat option) \<Rightarrow> pystr \<Rightarrow> rat" where
  "parse_vote_share pf pct =
     (case pf (rev (dropWhile (\<lambda>c. c = 37) (rev pct))) of None \<Rightarrow> 0 | Some x \<Rightarrow> py_round 6 (x / 100))"

record election_result_record =
  er_id :: nat
  er_knesset_number :: int
  er_election_date :: pystr
  er_list_party_id :: nat
  er_list_name :: pystr
  er_ballot_letters :: pystr
  er_votes :: int
  er_seats_won :: int
  er_vote_share :: rat
  er_passed_threshold :: bool

definition normalize_election_result ::
    "uuid5 \<Rightarrow> (pystr \<Rightarrow> rat option) \<Rightarrow> election_page \<Rightarrow> election_row \<Rightarrow> pyerr + election_result_record option" where
  "normalize_election_result u5 pf page r =
     (if el_ballot_letters r = [] then Inr None
      else bind_err (resolve_party_id u5 (ep_knesset_number page) (el_ballot_letters r)) (\<lambda>party. Inr (Some
        \<lparr>er_id = ext_uuid u5 ''cec_election'' (str_of_int (ep_knesset_number page) @ lit '':'' @ el_ballot_letters r),
         er_knesset_number = ep_knesset_number page, er_election_date = ep_election_date page,
         er_list_party_id = party, er_list_name = el_list_name r, er_ballot_letters = el_ballot_letters r,
         er_votes = el_votes r, er_seats_won = el_seats_won r, er_vote_share = parse_vote_share pf (el_vote_share_pct r),
         er_passed_threshold = (el_votes r \<ge> \<lceil>of_int (ep_total_valid_votes page) * THRESHOLD_RULE\<rceil>)\<rparr>)))"

section \<open>upsert\<close>

definition upsert_election_result :: "election_result_record \<Rightarrow> call list" where
  "upsert_election_result r =
     [(NodeT party_upsert, [(''party_id'', uid (er_list_party_id r)), (''canonical_name'', PStr (er_list_name r)),
        (''hebrew_name'', PStr (er_list_name r)), (''english_name'', PNone), (''abbreviation'', PStr (er_ballot_letters r))]),
      (NodeT election_result_upsert, [(''election_result_id'', uid (er_id r)), (''election_date'', PStr (er_election_date r)),
        (''knesset_number'', PInt (er_knesset_number r)), (''list_name'', PStr (er_list_name r)),
        (''ballot_letters'', PStr (er_ballot_letters r)), (''list_party_id'', uid (er_list_party_id r)),
        (''votes'', PInt (er_votes r)), (''seats_won'', PInt (er_seats_won r)), (''vote_share'', PFloat (er_vote_share r)),
        (''passed_threshold'', PBool (er_passed_threshold r)), (''source_document_id'', PNone)]),
      (EdgeT for_party, [(''election_result_id'', uid (er_id r)), (''party_id'', uid (er_list_party_id r))])]"

section \<open>The run\<close>

record election_env =
  ee_utf8 :: "nat list \<Rightarrow> pystr"
  ee_pf :: "pystr \<Rightarrow> rat option"
  ee_u5 :: uuid5
  ee_fetch :: "pystr \<Rightarrow> pyerr + fetch_result"
  ee_archive :: archive_env
  ee_dtm :: "pyval \<Rightarrow> pyval option"
  ee_manifest :: manifest_entry
  ee_dry :: bool

text \<open>The address comes from the manifest alone.\<close>

definition election_url :: "manifest_entry \<Rightarrow> pystr" where
  "election_url mf = rev (dropWhile (\<lambda>c. c = 47) (rev (mf_source_url mf))) @ lit ''/''"

definition election_calls :: "election_env \<Rightarrow> election_page \<Rightarrow> election_row \<Rightarrow> pyerr + call list option" where
  "election_calls env page r =
     map_sum id (map_option upsert_election_result) (normalize_election_result (ee_u5 env) (ee_pf env) page r)"

definition election_stats :: "manifest_entry \<Rightarrow> int \<Rightarrow> election_page \<Rightarrow> nat \<Rightarrow> params" where
  "election_stats mf knesset_number page n =
     [(''adapter'', PLit (mf_adapter mf)), (''knesset_number'', PInt knesset_number), (''pages'', PInt 1),
      (''rows_parsed'', PInt (int (length (ep_rows page)))), (''rows_upserted'', PInt (int n))]"

text \<open>The body of the \<open>with\<close> block: fetch, archive, parse, write.\<close>

definition election_body ::
    "election_env \<Rightarrow> int \<Rightarrow> pystr \<Rightarrow> int \<Rightarrow> run_state \<Rightarrow> run_state \<times> (pyerr + nat)" where
  "election_body env knesset_number election_date db_id st =
     (let url = election_url (ee_manifest env) in
      case ee_fetch env url of
        Inl e \<Rightarrow> (st, Inl e)
      | Inr fr \<Rightarrow>
     (case if ee_dry env then (st, Inr ())
           else archive_in_run (ee_archive env) (ee_manifest env) ''html'' db_id url fr st of
        (st1, Inl e) \<Rightarrow> (st1, Inl e)
      | (st1, Inr _) \<Rightarrow>
     (case parse_election_page (ee_utf8 env) (fr_content fr) knesset_number election_date of
        Inl e \<Rightarrow> (st1, Inl e)
      | Inr page \<Rightarrow>
     (case write_all (ee_dry env) (ee_dtm env) (election_calls env page) (ep_rows page) 0 st1 of
        (st2, Inl e) \<Rightarrow> (st2, Inl e)
      | (st2, Inr n) \<Rightarrow> (add_stats (election_stats (ee_manifest env) knesset_number page n) st2, Inr n)))))"

definition election_run :: "election_env \<Rightarrow> int \<Rightarrow> nat \<Rightarrow> pyerr option \<Rightarrow> world \<Rightarrow> world \<times> (pyerr + nat)" where
  "election_run env knesset_number run_id exit_err w =
     (case get_election_date knesset_number of
        Inl e \<Rightarrow> (w, Inl e)
      | Inr date \<Rightarrow> with_run run_id (mf_family (ee_manifest env)) exit_err (election_body env knesset_number date) w)"

section \<open>The threshold\<close>

lemma ceiling_threshold: "\<lceil>of_int n * THRESHOLD_RULE\<rceil> \<le> v \<longleftrightarrow> 13 * n \<le> 400 * v"
proof -
  have "\<lceil>of_int n * THRESHOLD_RULE\<rceil> \<le> v \<longleftrightarrow> of_int n * (13 / 400 :: rat) \<le> of_int v"
    by (simp add: THRESHOLD_RULE_def ceiling_le_iff)
  also have "\<dots> \<longleftrightarrow> (of_int (13 * n) :: rat) \<le> of_int (400 * v)" by (simp add: field_simps)
  finally show ?thesis by (simp only: of_int_le_iff)
qed

text \<open>Claim C28.
  A list passes exactly when its votes are at least 3.25 percent of the valid votes of the page, as exact integer
  arithmetic. On a page whose summary table is not recognized the total is zero, so every list with a
  non-negative count passes, those without a seat included.\<close>

theorem election_threshold:
  assumes "parse_election_page utf8 bytes knesset date = Inr page" "normalize_election_result u5 pf page r = Inr (Some res)"
  shows "(er_passed_threshold res \<longleftrightarrow> 13 * ep_total_valid_votes page \<le> 400 * el_votes r) \<and> er_votes res = el_votes r \<and>
    (re_search SUMMARY_TABLE (utf8 bytes) = None \<longrightarrow> (er_passed_threshold res \<longleftrightarrow> 0 \<le> er_votes res))"
proof -
  have res: "er_passed_threshold res = (\<lceil>of_int (ep_total_valid_votes page) * THRESHOLD_RULE\<rceil> \<le> el_votes r)"
    "er_votes res = el_votes r"
    using assms(2) by (auto simp: normalize_election_result_def bind_err_Inr split: if_splits)
  moreover have "ep_total_valid_votes page = 0" if "re_search SUMMARY_TABLE (utf8 bytes) = None"
    using assms(1) that by (auto simp: parse_election_page_def page_totals_def bind_err_Inr)
  ultimately show ?thesis by (auto simp: ceiling_threshold)
qed

section \<open>Which election a run records\<close>

definition figures :: "election_result_record \<Rightarrow> pystr \<times> pystr \<times> int \<times> int \<times> rat \<times> bool" where
  "figures r = (er_ballot_letters r, er_list_name r, er_votes r, er_seats_won r, er_vote_share r, er_passed_threshold r)"

text \<open>The records a run writes for a Knesset: what it fetches, parsed and normalized.\<close>

definition election_records :: "election_env \<Rightarrow> int \<Rightarrow> pyerr + election_result_record list" where
  "election_records env knesset_number =
     bind_err (get_election_date knesset_number) (\<lambda>date.
     bind_err (ee_fetch env (election_url (ee_manifest env))) (\<lambda>fr.
     bind_err (parse_election_page (ee_utf8 env) (fr_content fr) knesset_number date) (\<lambda>page.
       collect (normalize_election_result (ee_u5 env) (ee_pf env) page) (ep_rows page))))"

lemma write_all_records:
  assumes "write_all False (ee_dtm env) (election_calls env page) rs n st = (st', Inr m)"
  shows "\<exists>xs. collect (normalize_election_result (ee_u5 env) (ee_pf env) page) rs = Inr xs \<and> m = n + length xs \<and>
    run_calls (ee_dtm env) (concat (map upsert_election_result xs)) (rs_graph st) = (rs_graph st', None) \<and>
    rs_archive st' = rs_archive st"
  using assms
proof (induction rs arbitrary: n st)
  case (Cons r rs)
  obtain x where x: "normalize_election_result (ee_u5 env) (ee_pf env) page r = Inr x"
    using Cons.prems
    by (cases "normalize_election_result (ee_u5 env) (ee_pf env) page r") (simp_all add: election_calls_def)
  show ?case
  proof (cases x)
    case None
    then have "election_calls env page r = Inr None" using x by (simp add: election_calls_def)
    then have "write_all False (ee_dtm env) (election_calls env page) rs n st = (st', Inr m)"
      using Cons.prems by simp
    from Cons.IH [OF this] x None show ?thesis by auto
  next
    case (Some y)
    then have "election_calls env page r = Inr (Some (upsert_election_result y))" using x by (simp add: election_calls_def)
    then obtain g where g: "run_calls (ee_dtm env) (upsert_election_result y) (rs_graph st) = (g, None)"
      "write_all False (ee_dtm env) (election_calls env page) rs (n + 1) (st\<lparr>rs_graph := g\<rparr>) = (st', Inr m)"
      using Cons.prems by (auto split: prod.splits option.splits)
    from Cons.IH [OF g(2)] x Some show ?thesis by (auto simp: bind_err_def run_calls_append g(1))
  qed
qed simp

lemma upsert_election_result_ok: "calls_ok (upsert_election_result r)"
  by (simp add: calls_ok_def upsert_election_result_def for_party_def plain_edge_def)

text \<open>A run that succeeds has written exactly these records, and writing them again changes nothing.\<close>

lemma election_run_writes:
  assumes "election_run env knesset run_id None w = (w', Inr n)" "\<not> ee_dry env"
  shows "\<exists>xs. election_records env knesset = Inr xs \<and> n = length xs \<and>
    run_calls (ee_dtm env) (concat (map upsert_election_result xs)) (w_graph w) = (w_graph w', None) \<and>
    run_calls (ee_dtm env) (concat (map upsert_election_result xs)) (w_graph w') = (w_graph w', None)"
proof -
  obtain date where date: "get_election_date knesset = Inr date"
    using assms(1) by (auto simp: election_run_def split: sum.splits)
  then have "with_run run_id (mf_family (ee_manifest env)) None (election_body env knesset date) w = (w', Inr n)"
    using assms(1) by (simp add: election_run_def)
  then obtain st where st: "election_body env knesset date (w_next w)
      \<lparr>rs_archive = (w_archive w)\<lparr>as_run_ids := as_run_ids (w_archive w) @ [w_next w]\<rparr>, rs_aborted = False,
       rs_graph = w_graph w, rs_stats = []\<rparr> = (st, Inr n)" "w_graph w' = rs_graph st"
    by (rule with_run_success)
  let ?st = "\<lparr>rs_archive = (w_archive w)\<lparr>as_run_ids := as_run_ids (w_archive w) @ [w_next w]\<rparr>, rs_aborted = False,
       rs_graph = w_graph w, rs_stats = []\<rparr>"
  obtain fr where fr: "ee_fetch env (election_url (ee_manifest env)) = Inr fr"
    using st(1) by (auto simp: election_body_def Let_def split: sum.splits)
  obtain st1 where a: "archive_in_run (ee_archive env) (ee_manifest env) ''html'' (w_next w) (election_url (ee_manifest env)) fr ?st = (st1, Inr ())"
    using st(1) assms(2) fr by (auto simp: election_body_def Let_def split: sum.splits prod.splits)
  then have g1: "rs_graph st1 = w_graph w" by (auto simp: archive_in_run_def split: prod.splits sum.splits)
  obtain page where page: "parse_election_page (ee_utf8 env) (fr_content fr) knesset date = Inr page"
    using st(1) assms(2) fr a by (auto simp: election_body_def Let_def split: sum.splits)
  obtain st2 where st2: "write_all False (ee_dtm env) (election_calls env page) (ep_rows page) 0 st1 = (st2, Inr n)"
    "rs_graph st = rs_graph st2"
    using st(1) assms(2) fr a page by (auto simp: election_body_def Let_def split: sum.splits prod.splits)
  note b = fr g1 page st2
  obtain xs where xs: "collect (normalize_election_result (ee_u5 env) (ee_pf env) page) (ep_rows page) = Inr xs" "n = length xs"
    "run_calls (ee_dtm env) (concat (map upsert_election_result xs)) (w_graph w) = (w_graph w', None)"
    using write_all_records [OF b(4)] b(2,5) st(2) by auto
  have "calls_ok (concat (map upsert_election_result xs))" by (rule calls_ok_concat) (auto intro: upsert_election_result_ok)
  then have "run_calls (ee_dtm env) (concat (map upsert_election_result xs)) (w_graph w') = (w_graph w', None)"
    using run_calls_idempotent [OF _ _ xs(3)] by (simp add: calls_ok_def)
  then show ?thesis using xs b(1,3) date by (auto simp: election_records_def bind_err_def)
qed


text \<open>
  The figures of the records do not depend on the Knesset asked for.
\<close>

lemma parse_election_page_fields:
  assumes "parse_election_page utf8 bytes k d = Inr p"
  shows "parse_election_page utf8 bytes k' d' = Inr (p\<lparr>ep_knesset_number := k', ep_election_date := d'\<rparr>) \<and>
    ep_knesset_number p = k \<and> ep_election_date p = d"
  using assms
  by (cases "page_totals (utf8 bytes)"; cases "case re_search TBODY (utf8 bytes) of None \<Rightarrow> Inr [] | Some m \<Rightarrow> parse_tbody (the_group m ''1'')")
    (auto simp: parse_election_page_def Let_def)

lemma normalize_figures:
  assumes "normalize_election_result u5 pf p r = Inr x" "normalize_election_result u5 pf (p\<lparr>ep_knesset_number := k, ep_election_date := d\<rparr>) r = Inr x'"
  shows "map_option figures x' = map_option figures x"
  using assms by (auto simp: normalize_election_result_def bind_err_Inr figures_def split: if_splits)

lemma collect_figures:
  assumes "collect (normalize_election_result u5 pf p) rs = Inr xs"
    "collect (normalize_election_result u5 pf (p\<lparr>ep_knesset_number := k, ep_election_date := d\<rparr>)) rs = Inr xs'"
  shows "map figures xs' = map figures xs"
  using assms
proof (induction rs arbitrary: xs xs')
  case (Cons r rs)
  from Cons.prems obtain x ys x' ys' where f:
    "normalize_election_result u5 pf p r = Inr x" "collect (normalize_election_result u5 pf p) rs = Inr ys"
    "xs = (case x of None \<Rightarrow> ys | Some y \<Rightarrow> y # ys)"
    "normalize_election_result u5 pf (p\<lparr>ep_knesset_number := k, ep_election_date := d\<rparr>) r = Inr x'"
    "collect (normalize_election_result u5 pf (p\<lparr>ep_knesset_number := k, ep_election_date := d\<rparr>)) rs = Inr ys'"
    "xs' = (case x' of None \<Rightarrow> ys' | Some y \<Rightarrow> y # ys')"
    by (auto simp: bind_err_Inr)
  then show ?case using normalize_figures [OF f(1,4)] Cons.IH [OF f(2,5)] by (cases x; cases x') auto
qed simp

lemma collect_number:
  assumes "collect (normalize_election_result u5 pf p) rs = Inr xs"
  shows "list_all (\<lambda>r. er_knesset_number r = ep_knesset_number p \<and> er_election_date r = ep_election_date p) xs"
  using assms by (rule collect_all) (auto simp: normalize_election_result_def bind_err_Inr split: if_splits)

text \<open>The results page a run reads is that of its manifest, whatever election it is asked for: a successful run for one
  Knesset and a successful run for another record the same lists with the same votes, seats and shares, each under its
  own number and date.\<close>

theorem elections_same_figures:
  assumes "election_run env k run_id None w = (w', Inr n)" "election_run env k' run_id' None v = (v', Inr n')" "\<not> ee_dry env"
  shows "\<exists>xs ys. run_calls (ee_dtm env) (concat (map upsert_election_result xs)) (w_graph w) = (w_graph w', None) \<and>
    run_calls (ee_dtm env) (concat (map upsert_election_result ys)) (w_graph v) = (w_graph v', None) \<and>
    map figures ys = map figures xs \<and> list_all (\<lambda>r. er_knesset_number r = k) xs \<and> list_all (\<lambda>r. er_knesset_number r = k') ys \<and>
    n = length xs \<and> n' = n"
proof -
  obtain xs ys where xs: "election_records env k = Inr xs" "n = length xs"
      "run_calls (ee_dtm env) (concat (map upsert_election_result xs)) (w_graph w) = (w_graph w', None)"
    and ys: "election_records env k' = Inr ys" "n' = length ys"
      "run_calls (ee_dtm env) (concat (map upsert_election_result ys)) (w_graph v) = (w_graph v', None)"
    using election_run_writes [OF assms(1,3)] election_run_writes [OF assms(2,3)] by blast
  obtain d fr p where p: "ee_fetch env (election_url (ee_manifest env)) = Inr fr"
    "parse_election_page (ee_utf8 env) (fr_content fr) k d = Inr p"
    "collect (normalize_election_result (ee_u5 env) (ee_pf env) p) (ep_rows p) = Inr xs"
    using xs(1) by (auto simp: election_records_def bind_err_Inr)
  obtain d' q where q: "parse_election_page (ee_utf8 env) (fr_content fr) k' d' = Inr q"
    "collect (normalize_election_result (ee_u5 env) (ee_pf env) q) (ep_rows q) = Inr ys"
    using ys(1) p(1) by (auto simp: election_records_def bind_err_Inr)
  have eq: "q = p\<lparr>ep_knesset_number := k', ep_election_date := d'\<rparr>"
    using parse_election_page_fields [OF p(2), of k' d'] q(1) by simp
  have f: "map figures ys = map figures xs"
    using collect_figures [OF p(3)] q(2) eq by simp
  have "list_all (\<lambda>r. er_knesset_number r = k) xs" "list_all (\<lambda>r. er_knesset_number r = k') ys"
    using collect_number [OF p(3)] collect_number [OF q(2)] parse_election_page_fields [OF p(2)]
      parse_election_page_fields [OF q(1)] by (auto simp: list_all_iff)
  moreover have "n' = n" using f map_eq_imp_length_eq [OF f] xs(2) ys(2) by simp
  ultimately show ?thesis using xs ys f by blast
qed


section \<open>Concrete runs\<close>

lemma empty_content: "re_search SUMMARY_TABLE [] = None" "re_search TBODY [] = None"
  by (simp_all add: re_search_def search_from.simps SUMMARY_TABLE_def TBODY_def rword_def lit_def)

lemma empty_page:
  "parse_election_page (\<lambda>_. []) bs k d = Inr \<lparr>ep_knesset_number = k, ep_election_date = d, ep_total_valid_votes = 0,
     ep_total_votes_cast = 0, ep_total_invalid_votes = 0, ep_eligible_voters = 0, ep_rows = []\<rparr>"
  by (simp add: parse_election_page_def page_totals_def empty_content)

text \<open>A list with no vote at all passes on an unrecognized page.\<close>

lemma election_threshold_witness:
  "\<exists>page res. parse_election_page (\<lambda>_. []) [60] 25 (lit ''2022-11-01T00:00:00'') = Inr page \<and>
     normalize_election_result (\<lambda>_ s. length s) (\<lambda>_. None) page
       \<lparr>el_list_name = lit ''L'', el_ballot_letters = heb ''zn'', el_seats_won = 0, el_vote_share_pct = [], el_votes = 0\<rparr> = Inr (Some res) \<and>
     er_passed_threshold res"
proof -
  let ?r = "\<lparr>el_list_name = lit ''L'', el_ballot_letters = heb ''zn'', el_seats_won = 0, el_vote_share_pct = [], el_votes = 0\<rparr>"
  obtain page where page: "parse_election_page (\<lambda>_. []) [60] 25 (lit ''2022-11-01T00:00:00'') = Inr page"
    "ep_knesset_number page = 25" by (simp add: empty_page)
  obtain party where "resolve_party_id (\<lambda>_ s. length s) 25 (heb ''zn'') = Inr party"
    by (simp add: resolve_party_id_def election_section_of_def PARTY_LISTS_def bind_err_def)
  then obtain res where res: "normalize_election_result (\<lambda>_ s. length s) (\<lambda>_. None) page ?r = Inr (Some res)"
    using page(2) by (simp add: normalize_election_result_def bind_err_def)
  have "er_votes res = 0" "er_passed_threshold res \<longleftrightarrow> 0 \<le> er_votes res"
    using election_threshold [OF page(1) res] empty_content(1) by (simp, blast)
  then have "er_passed_threshold res" by simp
  then show ?thesis using page(1) res by blast
qed

definition sample_election :: election_env where
  "sample_election = \<lparr>ee_utf8 = (\<lambda>_. []), ee_pf = (\<lambda>_. None), ee_u5 = (\<lambda>_ s. length s),
     ee_fetch = (\<lambda>url. Inr (stub_fetch (Aware (2024, 2, 29)) ''html'' [60] url)), ee_archive = sample_env, ee_dtm = Some,
     ee_manifest = \<lparr>mf_family = lit ''elections'', mf_adapter = ''election_results'',
       mf_source_url = lit ''https://votes25.bechirot.gov.il/'', mf_source_tier = 1\<rparr>, ee_dry = False\<rparr>"

definition archived_world :: world where
  "archived_world = empty_world\<lparr>w_archive := empty_archive\<lparr>as_run_ids := [], as_rows := [\<lparr>rw_object_id = 1, rw_ingest_run_id = 1,
     rw_source_url = [], rw_archive_uri = [], rw_content_sha256 = sample_sha [60], rw_content_type = None, rw_byte_size = 1,
     rw_source_tier = 1\<rparr>]\<rparr>\<rparr>"

lemma sample_election_run:
  assumes "get_election_date k = Inr d"
  shows "\<exists>w'. election_run sample_election k 5 None archived_world = (w', Inr 0)"
  using assms
  by (simp add: election_run_def with_run_def enter_run_def exit_run_def election_body_def sample_election_def archived_world_def
      empty_world_def empty_archive_def archive_in_run_def archive_payload_def SOURCE_FAMILIES_def sample_env_def stub_fetch_def
      find_existing_def Let_def empty_page)

end
