(* ===== verification/Eval.thy ===== *)
theory Eval
  imports Py_Prelude
begin

text \<open>
  The benchmark harness \<open>scripts/eval.py\<close>: the metrics of one row, their aggregation and the threshold gates that
  decide the exit code. The pipeline, the reading of statement files and \<open>float\<close> on a text are parameters; a float
  is a rational here, and the tolerance \<open>1e-9\<close> of the gates is kept.
\<close>

section \<open>One row\<close>

record row_metrics =
  rm_claim_typing_precision :: "rat option"
  rm_claim_typing_recall :: "rat option"
  rm_verdict_match :: "bool option"
  rm_n_claims :: nat
  rm_provenance_complete :: "bool option"
  rm_errors :: "pyerr list"

definition no_metrics :: row_metrics where
  "no_metrics = \<lparr>rm_claim_typing_precision = None, rm_claim_typing_recall = None, rm_verdict_match = None,
     rm_n_claims = 0, rm_provenance_complete = None, rm_errors = []\<rparr>"

definition load_statement :: "(pyval \<Rightarrow> pystr) \<Rightarrow> (pystr \<Rightarrow> pyerr + pystr) \<Rightarrow> pyval dict \<Rightarrow> pyerr + pystr \<times> pystr" where
  "load_statement rp read spec =
     (let get = (\<lambda>k d. case dget spec (lit k) of None \<Rightarrow> d | Some v \<Rightarrow> v);
          lang = py_str rp (get ''language'' (PLit ''he''));
          language = (if lang = lit ''he'' \<or> lang = lit ''en'' then lang else lit ''he'')
      in if truthy (get ''statement_path'' PNone)
         then bind_err (read (py_str rp (get ''statement_path'' PNone))) (\<lambda>s. Inr (py_strip s, language))
         else Inr (py_str rp (get ''statement'' (PStr [])), language))"

definition ABSTAIN_STATUSES :: "pyval list" where
  "ABSTAIN_STATUSES = [PLit ''non_checkable'', PLit ''insufficient_evidence'']"

text \<open>\<open>s in\<close> a frozen set: an unhashable value raises.\<close>

definition abstains :: "pyval \<Rightarrow> pyerr + bool" where
  "abstains s = (if hashable s then Inr (s \<in> set ABSTAIN_STATUSES) else Inl TypeError)"

text \<open>\<open>b.get(section, {}).get(key)\<close> for every bundle.\<close>

definition each_part :: "string \<Rightarrow> string \<Rightarrow> pyval dict list \<Rightarrow> pyerr + pyval list" where
  "each_part part key bundles =
     collect (\<lambda>b. bind_err (get_default (PDict b) part (PDict [])) (\<lambda>v.
       bind_err (get_default v key PNone) (\<lambda>x. Inr (Some x)))) bundles"

definition ratio :: "nat \<Rightarrow> nat \<Rightarrow> rat" where
  "ratio a b = of_nat a / of_nat b"

text \<open>Precision and recall of the claim types found against the types wanted.\<close>

definition claim_typing :: "pyval \<Rightarrow> pyval list \<Rightarrow> pyerr + (rat \<times> rat) option" where
  "claim_typing want_types got =
     (case want_types of
        PList ws \<Rightarrow>
          if ws = [] then Inr None
          else bind_err (py_set ws) (\<lambda>want.
            let inter = length (filter (\<lambda>v. list_ex (py_eq v) want) got)
            in Inr (Some (if got = [] then 0 else ratio inter (length got), ratio inter (length want))))
      | _ \<Rightarrow> Inr None)"

text \<open>The bundles that do not abstain, and whether each of them carries evidence.\<close>

definition provenance_check :: "pyval dict list \<Rightarrow> pyval list \<Rightarrow> pyerr + bool option" where
  "provenance_check bundles statuses =
     bind_err (collect (\<lambda>(b, s). bind_err (abstains s) (\<lambda>a. Inr (if a then None else Some b))) (zip bundles statuses)) (\<lambda>non_abstain.
       Inr (if non_abstain = [] then None else Some (list_all (\<lambda>b. truthy (vget b (lit ''top_evidence''))) non_abstain)))"

definition score_row :: "pyval dict \<Rightarrow> pyval dict list \<Rightarrow> bool \<Rightarrow> pyerr + row_metrics" where
  "score_row spec bundles live =
     (case py_or (vget spec (lit ''expected'')) (PDict []) of
        PDict expected \<Rightarrow>
          (let live_verdict = (if live then vget expected (lit ''expected_verdict_live'') else PNone);
               want_verdict = (if live_verdict = PNone then vget expected (lit ''expected_verdict'') else live_verdict)
           in bind_err (each_part ''claim'' ''claim_type'' bundles) (\<lambda>types.
              bind_err (py_set types) (\<lambda>got.
              bind_err (claim_typing (vget expected (lit ''expected_claim_types'')) (filter (\<lambda>v. v \<noteq> PNone) got)) (\<lambda>typing.
              bind_err (each_part ''verdict'' ''status'' bundles) (\<lambda>statuses.
              bind_err (provenance_check bundles statuses) (\<lambda>prov. Inr
                \<lparr>rm_claim_typing_precision = map_option fst typing, rm_claim_typing_recall = map_option snd typing,
                 rm_verdict_match = (if want_verdict \<noteq> PNone \<and> bundles \<noteq> []
                    then Some (list_all (\<lambda>s. py_eq s want_verdict) statuses) else None),
                 rm_n_claims = length bundles, rm_provenance_complete = prov, rm_errors = []\<rparr>))))))
      | _ \<Rightarrow> Inl AttributeError)"

record eval_row =
  ev_id :: pyval
  ev_metrics :: row_metrics
  ev_verdicts :: "pyval list"

text \<open>
  One round of the loop in \<open>main\<close>: whatever raises while a row is loaded, verified or scored turns the row into one
  with no metric and no verdict.
\<close>

definition eval_spec ::
    "(pyval \<Rightarrow> pystr) \<Rightarrow> (pystr \<Rightarrow> pyerr + pystr) \<Rightarrow> (pystr \<Rightarrow> pystr \<Rightarrow> pyerr + pyval dict list) \<Rightarrow> bool \<Rightarrow> pyval dict \<Rightarrow> eval_row" where
  "eval_spec rp read verify live spec =
     (case bind_err (load_statement rp read spec) (\<lambda>(stmt, lang). bind_err (verify stmt lang) (\<lambda>bundles.
             bind_err (score_row spec bundles live) (\<lambda>m. Inr (m, bundles)))) of
        Inl e \<Rightarrow> \<lparr>ev_id = vget spec (lit ''id''), ev_metrics = no_metrics\<lparr>rm_errors := [e]\<rparr>, ev_verdicts = []\<rparr>
      | Inr (m, bundles) \<Rightarrow> \<lparr>ev_id = vget spec (lit ''id''), ev_metrics = m,
          ev_verdicts = map (\<lambda>b. case dget b (lit ''verdict'') of None \<Rightarrow> PDict [] | Some v \<Rightarrow> v) bundles\<rparr>)"

section \<open>Aggregation\<close>

record summary =
  sm_rows :: nat
  sm_mean_claim_typing_precision :: rat
  sm_mean_claim_typing_recall :: rat
  sm_f1_claim_typing :: rat
  sm_f1_verdict :: rat
  sm_abstention_rate :: rat
  sm_provenance_completeness :: rat
  sm_abstention_correctness :: rat

definition avg :: "rat list \<Rightarrow> rat" where
  "avg xs = (if xs = [] then 0 else sum_list xs / of_nat (length xs))"

text \<open>The share of \<open>True\<close>, with the value an empty list stands for.\<close>

definition share :: "rat \<Rightarrow> bool list \<Rightarrow> rat" where
  "share d bs = (if bs = [] then d else ratio (length (filter id bs)) (length bs))"

definition metric :: "(row_metrics \<Rightarrow> 'a option) \<Rightarrow> eval_row list \<Rightarrow> 'a list" where
  "metric f rows = concat (map (\<lambda>r. case f (ev_metrics r) of None \<Rightarrow> [] | Some x \<Rightarrow> [x]) rows)"

definition f1_part :: "eval_row \<Rightarrow> rat list" where
  "f1_part r =
     (case (rm_claim_typing_precision (ev_metrics r), rm_claim_typing_recall (ev_metrics r)) of
        (Some p, Some rec) \<Rightarrow> if p + rec > 0 then [2 * p * rec / (p + rec)] else []
      | _ \<Rightarrow> [])"

definition row_statuses :: "eval_row \<Rightarrow> pyerr + pyval list" where
  "row_statuses r = collect (\<lambda>v. bind_err (get_default v ''status'' PNone) (\<lambda>s. Inr (Some s))) (ev_verdicts r)"

text \<open>For a scored row that only abstains: whether that matched.\<close>

definition abstain_match :: "eval_row \<Rightarrow> pyerr + bool option" where
  "abstain_match r =
     (case rm_verdict_match (ev_metrics r) of
        None \<Rightarrow> Inr None
      | Some m \<Rightarrow> bind_err (row_statuses r) (\<lambda>ss.
          bind_err (collect (\<lambda>s. bind_err (abstains s) (\<lambda>a. Inr (Some a))) ss) (\<lambda>as.
            Inr (if ss \<noteq> [] \<and> list_all id as then Some m else None))))"

text \<open>The flags of all truthy statuses of all rows: does it abstain?\<close>

definition abstain_flags :: "eval_row list \<Rightarrow> pyerr + bool list" where
  "abstain_flags rows =
     bind_err (collect (\<lambda>r. bind_err (row_statuses r) (\<lambda>ss. Inr (Some ss))) rows) (\<lambda>sss.
       collect (\<lambda>s. bind_err (abstains s) (\<lambda>a. Inr (Some a))) (filter truthy (concat sss)))"

definition aggregate :: "eval_row list \<Rightarrow> pyerr + summary" where
  "aggregate rows =
     bind_err (abstain_flags rows) (\<lambda>flags. bind_err (collect abstain_match rows) (\<lambda>matches. Inr
       \<lparr>sm_rows = length rows, sm_mean_claim_typing_precision = avg (metric rm_claim_typing_precision rows),
        sm_mean_claim_typing_recall = avg (metric rm_claim_typing_recall rows),
        sm_f1_claim_typing = avg (concat (map f1_part rows)), sm_f1_verdict = share 0 (metric rm_verdict_match rows),
        sm_abstention_rate = share 0 flags,
        sm_provenance_completeness = share 1 (metric rm_provenance_complete rows),
        sm_abstention_correctness = share 1 matches\<rparr>))"

section \<open>Gates\<close>

definition py_float :: "(pystr \<Rightarrow> rat option) \<Rightarrow> pyval \<Rightarrow> pyerr + rat" where
  "py_float pf v =
     (case num_val v of
        Some x \<Rightarrow> Inr x
      | None \<Rightarrow> (case v of PStr s \<Rightarrow> (case pf s of None \<Rightarrow> Inl ValueError | Some x \<Rightarrow> Inr x) | _ \<Rightarrow> Inl TypeError))"

definition GATED :: "(string \<times> (summary \<Rightarrow> rat) option) list" where
  "GATED = [(''f1_verdict'', Some sm_f1_verdict), (''f1_claim_typing'', Some sm_f1_claim_typing), (''recall_evidence'', None),
     (''provenance_completeness'', Some sm_provenance_completeness), (''abstention_correctness'', Some sm_abstention_correctness)]"

text \<open>\<open>summary.get(metric, 1.0)\<close>: a metric the summary does not have reads as 1.\<close>

definition gate_value :: "(summary \<Rightarrow> rat) option \<Rightarrow> summary \<Rightarrow> rat" where
  "gate_value f s = (case f of None \<Rightarrow> 1 | Some g \<Rightarrow> g s)"

text \<open>The block of the configuration that gates the run.\<close>

definition gate_block :: "bool \<Rightarrow> pyval \<Rightarrow> pyerr + pyval" where
  "gate_block live cfg = (if live then get_default cfg ''live'' (PDict []) else Inr cfg)"

definition failed_gates :: "(pystr \<Rightarrow> rat option) \<Rightarrow> bool \<Rightarrow> pyval \<Rightarrow> summary \<Rightarrow> pyerr + string list" where
  "failed_gates pf live cfg s =
     bind_err (gate_block live cfg) (\<lambda>gate_cfg.
     bind_err (if live then get_default cfg ''min_rows'' (PInt 0) else Inr (PInt 0)) (\<lambda>default.
     bind_err (get_default gate_cfg ''min_rows'' default) (\<lambda>m. bind_err (py_int m) (\<lambda>min_rows.
     bind_err (collect (\<lambda>(name, f). bind_err (get_default gate_cfg name (PFloat 0)) (\<lambda>t. bind_err (py_float pf t) (\<lambda>threshold.
         Inr (if threshold > 0 \<and> gate_value f s + 1 / 10 ^ 9 < threshold then Some name else None)))) GATED) (\<lambda>failed.
       Inr ((if int (sm_rows s) < min_rows then [''min_rows''] else []) @ failed))))))"

text \<open>\<open>main\<close> after the pipeline was built: the summary, the failed gates and the exit code. Without a configuration nothing is gated.\<close>

definition eval_main ::
    "(pyval \<Rightarrow> pystr) \<Rightarrow> (pystr \<Rightarrow> pyerr + pystr) \<Rightarrow> (pystr \<Rightarrow> rat option) \<Rightarrow> (pystr \<Rightarrow> pystr \<Rightarrow> pyerr + pyval dict list) \<Rightarrow> bool \<Rightarrow>
     pyval option \<Rightarrow> pyval dict list \<Rightarrow> pyerr + summary \<times> string list \<times> nat" where
  "eval_main rp read pf verify live config specs =
     bind_err (aggregate (map (eval_spec rp read verify live) specs)) (\<lambda>s.
     bind_err (case config of None \<Rightarrow> Inr [] | Some cfg \<Rightarrow> failed_gates pf live (py_or cfg (PDict [])) s) (\<lambda>failed.
       Inr (s, failed, if failed = [] then 0 else 3)))"

text \<open>
  The whole run. \<open>_build_live_pipeline\<close> gives nothing unless all three stores answer and the clients can be made; without a
  gold set, or with \<open>--live\<close> and no live pipeline, nothing is evaluated and the exit code is 2.
\<close>

definition build_live_pipeline :: "bool \<Rightarrow> bool \<Rightarrow> bool \<Rightarrow> pyerr + 'p \<Rightarrow> 'p option" where
  "build_live_pipeline neo4j_up opensearch_up pg_up made =
     (if neo4j_up \<and> opensearch_up \<and> pg_up then (case made of Inl _ \<Rightarrow> None | Inr p \<Rightarrow> Some p) else None)"

definition gold_specs :: "pyval \<Rightarrow> pyerr + pyval dict list" where
  "gold_specs rows = bind_err (iterate rows) (collect (\<lambda>v. case v of PDict d \<Rightarrow> Inr (Some d) | _ \<Rightarrow> Inl AttributeError))"

definition eval_cli ::
    "(pyval \<Rightarrow> pystr) \<Rightarrow> (pystr \<Rightarrow> pyerr + pystr) \<Rightarrow> (pystr \<Rightarrow> rat option) \<Rightarrow> (pystr \<Rightarrow> pystr \<Rightarrow> pyerr + pyval dict list) option \<Rightarrow>
     (pystr \<Rightarrow> pystr \<Rightarrow> pyerr + pyval dict list) \<Rightarrow> bool \<Rightarrow> pyval option \<Rightarrow> pyval option \<Rightarrow>
     pyerr + (summary \<times> string list) option \<times> nat" where
  "eval_cli rp read pf live_pipeline offline live config gold =
     (case gold of
        None \<Rightarrow> Inr (None, 2)
      | Some data \<Rightarrow>
          bind_err (get_default (py_or data (PDict [])) ''rows'' (PList [])) (\<lambda>rows.
            (case (if live then live_pipeline else Some offline) of
               None \<Rightarrow> Inr (None, 2)
             | Some verify \<Rightarrow>
                 bind_err (gold_specs rows) (\<lambda>specs.
                 bind_err (eval_main rp read pf verify live config specs) (\<lambda>(s, failed, code). Inr (Some (s, failed), code))))))"

text \<open>The exit code says which of the three happened.\<close>

lemma eval_cli_exit:
  assumes "eval_cli rp read pf live_pipeline offline live config gold = Inr (report, code)"
  shows "(code = 2 \<longleftrightarrow> report = None) \<and> (code = 0 \<longleftrightarrow> (\<exists>s. report = Some (s, []))) \<and> code \<in> {0, 2, 3}"
  using assms by (auto simp: eval_cli_def eval_main_def bind_err_Inr split: option.splits if_splits prod.splits)

section \<open>Every metric is a proportion\<close>

abbreviation unit_rat :: "rat \<Rightarrow> bool" where
  "unit_rat x \<equiv> 0 \<le> x \<and> x \<le> 1"

lemma ratio_unit: "a \<le> b \<Longrightarrow> unit_rat (ratio a b)"
  by (cases "b = 0") (simp_all add: ratio_def)

lemma share_unit: "unit_rat d \<Longrightarrow> unit_rat (share d bs)"
  using ratio_unit [OF length_filter_le [of id bs]] by (simp add: share_def)

lemma sum_list_unit: "list_all unit_rat xs \<Longrightarrow> 0 \<le> sum_list xs \<and> sum_list xs \<le> of_nat (length xs)"
  by (induction xs) auto

lemma avg_unit: "list_all unit_rat xs \<Longrightarrow> unit_rat (avg xs)"
  using sum_list_unit [of xs] by (auto simp: avg_def divide_le_eq)

lemma f1_unit:
  fixes p r :: rat
  assumes "unit_rat p" "unit_rat r" "p + r > 0"
  shows "2 * p * r / (p + r) \<le> 1" "0 \<le> 2 * p * r / (p + r)" "2 * p * r \<le> p + r"
proof -
  have "p * r \<le> p" "p * r \<le> r" "0 \<le> p * r"
    using assms mult_left_mono [of r 1 p] mult_right_mono [of p 1 r] by auto
  then show "2 * p * r \<le> p + r" "2 * p * r / (p + r) \<le> 1" "0 \<le> 2 * p * r / (p + r)"
    using assms(3) by (auto simp: divide_le_eq)
qed

lemma py_eq_sym: "py_eq a b = py_eq b a"
  by (auto simp: py_eq_def split: option.splits)

lemma py_eq_trans: "py_eq a b \<Longrightarrow> py_eq b c \<Longrightarrow> py_eq a c"
  by (auto simp: py_eq_def split: option.splits)

text \<open>No two members of a set are equal, so at most one of them equals a given value.\<close>

abbreviation apart :: "pyval list \<Rightarrow> bool" where
  "apart \<equiv> sorted_wrt (\<lambda>a b. \<not> py_eq a b)"

lemma apart_nub: "apart (nub_eq vs)"
  by (induction vs) (auto intro: sorted_wrt_filter)

lemma apart_one: "apart vs \<Longrightarrow> length (filter (\<lambda>v. py_eq v w) vs) \<le> 1"
proof (induction vs)
  case (Cons v vs)
  show ?case
  proof (cases "py_eq v w")
    case True
    then have "filter (\<lambda>u. py_eq u w) vs = []"
      using Cons.prems py_eq_trans [of v w] py_eq_sym [of w] by (fastforce simp: filter_empty_conv)
    then show ?thesis by simp
  next
    case False
    then show ?thesis using Cons by simp
  qed
qed simp

lemma length_filter_disj: "length (filter (\<lambda>v. P v \<or> Q v) vs) \<le> length (filter P vs) + length (filter Q vs)"
  by (induction vs) auto

lemma apart_inter: "apart vs \<Longrightarrow> length (filter (\<lambda>v. list_ex (py_eq v) want) vs) \<le> length want"
proof (induction want)
  case (Cons w want)
  show ?case
    using Cons.IH [OF Cons.prems] apart_one [OF Cons.prems, of w]
      length_filter_disj [of "\<lambda>v. py_eq v w" "\<lambda>v. list_ex (py_eq v) want" vs] by simp
qed simp

lemma claim_typing_unit:
  assumes "claim_typing w got = Inr (Some (p, r))" "apart got"
  shows "unit_rat p \<and> unit_rat r"
  using assms(1) ratio_unit [OF apart_inter [OF assms(2)]] ratio_unit [OF length_filter_le]
  by (auto simp: claim_typing_def bind_err_Inr Let_def split: pyval.splits if_splits)

definition metrics_unit :: "row_metrics \<Rightarrow> bool" where
  "metrics_unit m \<longleftrightarrow>
     (case rm_claim_typing_precision m of None \<Rightarrow> True | Some p \<Rightarrow> unit_rat p) \<and>
     (case rm_claim_typing_recall m of None \<Rightarrow> True | Some r \<Rightarrow> unit_rat r)"

lemma no_metrics_unit [simp]: "metrics_unit (no_metrics\<lparr>rm_errors := es\<rparr>)"
  by (simp add: metrics_unit_def no_metrics_def)

lemma score_row_unit:
  assumes "score_row spec bundles live = Inr m"
  shows "metrics_unit m"
proof -
  obtain types got w typing where
    g: "py_set types = Inr got" "claim_typing w (filter (\<lambda>v. v \<noteq> PNone) got) = Inr typing"
    and m: "rm_claim_typing_precision m = map_option fst typing" "rm_claim_typing_recall m = map_option snd typing"
    using assms by (auto simp: score_row_def bind_err_Inr Let_def split: pyval.splits)
  have "apart (filter (\<lambda>v. v \<noteq> PNone) got)"
    using g(1) by (auto simp: py_set_def intro: sorted_wrt_filter apart_nub split: if_splits)
  then show ?thesis
    using g(2) m claim_typing_unit by (cases typing) (auto simp: metrics_unit_def)
qed

lemma eval_spec_unit: "metrics_unit (ev_metrics (eval_spec rp read verify live spec))"
proof (cases "bind_err (load_statement rp read spec) (\<lambda>(stmt, lang). bind_err (verify stmt lang) (\<lambda>bundles.
             bind_err (score_row spec bundles live) (\<lambda>m. Inr (m, bundles))))")
  case (Inl e)
  then show ?thesis by (simp add: eval_spec_def)
next
  case (Inr mb)
  then have "metrics_unit (fst mb)" by (auto simp: bind_err_Inr intro: score_row_unit)
  then show ?thesis using Inr by (cases mb) (simp add: eval_spec_def)
qed

lemma metric_unit:
  assumes "list_all (\<lambda>r. metrics_unit (ev_metrics r)) rows"
  shows "list_all unit_rat (metric rm_claim_typing_precision rows)"
    and "list_all unit_rat (metric rm_claim_typing_recall rows)"
    and "list_all unit_rat (concat (map f1_part rows))"
  using assms
  by (induction rows) (auto simp: metric_def metrics_unit_def f1_part_def f1_unit split: option.splits)

definition summary_unit :: "summary \<Rightarrow> bool" where
  "summary_unit s \<longleftrightarrow>
     unit_rat (sm_mean_claim_typing_precision s) \<and> unit_rat (sm_mean_claim_typing_recall s) \<and>
     unit_rat (sm_f1_claim_typing s) \<and> unit_rat (sm_f1_verdict s) \<and> unit_rat (sm_abstention_rate s) \<and>
     unit_rat (sm_provenance_completeness s) \<and> unit_rat (sm_abstention_correctness s)"

lemma aggregate_unit:
  assumes "aggregate rows = Inr s" "list_all (\<lambda>r. metrics_unit (ev_metrics r)) rows"
  shows "summary_unit s"
  using assms(1) avg_unit [OF metric_unit(1)] avg_unit [OF metric_unit(2)] avg_unit [OF metric_unit(3)] share_unit assms(2)
  by (auto simp: aggregate_def bind_err_Inr summary_unit_def)


lemma map_eval_unit: "list_all (\<lambda>r. metrics_unit (ev_metrics r)) (map (eval_spec rp read verify live) specs)"
  by (simp add: list_all_iff eval_spec_unit)

section \<open>What a passing run shows\<close>

lemma collect_none:
  assumes "collect f xs = Inr []" "x \<in> set xs"
  shows "f x = Inr None"
  using assms by (induction xs) (auto simp: bind_err_Inr split: option.splits)

lemma failed_gates_none:
  assumes "failed_gates pf live cfg s = Inr []" "gate_block live cfg = Inr (PDict gates)"
    and "(name, Some f) \<in> set GATED" "dget gates (lit name) = Some t" "py_float pf t = Inr x" "x > 0"
  shows "x \<le> f s + 1 / 10 ^ 9"
  using assms
  by (fastforce simp: failed_gates_def bind_err_Inr get_default_def gate_value_def split: if_splits dest!: collect_none)

lemma failed_gates_rows:
  assumes "failed_gates pf live cfg s = Inr []" "gate_block live cfg = Inr (PDict gates)"
    and "dget gates (lit ''min_rows'') = Some t" "py_int t = Inr n"
  shows "n \<le> int (sm_rows s)"
  using assms by (auto simp: failed_gates_def bind_err_Inr get_default_def split: if_splits)

lemma eval_main_failed:
  assumes "eval_main rp read pf verify live (Some cfg) specs = Inr (s, failed, code)"
  shows "failed_gates pf live (py_or cfg (PDict [])) s = Inr failed \<and> code = (if failed = [] then 0 else 3)"
  using assms by (auto simp: eval_main_def bind_err_Inr)

lemma eval_main_summary:
  assumes "eval_main rp read pf verify live config specs = Inr (s, failed, code)"
  shows "aggregate (map (eval_spec rp read verify live) specs) = Inr s"
  using assms by (auto simp: eval_main_def bind_err_Inr)

section \<open>Rows that raise\<close>

definition raised :: "eval_row \<Rightarrow> bool" where
  "raised r \<longleftrightarrow> rm_errors (ev_metrics r) \<noteq> []"

lemma score_row_errors: "score_row spec bundles live = Inr m \<Longrightarrow> rm_errors m = []"
  by (auto simp: score_row_def bind_err_Inr Let_def split: pyval.splits)

lemma raised_row:
  assumes "raised (eval_spec rp read verify live spec)"
  obtains e where "eval_spec rp read verify live spec =
    \<lparr>ev_id = vget spec (lit ''id''), ev_metrics = no_metrics\<lparr>rm_errors := [e]\<rparr>, ev_verdicts = []\<rparr>"
proof (cases "bind_err (load_statement rp read spec) (\<lambda>(stmt, lang). bind_err (verify stmt lang) (\<lambda>bundles.
             bind_err (score_row spec bundles live) (\<lambda>m. Inr (m, bundles))))")
  case (Inl e)
  then show ?thesis using that by (simp add: eval_spec_def)
next
  case (Inr mb)
  then have "rm_errors (fst mb) = []" by (auto simp: bind_err_Inr dest: score_row_errors)
  then show ?thesis using Inr assms by (cases mb) (simp add: eval_spec_def raised_def)
qed

lemma metric_append: "metric f (xs @ ys) = metric f xs @ metric f ys"
  by (simp add: metric_def)

lemma collect_cong: "(\<And>x. x \<in> set xs \<Longrightarrow> f x = g x) \<Longrightarrow> collect f xs = collect g xs"
  by (induction xs) auto

lemma collect_append: "collect f (xs @ ys) = bind_err (collect f xs) (\<lambda>a. bind_err (collect f ys) (\<lambda>b. Inr (a @ b)))"
proof (induction xs)
  case Nil
  then show ?case by (cases "collect f ys") simp_all
next
  case (Cons x xs)
  then show ?case
    by (cases "f x"; cases "collect f xs"; cases "collect f ys") (simp_all split: option.split)
qed

text \<open>Rows without a metric and without a verdict add nothing to any list of the aggregation.\<close>

definition silent :: "eval_row \<Rightarrow> bool" where
  "silent r \<longleftrightarrow> ev_verdicts r = [] \<and> (\<exists>es. ev_metrics r = no_metrics\<lparr>rm_errors := es\<rparr>)"

lemma raised_silent: "raised (eval_spec rp read verify live spec) \<Longrightarrow> silent (eval_spec rp read verify live spec)"
  by (elim raised_row) (auto simp: silent_def)

lemma silent_parts:
  assumes "silent r"
  shows "f1_part r = []" "abstain_match r = Inr None" "row_statuses r = Inr []"
    "rm_claim_typing_precision (ev_metrics r) = None" "rm_claim_typing_recall (ev_metrics r) = None"
    "rm_verdict_match (ev_metrics r) = None" "rm_provenance_complete (ev_metrics r) = None"
  using assms by (auto simp: silent_def no_metrics_def f1_part_def abstain_match_def row_statuses_def)

lemma silent_lists:
  assumes "list_all silent rows"
  shows "metric rm_claim_typing_precision rows = []" "metric rm_claim_typing_recall rows = []"
    "metric rm_verdict_match rows = []" "metric rm_provenance_complete rows = []"
    "concat (map f1_part rows) = []" "collect abstain_match rows = Inr []"
    "\<exists>n. collect (\<lambda>r. bind_err (row_statuses r) (\<lambda>ss. Inr (Some ss))) rows = Inr (replicate n [])"
  using assms
proof (induction rows)
  case (Cons r rows)
  {
    case 7
    then obtain n where "collect (\<lambda>r. bind_err (row_statuses r) (\<lambda>ss. Inr (Some ss))) rows = Inr (replicate n [])"
      using Cons(7) by auto
    then show ?case using 7 by (intro exI [of _ "Suc n"]) (simp add: silent_parts)
  }
qed (auto simp: metric_def silent_parts intro: exI [of _ 0])

lemma abstain_flags_silent:
  assumes "list_all silent extra"
  shows "abstain_flags (rows @ extra) = abstain_flags rows"
  using silent_lists(7) [OF assms]
  by (auto simp: abstain_flags_def collect_append bind_err_def split: sum.splits)

lemma aggregate_silent:
  assumes "aggregate rows = Inr s" "list_all silent extra"
  shows "aggregate (rows @ extra) = Inr (s\<lparr>sm_rows := sm_rows s + length extra\<rparr>)"
  using assms(1)
  by (auto simp: aggregate_def abstain_flags_silent [OF assms(2)] collect_append metric_append silent_lists [OF assms(2)] bind_err_Inr)

lemma failed_gates_more:
  assumes "failed_gates pf live cfg s = Inr []"
  shows "failed_gates pf live cfg (s\<lparr>sm_rows := sm_rows s + n\<rparr>) = Inr []"
proof -
  have v: "gate_value f (s\<lparr>sm_rows := sm_rows s + n\<rparr>) = gate_value f s" if "(name, f) \<in> set GATED" for name f
    using that by (auto simp: GATED_def gate_value_def)
  have "collect (\<lambda>(name, f). bind_err (get_default g name (PFloat 0)) (\<lambda>t. bind_err (py_float pf t) (\<lambda>x.
          Inr (if x > 0 \<and> gate_value f (s\<lparr>sm_rows := sm_rows s + n\<rparr>) + 1 / 10 ^ 9 < x then Some name else None)))) GATED =
        collect (\<lambda>(name, f). bind_err (get_default g name (PFloat 0)) (\<lambda>t. bind_err (py_float pf t) (\<lambda>x.
          Inr (if x > 0 \<and> gate_value f s + 1 / 10 ^ 9 < x then Some name else None)))) GATED" for g
    by (rule collect_cong) (auto simp: v)
  moreover obtain g d m k where "gate_block live cfg = Inr g"
    "(if live then get_default cfg ''min_rows'' (PInt 0) else Inr (PInt 0)) = Inr d"
    "get_default g ''min_rows'' d = Inr m" "py_int m = Inr k" "k \<le> int (sm_rows s)"
    "collect (\<lambda>(name, f). bind_err (get_default g name (PFloat 0)) (\<lambda>t. bind_err (py_float pf t) (\<lambda>x.
          Inr (if x > 0 \<and> gate_value f s + 1 / 10 ^ 9 < x then Some name else None)))) GATED = Inr []"
    using assms unfolding failed_gates_def by (auto simp: bind_err_Inr split: if_splits)
  ultimately show ?thesis
    unfolding failed_gates_def by simp
qed

lemma eval_main_failing_rows:
  assumes "eval_main rp read pf verify live config specs = Inr (s, [], 0)"
    and "list_all (\<lambda>spec. raised (eval_spec rp read verify live spec)) extra"
  shows "eval_main rp read pf verify live config (specs @ extra) = Inr (s\<lparr>sm_rows := sm_rows s + length extra\<rparr>, [], 0)"
proof -
  have "list_all silent (map (eval_spec rp read verify live) extra)"
    using assms(2) raised_silent by (simp add: list_all_iff)
  then have "aggregate (map (eval_spec rp read verify live) (specs @ extra)) = Inr (s\<lparr>sm_rows := sm_rows s + length extra\<rparr>)"
    using aggregate_silent [OF eval_main_summary [OF assms(1)]] by simp
  moreover have "failed_gates pf live (py_or cfg (PDict [])) s = Inr []" if "config = Some cfg" for cfg
    using assms(1) that eval_main_failed [of rp read pf verify live cfg specs s "[]" 0] by simp
  ultimately show ?thesis
    by (cases config) (simp_all add: eval_main_def failed_gates_more)
qed


section \<open>Properties\<close>

text \<open>
  Every metric of the benchmark summary is a proportion: whatever the pipeline returns, precision, recall,
  their harmonic mean, the verdict accuracy and the three abstention and provenance figures lie between 0 and 1, and the
  summary counts every row of the gold set.
\<close>

theorem eval_metrics_unit:
  assumes "eval_main rp read pf verify live config specs = Inr (s, failed, code)"
  shows "summary_unit s \<and> sm_rows s = length specs"
  using eval_main_summary [OF assms] aggregate_unit [OF eval_main_summary [OF assms] map_eval_unit]
  by (auto simp: aggregate_def bind_err_Inr)

text \<open>
  Claim C29. Exit code 0 of a gated run means what the configuration asks for: the run has at least \<open>min_rows\<close> rows and
  every metric of the summary with a positive threshold in the gate block (the \<open>live\<close> block of a live run) reaches it
  up to the tolerance.
\<close>

theorem eval_pass_meets_gates:
  assumes "eval_main rp read pf verify live (Some cfg) specs = Inr (s, failed, 0)"
    and "gate_block live (py_or cfg (PDict [])) = Inr (PDict gates)"
    and "dget gates (lit ''min_rows'') = Some m" "py_int m = Inr n"
    and "(name, Some f) \<in> set GATED" "dget gates (lit name) = Some t" "py_float pf t = Inr x" "x > 0"
  shows "n \<le> int (length specs) \<and> x \<le> f s + 1 / 10 ^ 9"
proof -
  have g: "failed_gates pf live (py_or cfg (PDict [])) s = Inr []"
    using eval_main_failed [OF assms(1)] by (auto split: if_splits)
  have "sm_rows s = length specs"
    using eval_main_summary [OF assms(1)] by (auto simp: aggregate_def bind_err_Inr)
  then show ?thesis
    using failed_gates_rows [OF g assms(2-4)] failed_gates_none [OF g assms(2,5-8)] by simp
qed

text \<open>
  Rows the pipeline fails on do not count: a run that passes its gates still passes them, with the same value of
  every metric, when any number of rows that raise is added to the gold set; only the number of rows grows, so that
  failing rows even help to reach \<open>min_rows\<close>.
\<close>

theorem eval_ignores_failing_rows:
  assumes "eval_main rp read pf verify live config specs = Inr (s, [], 0)"
    and "list_all (\<lambda>spec. raised (eval_spec rp read verify live spec)) extra"
  shows "eval_main rp read pf verify live config (specs @ extra) = Inr (s\<lparr>sm_rows := sm_rows s + length extra\<rparr>, [], 0)"
  using assms by (rule eval_main_failing_rows)

section \<open>Witnesses\<close>

text \<open>One row that matches, one whose statement file is missing, and thresholds of 1.\<close>

definition ev_sample_verify :: "pystr \<Rightarrow> pystr \<Rightarrow> pyerr + pyval dict list" where
  "ev_sample_verify stmt lang = Inr [[(lit ''claim'', PDict [(lit ''claim_type'', PLit ''vote_cast'')]),
     (lit ''verdict'', PDict [(lit ''status'', PLit ''supported'')]), (lit ''top_evidence'', PList [PNone])]]"

definition ev_sample_spec :: "pyval dict" where
  "ev_sample_spec = [(lit ''statement'', PLit ''s''), (lit ''expected'', PDict [(lit ''expected_claim_types'', PList [PLit ''vote_cast'']),
     (lit ''expected_verdict'', PLit ''supported'')])]"

definition ev_sample_gates :: "pyval dict" where
  "ev_sample_gates = [(lit ''min_rows'', PInt 1), (lit ''f1_verdict'', PInt 1), (lit ''f1_claim_typing'', PFloat (9 / 10))]"

definition ev_sample_summary :: summary where
  "ev_sample_summary = \<lparr>sm_rows = 1, sm_mean_claim_typing_precision = 1, sm_mean_claim_typing_recall = 1, sm_f1_claim_typing = 1,
     sm_f1_verdict = 1, sm_abstention_rate = 0, sm_provenance_completeness = 1, sm_abstention_correctness = 1\<rparr>"

abbreviation ev_sample_main :: "pyval option \<Rightarrow> pyval dict list \<Rightarrow> pyerr + summary \<times> string list \<times> nat" where
  "ev_sample_main \<equiv> eval_main (\<lambda>_. []) (\<lambda>_. Inl FileNotFoundError) (\<lambda>_. None) ev_sample_verify False"

lemma ev_sample_row:
  "eval_spec (\<lambda>_. []) (\<lambda>_. Inl FileNotFoundError) ev_sample_verify False ev_sample_spec =
     \<lparr>ev_id = PNone, ev_metrics = \<lparr>rm_claim_typing_precision = Some 1, rm_claim_typing_recall = Some 1, rm_verdict_match = Some True,
        rm_n_claims = 1, rm_provenance_complete = Some True, rm_errors = []\<rparr>, ev_verdicts = [PDict [(lit ''status'', PLit ''supported'')]]\<rparr>"
  by (simp add: eval_spec_def ev_sample_spec_def ev_sample_verify_def load_statement_def score_row_def each_part_def get_default_def
      claim_typing_def provenance_check_def abstains_def ABSTAIN_STATUSES_def py_set_def py_or_def ratio_def Let_def)

lemma ev_sample_aggregate:
  "aggregate [eval_spec (\<lambda>_. []) (\<lambda>_. Inl FileNotFoundError) ev_sample_verify False ev_sample_spec] = Inr ev_sample_summary"
  by (simp add: ev_sample_row ev_sample_summary_def aggregate_def abstain_flags_def row_statuses_def abstain_match_def get_default_def
      abstains_def ABSTAIN_STATUSES_def metric_def f1_part_def avg_def share_def ratio_def)

lemma ev_sample_run: "ev_sample_main (Some (PDict ev_sample_gates)) [ev_sample_spec] = Inr (ev_sample_summary, [], 0)"
  by (simp add: eval_main_def ev_sample_aggregate failed_gates_def gate_block_def py_or_def get_default_def ev_sample_gates_def GATED_def
      py_float_def gate_value_def ev_sample_summary_def)

theorem eval_pass_meets_gates_witness: "1 \<le> int 1 \<and> 9 / 10 \<le> sm_f1_claim_typing ev_sample_summary + 1 / 10 ^ 9"
  using eval_pass_meets_gates [OF ev_sample_run, of ev_sample_gates "PInt 1" 1 "''f1_claim_typing''" sm_f1_claim_typing "PFloat (9 / 10)" "9 / 10"]
  by (simp add: gate_block_def py_or_def ev_sample_gates_def GATED_def py_float_def)

end
