(* ===== verification/Py_Lines.thy ===== *)
theory Py_Lines
  imports Py_Prelude
begin

text \<open>
  Texts as lines: \<open>str.splitlines\<close>, stripping at both ends, and what the scripts read a file with. A text is what
  \<open>read_text\<close> returns.
\<close>

section \<open>Lines\<close>

definition line_end :: "nat \<Rightarrow> bool" where
  "line_end c \<longleftrightarrow> (10 \<le> c \<and> c \<le> 13) \<or> (28 \<le> c \<and> c \<le> 30) \<or> c = 133 \<or> c = 8232 \<or> c = 8233"

text \<open>A carriage return takes the line feed after it along.\<close>

definition after_line_end :: "pystr \<Rightarrow> pystr" where
  "after_line_end s = (if take 2 s = [13, 10] then drop 2 s else drop 1 s)"

function splitlines :: "pystr \<Rightarrow> pystr list" where
  "splitlines s =
     (if s = [] then []
      else takeWhile (\<lambda>c. \<not> line_end c) s # splitlines (after_line_end (dropWhile (\<lambda>c. \<not> line_end c) s)))"
  by pat_completeness auto
termination
proof (relation "measure length", goal_cases)
  case (2 s)
  show ?case
  proof (cases "dropWhile (\<lambda>c. \<not> line_end c) s")
    case Nil
    show ?thesis using 2 by (subst Nil) (simp add: after_line_end_def)
  next
    case (Cons c r)
    then have "length (after_line_end (dropWhile (\<lambda>c. \<not> line_end c) s)) < length (dropWhile (\<lambda>c. \<not> line_end c) s)"
      by (auto simp: after_line_end_def)
    then show ?thesis using length_dropWhile_le [of "\<lambda>c. \<not> line_end c" s] by simp
  qed
qed simp

declare splitlines.simps [simp del]

lemma splitlines_Nil [simp]: "splitlines [] = []"
  by (simp add: splitlines.simps)

abbreviation one_line :: "pystr \<Rightarrow> bool" where
  "one_line l \<equiv> list_all (\<lambda>c. \<not> line_end c) l"

lemma splitlines_line:
  assumes "one_line l" shows "splitlines (l @ 10 # s) = l # splitlines s"
proof -
  have "takeWhile (\<lambda>c. \<not> line_end c) (l @ 10 # s) = l" "dropWhile (\<lambda>c. \<not> line_end c) (l @ 10 # s) = 10 # s"
    using assms by (simp_all add: list_all_iff takeWhile_append2 dropWhile_append2 line_end_def)
  then show ?thesis by (subst splitlines.simps) (simp add: after_line_end_def)
qed

definition lines_text :: "pystr list \<Rightarrow> pystr" where
  "lines_text ls = concat (map (\<lambda>l. l @ [10]) ls)"

lemma splitlines_lines_text: "list_all one_line ls \<Longrightarrow> splitlines (lines_text ls) = ls"
  by (induction ls) (simp_all add: lines_text_def splitlines_line)

section \<open>Stripping\<close>

lemma py_strip_idle:
  assumes "s \<noteq> []" "\<not> is_space (hd s)" "\<not> is_space (last s)"
  shows "py_strip s = s"
proof -
  have "py_lstrip s = s" using assms(1,2) by (cases s) (simp_all add: py_lstrip_def)
  moreover have "rev s \<noteq> []" "\<not> is_space (hd (rev s))" using assms by (simp_all add: hd_rev)
  then have "py_rstrip s = s" by (cases "rev s") (auto simp: py_rstrip_def rev_swap)
  ultimately show ?thesis by (simp add: py_strip_def)
qed

lemma py_strip_Nil [simp]: "py_strip [] = []"
  by (simp add: py_strip_def py_lstrip_def py_rstrip_def)

text \<open>\<open>line.partition(c)\<close>, when the character is there.\<close>

definition cut_at :: "nat \<Rightarrow> pystr \<Rightarrow> pystr \<times> pystr" where
  "cut_at c s = (takeWhile (\<lambda>d. d \<noteq> c) s, drop 1 (dropWhile (\<lambda>d. d \<noteq> c) s))"

lemma cut_at_append: "c \<notin> set a \<Longrightarrow> cut_at c (a @ c # b) = (a, b)"
  by (induction a) (auto simp: cut_at_def)


section \<open>Searching and replacing\<close>

text \<open>\<open>s.replace(a, b)\<close> for a text \<open>a\<close> that is not empty: every occurrence, from the left.\<close>

function py_replace :: "pystr \<Rightarrow> pystr \<Rightarrow> pystr \<Rightarrow> pystr" where
  "py_replace a b s =
     (if s = [] then []
      else if a \<noteq> [] \<and> py_prefix a s then b @ py_replace a b (drop (length a) s)
      else hd s # py_replace a b (tl s))"
  by pat_completeness auto
termination
  by (relation "measure (\<lambda>(a, b, s). length s)") auto

declare py_replace.simps [simp del]

text \<open>\<open>s.index(a)\<close>: where \<open>a\<close> starts for the first time.\<close>

fun py_index :: "pystr \<Rightarrow> pystr \<Rightarrow> nat option" where
  "py_index a [] = (if a = [] then Some 0 else None)"
| "py_index a (c # cs) = (if py_prefix a (c # cs) then Some 0 else map_option Suc (py_index a cs))"

lemma py_index_Some: "py_index a s = Some n \<Longrightarrow> take (length a) (drop n s) = a \<and> n + length a \<le> length s"
proof (induction a s arbitrary: n rule: py_index.induct)
  case (2 a c cs)
  show ?case
  proof (cases "py_prefix a (c # cs)")
    case True
    then obtain b where "c # cs = a @ b" by (auto simp: py_prefix_iff)
    then show ?thesis using 2 True by (metis append_eq_conv_conj drop0 le_add1 length_append option.inject plus_nat.add_0 py_index.simps(2))
  next
    case False
    then obtain m where "py_index a cs = Some m" "n = Suc m" using 2 by auto
    then show ?thesis using 2(1) False by simp
  qed
qed (auto split: if_splits)


lemma py_replace_char: "py_replace [c] b s = concat (map (\<lambda>d. if d = c then b else [d]) s)"
proof (induction s)
  case (Cons d s)
  then show ?case by (subst py_replace.simps) auto
qed (subst py_replace.simps, simp)

lemma concat_map_concat: "concat (map f (concat (map g s))) = concat (map (\<lambda>c. concat (map f (g c))) s)"
  by (induction s) simp_all


section \<open>Splitting at blanks\<close>

abbreviation word :: "pystr \<Rightarrow> bool" where
  "word w \<equiv> w \<noteq> [] \<and> list_all (\<lambda>c. \<not> is_space c) w"

lemma py_split_Nil [simp]: "py_split [] = []"
  by (subst py_split.simps) simp

lemma py_split_space: "is_space c \<Longrightarrow> py_split (c # s) = py_split s"
  by (subst (1 2) py_split.simps) simp

lemma py_split_word:
  assumes "word w" "s = [] \<or> is_space (hd s)"
  shows "py_split (w @ s) = w # py_split s"
proof -
  obtain c v where w: "w = c # v" "\<not> is_space c" using assms(1) by (cases w) auto
  have "dropWhile is_space (w @ s) = w @ s" by (simp add: w)
  moreover have "takeWhile (\<lambda>c. \<not> is_space c) (w @ s) = w" "dropWhile (\<lambda>c. \<not> is_space c) (w @ s) = s"
    using assms by (cases s; simp add: list_all_iff takeWhile_append dropWhile_append)+
  ultimately show ?thesis by (subst py_split.simps) (simp add: w(1))
qed

lemma py_split_join: "list_all word ws \<Longrightarrow> py_split (py_join [32] ws) = ws"
proof (induction "[32] :: pystr" ws rule: py_join.induct)
  case (2 w)
  then show ?case using py_split_word [of w "[]"] by simp
next
  case (3 w v ws)
  then show ?case using py_split_word [of w "32 # py_join [32] (v # ws)"] py_split_space [of 32] by (simp add: is_space_def)
qed simp


section \<open>Numbers as words\<close>

lemma ascii_digit_not_space: "48 \<le> c \<Longrightarrow> c \<le> 57 \<Longrightarrow> \<not> is_space c"
  by (simp add: is_space_def)

lemma word_digits_of_nat: "word (digits_of_nat n)"
  using digits_of_nat_ascii [of n] by (auto simp: digits_of_nat_not_Nil list_all_iff ascii_digit_not_space)

lemma word_strip: "word w \<Longrightarrow> py_strip w = w"
  by (intro py_strip_idle) (auto simp: list_all_iff)

lemma int_of_str_digits_of_nat:
  assumes "length (digits_of_nat n) \<le> 4300"
  shows "int_of_str (digits_of_nat n) = Some (int n)"
proof -
  have "int_digits (digits_of_nat n) = Some (digits_of_nat n)"
    using nat_of_digits_of_nat by (simp add: int_digits_digits digits_of_nat_not_Nil)
  moreover have "48 \<le> hd (digits_of_nat n)"
    using digits_of_nat_ascii [of n] digits_of_nat_not_Nil by simp
  ultimately show ?thesis
    using assms nat_of_digits_of_nat [of n]
    by (simp add: int_of_str_def word_strip [OF word_digits_of_nat] Let_def)
qed

end
