(* ===== verification/Local_Load.thy ===== *)
theory Local_Load
  imports Graph_Store Py_Lines
begin

text \<open>
  \<open>scripts/neo4j_load_phase1_local.py\<close>: reading the credentials, splitting a Cypher file, the wipe, the constraints
  of \<open>infra/neo4j/constraints.cypher\<close>, and the loading of the fixtures through the upsert templates. The files and the
  name Neo4j reads out of a schema statement are parameters.
\<close>

section \<open>The credentials file\<close>

text \<open>One line of \<open>load_dotenv\<close>.\<close>

definition dotenv_line :: "pystr \<Rightarrow> (pystr \<times> pystr) option" where
  "dotenv_line raw =
     (let line = py_strip raw in
      if line = [] \<or> hd line = 35 \<or> 61 \<notin> set line then None
      else let (k, v) = cut_at 61 line; key = py_strip k; val = py_strip v in
        Some (key, if length val \<ge> 2 \<and> hd val = last val \<and> hd val \<in> {39, 34} then butlast (tl val) else val))"

definition load_dotenv :: "pystr option \<Rightarrow> pyerr + pystr dict" where
  "load_dotenv file =
     (case file of
        None \<Rightarrow> Inl FileNotFoundError
      | Some s \<Rightarrow> Inr (foldl (\<lambda>d raw. case dotenv_line raw of None \<Rightarrow> d | Some (k, v) \<Rightarrow> dset d k v) [] (splitlines s)))"

text \<open>A key and a value as a line, the value in double quotes.\<close>

definition dotenv_entry :: "pystr \<times> pystr \<Rightarrow> pystr" where
  "dotenv_entry kv = fst kv @ 61 # 34 # snd kv @ [34]"

definition dotenv_key :: "pystr \<Rightarrow> bool" where
  "dotenv_key k \<longleftrightarrow> k \<noteq> [] \<and> \<not> is_space (hd k) \<and> \<not> is_space (last k) \<and> hd k \<noteq> 35 \<and> 61 \<notin> set k \<and> one_line k"

lemma dotenv_line_entry:
  assumes "dotenv_key k" shows "dotenv_line (dotenv_entry (k, v)) = Some (k, v)"
proof -
  have s: "py_strip (k @ 61 # 34 # v @ [34]) = k @ 61 # 34 # v @ [34]"
    using assms by (intro py_strip_idle) (auto simp: dotenv_key_def is_space_def)
  have k: "py_strip k = k" using assms by (intro py_strip_idle) (auto simp: dotenv_key_def)
  have v: "py_strip (34 # v @ [34]) = 34 # v @ [34]" by (intro py_strip_idle) (auto simp: is_space_def)
  have c: "cut_at 61 (k @ 61 # 34 # v @ [34]) = (k, 34 # v @ [34])"
    using assms by (intro cut_at_append) (simp add: dotenv_key_def)
  show ?thesis using assms by (simp add: dotenv_line_def dotenv_entry_def s k v c Let_def dotenv_key_def)
qed

lemma load_dotenv_entries:
  assumes "list_all (\<lambda>(k, v). dotenv_key k \<and> one_line v) kvs"
  shows "load_dotenv (Some (lines_text (map dotenv_entry kvs))) = Inr (dupdate [] kvs)"
proof -
  have "list_all one_line (map dotenv_entry kvs)"
    using assms by (induction kvs) (auto simp: dotenv_entry_def dotenv_key_def line_end_def [of 61] line_end_def [of 34])
  then have "splitlines (lines_text (map dotenv_entry kvs)) = map dotenv_entry kvs" by (rule splitlines_lines_text)
  moreover have "foldl (\<lambda>d raw. case dotenv_line raw of None \<Rightarrow> d | Some (k, v) \<Rightarrow> dset d k v) d (map dotenv_entry kvs) = dupdate d kvs" for d
    using assms by (induction kvs arbitrary: d) (auto simp: dupdate_def dotenv_line_entry)
  ultimately show ?thesis by (simp add: load_dotenv_def)
qed

section \<open>Statements of a Cypher file\<close>

text \<open>\<open>s.rstrip(";")\<close>, and the text a list of lines stands for.\<close>

definition rstrip_semi :: "pystr \<Rightarrow> pystr" where
  "rstrip_semi s = rev (dropWhile (\<lambda>c. c = 59) (rev s))"

definition stmt_text :: "pystr list \<Rightarrow> pystr" where
  "stmt_text buf = py_strip (rstrip_semi (py_strip (py_join [10] buf)))"

definition emit :: "pystr list \<Rightarrow> pystr list" where
  "emit buf = (if stmt_text buf = [] then [] else [stmt_text buf])"

text \<open>A line that closes a statement.\<close>

definition closing :: "pystr \<Rightarrow> bool" where
  "closing raw \<longleftrightarrow> (let s = py_strip raw in \<not> (py_prefix (lit ''//'') s \<or> s = []) \<and> last s = 59)"

fun split_loop :: "pystr list \<Rightarrow> pystr list \<Rightarrow> pystr list" where
  "split_loop buf [] = emit buf"
| "split_loop buf (raw # ls) = (if closing raw then emit (buf @ [raw]) @ split_loop [] ls else split_loop (buf @ [raw]) ls)"

definition split_statements :: "pystr \<Rightarrow> pystr list" where
  "split_statements s = split_loop [] (splitlines s)"

lemma split_loop_block:
  assumes "list_all (\<lambda>l. \<not> closing l) ls" "closing l"
  shows "split_loop buf (ls @ l # rest) = emit (buf @ ls @ [l]) @ split_loop [] rest"
  using assms by (induction ls arbitrary: buf) auto

text \<open>A block of a file: lines that close nothing, then one that does.\<close>

definition block :: "pystr list \<Rightarrow> bool" where
  "block b \<longleftrightarrow> b \<noteq> [] \<and> list_all (\<lambda>l. \<not> closing l) (butlast b) \<and> closing (last b)"

lemma split_loop_blocks: "list_all block bs \<Longrightarrow> split_loop [] (concat bs) = concat (map emit bs)"
proof (induction bs)
  case Nil
  then show ?case by (simp add: emit_def stmt_text_def rstrip_semi_def)
next
  case (Cons b bs)
  then have "b = butlast b @ [last b]" "list_all (\<lambda>l. \<not> closing l) (butlast b)" "closing (last b)"
    by (simp_all add: block_def)
  then show ?case using split_loop_block [of "butlast b" "last b" "[]" "concat bs"] Cons
    by (metis (no_types, lifting) append_Cons append_Nil append_assoc concat.simps(2) list.map(2) list.pred_inject(2))
qed

lemma split_statements_blocks:
  assumes "list_all block bs" "list_all (list_all one_line) bs"
  shows "split_statements (lines_text (concat bs)) = concat (map emit bs)"
proof -
  have "list_all one_line (concat bs)" using assms(2) by (simp add: list_all_iff)
  then show ?thesis using assms(1) by (simp add: split_statements_def splitlines_lines_text split_loop_blocks)
qed

section \<open>The constraints\<close>

text \<open>One statement of \<open>constraints.cypher\<close>: a name, and the label and property it makes unique, with the variable it uses.\<close>

record con =
  con_name :: string
  con_var :: string
  con_label :: string
  con_key :: string

definition con_of :: "string \<Rightarrow> string \<Rightarrow> string \<Rightarrow> string \<Rightarrow> con" where
  "con_of n v l k = \<lparr>con_name = n, con_var = v, con_label = l, con_key = k\<rparr>"

definition CONSTRAINTS :: "con list" where
  "CONSTRAINTS =
    [con_of ''person_id_unique'' ''p'' ''Person'' ''person_id'',
     con_of ''party_id_unique'' ''p'' ''Party'' ''party_id'',
     con_of ''office_id_unique'' ''o'' ''Office'' ''office_id'',
     con_of ''committee_id_unique'' ''c'' ''Committee'' ''committee_id'',
     con_of ''bill_id_unique'' ''b'' ''Bill'' ''bill_id'',
     con_of ''vote_event_id_unique'' ''v'' ''VoteEvent'' ''vote_event_id'',
     con_of ''attendance_event_id_unique'' ''a'' ''AttendanceEvent'' ''attendance_event_id'',
     con_of ''membership_term_id_unique'' ''m'' ''MembershipTerm'' ''membership_term_id'',
     con_of ''source_document_id_unique'' ''s'' ''SourceDocument'' ''document_id'',
     con_of ''evidence_span_id_unique'' ''e'' ''EvidenceSpan'' ''span_id'',
     con_of ''atomic_claim_id_unique'' ''c'' ''AtomicClaim'' ''claim_id'',
     con_of ''verdict_id_unique'' ''v'' ''Verdict'' ''verdict_id'',
     con_of ''declaration_id_unique'' ''d'' ''Declaration'' ''declaration_id'',
     con_of ''position_term_id_unique'' ''p'' ''PositionTerm'' ''position_term_id'',
     con_of ''government_decision_id_unique'' ''g'' ''GovernmentDecision'' ''government_decision_id'',
     con_of ''election_result_id_unique'' ''e'' ''ElectionResult'' ''election_result_id'']"

definition con_lines :: "con \<Rightarrow> pystr list" where
  "con_lines c =
     [lit ''CREATE CONSTRAINT '' @ lit (con_name c) @ lit '' IF NOT EXISTS'',
      lit ''FOR ('' @ lit (con_var c) @ lit '':'' @ lit (con_label c) @ lit '') REQUIRE '' @ lit (con_var c) @ lit ''.'' @
      lit (con_key c) @ lit '' IS UNIQUE;'']"

text \<open>In the file each statement comes after blank lines and comments.\<close>

definition comment_line :: "pystr \<Rightarrow> bool" where
  "comment_line l \<longleftrightarrow> one_line l \<and> (py_strip l = [] \<or> py_prefix (lit ''//'') (py_strip l))"

definition con_block :: "pystr list \<Rightarrow> con \<Rightarrow> bool" where
  "con_block b c \<longleftrightarrow> (\<exists>cs. b = cs @ con_lines c \<and> list_all comment_line cs)"

section \<open>The database\<close>

text \<open>The graph with the names of its constraints and of its indexes; a constraint brings an index of its name.\<close>

record local_db =
  ld_graph :: graph
  ld_constraints :: "pystr list"
  ld_indexes :: "pystr list"

text \<open>\<open>DROP ... `name` IF EXISTS\<close>: a back quote in the name breaks the statement.\<close>

definition drop_name :: "pystr \<Rightarrow> local_db \<Rightarrow> pyerr + local_db" where
  "drop_name n db =
     (if 96 \<in> set n then Inl DatabaseError
      else Inr (db\<lparr>ld_constraints := removeAll n (ld_constraints db), ld_indexes := removeAll n (ld_indexes db)\<rparr>))"

fun drop_names :: "pystr list \<Rightarrow> local_db \<Rightarrow> local_db \<times> pyerr option" where
  "drop_names [] db = (db, None)"
| "drop_names (n # ns) db = (case drop_name n db of Inl e \<Rightarrow> (db, Some e) | Inr db' \<Rightarrow> drop_names ns db')"

text \<open>
  \<open>wipe\<close>. The deletion leaves no node, so that the counts read back after it are 0; the names read back after the two
  loops are those that are left. A driver error within these statements is not modelled: it ends the run as well.
\<close>

definition wipe :: "local_db \<Rightarrow> local_db \<times> pyerr option" where
  "wipe db =
     (case drop_names (ld_constraints db) (db\<lparr>ld_graph := empty_graph\<rparr>) of
        (db1, Some e) \<Rightarrow> (db1, Some e)
      | (db1, None) \<Rightarrow>
          (case drop_names (ld_indexes db1) db1 of
             (db2, Some e) \<Rightarrow> (db2, Some e)
           | (db2, None) \<Rightarrow> (db2, if ld_constraints db2 = [] \<and> ld_indexes db2 = [] then None else Some RuntimeError)))"

text \<open>\<open>ddl\<close> stands for the name of the constraint that Neo4j reads out of a statement, if it accepts the statement.\<close>

fun run_ddl :: "(pystr \<Rightarrow> pystr option) \<Rightarrow> pystr list \<Rightarrow> local_db \<Rightarrow> local_db \<times> pyerr option" where
  "run_ddl ddl [] db = (db, None)"
| "run_ddl ddl (s # ss) db =
     (case ddl s of
        None \<Rightarrow> (db, Some DatabaseError)
      | Some n \<Rightarrow> run_ddl ddl ss
          (if n \<in> set (ld_constraints db) then db
           else db\<lparr>ld_constraints := ld_constraints db @ [n], ld_indexes := ld_indexes db @ [n]\<rparr>))"

definition apply_constraints :: "(pystr \<Rightarrow> pystr option) \<Rightarrow> pystr \<Rightarrow> local_db \<Rightarrow> local_db \<times> pyerr option" where
  "apply_constraints ddl file db =
     (case run_ddl ddl (split_statements file) db of
        (db', Some e) \<Rightarrow> (db', Some e)
      | (db', None) \<Rightarrow> (db', if length (ld_constraints db') = 12 then None else Some RuntimeError))"

section \<open>Fixtures\<close>

definition need :: "pyval dict \<Rightarrow> string \<Rightarrow> pyerr + pyval" where
  "need d k = (case dget d (lit k) of None \<Rightarrow> Inl KeyError | Some v \<Rightarrow> Inr v)"

text \<open>A builder that reads its key and then, with \<open>get\<close>, properties of the same names.\<close>

definition keyed :: "string \<Rightarrow> string list \<Rightarrow> pyval dict \<Rightarrow> pyerr + params" where
  "keyed key names d = bind_err (need d key) (\<lambda>v. Inr ((key, v) # map (\<lambda>n. (n, vget d (lit n))) names))"

text \<open>\<open>jd\<close> is \<open>json.dumps\<close>.\<close>

definition person_params :: "(pyval \<Rightarrow> pystr) \<Rightarrow> pyval dict \<Rightarrow> pyerr + params" where
  "person_params jd p =
     bind_err (keyed ''person_id'' [''canonical_name'', ''hebrew_name'', ''english_name''] p) (\<lambda>ps. Inr (ps @
       [(''external_ids'', if truthy (vget p (lit ''external_ids'')) then PStr (jd (vget p (lit ''external_ids''))) else PNone),
        (''source_tier'', vget p (lit ''source_tier''))]))"

definition party_params :: "pyval dict \<Rightarrow> pyerr + params" where
  "party_params = keyed ''party_id'' [''canonical_name'', ''hebrew_name'', ''english_name'', ''abbreviation'']"

definition office_params :: "pyval dict \<Rightarrow> pyerr + params" where
  "office_params = keyed ''office_id'' [''canonical_name'', ''office_type'', ''scope'']"

definition committee_params :: "pyval dict \<Rightarrow> pyerr + params" where
  "committee_params = keyed ''committee_id'' [''canonical_name'', ''hebrew_name'']"

definition bill_params :: "pyval dict \<Rightarrow> pyerr + params" where
  "bill_params = keyed ''bill_id'' [''title'', ''knesset_number'', ''status'']"

definition vote_event_params :: "pyval dict \<Rightarrow> pyerr + params" where
  "vote_event_params = keyed ''vote_event_id'' [''bill_id'', ''occurred_at'', ''vote_type'']"

definition attendance_event_params :: "pyval dict \<Rightarrow> pyerr + params" where
  "attendance_event_params = keyed ''attendance_event_id'' [''committee_id'', ''occurred_at'']"

definition membership_term_params :: "pyval dict \<Rightarrow> pyerr + params" where
  "membership_term_params = keyed ''membership_term_id'' [''person_id'', ''org_id'', ''org_type'', ''valid_from'', ''valid_to'']"

definition source_document_params :: "pyval dict \<Rightarrow> pyerr + params" where
  "source_document_params = keyed ''document_id''
     [''source_family'', ''source_tier'', ''source_type'', ''url'', ''archive_uri'', ''content_sha256'', ''captured_at'',
      ''language'', ''title'']"

definition evidence_span_params :: "pyval dict \<Rightarrow> pyerr + params" where
  "evidence_span_params = keyed ''span_id''
     [''document_id'', ''source_tier'', ''source_type'', ''url'', ''archive_uri'', ''text'', ''char_start'', ''char_end'',
      ''captured_at'']"

text \<open>\<open>x.get(key) or {}\<close>, read by several \<open>get\<close>: each parameter with the key it is read from.\<close>

definition sub_params :: "string \<Rightarrow> (string \<times> string) list \<Rightarrow> pyval dict \<Rightarrow> pyerr + params" where
  "sub_params part ks d =
     (case py_or (vget d (lit part)) (PDict []) of
        PDict r \<Rightarrow> Inr (map (\<lambda>(p, k). (p, vget r (lit k))) ks)
      | _ \<Rightarrow> Inl AttributeError)"

definition atomic_claim_params :: "pyval dict \<Rightarrow> pyerr + params" where
  "atomic_claim_params c =
     bind_err (keyed ''claim_id'' [''raw_text'', ''normalized_text'', ''claim_type'', ''speaker_person_id'', ''target_person_id'',
        ''bill_id'', ''committee_id'', ''office_id'', ''vote_value'', ''party_id'', ''expected_seats'', ''expect_passed_threshold'',
        ''checkability'', ''created_at''] c) (\<lambda>ps.
     bind_err (sub_params ''time_scope'' [(''time_scope_start'', ''start''), (''time_scope_end'', ''end''),
        (''time_scope_granularity'', ''granularity'')] c) (\<lambda>ts. Inr (ps @ ts)))"

definition verdict_params :: "pyval dict \<Rightarrow> pyerr + params" where
  "verdict_params v =
     bind_err (keyed ''verdict_id'' [''claim_id'', ''status'', ''summary'', ''needs_human_review'', ''model_version'',
        ''ruleset_version'', ''created_at''] v) (\<lambda>ps.
     bind_err (sub_params ''confidence'' [(''confidence_overall'', ''overall''),
        (''confidence_source_authority'', ''source_authority''), (''confidence_directness'', ''directness''),
        (''confidence_temporal_alignment'', ''temporal_alignment''), (''confidence_entity_resolution'', ''entity_resolution''),
        (''confidence_cross_source_consistency'', ''cross_source_consistency'')] v) (\<lambda>cf. Inr (ps @ cf)))"


section \<open>Loading\<close>

text \<open>
  The four templates only this script uses. Their \<open>created_at\<close>, like that of every template, is left out of the graph;
  but a claim or a verdict takes it from a parameter when it is created, so \<open>run_file\<close> rejects one that is no date.
\<close>

definition source_document_upsert :: node_template where
  "source_document_upsert = \<lparr>nt_label = ''SourceDocument'', nt_key = ''document_id'',
     nt_props = map plain [''source_family'', ''source_tier'', ''source_type'', ''url'', ''archive_uri'', ''content_sha256''] @
       [dated ''captured_at'', plain ''language'', plain ''title'']\<rparr>"

definition evidence_span_upsert :: node_template where
  "evidence_span_upsert = \<lparr>nt_label = ''EvidenceSpan'', nt_key = ''span_id'',
     nt_props = map plain [''document_id'', ''source_tier'', ''source_type'', ''url'', ''archive_uri'', ''text'', ''char_start'',
       ''char_end''] @ [dated ''captured_at'']\<rparr>"

definition atomic_claim_upsert :: node_template where
  "atomic_claim_upsert = \<lparr>nt_label = ''AtomicClaim'', nt_key = ''claim_id'',
     nt_props = map plain [''raw_text'', ''normalized_text'', ''claim_type'', ''speaker_person_id'', ''target_person_id'', ''bill_id'',
       ''committee_id'', ''office_id'', ''vote_value''] @ [dated ''time_scope_start'', dated ''time_scope_end'',
       plain ''time_scope_granularity'', plain ''checkability'']\<rparr>"

definition verdict_upsert :: node_template where
  "verdict_upsert = \<lparr>nt_label = ''Verdict'', nt_key = ''verdict_id'',
     nt_props = map plain [''claim_id'', ''status'', ''confidence_overall'', ''confidence_source_authority'', ''confidence_directness'',
       ''confidence_temporal_alignment'', ''confidence_entity_resolution'', ''confidence_cross_source_consistency'', ''summary'',
       ''needs_human_review'', ''model_version'', ''ruleset_version'']\<rparr>"

definition run_file :: "(pyval \<Rightarrow> pyval option) \<Rightarrow> node_template \<Rightarrow> params \<Rightarrow> graph \<Rightarrow> pyerr + graph" where
  "run_file dtm t ps g =
     (case node_at (nt_label t, nt_key t) ps of
        Some n \<Rightarrow> if g_nodes g n = None \<and> \<not> date_ok dtm (param ps ''created_at'') then Inl DatabaseError
          else run_upsert dtm (NodeT t) ps g
      | None \<Rightarrow> run_upsert dtm (NodeT t) ps g)"

type_synonym loader = "string \<times> node_template \<times> (pyval dict \<Rightarrow> pyerr + params)"

definition NODE_LOADERS :: "(pyval \<Rightarrow> pystr) \<Rightarrow> loader list" where
  "NODE_LOADERS jd =
    [(''person'', person_upsert, person_params jd), (''party'', party_upsert, party_params),
     (''office'', office_upsert, office_params), (''committee'', committee_upsert, committee_params),
     (''bill'', bill_upsert, bill_params), (''vote_event'', vote_event_upsert, vote_event_params),
     (''attendance_event'', attendance_event_upsert, attendance_event_params),
     (''membership_term'', membership_term_upsert, membership_term_params),
     (''source_document'', source_document_upsert, source_document_params),
     (''evidence_span'', evidence_span_upsert, evidence_span_params),
     (''atomic_claim'', atomic_claim_upsert, atomic_claim_params), (''verdict'', verdict_upsert, verdict_params)]"

fun load_nodes :: "(pyval \<Rightarrow> pyval option) \<Rightarrow> (string \<Rightarrow> pyval dict) \<Rightarrow> loader list \<Rightarrow> graph \<Rightarrow> graph \<times> pyerr option" where
  "load_nodes dtm fx [] g = (g, None)"
| "load_nodes dtm fx ((key, t, build) # ls) g =
     (case bind_err (build (fx key)) (\<lambda>ps. run_file dtm t ps g) of
        Inl e \<Rightarrow> (g, Some e)
      | Inr g' \<Rightarrow> load_nodes dtm fx ls g')"

text \<open>A relationship: its template, the parameters read from fixtures, and the others.\<close>

type_synonym rel_loader = "edge_template \<times> (string \<times> string \<times> string) list \<times> params"

definition has_span :: edge_template where
  "has_span = plain_edge ''HAS_SPAN'' (''SourceDocument'', ''document_id'') (''EvidenceSpan'', ''span_id'')"

definition about_person :: edge_template where
  "about_person = plain_edge ''ABOUT_PERSON'' (''AtomicClaim'', ''claim_id'') (''Person'', ''person_id'')"

definition about_bill :: edge_template where
  "about_bill = plain_edge ''ABOUT_BILL'' (''AtomicClaim'', ''claim_id'') (''Bill'', ''bill_id'')"

definition supported_by :: edge_template where
  "supported_by = plain_edge ''SUPPORTED_BY'' (''AtomicClaim'', ''claim_id'') (''EvidenceSpan'', ''span_id'')"

definition contradicted_by :: edge_template where
  "contradicted_by = plain_edge ''CONTRADICTED_BY'' (''AtomicClaim'', ''claim_id'') (''EvidenceSpan'', ''span_id'')"

definition evaluates :: edge_template where
  "evaluates = plain_edge ''EVALUATES'' (''Verdict'', ''verdict_id'') (''AtomicClaim'', ''claim_id'')"

definition term_dates :: "(string \<times> string \<times> string) list" where
  "term_dates = [(''valid_from'', ''membership_term'', ''valid_from''), (''valid_to'', ''membership_term'', ''valid_to'')]"

text \<open>A parameter that a fixture has under the same name.\<close>

definition own :: "string \<Rightarrow> string \<Rightarrow> string \<times> string \<times> string" where
  "own fixture key = (key, fixture, key)"

definition REL_LOADERS :: "rel_loader list" where
  "REL_LOADERS =
    [(held_office, own ''person'' ''person_id'' # own ''office'' ''office_id'' # term_dates, []),
     (member_of, own ''person'' ''person_id'' # own ''party'' ''party_id'' # term_dates, []),
     (member_of_committee, own ''person'' ''person_id'' # own ''committee'' ''committee_id'' # term_dates, []),
     (sponsored, [own ''person'' ''person_id'', own ''bill'' ''bill_id''], []),
     (cast_vote, [own ''person'' ''person_id'', own ''vote_event'' ''vote_event_id''], [(''value'', PLit ''for'')]),
     (has_span, [own ''source_document'' ''document_id'', own ''evidence_span'' ''span_id''], []),
     (about_person, [own ''atomic_claim'' ''claim_id'', own ''person'' ''person_id''], []),
     (about_bill, [own ''atomic_claim'' ''claim_id'', own ''bill'' ''bill_id''], []),
     (supported_by, [own ''atomic_claim'' ''claim_id'', own ''evidence_span'' ''span_id''], []),
     (contradicted_by, [own ''atomic_claim'' ''claim_id'', own ''evidence_span'' ''span_id''], []),
     (evaluates, [own ''verdict'' ''verdict_id'', own ''atomic_claim'' ''claim_id''], [])]"

text \<open>All parameters are read before the first statement runs.\<close>

definition rel_call :: "(string \<Rightarrow> pyval dict) \<Rightarrow> rel_loader \<Rightarrow> pyerr + call option" where
  "rel_call fx r =
     (case r of (t, ks, extra) \<Rightarrow>
        bind_err (collect (\<lambda>(p, f, k). bind_err (need (fx f) k) (\<lambda>v. Inr (Some (p, v)))) ks) (\<lambda>ps.
          Inr (Some (EdgeT t, ps @ extra))))"

definition load_relationships :: "(pyval \<Rightarrow> pyval option) \<Rightarrow> (string \<Rightarrow> pyval dict) \<Rightarrow> graph \<Rightarrow> graph \<times> pyerr option" where
  "load_relationships dtm fx g =
     (case collect (rel_call fx) REL_LOADERS of Inl e \<Rightarrow> (g, Some e) | Inr cs \<Rightarrow> run_calls dtm cs g)"

definition EXPECTED_LABELS :: "string list" where
  "EXPECTED_LABELS = [''Person'', ''Party'', ''Office'', ''Committee'', ''Bill'', ''VoteEvent'', ''AttendanceEvent'',
     ''MembershipTerm'', ''SourceDocument'', ''EvidenceSpan'', ''AtomicClaim'', ''Verdict'']"

definition EXPECTED_RELS :: "string list" where
  "EXPECTED_RELS = [''ABOUT_BILL'', ''ABOUT_PERSON'', ''CAST_VOTE'', ''CONTRADICTED_BY'', ''EVALUATES'', ''HAS_SPAN'',
     ''HELD_OFFICE'', ''MEMBER_OF'', ''MEMBER_OF_COMMITTEE'', ''SPONSORED'', ''SUPPORTED_BY'']"

text \<open>\<open>verify\<close>: every expected label and relationship type occurs.\<close>

definition verify_load :: "graph \<Rightarrow> pyerr option" where
  "verify_load g =
     (if (\<forall>l \<in> set EXPECTED_LABELS. \<exists>k. g_nodes g (l, k) \<noteq> None) \<and> (\<forall>t \<in> set EXPECTED_RELS. \<exists>a b. g_edges g (t, a, b) \<noteq> None)
      then None else Some RuntimeError)"

section \<open>The script\<close>

text \<open>The steps on the open session.\<close>

definition session_steps ::
    "(pystr \<Rightarrow> pystr option) \<Rightarrow> (pyval \<Rightarrow> pyval option) \<Rightarrow> (pyval \<Rightarrow> pystr) \<Rightarrow> pystr \<Rightarrow> (string \<Rightarrow> pyval dict) \<Rightarrow> local_db \<Rightarrow>
     local_db \<times> pyerr option" where
  "session_steps ddl dtm jd file fx db =
     (case wipe db of (db1, Some e) \<Rightarrow> (db1, Some e) | (db1, None) \<Rightarrow>
      case apply_constraints ddl file db1 of (db2, Some e) \<Rightarrow> (db2, Some e) | (db2, None) \<Rightarrow>
      case load_nodes dtm fx (NODE_LOADERS jd) (ld_graph db2) of (g, Some e) \<Rightarrow> (db2\<lparr>ld_graph := g\<rparr>, Some e) | (g, None) \<Rightarrow>
      case load_relationships dtm fx g of (g', Some e) \<Rightarrow> (db2\<lparr>ld_graph := g'\<rparr>, Some e) | (g', None) \<Rightarrow>
        (db2\<lparr>ld_graph := g'\<rparr>, verify_load g'))"

text \<open>
  \<open>main\<close>: the credentials, the fixtures, the connection (\<open>unreachable\<close> is the error of \<open>verify_connectivity\<close>, if any),
  and the steps; the result is the exit code.
\<close>

definition local_main ::
    "pystr option \<Rightarrow> (string \<Rightarrow> pyerr + pyval dict) \<Rightarrow> pyerr option \<Rightarrow> (pystr \<Rightarrow> pystr option) \<Rightarrow> (pyval \<Rightarrow> pyval option) \<Rightarrow>
     (pyval \<Rightarrow> pystr) \<Rightarrow> pystr \<Rightarrow> local_db \<Rightarrow> local_db \<times> (pyerr + nat)" where
  "local_main env_file fixture unreachable ddl dtm jd file db =
     (case load_dotenv env_file of Inl e \<Rightarrow> (db, Inl e) | Inr env \<Rightarrow>
      if \<exists>k \<in> {''G_DB_CONNECTION_STRING'', ''G_DB_USER'', ''G_DB_PASSWORD''}. dget env (lit k) = None \<or> dget env (lit k) = Some []
      then (db, Inr 2)
      else case collect (\<lambda>(key, _). bind_err (fixture key) (\<lambda>d. Inr (Some (key, d)))) (NODE_LOADERS jd) of Inl e \<Rightarrow> (db, Inl e) | Inr fx \<Rightarrow>
      case unreachable of Some e \<Rightarrow> (db, Inl e) | None \<Rightarrow>
      case session_steps ddl dtm jd file (\<lambda>key. case map_of fx key of None \<Rightarrow> [] | Some d \<Rightarrow> d) db of
        (db', Some e) \<Rightarrow> (db', Inl e)
      | (db', None) \<Rightarrow> (db', Inr 0))"


section \<open>The wipe\<close>

lemma drop_names_all:
  assumes "list_all (\<lambda>n. 96 \<notin> set n) ns"
  shows "drop_names ns db = (db\<lparr>ld_constraints := filter (\<lambda>n. n \<notin> set ns) (ld_constraints db),
    ld_indexes := filter (\<lambda>n. n \<notin> set ns) (ld_indexes db)\<rparr>, None)"
  using assms
proof (induction ns arbitrary: db)
  case (Cons n ns)
  have "filter (\<lambda>m. m \<notin> set ns) (removeAll n xs) = filter (\<lambda>m. m \<notin> set (n # ns)) xs" for xs
    by (induction xs) auto
  then show ?case using Cons by (simp add: drop_name_def)
qed simp

lemma wipe_empties:
  assumes "list_all (\<lambda>n. 96 \<notin> set n) (ld_constraints db)" "list_all (\<lambda>n. 96 \<notin> set n) (ld_indexes db)"
  shows "wipe db = (\<lparr>ld_graph = empty_graph, ld_constraints = [], ld_indexes = []\<rparr>, None)"
proof -
  have "filter (\<lambda>n. n \<notin> set xs) xs = []" for xs :: "pystr list" by (simp add: filter_empty_conv)
  moreover have "list_all (\<lambda>n. 96 \<notin> set n) (filter P (ld_indexes db))" for P
    using assms(2) by (simp add: list_all_iff)
  ultimately show ?thesis
    by (simp add: wipe_def drop_names_all [OF assms(1)] drop_names_all filter_empty_conv)
qed

section \<open>The constraints file\<close>

lemma closing_iff:
  assumes "l \<noteq> []" "\<not> is_space (hd l)" "\<not> is_space (last l)" "hd l \<noteq> 47"
  shows "closing l \<longleftrightarrow> last l = 59"
  using assms py_strip_idle [OF assms(1-3)] by (cases l) (auto simp: closing_def Let_def lit_def)

lemma CONSTRAINTS_one_line:
  "list_all (\<lambda>c. one_line (lit (con_name c)) \<and> one_line (lit (con_var c)) \<and> one_line (lit (con_label c)) \<and>
     one_line (lit (con_key c))) CONSTRAINTS"
  by (simp add: CONSTRAINTS_def con_of_def lit_def line_end_def)

lemma con_lines_ok:
  "c \<in> set CONSTRAINTS \<Longrightarrow> \<not> closing (hd (con_lines c)) \<and> closing (last (con_lines c)) \<and> list_all one_line (con_lines c)"
proof -
  assume "c \<in> set CONSTRAINTS"
  then have "one_line (lit (con_name c))" "one_line (lit (con_var c))" "one_line (lit (con_label c))" "one_line (lit (con_key c))"
    using CONSTRAINTS_one_line by (auto simp: list_all_iff)
  then have "list_all one_line (con_lines c)"
    by (simp add: con_lines_def) (simp add: lit_def line_end_def)
  moreover have "closing l \<longleftrightarrow> last l = 59" if "l \<in> set (con_lines c)" for l
    using that by (intro closing_iff) (auto simp: con_lines_def lit_def is_space_def)
  moreover have "last (hd (con_lines c)) = 83" "last (last (con_lines c)) = 59" "con_lines c \<noteq> []"
    by (simp_all add: con_lines_def lit_def)
  ultimately show ?thesis by simp
qed

lemma CONSTRAINTS_names: "distinct (map con_name CONSTRAINTS)" "length CONSTRAINTS = 16"
  by (simp_all add: CONSTRAINTS_def con_of_def)

lemma comment_not_closing: "comment_line l \<Longrightarrow> \<not> closing l"
  by (auto simp: comment_line_def closing_def Let_def)

lemma con_block_ok:
  assumes "con_block b c" "c \<in> set CONSTRAINTS"
  shows "block b \<and> list_all one_line b"
proof -
  obtain cs where b: "b = cs @ con_lines c" "list_all comment_line cs" using assms(1) by (auto simp: con_block_def)
  obtain x y where c: "con_lines c = [x, y]" by (simp add: con_lines_def)
  show ?thesis using con_lines_ok [OF assms(2)] b
    by (auto simp: c block_def butlast_append list_all_iff comment_not_closing) (auto simp: comment_line_def list_all_iff)
qed

text \<open>What is neither blank nor a semicolon survives in a statement.\<close>

lemma dropWhile_keeps: "x \<in> set s \<Longrightarrow> \<not> P x \<Longrightarrow> x \<in> set (dropWhile P s)"
  by (induction s) auto

lemma py_strip_keeps: "x \<in> set s \<Longrightarrow> \<not> is_space x \<Longrightarrow> x \<in> set (py_strip s)"
  by (simp add: py_strip_def py_rstrip_def py_lstrip_def dropWhile_keeps)

lemma stmt_text_keeps: "x \<in> set (py_join [10] buf) \<Longrightarrow> \<not> is_space x \<Longrightarrow> x \<noteq> 59 \<Longrightarrow> x \<in> set (stmt_text buf)"
  by (simp add: stmt_text_def rstrip_semi_def py_strip_keeps dropWhile_keeps)

lemma set_py_join: "l \<in> set ls \<Longrightarrow> set l \<subseteq> set (py_join sep ls)"
  by (induction sep ls rule: py_join.induct) auto

lemma con_block_emit:
  assumes "con_block b c" shows "emit b = [stmt_text b]"
proof -
  obtain cs where b: "b = cs @ con_lines c" using assms by (auto simp: con_block_def)
  have "hd (con_lines c) \<in> set b" by (simp add: b con_lines_def)
  moreover have "67 \<in> set (hd (con_lines c))" by (simp add: con_lines_def lit_def)
  ultimately have "67 \<in> set (py_join [10] b)" using set_py_join by blast
  then have "67 \<in> set (stmt_text b)" by (intro stmt_text_keeps) (simp_all add: is_space_def)
  then show ?thesis by (auto simp: emit_def)
qed

lemma split_constraints:
  assumes "list_all2 con_block bs CONSTRAINTS"
  shows "split_statements (lines_text (concat bs)) = map stmt_text bs"
proof -
  have ok: "con_block b c \<and> c \<in> set CONSTRAINTS" if "(b, c) \<in> set (zip bs CONSTRAINTS)" for b c
    using assms that by (auto simp: list_all2_iff dest: set_zip_rightD)
  have mem: "\<exists>c. (b, c) \<in> set (zip bs CONSTRAINTS)" if "b \<in> set bs" for b
    using that assms by (metis list_all2_lengthD in_set_impl_in_set_zip1)
  have "list_all block bs" "list_all (list_all one_line) bs" "map emit bs = map (\<lambda>b. [stmt_text b]) bs"
    using ok mem con_block_ok con_block_emit by (fastforce simp: list_all_iff)+
  then show ?thesis using split_statements_blocks [of bs] by (simp del: map_eq_conv)
qed

lemma run_ddl_all:
  assumes "list_all2 (\<lambda>s n. ddl s = Some n) ss ns" "distinct ns" "set ns \<inter> set (ld_constraints db) = {}"
  shows "run_ddl ddl ss db = (db\<lparr>ld_constraints := ld_constraints db @ ns, ld_indexes := ld_indexes db @ ns\<rparr>, None)"
  using assms by (induction ss ns arbitrary: db rule: list_all2_induct) auto

text \<open>The text Neo4j is given by a file of the shape of \<open>constraints.cypher\<close>, and that it accepts each statement.\<close>

definition constraints_file :: "(pystr \<Rightarrow> pystr option) \<Rightarrow> pystr \<Rightarrow> bool" where
  "constraints_file ddl file \<longleftrightarrow> (\<exists>bs. file = lines_text (concat bs) \<and> list_all2 con_block bs CONSTRAINTS \<and>
     list_all2 (\<lambda>b c. ddl (stmt_text b) = Some (lit (con_name c))) bs CONSTRAINTS)"

lemma apply_constraints_raises:
  assumes "constraints_file ddl file" "ld_constraints db = []"
  shows "apply_constraints ddl file db =
    (db\<lparr>ld_constraints := map (lit \<circ> con_name) CONSTRAINTS, ld_indexes := ld_indexes db @ map (lit \<circ> con_name) CONSTRAINTS\<rparr>, Some RuntimeError)"
proof -
  obtain bs where bs: "file = lines_text (concat bs)" "list_all2 con_block bs CONSTRAINTS"
    "list_all2 (\<lambda>b c. ddl (stmt_text b) = Some (lit (con_name c))) bs CONSTRAINTS"
    using assms(1) by (auto simp: constraints_file_def)
  have "list_all2 (\<lambda>s n. ddl s = Some n) (map stmt_text bs) (map (lit \<circ> con_name) CONSTRAINTS)"
    using bs(3) by (simp add: list.rel_map)
  moreover have "distinct (map (lit \<circ> con_name) CONSTRAINTS)"
    using CONSTRAINTS_names(1) by (simp add: distinct_map inj_on_def)
  ultimately show ?thesis
    using assms(2) CONSTRAINTS_names(2) by (simp add: apply_constraints_def bs(1) split_constraints [OF bs(2)] run_ddl_all)
qed


section \<open>The outcome\<close>

text \<open>\<open>_office_params\<close> lacks two parameters its template mentions, so the third node is always rejected.\<close>

lemma run_file_missing: "p \<in> set (missing_params (NodeT t) ps) \<Longrightarrow> run_file dtm t ps g = Inl DatabaseError"
  by (auto simp: run_file_def split: option.split)

lemma office_rejected: "\<exists>e. bind_err (office_params d) (\<lambda>ps. run_file dtm office_upsert ps g) = Inl e"
proof (cases "need d ''office_id''")
  case (Inr v)
  have "run_file dtm office_upsert [(''office_id'', v), (''canonical_name'', vget d (lit ''canonical_name'')),
      (''office_type'', vget d (lit ''office_type'')), (''scope'', vget d (lit ''scope''))] g = Inl DatabaseError"
    by (rule run_file_missing [of "''hebrew_name''"]) (simp add: missing_params_def office_upsert_def plain_def filled_def)
  then show ?thesis using Inr by (simp add: office_params_def keyed_def)
qed (simp add: office_params_def keyed_def)

lemma nodes_never_loaded: "snd (load_nodes dtm fx (NODE_LOADERS jd) g) \<noteq> None"
proof -
  have "snd (load_nodes dtm fx ((''office'', office_upsert, office_params) # ls) h) \<noteq> None" for ls h
    using office_rejected [of "fx ''office''" dtm h] by auto
  then show ?thesis by (simp add: NODE_LOADERS_def split: sum.splits)
qed

lemma drop_names_graph: "drop_names ns db = (db', r) \<Longrightarrow> ld_graph db' = ld_graph db"
  by (induction ns db rule: drop_names.induct) (auto simp: drop_name_def split: if_splits)

lemma wipe_graph:
  assumes "wipe db = (db', r)"
  shows "ld_graph db' = empty_graph \<and> (r = None \<longrightarrow> ld_constraints db' = [])"
proof -
  obtain db1 r1 where 1: "drop_names (ld_constraints db) (db\<lparr>ld_graph := empty_graph\<rparr>) = (db1, r1)" by fastforce
  obtain db2 r2 where 2: "drop_names (ld_indexes db1) db1 = (db2, r2)" by fastforce
  show ?thesis using assms drop_names_graph [OF 1] drop_names_graph [OF 2]
    by (auto simp: wipe_def 1 2 split: option.splits if_splits)
qed

lemma session_steps_fail:
  assumes "constraints_file ddl file" "session_steps ddl dtm jd file fx db = (db', r)"
  shows "r \<noteq> None \<and> ld_graph db' = empty_graph"
proof -
  obtain db1 r1 where 1: "wipe db = (db1, r1)" by fastforce
  show ?thesis using assms(2) wipe_graph [OF 1] apply_constraints_raises [OF assms(1), of db1]
    by (auto simp: session_steps_def 1 split: option.splits)
qed

text \<open>
  Claim C30. The loader never succeeds: with a constraints file of the shape of \<open>constraints.cypher\<close>, whose sixteen
  statements Neo4j accepts, \<open>main\<close> never returns 0, because it wants exactly twelve constraints. As it wipes the database
  first, a run either stops before it touches it or leaves an empty graph behind.
\<close>

theorem local_load_never_succeeds:
  assumes "constraints_file ddl file"
    and "local_main env_file fixture unreachable ddl dtm jd file db = (db', r)"
  shows "r \<noteq> Inr 0 \<and> (db' = db \<or> ld_graph db' = empty_graph \<and> (\<exists>e. r = Inl e))"
  using assms(2)
  by (auto simp: local_main_def split: sum.splits if_splits option.splits prod.splits dest!: session_steps_fail [OF assms(1)])

text \<open>
  \<open>load_dotenv\<close> reads back what a file of \<open>KEY="value"\<close> lines says: whatever the values contain, quotes, hashes,
  equal signs and blanks included, the dictionary is the one the lines spell, the last line of a key winning.
\<close>

theorem load_dotenv_roundtrip:
  assumes "list_all (\<lambda>(k, v). dotenv_key k \<and> one_line v) kvs"
  shows "load_dotenv (Some (lines_text (map dotenv_entry kvs))) = Inr (dupdate [] kvs)"
  using assms by (rule load_dotenv_entries)

section \<open>Witnesses\<close>

text \<open>A reader of schema statements: the third word.\<close>

definition ll_sample_ddl :: "pystr \<Rightarrow> pystr option" where
  "ll_sample_ddl s = Some (takeWhile (\<lambda>c. c \<noteq> 32) (drop 18 s))"

lemma rstrip_semi_snoc: "s \<noteq> [] \<Longrightarrow> last s \<noteq> 59 \<Longrightarrow> rstrip_semi (s @ [59]) = s"
  by (cases s rule: rev_cases) (simp_all add: rstrip_semi_def)

lemma stmt_text_con:
  "stmt_text (con_lines c) = lit ''CREATE CONSTRAINT '' @ lit (con_name c) @ lit '' IF NOT EXISTS'' @ 10 # lit ''FOR ('' @
     lit (con_var c) @ lit '':'' @ lit (con_label c) @ lit '') REQUIRE '' @ lit (con_var c) @ lit ''.'' @ lit (con_key c) @
     lit '' IS UNIQUE''" (is "_ = ?s")
proof -
  have j: "py_join [10] (con_lines c) = ?s @ [59]" by (simp add: con_lines_def lit_def)
  have i: "py_strip (?s @ [59]) = ?s @ [59]" "py_strip ?s = ?s"
    by (intro py_strip_idle; simp add: lit_def is_space_def)+
  have r: "rstrip_semi (?s @ [59]) = ?s" by (rule rstrip_semi_snoc) (simp_all add: lit_def)
  show ?thesis by (simp only: stmt_text_def j i r)
qed

lemma ll_sample_ddl_con: "c \<in> set CONSTRAINTS \<Longrightarrow> ll_sample_ddl (stmt_text (con_lines c)) = Some (lit (con_name c))"
proof -
  have "list_all (\<lambda>c. list_all (\<lambda>d. d \<noteq> 32) (lit (con_name c))) CONSTRAINTS"
    by (simp add: CONSTRAINTS_def con_of_def lit_def)
  moreover assume "c \<in> set CONSTRAINTS"
  ultimately have "list_all (\<lambda>d. d \<noteq> 32) (lit (con_name c))" by (auto simp: list_all_iff)
  moreover have "drop 18 (lit ''CREATE CONSTRAINT '' @ s) = s" for s by (simp add: lit_def)
  ultimately show ?thesis
    by (simp add: stmt_text_con ll_sample_ddl_def list_all_iff takeWhile_append2) (simp add: lit_def)
qed

definition ll_sample_file :: pystr where
  "ll_sample_file = lines_text (concat (map con_lines CONSTRAINTS))"

lemma ll_sample_constraints_file: "constraints_file ll_sample_ddl ll_sample_file"
proof -
  have "con_block (con_lines c) c" for c by (auto simp: con_block_def intro: exI [of _ "[]"])
  moreover have "list_all2 (\<lambda>b c. ll_sample_ddl (stmt_text b) = Some (lit (con_name c))) (map con_lines CONSTRAINTS) CONSTRAINTS"
    using ll_sample_ddl_con by (simp add: list.rel_map list.rel_refl_strong)
  ultimately show ?thesis
    unfolding constraints_file_def ll_sample_file_def
    by (intro exI [of _ "map con_lines CONSTRAINTS"]) (simp add: list.rel_map list.rel_refl)
qed

text \<open>A database that holds one person, and the fixtures as empty dictionaries.\<close>

definition ll_sample_env :: "(pystr \<times> pystr) list" where
  "ll_sample_env = [(lit ''G_DB_CONNECTION_STRING'', lit ''bolt://localhost:7687''), (lit ''G_DB_USER'', lit ''neo4j''),
     (lit ''G_DB_PASSWORD'', lit ''#p\"=! '')]"

definition ll_sample_db :: local_db where
  "ll_sample_db = \<lparr>ld_graph = \<lparr>g_nodes = (\<lambda>n. if n = (''Person'', lit ''p'') then Some (\<lambda>_. PNone) else None), g_edges = (\<lambda>_. None)\<rparr>,
     ld_constraints = [lit ''mine''], ld_indexes = [lit ''mine'']\<rparr>"

lemma ll_sample_env_ok: "list_all (\<lambda>(k, v). dotenv_key k \<and> one_line v) ll_sample_env"
  by (simp add: ll_sample_env_def dotenv_key_def lit_def is_space_def line_end_def)

lemma ll_sample_main:
  "local_main (Some (lines_text (map dotenv_entry ll_sample_env))) (\<lambda>_. Inr []) None ll_sample_ddl Some (\<lambda>_. []) ll_sample_file ll_sample_db =
     (\<lparr>ld_graph = empty_graph, ld_constraints = map (lit \<circ> con_name) CONSTRAINTS, ld_indexes = map (lit \<circ> con_name) CONSTRAINTS\<rparr>,
      Inl RuntimeError)"
proof -
  have w: "wipe ll_sample_db = (\<lparr>ld_graph = empty_graph, ld_constraints = [], ld_indexes = []\<rparr>, None)"
    by (rule wipe_empties) (simp_all add: ll_sample_db_def lit_def)
  have s: "session_steps ll_sample_ddl Some (\<lambda>_. []) ll_sample_file fx ll_sample_db =
     (\<lparr>ld_graph = empty_graph, ld_constraints = map (lit \<circ> con_name) CONSTRAINTS, ld_indexes = map (lit \<circ> con_name) CONSTRAINTS\<rparr>,
      Some RuntimeError)" for fx
    by (simp add: session_steps_def w apply_constraints_raises [OF ll_sample_constraints_file])
  have e: "load_dotenv (Some (lines_text (map dotenv_entry ll_sample_env))) = Inr ll_sample_env"
    using load_dotenv_entries [OF ll_sample_env_ok] by (simp add: ll_sample_env_def dupdate_def)
  have k: "\<not> (\<exists>k \<in> {''G_DB_CONNECTION_STRING'', ''G_DB_USER'', ''G_DB_PASSWORD''}. dget ll_sample_env (lit k) = None \<or> dget ll_sample_env (lit k) = Some [])"
    by (simp add: ll_sample_env_def)
  show ?thesis unfolding local_main_def e sum.case using k by (simp add: s NODE_LOADERS_def)
qed

theorem local_load_never_succeeds_witness:
  "g_nodes (ld_graph ll_sample_db) (''Person'', lit ''p'') \<noteq> None \<and>
   ld_graph (fst (local_main (Some (lines_text (map dotenv_entry ll_sample_env))) (\<lambda>_. Inr []) None ll_sample_ddl Some (\<lambda>_. []) ll_sample_file
     ll_sample_db)) = empty_graph"
proof -
  have "g_nodes (ld_graph ll_sample_db) (''Person'', lit ''p'') \<noteq> None" by (simp add: ll_sample_db_def)
  then show ?thesis
    using local_load_never_succeeds [OF ll_sample_constraints_file ll_sample_main] by (simp add: ll_sample_main)
qed

end
