(* ===== verification/Ontology.thy ===== *)
theory Ontology
  imports Claim_Slots
begin

text \<open>
  The domain models of \<open>packages/ontology/src/civic_ontology/models/\<close> as their fields, the JSON schemas of
  \<open>data_contracts/jsonschemas/\<close> as their properties, and the drift check between them in \<open>schemas.py\<close>. Reading JSON
  and the validator of Draft 2020-12 are parameters.
\<close>

section \<open>Models\<close>

text \<open>The fields of a model, and whether each is required: it has no default.\<close>

record model =
  md_name :: string
  md_fields :: "(string \<times> bool) list"

definition req :: "string list \<Rightarrow> (string \<times> bool) list" where
  "req names = map (\<lambda>n. (n, True)) names"

definition opt :: "string list \<Rightarrow> (string \<times> bool) list" where
  "opt names = map (\<lambda>n. (n, False)) names"

text \<open>\<open>_model_field_sets\<close>.\<close>

definition all_fields :: "model \<Rightarrow> pystr list" where
  "all_fields m = map (lit \<circ> fst) (md_fields m)"

definition required_fields :: "model \<Rightarrow> pystr list" where
  "required_fields m = map (lit \<circ> fst) (filter snd (md_fields m))"

definition atomic_claim_model :: model where
  "atomic_claim_model = \<lparr>md_name = ''AtomicClaim'', md_fields =
     req [''claim_id'', ''raw_text'', ''normalized_text'', ''claim_type'', ''speaker_person_id'', ''target_person_id'',
       ''bill_id'', ''committee_id'', ''office_id'', ''vote_value'', ''party_id'', ''expected_seats'',
       ''expect_passed_threshold'', ''government_decision_id'', ''time_scope'', ''checkability'', ''created_at'']\<rparr>"

definition attendance_event_model :: model where
  "attendance_event_model = \<lparr>md_name = ''AttendanceEvent'', md_fields =
     req [''attendance_event_id'', ''committee_id'', ''occurred_at'']\<rparr>"

definition attribution_edge_model :: model where
  "attribution_edge_model = \<lparr>md_name = ''AttributionEdge'', md_fields =
     req [''attribution_id'', ''from_declaration_id'', ''to_object_id'', ''to_object_type'', ''relation_type'',
       ''evidence_span_ids'', ''confidence_band'', ''review_status'', ''created_at'']\<rparr>"

definition bill_model :: model where
  "bill_model = \<lparr>md_name = ''Bill'', md_fields =
     req [''bill_id'', ''title'', ''knesset_number''] @ opt [''status'']\<rparr>"

definition committee_model :: model where
  "committee_model = \<lparr>md_name = ''Committee'', md_fields =
     req [''committee_id'', ''canonical_name''] @ opt [''hebrew_name'']\<rparr>"

definition declaration_model :: model where
  "declaration_model = \<lparr>md_name = ''Declaration'', md_fields =
     req [''declaration_id'', ''speaker_person_id'', ''utterance_text'', ''utterance_language'', ''utterance_time'',
       ''source_document_id'', ''source_kind'', ''quoted_span'', ''canonicalized_text'', ''claim_family'',
       ''checkability'', ''derived_atomic_claim_ids'', ''created_at'']\<rparr>"

definition election_result_model :: model where
  "election_result_model = \<lparr>md_name = ''ElectionResult'', md_fields =
     req [''election_result_id'', ''election_date'', ''knesset_number'', ''list_name'', ''ballot_letters'',
       ''list_party_id'', ''votes'', ''seats_won'', ''vote_share'', ''passed_threshold'', ''source_document_id'',
       ''created_at'']\<rparr>"

definition evidence_span_model :: model where
  "evidence_span_model = \<lparr>md_name = ''EvidenceSpan'', md_fields =
     req [''span_id'', ''document_id'', ''source_tier'', ''source_type'', ''url'', ''archive_uri'', ''text'',
       ''char_start'', ''char_end'', ''captured_at'']\<rparr>"

definition government_decision_model :: model where
  "government_decision_model = \<lparr>md_name = ''GovernmentDecision'', md_fields =
     req [''government_decision_id'', ''decision_number'', ''government_number'', ''decision_date'', ''title'',
       ''summary'', ''issuing_body'', ''source_document_id'', ''created_at'']\<rparr>"

definition membership_term_model :: model where
  "membership_term_model = \<lparr>md_name = ''MembershipTerm'', md_fields =
     req [''membership_term_id'', ''person_id'', ''org_id'', ''org_type'', ''valid_from''] @ opt [''valid_to'']\<rparr>"

definition office_model :: model where
  "office_model = \<lparr>md_name = ''Office'', md_fields =
     req [''office_id'', ''canonical_name'', ''office_type''] @ opt [''scope'']\<rparr>"

definition party_model :: model where
  "party_model = \<lparr>md_name = ''Party'', md_fields =
     req [''party_id'', ''canonical_name''] @ opt [''hebrew_name'', ''english_name'', ''abbreviation'']\<rparr>"

definition person_model :: model where
  "person_model = \<lparr>md_name = ''Person'', md_fields =
     req [''person_id'', ''canonical_name''] @ opt [''hebrew_name'', ''english_name'', ''external_ids'', ''source_tier'']\<rparr>"

definition position_term_model :: model where
  "position_term_model = \<lparr>md_name = ''PositionTerm'', md_fields =
     req [''position_term_id'', ''person_id'', ''office_id'', ''appointing_body'', ''valid_from'', ''valid_to'',
       ''is_acting'', ''source_document_id'', ''created_at'']\<rparr>"

definition source_document_model :: model where
  "source_document_model = \<lparr>md_name = ''SourceDocument'', md_fields =
     req [''document_id'', ''source_family'', ''source_tier'', ''source_type'', ''url'', ''archive_uri'',
       ''content_sha256'', ''captured_at'', ''language'', ''title'', ''body'']\<rparr>"

definition verdict_model :: model where
  "verdict_model = \<lparr>md_name = ''Verdict'', md_fields =
     req [''verdict_id'', ''claim_id'', ''status'', ''confidence'', ''summary'', ''needs_human_review'',
       ''model_version'', ''ruleset_version'', ''created_at'']\<rparr>"

definition vote_event_model :: model where
  "vote_event_model = \<lparr>md_name = ''VoteEvent'', md_fields =
     req [''vote_event_id'', ''bill_id'', ''occurred_at''] @ opt [''vote_type'']\<rparr>"

definition time_scope_model :: model where
  "time_scope_model = \<lparr>md_name = ''TimeScope'', md_fields =
     opt [''start'', ''end''] @ req [''granularity'']\<rparr>"

definition confidence_model :: model where
  "confidence_model = \<lparr>md_name = ''Confidence'', md_fields =
     req [''source_authority'', ''directness'', ''temporal_alignment'', ''entity_resolution'',
       ''cross_source_consistency'', ''overall'']\<rparr>"

definition MODEL_TO_SCHEMA :: "(model \<times> string) list" where
  "MODEL_TO_SCHEMA =
    [(atomic_claim_model, ''atomic_claim.schema.json''), (attendance_event_model, ''attendance_event.schema.json''),
     (attribution_edge_model, ''attribution_edge.schema.json''), (bill_model, ''bill.schema.json''),
     (committee_model, ''committee.schema.json''), (declaration_model, ''declaration.schema.json''),
     (election_result_model, ''election_result.schema.json''), (evidence_span_model, ''evidence_span.schema.json''),
     (government_decision_model, ''government_decision.schema.json''), (membership_term_model, ''membership_term.schema.json''),
     (office_model, ''office.schema.json''), (party_model, ''party.schema.json''),
     (person_model, ''person.schema.json''), (position_term_model, ''position_term.schema.json''),
     (source_document_model, ''source_document.schema.json''), (verdict_model, ''verdict.schema.json''),
     (vote_event_model, ''vote_event.schema.json'')]"

text \<open>
  What Pydantic asks of the keys of an object with \<open>extra="forbid"\<close>: every required field is there and nothing else than
  fields.
\<close>

definition accepts_keys :: "model \<Rightarrow> pystr list \<Rightarrow> bool" where
  "accepts_keys m ks \<longleftrightarrow> set (required_fields m) \<subseteq> set ks \<and> set ks \<subseteq> set (all_fields m)"

section \<open>The drift check\<close>

text \<open>The files below the schema directory, by relative path in the order of \<open>rglob\<close>; \<open>None\<close> is a file that is no JSON.\<close>

type_synonym schema_dir = "(pystr \<times> pyval option) list"

datatype drift =
    NoSchemaDir
  | InvalidJson pystr
  | InvalidSchema pystr
  | MissingFile string string
  | MissingInSchema string "pystr list"
  | ExtraInSchema string "pystr list"
  | MissingRequired string "pystr list"
  | ExtraRequired string "pyval list"
  | NoTemplate pystr
  | ExtraTemplates "pystr list"

definition is_schema_file :: "pystr \<Rightarrow> bool" where
  "is_schema_file path \<longleftrightarrow> py_prefix (rev (lit ''.schema.json'')) (rev path)"

definition file_drift :: "(pyval \<Rightarrow> bool) \<Rightarrow> schema_dir \<Rightarrow> drift list" where
  "file_drift valid dir = concat (map (\<lambda>(path, c). case c of
       None \<Rightarrow> [InvalidJson path]
     | Some s \<Rightarrow> if valid s then [] else [InvalidSchema path]) (filter (is_schema_file \<circ> fst) dir))"

text \<open>\<open>set((schema.get("properties") or {}).keys())\<close> and \<open>set(schema.get("required") or [])\<close>.\<close>

definition schema_props :: "pyval \<Rightarrow> pyerr + pystr list" where
  "schema_props s = bind_err (get_default s ''properties'' PNone) (\<lambda>v.
     case py_or v (PDict []) of PDict d \<Rightarrow> Inr (map fst d) | _ \<Rightarrow> Inl AttributeError)"

definition schema_required :: "pyval \<Rightarrow> pyerr + pyval list" where
  "schema_required s = bind_err (get_default s ''required'' PNone) (\<lambda>v. bind_err (iterate (py_or v (PList []))) py_set)"

text \<open>An error that is reported when a list of names is not empty.\<close>

definition report :: "('a list \<Rightarrow> drift) \<Rightarrow> 'a list \<Rightarrow> drift list" where
  "report f xs = (if xs = [] then [] else [f xs])"

text \<open>The sorted names of one set that are not in another.\<close>

definition minus_sorted :: "pystr list \<Rightarrow> pystr list \<Rightarrow> pystr list" where
  "minus_sorted xs ys = sort (filter (\<lambda>x. x \<notin> set ys) xs)"

text \<open>The comparison of one model with its file. Unlike the first loop it does not catch a file that is no JSON.\<close>

definition model_drift :: "schema_dir \<Rightarrow> model \<Rightarrow> string \<Rightarrow> pyerr + drift list" where
  "model_drift dir m file =
     (case dget dir (lit file) of
        None \<Rightarrow> Inr [MissingFile file (md_name m)]
      | Some None \<Rightarrow> Inl ValueError
      | Some (Some s) \<Rightarrow>
          bind_err (schema_props s) (\<lambda>props. bind_err (schema_required s) (\<lambda>reqd.
          bind_err (py_sorted (filter (\<lambda>v. v \<notin> PStr ` set (required_fields m)) reqd)) (\<lambda>extra_req. Inr
            (report (MissingInSchema file) (minus_sorted (all_fields m) props) @
             report (ExtraInSchema file) (minus_sorted props (all_fields m)) @
             report (MissingRequired file) (sort (filter (\<lambda>f. PStr f \<notin> set reqd) (required_fields m))) @
             report (ExtraRequired file) extra_req)))))"

definition template_drift :: "drift list" where
  "template_drift =
     map NoTemplate (filter (\<lambda>ct. dget SLOT_TEMPLATES ct = None) CLAIM_TYPES) @
     report ExtraTemplates (minus_sorted (map fst SLOT_TEMPLATES) CLAIM_TYPES)"

definition check_schemas :: "(pyval \<Rightarrow> bool) \<Rightarrow> schema_dir option \<Rightarrow> pyerr + drift list" where
  "check_schemas valid dir =
     (case dir of
        None \<Rightarrow> Inr [NoSchemaDir]
      | Some d \<Rightarrow> bind_err (collect (\<lambda>(m, f). bind_err (model_drift d m f) (\<lambda>es. Inr (Some es))) MODEL_TO_SCHEMA) (\<lambda>ess.
          Inr (file_drift valid d @ concat ess @ template_drift)))"

text \<open>The exit code: 0 exactly when nothing is reported.\<close>

definition schema_exit :: "drift list \<Rightarrow> nat" where
  "schema_exit es = (if es = [] then 0 else 1)"

section \<open>What a clean check means\<close>

lemma report_Nil [simp]: "report f xs = [] \<longleftrightarrow> xs = []"
  by (simp add: report_def)

lemma sort_key_Nil [simp]: "sort_key f xs = [] \<longleftrightarrow> xs = []"
  by (metis length_0_conv length_sort)

lemma minus_sorted_Nil [simp]: "minus_sorted xs ys = [] \<longleftrightarrow> set xs \<subseteq> set ys"
  by (auto simp: minus_sorted_def filter_empty_conv)

lemma py_sorted_Nil: "py_sorted vs = Inr [] \<longleftrightarrow> vs = []"
  by (auto simp: py_sorted_def)

lemma template_drift_Nil: "template_drift = []"
proof -
  have "map fst SLOT_TEMPLATES = CLAIM_TYPES" by (rule SLOT_TEMPLATES_keys)
  then show ?thesis by (auto simp: template_drift_def filter_empty_conv SLOT_TEMPLATES_dom)
qed

lemma file_drift_Nil:
  "file_drift valid dir = [] \<longleftrightarrow> (\<forall>(path, c) \<in> set dir. is_schema_file path \<longrightarrow> (\<exists>s. c = Some s \<and> valid s))"
proof (induction dir)
  case (Cons pc dir)
  then show ?case by (cases pc; cases "snd pc") (auto simp: file_drift_def)
qed (simp add: file_drift_def)

text \<open>The schema of a file names the fields of a model, and requires those the model requires.\<close>

definition same_fields :: "schema_dir \<Rightarrow> model \<Rightarrow> string \<Rightarrow> bool" where
  "same_fields dir m file \<longleftrightarrow> (\<exists>s props reqd. dget dir (lit file) = Some (Some s) \<and>
     schema_props s = Inr props \<and> schema_required s = Inr reqd \<and>
     set props = set (all_fields m) \<and> set reqd = PStr ` set (required_fields m))"

lemma model_drift_Nil: "model_drift dir m file = Inr [] \<longleftrightarrow> same_fields dir m file"
  by (auto simp: model_drift_def same_fields_def bind_err_Inr py_sorted_Nil filter_empty_conv split: option.splits)

lemma collect_lists_Nil:
  "(\<exists>ess. collect (\<lambda>x. bind_err (f x) (\<lambda>es. Inr (Some es))) xs = Inr ess \<and> concat ess = []) \<longleftrightarrow>
     (\<forall>x \<in> set xs. f x = Inr [])"
proof (induction xs)
  case (Cons x xs)
  then show ?case by (cases "f x") (auto simp: bind_err_Inr split: option.splits)
qed simp

lemma check_schemas_clean:
  "check_schemas valid (Some dir) = Inr [] \<longleftrightarrow>
     (\<forall>(path, c) \<in> set dir. is_schema_file path \<longrightarrow> (\<exists>s. c = Some s \<and> valid s)) \<and>
     (\<forall>(m, file) \<in> set MODEL_TO_SCHEMA. same_fields dir m file)"
proof -
  have "check_schemas valid (Some dir) = Inr [] \<longleftrightarrow> file_drift valid dir = [] \<and>
      (\<forall>(m, file) \<in> set MODEL_TO_SCHEMA. model_drift dir m file = Inr [])"
    using collect_lists_Nil [of "\<lambda>(m, f). model_drift dir m f" MODEL_TO_SCHEMA]
    by (auto simp: check_schemas_def bind_err_Inr template_drift_Nil split_def)
  then show ?thesis by (simp add: file_drift_Nil model_drift_Nil)
qed


section \<open>The repository's own schemas\<close>

text \<open>
  Each schema with its properties and its required ones; \<open>whole\<close> where all are required. What a property is described
  by does not matter to the check.
\<close>

definition whole :: "string \<Rightarrow> string list \<Rightarrow> string \<times> string list \<times> string list" where
  "whole name props = (name, props, props)"

definition SCHEMA_FILES :: "(string \<times> string list \<times> string list) list" where
  "SCHEMA_FILES =
    [whole ''atomic_claim'' [''claim_id'', ''raw_text'', ''normalized_text'', ''claim_type'', ''speaker_person_id'', ''target_person_id'',
       ''bill_id'', ''committee_id'', ''office_id'', ''vote_value'', ''party_id'', ''expected_seats'',
       ''expect_passed_threshold'', ''government_decision_id'', ''time_scope'', ''checkability'', ''created_at''],
     whole ''attendance_event'' [''attendance_event_id'', ''committee_id'', ''occurred_at''],
     whole ''attribution_edge'' [''attribution_id'', ''from_declaration_id'', ''to_object_id'', ''to_object_type'', ''relation_type'',
       ''evidence_span_ids'', ''confidence_band'', ''review_status'', ''created_at''],
     (''bill'', [''bill_id'', ''title'', ''knesset_number'', ''status''],
       [''bill_id'', ''title'', ''knesset_number'']),
     (''committee'', [''committee_id'', ''canonical_name'', ''hebrew_name''],
       [''committee_id'', ''canonical_name'']),
     whole ''common/confidence'' [''source_authority'', ''directness'', ''temporal_alignment'', ''entity_resolution'',
       ''cross_source_consistency'', ''overall''],
     whole ''common/source_tier'' [],
     whole ''common/time_scope'' [''start'', ''end'', ''granularity''],
     whole ''declaration'' [''declaration_id'', ''speaker_person_id'', ''utterance_text'', ''utterance_language'', ''utterance_time'',
       ''source_document_id'', ''source_kind'', ''quoted_span'', ''canonicalized_text'', ''claim_family'',
       ''checkability'', ''derived_atomic_claim_ids'', ''created_at''],
     whole ''election_result'' [''election_result_id'', ''election_date'', ''knesset_number'', ''list_name'', ''ballot_letters'',
       ''list_party_id'', ''votes'', ''seats_won'', ''vote_share'', ''passed_threshold'', ''source_document_id'',
       ''created_at''],
     whole ''evidence_span'' [''span_id'', ''document_id'', ''source_tier'', ''source_type'', ''url'', ''archive_uri'', ''text'',
       ''char_start'', ''char_end'', ''captured_at''],
     whole ''government_decision'' [''government_decision_id'', ''decision_number'', ''government_number'', ''decision_date'', ''title'',
       ''summary'', ''issuing_body'', ''source_document_id'', ''created_at''],
     (''membership_term'', [''membership_term_id'', ''person_id'', ''org_id'', ''org_type'', ''valid_from'', ''valid_to''],
       [''membership_term_id'', ''person_id'', ''org_id'', ''org_type'', ''valid_from'']),
     (''office'', [''office_id'', ''canonical_name'', ''office_type'', ''scope''],
       [''office_id'', ''canonical_name'', ''office_type'']),
     (''party'', [''party_id'', ''canonical_name'', ''hebrew_name'', ''english_name'', ''abbreviation''],
       [''party_id'', ''canonical_name'']),
     (''person'', [''person_id'', ''canonical_name'', ''hebrew_name'', ''english_name'', ''external_ids'', ''source_tier''],
       [''person_id'', ''canonical_name'']),
     whole ''position_term'' [''position_term_id'', ''person_id'', ''office_id'', ''appointing_body'', ''valid_from'', ''valid_to'',
       ''is_acting'', ''source_document_id'', ''created_at''],
     whole ''source_document'' [''document_id'', ''source_family'', ''source_tier'', ''source_type'', ''url'', ''archive_uri'',
       ''content_sha256'', ''captured_at'', ''language'', ''title'', ''body''],
     whole ''source_manifest'' [''family'', ''adapter'', ''source_url'', ''source_tier'', ''parser'', ''cadence_cron'', ''entity_hints''],
     whole ''verdict'' [''verdict_id'', ''claim_id'', ''status'', ''confidence'', ''summary'', ''needs_human_review'',
       ''model_version'', ''ruleset_version'', ''created_at''],
     (''vote_event'', [''vote_event_id'', ''bill_id'', ''occurred_at'', ''vote_type''],
       [''vote_event_id'', ''bill_id'', ''occurred_at''])]"

definition schema_json :: "pyval \<Rightarrow> string list \<Rightarrow> string list \<Rightarrow> pyval" where
  "schema_json described props reqd =
     PDict [(lit ''properties'', PDict (map (\<lambda>p. (lit p, described)) props)), (lit ''required'', PList (map PLit reqd))]"

definition repo_schemas :: "pyval \<Rightarrow> schema_dir" where
  "repo_schemas described = map (\<lambda>(f, props, reqd). (lit (f @ ''.schema.json''), Some (schema_json described props reqd))) SCHEMA_FILES"

lemma schema_json_props: "schema_props (schema_json described props reqd) = Inr (map lit props)"
  by (cases "props = []") (simp_all add: schema_props_def schema_json_def get_default_def py_or_def comp_def)

lemma schema_json_required:
  "\<exists>vs. schema_required (schema_json described props reqd) = Inr vs \<and> set vs = PLit ` set reqd"
proof -
  have s: "set (nub_eq (map PLit xs)) = PLit ` set xs" for xs
    using set_nub_eq_PStr [of _ "map PLit xs"] set_nub_eq [of "map PLit xs"] by fastforce
  show ?thesis
    by (cases "reqd = []")
      (simp_all add: schema_required_def schema_json_def get_default_def py_or_def iterate_def py_set_def list_all_iff s)
qed

lemma repo_schemas_get:
  "dget (repo_schemas described) (lit (f @ ''.schema.json'')) =
     map_option (\<lambda>(props, reqd). Some (schema_json described props reqd)) (map_of SCHEMA_FILES f)"
proof -
  have "dget (map (\<lambda>(f, props, reqd). (lit (f @ ''.schema.json''), Some (schema_json described props reqd))) fs) (lit (f @ ''.schema.json'')) =
     map_option (\<lambda>(props, reqd). Some (schema_json described props reqd)) (map_of fs f)" for fs
    by (induction fs) auto
  then show ?thesis by (simp add: repo_schemas_def)
qed

lemma repo_same_fields:
  assumes "map_of SCHEMA_FILES f = Some (props, reqd)"
  shows "same_fields (repo_schemas described) m (f @ ''.schema.json'') \<longleftrightarrow>
    lit ` set props = set (all_fields m) \<and> lit ` set reqd = set (required_fields m)"
proof -
  obtain vs where vs: "schema_required (schema_json described props reqd) = Inr vs" "set vs = PLit ` set reqd"
    using schema_json_required by blast
  have "inj PStr" by (simp add: inj_def)
  then have "set vs = PStr ` set (required_fields m) \<longleftrightarrow> lit ` set reqd = set (required_fields m)"
    using inj_image_eq_iff [of PStr "lit ` set reqd"] by (simp add: vs(2) image_image)
  moreover have "same_fields (repo_schemas described) m (f @ ''.schema.json'') \<longleftrightarrow>
      set (map lit props) = set (all_fields m) \<and> set vs = PStr ` set (required_fields m)"
    unfolding same_fields_def repo_schemas_get assms option.map prod.case by (simp add: schema_json_props vs(1))
  ultimately show ?thesis by simp
qed


lemma models_simps:
  "MODEL_TO_SCHEMA = map (\<lambda>(m, f). (m, f @ ''.schema.json''))
    [(atomic_claim_model, ''atomic_claim''), (attendance_event_model, ''attendance_event''),
     (attribution_edge_model, ''attribution_edge''), (bill_model, ''bill''), (committee_model, ''committee''),
     (declaration_model, ''declaration''), (election_result_model, ''election_result''), (evidence_span_model, ''evidence_span''),
     (government_decision_model, ''government_decision''), (membership_term_model, ''membership_term''),
     (office_model, ''office''), (party_model, ''party''), (person_model, ''person''), (position_term_model, ''position_term''),
     (source_document_model, ''source_document''), (verdict_model, ''verdict''), (vote_event_model, ''vote_event'')]"
  by (simp add: MODEL_TO_SCHEMA_def)

lemmas model_defs =
  atomic_claim_model_def attendance_event_model_def attribution_edge_model_def bill_model_def committee_model_def
  declaration_model_def election_result_model_def evidence_span_model_def government_decision_model_def membership_term_model_def
  office_model_def party_model_def person_model_def position_term_model_def source_document_model_def verdict_model_def
  vote_event_model_def req_def opt_def

lemma repo_pairs:
  "\<forall>(m, file) \<in> set MODEL_TO_SCHEMA. \<exists>f. file = f @ ''.schema.json'' \<and>
     map_of SCHEMA_FILES f = Some (map fst (md_fields m), map fst (filter snd (md_fields m)))"
proof -
  have "list_all (\<lambda>(m, f). map_of SCHEMA_FILES f = Some (map fst (md_fields m), map fst (filter snd (md_fields m))))
    [(atomic_claim_model, ''atomic_claim''), (attendance_event_model, ''attendance_event''),
     (attribution_edge_model, ''attribution_edge''), (bill_model, ''bill''), (committee_model, ''committee''),
     (declaration_model, ''declaration''), (election_result_model, ''election_result''), (evidence_span_model, ''evidence_span''),
     (government_decision_model, ''government_decision''), (membership_term_model, ''membership_term''),
     (office_model, ''office''), (party_model, ''party''), (person_model, ''person''), (position_term_model, ''position_term''),
     (source_document_model, ''source_document''), (verdict_model, ''verdict''), (vote_event_model, ''vote_event'')]"
    by (simp add: SCHEMA_FILES_def whole_def model_defs)
  then show ?thesis unfolding models_simps by (auto simp: list_all_iff)
qed

lemma repo_files: "\<forall>(path, c) \<in> set (repo_schemas described). \<exists>s. c = Some s"
  by (auto simp: repo_schemas_def)

text \<open>
  A nested model the check does not look at: \<open>TimeScope\<close> may leave out its start and end, its schema requires them.
\<close>

lemma time_scope_drifts: "\<not> same_fields (repo_schemas described) time_scope_model ''common/time_scope.schema.json''"
proof -
  have "map_of SCHEMA_FILES ''common/time_scope'' = Some ([''start'', ''end'', ''granularity''], [''start'', ''end'', ''granularity''])"
    by (simp add: SCHEMA_FILES_def whole_def)
  from repo_same_fields [OF this, of described time_scope_model] show ?thesis
    by (simp add: time_scope_model_def req_def opt_def required_fields_def)
qed

text \<open>
  Claim C31. The drift check exits with 0 exactly when every schema file is valid JSON and a valid schema, and every model
  of its table has a file whose properties are the fields of the model and whose required names are its required fields.
\<close>

theorem check_schemas_iff:
  "check_schemas valid (Some dir) = Inr [] \<longleftrightarrow>
     (\<forall>(path, c) \<in> set dir. is_schema_file path \<longrightarrow> (\<exists>s. c = Some s \<and> valid s)) \<and>
     (\<forall>(m, file) \<in> set MODEL_TO_SCHEMA. same_fields dir m file)"
  by (rule check_schemas_clean)

text \<open>The schemas of the repository pass, and the nested \<open>TimeScope\<close> drifts all the same.\<close>

theorem check_schemas_iff_witness:
  "check_schemas (\<lambda>_. True) (Some (repo_schemas (PDict []))) = Inr [] \<and>
   \<not> same_fields (repo_schemas (PDict [])) time_scope_model ''common/time_scope.schema.json''"
proof -
  have "same_fields (repo_schemas (PDict [])) m fl" if mf: "(m, fl) \<in> set MODEL_TO_SCHEMA" for m fl
  proof -
    obtain f where f: "fl = f @ ''.schema.json''"
      "map_of SCHEMA_FILES f = Some (map fst (md_fields m), map fst (filter snd (md_fields m)))"
      using bspec [OF repo_pairs mf] by (elim prod.case [THEN iffD1, elim_format] exE conjE) simp
    show ?thesis unfolding f(1) repo_same_fields [OF f(2)]
      by (simp add: all_fields_def required_fields_def image_image)
  qed
  then have "\<forall>(m, fl) \<in> set MODEL_TO_SCHEMA. same_fields (repo_schemas (PDict [])) m fl" by blast
  moreover have "\<forall>(path, c) \<in> set (repo_schemas (PDict [])). is_schema_file path \<longrightarrow> (\<exists>s. c = Some s \<and> True)"
    using repo_files by fastforce
  ultimately show ?thesis unfolding check_schemas_iff using time_scope_drifts by simp
qed

end
