(* ===== verification/Fixture_Gen.thy ===== *)
theory Fixture_Gen
  imports Ontology Ingest_Rows Py_Lines
begin

text \<open>
  \<open>scripts/generate-phase1-fixtures.py\<close>: the twelve fixture objects it derives from the recorded cassettes with the
  parsers and normalizers of the adapters, the files a run leaves behind whether it ends or raises, and whether each has the
  fields its model admits. What reading a cassette gives, the digest and \<open>datetime.fromisoformat\<close> are parameters.
\<close>

section \<open>What the generator reads\<close>

text \<open>
  What reading gives: the \<open>value\<close> of an OData cassette, the rows of the CSV one, and the protocol with its SHA-256, or the
  exception of a file that is missing or that does not have that shape. The repository has every one of these files but
  \<open>attendance/sample.json\<close>: its cassette is \<open>attendance/sample.csv\<close>.
\<close>

record cassettes =
  cs_people :: "pyerr + pyval list"
  cs_votes :: "pyerr + pyval list"
  cs_committees :: "pyerr + pyval list"
  cs_sponsorships :: "pyerr + pyval list"
  cs_attendance :: "pyerr + pyval list"
  cs_protocol :: "pyerr + pystr \<times> pystr"

text \<open>\<open>next(iter(gen))\<close>, and \<open>list(gen)[0]\<close>.\<close>

definition first_of :: "'a gen \<Rightarrow> pyerr + 'a" where
  "first_of g = (case g of (x # _, _) \<Rightarrow> Inr x | ([], Some e) \<Rightarrow> Inl e | ([], None) \<Rightarrow> Inl StopIteration)"

definition list_first :: "'a gen \<Rightarrow> pyerr + 'a" where
  "list_first g = (case g of (_, Some e) \<Rightarrow> Inl e | (x # _, None) \<Rightarrow> Inr x | ([], None) \<Rightarrow> Inl LookupError)"

text \<open>\<open>page.value[0]\<close>, and \<open>v[key]\<close> with a text for the key.\<close>

definition first_row :: "pyval list \<Rightarrow> pyerr + pyval" where
  "first_row vs = (case vs of [] \<Rightarrow> Inl LookupError | v # _ \<Rightarrow> Inr v)"

definition subscript :: "pyval \<Rightarrow> string \<Rightarrow> pyerr + pyval" where
  "subscript v k = (case v of PDict r \<Rightarrow> rkey r k | _ \<Rightarrow> Inl TypeError)"

definition ext_id :: "uuid5 \<Rightarrow> string \<Rightarrow> pystr \<Rightarrow> pyval" where
  "ext_id u5 kind ext = PStr (uuid_str (ext_uuid u5 kind ext))"

section \<open>The fixtures\<close>

definition person_fixture :: "normalized_person \<Rightarrow> pystr \<Rightarrow> pyval dict" where
  "person_fixture p ext =
     [(lit ''person_id'', PStr (uuid_str (pn_person_id p))), (lit ''canonical_name'', PStr (pn_canonical_name p)),
      (lit ''external_ids'', PDict [(lit ''knesset_person_id'', PStr ext)]), (lit ''source_tier'', PInt 1)] @
     (case pn_hebrew_name p of Some h \<Rightarrow> if h = [] then [] else [(lit ''hebrew_name'', PStr h)] | None \<Rightarrow> [])"

definition office_fixture :: "uuid5 \<Rightarrow> pyval dict" where
  "office_fixture u5 =
     [(lit ''office_id'', ext_id u5 ''knesset_office'' (lit ''mk'')), (lit ''canonical_name'', PLit ''Member of Knesset''),
      (lit ''office_type'', PLit ''mk''), (lit ''scope'', PLit ''national'')]"

text \<open>\<open>isofmt\<close> is the ISO text, with a zone, of what \<open>fromisoformat\<close> reads; whatever cannot be read becomes a fixed date.\<close>

definition term_start :: "(pystr \<Rightarrow> pystr option) \<Rightarrow> pyval \<Rightarrow> pystr" where
  "term_start isofmt last_updated =
     py_replace (lit ''+00:00'') (lit ''Z'')
       (case last_updated of
          PStr s \<Rightarrow> (case isofmt (py_replace (lit ''Z'') (lit ''+00:00'') s) of Some t \<Rightarrow> t | None \<Rightarrow> lit ''2022-11-15T00:00:00+00:00'')
        | _ \<Rightarrow> lit ''2022-11-15T00:00:00+00:00'')"

definition membership_term_fixture :: "uuid5 \<Rightarrow> (pystr \<Rightarrow> pystr option) \<Rightarrow> normalized_person \<Rightarrow> pystr \<Rightarrow> pyval \<Rightarrow> pyval dict" where
  "membership_term_fixture u5 isofmt p ext last_updated =
     [(lit ''membership_term_id'', ext_id u5 ''knesset_membership_term'' (lit ''person:'' @ ext @ lit ''|office:mk'')),
      (lit ''person_id'', PStr (uuid_str (pn_person_id p))), (lit ''org_id'', ext_id u5 ''knesset_office'' (lit ''mk'')),
      (lit ''org_type'', PLit ''office''), (lit ''valid_from'', PStr (term_start isofmt last_updated)), (lit ''valid_to'', PNone)]"

definition party_fixture :: "uuid5 \<Rightarrow> (pyval \<Rightarrow> pystr) \<Rightarrow> pyval \<Rightarrow> pyerr + pyval dict" where
  "party_fixture u5 rp r =
     bind_err (subscript r ''faction_id'') (\<lambda>i. bind_err (subscript r ''faction_name'') (\<lambda>n. Inr
       [(lit ''party_id'', ext_id u5 ''knesset_party'' (py_str rp i)), (lit ''canonical_name'', n), (lit ''hebrew_name'', n)]))"

definition committee_fixture :: "normalized_committee \<Rightarrow> pyval dict" where
  "committee_fixture c =
     [(lit ''committee_id'', PStr (uuid_str (nc_committee_id c))), (lit ''canonical_name'', nc_canonical_name c),
      (lit ''hebrew_name'', nc_hebrew_name c)]"

definition bill_fixture :: "normalized_bill \<Rightarrow> pyval dict" where
  "bill_fixture b =
     [(lit ''bill_id'', PStr (uuid_str (nb_bill_id b))), (lit ''title'', PStr (nb_title b)),
      (lit ''knesset_number'', nb_knesset_number b), (lit ''status'', nb_status b)]"

definition vote_event_fixture :: "uuid5 \<Rightarrow> normalized_vote_event \<Rightarrow> pyval dict" where
  "vote_event_fixture u5 ev =
     [(lit ''vote_event_id'', PStr (uuid_str (ve_vote_event_id ev))), (lit ''bill_id'', ext_id u5 ''knesset_bill'' (lit ''0'')),
      (lit ''occurred_at'', PLit ''2005-01-01T00:00:00Z''), (lit ''vote_type'', PLit ''plenum'')]"

text \<open>A time zone of \<open>+00:00\<close> becomes \<open>Z\<close>, and a text that does not end in \<open>Z\<close> gets one.\<close>

definition py_suffix :: "pystr \<Rightarrow> pystr \<Rightarrow> bool" where
  "py_suffix a s = py_prefix (rev a) (rev s)"

definition zulu :: "pystr \<Rightarrow> pystr" where
  "zulu s =
     (if py_suffix (lit ''+00:00'') s then take (length s - 6) s @ lit ''Z''
      else if py_suffix (lit ''Z'') s then s else s @ lit ''Z'')"

definition attendance_event_fixture :: "(pyval \<Rightarrow> pystr) \<Rightarrow> normalized_attendance_event \<Rightarrow> pyval dict" where
  "attendance_event_fixture rp ev =
     [(lit ''attendance_event_id'', PStr (uuid_str (ae_attendance_event_id ev))),
      (lit ''committee_id'', PStr (uuid_str (ae_committee_id ev))),
      (lit ''occurred_at'', PStr (zulu (py_str rp (ae_occurred_at ev))))]"

text \<open>What the source document and the evidence span share.\<close>

record source_ref =
  src_document_id :: pyval
  src_url :: pystr
  src_archive_uri :: pystr
  src_captured_at :: pystr

definition source_of :: "uuid5 \<Rightarrow> pystr \<Rightarrow> pystr \<Rightarrow> source_ref" where
  "source_of u5 sha ext =
     \<lparr>src_document_id = ext_id u5 ''knesset_source_document'' sha,
      src_url = lit ''https://knesset.gov.il/Odata/ParliamentInfo.svc/KNS_Person?$format=json&$filter=PersonID eq '' @ ext @ lit ''&$top=1'',
      src_archive_uri = lit ''minio://civic-archive/knesset/by-sha256/'' @ take 2 sha @ lit ''/'' @ sha @ lit ''.json'',
      src_captured_at = lit ''2026-04-23T19:38:05Z''\<rparr>"

definition source_fields :: "source_ref \<Rightarrow> pyval dict" where
  "source_fields s =
     [(lit ''source_tier'', PInt 1), (lit ''source_type'', PLit ''official_api_response''), (lit ''url'', PStr (src_url s)),
      (lit ''archive_uri'', PStr (src_archive_uri s))]"

definition source_document_fixture :: "source_ref \<Rightarrow> pystr \<Rightarrow> pystr \<Rightarrow> pystr \<Rightarrow> pyval dict" where
  "source_document_fixture s sha ext body =
     [(lit ''document_id'', src_document_id s), (lit ''source_family'', PLit ''knesset'')] @ source_fields s @
     [(lit ''content_sha256'', PStr sha), (lit ''captured_at'', PStr (src_captured_at s)), (lit ''language'', PLit ''he''),
      (lit ''title'', PStr (lit ''KNS_Person OData record for PersonID='' @ ext)), (lit ''body'', PStr body)]"

definition span_target :: "pystr \<Rightarrow> pystr" where
  "span_target ext = lit ''\"PersonID\":'' @ ext"

definition evidence_span_fixture :: "uuid5 \<Rightarrow> source_ref \<Rightarrow> pystr \<Rightarrow> pystr \<Rightarrow> nat \<Rightarrow> pyval dict" where
  "evidence_span_fixture u5 s sha ext start =
     (let stop = start + length (span_target ext) in
      [(lit ''span_id'', ext_id u5 ''knesset_evidence_span'' (sha @ lit '':'' @ digits_of_nat start @ lit '':'' @ digits_of_nat stop)),
       (lit ''document_id'', src_document_id s)] @ source_fields s @
      [(lit ''text'', PStr (span_target ext)), (lit ''char_start'', PInt (int start)), (lit ''char_end'', PInt (int stop)),
       (lit ''captured_at'', PStr (src_captured_at s))])"

definition claim_sentence :: "pystr \<Rightarrow> bool \<Rightarrow> source_ref \<Rightarrow> pystr" where
  "claim_sentence ext current s =
     lit ''The person with Knesset PersonID='' @ ext @ lit '' '' @ lit (if current then ''is a current MK'' else ''was a past MK'') @
     lit '' (per '' @ src_url s @ lit '').''"

definition atomic_claim_fixture :: "uuid5 \<Rightarrow> pystr \<Rightarrow> pystr \<Rightarrow> bool \<Rightarrow> source_ref \<Rightarrow> pyval dict" where
  "atomic_claim_fixture u5 person ext current s =
     [(lit ''claim_id'', ext_id u5 ''phase1_sample_claim'' (lit ''person:'' @ ext @ lit ''|kind:office_held'')),
      (lit ''raw_text'', PStr (claim_sentence ext current s)), (lit ''normalized_text'', PStr (claim_sentence ext current s)),
      (lit ''claim_type'', PLit ''office_held''), (lit ''speaker_person_id'', PNone), (lit ''target_person_id'', PStr person),
      (lit ''bill_id'', PNone), (lit ''committee_id'', PNone), (lit ''office_id'', ext_id u5 ''knesset_office'' (lit ''mk'')),
      (lit ''vote_value'', PNone), (lit ''party_id'', PNone), (lit ''expected_seats'', PNone), (lit ''expect_passed_threshold'', PNone),
      (lit ''time_scope'', PDict [(lit ''start'', PLit ''2022-11-15T00:00:00Z''), (lit ''end'', PNone), (lit ''granularity'', PLit ''day'')]),
      (lit ''checkability'', PLit ''checkable''), (lit ''created_at'', PStr (src_captured_at s))]"

definition verdict_fixture :: "uuid5 \<Rightarrow> pystr \<Rightarrow> bool \<Rightarrow> source_ref \<Rightarrow> pyval dict" where
  "verdict_fixture u5 ext current s =
     (let claim = uuid_str (ext_uuid u5 ''phase1_sample_claim'' (lit ''person:'' @ ext @ lit ''|kind:office_held'')) in
      [(lit ''verdict_id'', ext_id u5 ''phase1_sample_verdict'' claim), (lit ''claim_id'', PStr claim), (lit ''status'', PLit ''supported''),
       (lit ''confidence'', PDict [(lit ''source_authority'', PFloat 1), (lit ''directness'', PFloat 1), (lit ''temporal_alignment'', PFloat 1),
          (lit ''entity_resolution'', PFloat 1), (lit ''cross_source_consistency'', PFloat (9 / 10)), (lit ''overall'', PFloat (98 / 100))]),
       (lit ''summary'', PStr (lit ''Tier-1 Knesset OData record confirms PersonID='' @ ext @ lit '' has IsCurrent='' @
          lit (if current then ''true'' else ''false'') @ lit ''; the claim is supported by the archived KNS_Person row.'')),
       (lit ''needs_human_review'', PBool False), (lit ''model_version'', PLit ''rules-v0.1''), (lit ''ruleset_version'', PLit ''r0.1''),
       (lit ''created_at'', PStr (src_captured_at s))])"

section \<open>The script\<close>

text \<open>
  The files that were written, in order, each with its name and its content, and how the step ended: an exception ends the
  run, and what was written before it stays.
\<close>

type_synonym fixtures = "(string \<times> pyval dict) list"

type_synonym 'a writing = "fixtures \<times> (pyerr + 'a)"

definition fx_write :: "string \<Rightarrow> pyval dict \<Rightarrow> unit writing" where
  "fx_write name d = ([(name, d)], Inr ())"

definition fx_try :: "pyerr + 'a \<Rightarrow> 'a writing" where
  "fx_try r = ([], r)"

definition fx_bind :: "'a writing \<Rightarrow> ('a \<Rightarrow> 'b writing) \<Rightarrow> 'b writing" where
  "fx_bind m f = (case snd m of Inl e \<Rightarrow> (fst m, Inl e) | Inr x \<Rightarrow> (fst m @ fst (f x), snd (f x)))"

definition gen_person_office_term ::
    "uuid5 \<Rightarrow> (pyval \<Rightarrow> pystr) \<Rightarrow> (pystr \<Rightarrow> pystr) \<Rightarrow> (pystr \<Rightarrow> pystr option) \<Rightarrow> pyerr + pyval list \<Rightarrow>
     (normalized_person \<times> pyval) writing" where
  "gen_person_office_term u5 rp nfc isofmt cassette =
     fx_bind (fx_try cassette) (\<lambda>people.
     fx_bind (fx_try (first_row people)) (\<lambda>raw.
     fx_bind (fx_try (first_of (parse_persons rp people))) (\<lambda>parsed.
     fx_bind (fx_try (first_of (normalize_person u5 rp nfc parsed))) (\<lambda>person.
     fx_bind (fx_try (subscript raw ''PersonID'')) (\<lambda>pid.
     fx_bind (fx_write ''person.json'' (person_fixture person (py_str rp pid))) (\<lambda>_.
     fx_bind (fx_write ''office.json'' (office_fixture u5)) (\<lambda>_.
     fx_bind (fx_try (subscript raw ''LastUpdatedDate'')) (\<lambda>updated.
     fx_bind (fx_write ''membership_term.json'' (membership_term_fixture u5 isofmt person (py_str rp pid) updated)) (\<lambda>_.
     fx_try (Inr (person, raw)))))))))))"

definition gen_party :: "uuid5 \<Rightarrow> (pyval \<Rightarrow> pystr) \<Rightarrow> pyerr + pyval list \<Rightarrow> unit writing" where
  "gen_party u5 rp cassette =
     fx_bind (fx_try cassette) (\<lambda>votes.
     fx_bind (fx_try (first_row votes)) (\<lambda>r.
     fx_bind (fx_try (party_fixture u5 rp r)) (fx_write ''party.json'')))"

definition gen_committee :: "uuid5 \<Rightarrow> (pyval \<Rightarrow> pystr) \<Rightarrow> pyerr + pyval list \<Rightarrow> unit writing" where
  "gen_committee u5 rp cassette =
     fx_bind (fx_try cassette) (\<lambda>cs.
     fx_bind (fx_try (first_of (parse_committees rp cs))) (\<lambda>parsed.
     fx_bind (fx_try (first_of (normalize_committee u5 rp parsed))) (\<lambda>c. fx_write ''committee.json'' (committee_fixture c))))"

definition gen_bill :: "uuid5 \<Rightarrow> (pyval \<Rightarrow> pystr) \<Rightarrow> pyerr + pyval list \<Rightarrow> unit writing" where
  "gen_bill u5 rp cassette =
     fx_bind (fx_try cassette) (\<lambda>bs.
     fx_bind (fx_try (first_of (parse_bills rp bs))) (\<lambda>parsed.
     fx_bind (fx_try (first_of (normalize_bill u5 rp parsed))) (\<lambda>b. fx_write ''bill.json'' (bill_fixture b))))"

definition gen_vote_event :: "uuid5 \<Rightarrow> (pyval \<Rightarrow> pystr) \<Rightarrow> pyerr + pyval list \<Rightarrow> unit writing" where
  "gen_vote_event u5 rp cassette =
     fx_bind (fx_try cassette) (\<lambda>vs.
     fx_bind (fx_try (first_of (parse_votes rp vs))) (\<lambda>parsed.
     fx_bind (fx_try (list_first (normalize_vote u5 rp parsed))) (\<lambda>ev. fx_write ''vote_event.json'' (vote_event_fixture u5 ev))))"

text \<open>The attendance normalizer is called without a lookup.\<close>

definition gen_attendance_event :: "uuid5 \<Rightarrow> (pyval \<Rightarrow> pystr) \<Rightarrow> (pystr \<Rightarrow> pyval option) \<Rightarrow> pyerr + pyval list \<Rightarrow> unit writing" where
  "gen_attendance_event u5 rp jl cassette =
     fx_bind (fx_try cassette) (\<lambda>vs.
     fx_bind (fx_try (first_of (parse_attendance rp vs))) (\<lambda>parsed.
     fx_bind (fx_try (list_first (normalize_attendance u5 rp jl None parsed))) (\<lambda>ev.
     fx_write ''attendance_event.json'' (attendance_event_fixture rp ev))))"

definition text_index :: "pystr \<Rightarrow> pystr \<Rightarrow> pyerr + nat" where
  "text_index t body = (case py_index t body of None \<Rightarrow> Inl ValueError | Some n \<Rightarrow> Inr n)"

definition gen_source_evidence :: "uuid5 \<Rightarrow> pyerr + pystr \<times> pystr \<Rightarrow> pystr \<Rightarrow> source_ref writing" where
  "gen_source_evidence u5 protocol ext =
     fx_bind (fx_try protocol) (\<lambda>(body, sha).
     let src = source_of u5 sha ext in
     fx_bind (fx_write ''source_document.json'' (source_document_fixture src sha ext body)) (\<lambda>_.
     fx_bind (fx_try (text_index (span_target ext) body)) (\<lambda>start.
     fx_bind (fx_write ''evidence_span.json'' (evidence_span_fixture u5 src sha ext start)) (\<lambda>_. fx_try (Inr src)))))"

definition gen_claim_verdict :: "uuid5 \<Rightarrow> pystr \<Rightarrow> pystr \<Rightarrow> bool \<Rightarrow> source_ref \<Rightarrow> unit writing" where
  "gen_claim_verdict u5 person ext current s =
     fx_bind (fx_write ''atomic_claim.json'' (atomic_claim_fixture u5 person ext current s)) (\<lambda>_.
     fx_write ''verdict.json'' (verdict_fixture u5 ext current s))"

text \<open>\<open>raw_row.get("IsCurrent")\<close>.\<close>

definition is_current :: "pyval \<Rightarrow> pyerr + bool" where
  "is_current raw = (case raw of PDict r \<Rightarrow> Inr (truthy (rget r ''IsCurrent'')) | _ \<Rightarrow> Inl AttributeError)"

definition gen_main ::
    "uuid5 \<Rightarrow> (pyval \<Rightarrow> pystr) \<Rightarrow> (pystr \<Rightarrow> pystr) \<Rightarrow> (pystr \<Rightarrow> pystr option) \<Rightarrow> (pystr \<Rightarrow> pyval option) \<Rightarrow> cassettes \<Rightarrow> unit writing" where
  "gen_main u5 rp nfc isofmt jl cs =
     fx_bind (gen_person_office_term u5 rp nfc isofmt (cs_people cs)) (\<lambda>(person, raw).
     fx_bind (gen_party u5 rp (cs_votes cs)) (\<lambda>_.
     fx_bind (gen_committee u5 rp (cs_committees cs)) (\<lambda>_.
     fx_bind (gen_bill u5 rp (cs_sponsorships cs)) (\<lambda>_.
     fx_bind (gen_vote_event u5 rp (cs_votes cs)) (\<lambda>_.
     fx_bind (gen_attendance_event u5 rp jl (cs_attendance cs)) (\<lambda>_.
     fx_bind (fx_try (subscript raw ''PersonID'')) (\<lambda>pid. let ext = py_str rp pid in
     fx_bind (gen_source_evidence u5 (cs_protocol cs) ext) (\<lambda>source.
     fx_bind (fx_try (is_current raw)) (\<lambda>current.
     gen_claim_verdict u5 (uuid_str (pn_person_id person)) ext current source)))))))))"

section \<open>Fields\<close>

text \<open>The model of each fixture file.\<close>

definition FIXTURE_MODELS :: "(string \<times> model) list" where
  "FIXTURE_MODELS =
    [(''person.json'', person_model), (''office.json'', office_model), (''membership_term.json'', membership_term_model),
     (''party.json'', party_model), (''committee.json'', committee_model), (''bill.json'', bill_model),
     (''vote_event.json'', vote_event_model), (''attendance_event.json'', attendance_event_model),
     (''source_document.json'', source_document_model), (''evidence_span.json'', evidence_span_model), (''verdict.json'', verdict_model)]"

lemma accepts_keysI:
  assumes "list_all (\<lambda>f. lit f \<in> set ks) (map fst (filter snd (md_fields m)))" "list_all (\<lambda>k. k \<in> set (all_fields m)) ks"
  shows "accepts_keys m ks"
  using assms by (fastforce simp: accepts_keys_def required_fields_def list_all_iff)

lemma fixtures_accepted:
  "accepts_keys person_model (map fst (person_fixture p ext))"
  "accepts_keys office_model (map fst (office_fixture u5))"
  "accepts_keys membership_term_model (map fst (membership_term_fixture u5 isofmt p ext upd))"
  "accepts_keys committee_model (map fst (committee_fixture c))"
  "accepts_keys bill_model (map fst (bill_fixture b))"
  "accepts_keys vote_event_model (map fst (vote_event_fixture u5 ve))"
  "accepts_keys attendance_event_model (map fst (attendance_event_fixture rp ae))"
  "accepts_keys source_document_model (map fst (source_document_fixture s sha ext body))"
  "accepts_keys evidence_span_model (map fst (evidence_span_fixture u5 s sha ext n))"
  "accepts_keys verdict_model (map fst (verdict_fixture u5 ext cur s))"
  by (rule accepts_keysI;
      simp add: model_defs all_fields_def person_fixture_def office_fixture_def membership_term_fixture_def committee_fixture_def
        bill_fixture_def vote_event_fixture_def attendance_event_fixture_def source_document_fixture_def source_fields_def
        evidence_span_fixture_def verdict_fixture_def Let_def split: option.split)+

lemma party_accepted: "party_fixture u5 rp r = Inr d \<Longrightarrow> accepts_keys party_model (map fst d)"
  by (rule accepts_keysI) (auto simp: party_fixture_def bind_err_Inr model_defs all_fields_def)

lemma claim_rejected: "\<not> accepts_keys atomic_claim_model (map fst (atomic_claim_fixture u5 person ext cur s))"
proof
  assume "accepts_keys atomic_claim_model (map fst (atomic_claim_fixture u5 person ext cur s))"
  moreover have "lit ''government_decision_id'' \<in> set (required_fields atomic_claim_model)"
    by (simp add: required_fields_def atomic_claim_model_def req_def)
  ultimately have "lit ''government_decision_id'' \<in> set (map fst (atomic_claim_fixture u5 person ext cur s))"
    unfolding accepts_keys_def by blast
  then show False by (simp add: atomic_claim_fixture_def)
qed


section \<open>What a run leaves behind\<close>

text \<open>The files in the order in which a complete run writes them.\<close>

definition FIXTURE_FILES :: "string list" where
  "FIXTURE_FILES =
    [''person.json'', ''office.json'', ''membership_term.json'', ''party.json'', ''committee.json'', ''bill.json'',
     ''vote_event.json'', ''attendance_event.json'', ''source_document.json'', ''evidence_span.json'',
     ''atomic_claim.json'', ''verdict.json'']"

text \<open>
  A step that writes the files of a list, all of them if it ends normally and some first ones if it raises; and one that
  raises before the end of the list.
\<close>

definition fx_emits :: "string list \<Rightarrow> 'a writing \<Rightarrow> bool" where
  "fx_emits ns m \<longleftrightarrow> (\<exists>rest. ns = map fst (fst m) @ rest \<and> (rest = [] \<longleftrightarrow> \<not> isl (snd m)))"

definition raises_within :: "string list \<Rightarrow> 'a writing \<Rightarrow> bool" where
  "raises_within ns m \<longleftrightarrow> (\<exists>rest. ns = map fst (fst m) @ rest) \<and> isl (snd m)"

lemma fx_emits_write: "fx_emits [n] (fx_write n d)"
  by (simp add: fx_emits_def fx_write_def)

lemma fx_emits_return: "fx_emits [] (fx_try (Inr x))"
  by (simp add: fx_emits_def fx_try_def)

lemma fx_emits_bind: "fx_emits ns m \<Longrightarrow> (\<And>x. fx_emits ns' (f x)) \<Longrightarrow> fx_emits (ns @ ns') (fx_bind m f)"
  by (fastforce simp: fx_emits_def fx_bind_def split: sum.splits)

lemma fx_emits_try: "ns \<noteq> [] \<Longrightarrow> (\<And>x. fx_emits ns (f x)) \<Longrightarrow> fx_emits ns (fx_bind (fx_try r) f)"
  by (cases r) (auto simp: fx_emits_def fx_bind_def fx_try_def)

lemma raises_bind: "fx_emits ns m \<Longrightarrow> (\<And>x. raises_within ns' (f x)) \<Longrightarrow> raises_within (ns @ ns') (fx_bind m f)"
  by (fastforce simp: fx_emits_def raises_within_def fx_bind_def split: sum.splits)

lemma raises_first: "raises_within [] (fx_bind (fx_bind (fx_try (Inl e)) g) f)"
  by (simp add: raises_within_def fx_bind_def fx_try_def)

lemmas fx_emits_steps = fx_emits_write fx_emits_return fx_emits_try fx_emits_bind [of "[_]" _ "_ # _", simplified] fx_emits_bind [of "[_]" _ "[]", simplified]

lemma parts_emit:
  "fx_emits [''person.json'', ''office.json'', ''membership_term.json''] (gen_person_office_term u5 rp nfc isofmt people)"
  "fx_emits [''party.json''] (gen_party u5 rp votes)" "fx_emits [''committee.json''] (gen_committee u5 rp committees)"
  "fx_emits [''bill.json''] (gen_bill u5 rp bills)" "fx_emits [''vote_event.json''] (gen_vote_event u5 rp votes)"
  "fx_emits [''attendance_event.json''] (gen_attendance_event u5 rp jl attendance)"
  "fx_emits [''source_document.json'', ''evidence_span.json''] (gen_source_evidence u5 protocol ext)"
  "fx_emits [''atomic_claim.json'', ''verdict.json''] (gen_claim_verdict u5 person ext current s)"
  unfolding gen_person_office_term_def gen_party_def gen_committee_def gen_bill_def gen_vote_event_def gen_attendance_event_def
    gen_source_evidence_def gen_claim_verdict_def Let_def case_prod_beta
  by (intro fx_emits_steps; simp)+

lemma fx_emits_append:
  "fx_emits [''person.json'', ''office.json'', ''membership_term.json''] m \<Longrightarrow> (\<And>x. fx_emits ns (f x)) \<Longrightarrow>
     fx_emits (''person.json'' # ''office.json'' # ''membership_term.json'' # ns) (fx_bind m f)"
  "fx_emits [''source_document.json'', ''evidence_span.json''] m' \<Longrightarrow> (\<And>x. fx_emits ns (f' x)) \<Longrightarrow>
     fx_emits (''source_document.json'' # ''evidence_span.json'' # ns) (fx_bind m' f')"
  using fx_emits_bind [of _ m ns f] fx_emits_bind [of _ m' ns f'] by fastforce+

lemma main_emits: "fx_emits FIXTURE_FILES (gen_main u5 rp nfc isofmt jl cs)"
  unfolding gen_main_def FIXTURE_FILES_def Let_def case_prod_beta by (intro fx_emits_append fx_emits_steps parts_emit) simp_all

text \<open>Without the attendance cassette no run gets further than the vote event.\<close>

lemma main_raises:
  assumes "cs_attendance cs = Inl e"
  shows "raises_within (take 7 FIXTURE_FILES) (gen_main u5 rp nfc isofmt jl cs)"
proof -
  have "raises_within [] (fx_bind (gen_attendance_event u5 rp jl (cs_attendance cs)) f)" for f :: "unit \<Rightarrow> unit writing"
    unfolding gen_attendance_event_def assms by (rule raises_first)
  note steps = this raises_bind [OF parts_emit(1), simplified] raises_bind [of "[_]", simplified]
  show ?thesis
    unfolding gen_main_def FIXTURE_FILES_def case_prod_beta take_Cons_numeral
    by simp (intro steps parts_emit)
qed

text \<open>Every file that is written has a property that each step gives its own.\<close>

definition written :: "(string \<Rightarrow> pyval dict \<Rightarrow> bool) \<Rightarrow> 'a writing \<Rightarrow> bool" where
  "written P m \<longleftrightarrow> (\<forall>(n, d) \<in> set (fst m). P n d)"

lemma written_bind: "written P m \<Longrightarrow> (\<And>x. snd m = Inr x \<Longrightarrow> written P (f x)) \<Longrightarrow> written P (fx_bind m f)"
  by (auto simp: written_def fx_bind_def split: sum.splits)

lemma written_simps [simp]: "written P (fx_write n d) \<longleftrightarrow> P n d" "written P (fx_try r)" "snd (fx_try r) = r" "snd (fx_write n d) = Inr ()"
  by (simp_all add: written_def fx_write_def fx_try_def)

text \<open>
  What is right about a file: its model admits its fields, which the model of the atomic claim does not, and the evidence
  span quotes the protocol.
\<close>

definition quotes :: "pystr \<Rightarrow> pyval dict \<Rightarrow> bool" where
  "quotes body d \<longleftrightarrow> (\<exists>t a z. vget d (lit ''text'') = PStr t \<and> vget d (lit ''char_start'') = PInt (int a) \<and>
     vget d (lit ''char_end'') = PInt (int z) \<and> take (z - a) (drop a body) = t)"

definition as_expected :: "pyerr + pystr \<times> pystr \<Rightarrow> string \<Rightarrow> pyval dict \<Rightarrow> bool" where
  "as_expected protocol file d \<longleftrightarrow>
     (case map_of FIXTURE_MODELS file of
        Some m \<Rightarrow> accepts_keys m (map fst d)
      | None \<Rightarrow> file = ''atomic_claim.json'' \<and> \<not> accepts_keys atomic_claim_model (map fst d)) \<and>
     (file = ''evidence_span.json'' \<longrightarrow> (\<exists>body sha. protocol = Inr (body, sha) \<and> quotes body d))"

lemma span_quotes:
  assumes "py_index (span_target ext) body = Some n"
  shows "quotes body (evidence_span_fixture u5 s sha ext n)"
proof -
  let ?e = "evidence_span_fixture u5 s sha ext n"
  have "vget ?e (lit ''text'') = PStr (span_target ext)" "vget ?e (lit ''char_start'') = PInt (int n)"
    "vget ?e (lit ''char_end'') = PInt (int (n + length (span_target ext)))"
    by (simp_all add: evidence_span_fixture_def source_fields_def Let_def)
  moreover have "take (length (span_target ext)) (drop n body) = span_target ext" using py_index_Some [OF assms] by simp
  ultimately show ?thesis
    unfolding quotes_def by (intro exI [of _ "span_target ext"] exI [of _ n] exI [of _ "n + length (span_target ext)"]) simp
qed

lemma main_as_expected: "written (as_expected (cs_protocol cs)) (gen_main u5 rp nfc isofmt jl cs)"
  unfolding gen_main_def gen_person_office_term_def gen_party_def gen_committee_def gen_bill_def gen_vote_event_def
    gen_attendance_event_def gen_source_evidence_def gen_claim_verdict_def Let_def case_prod_beta
  by (intro written_bind)
    (auto simp: as_expected_def FIXTURE_MODELS_def fixtures_accepted claim_rejected party_accepted text_index_def
      intro!: span_quotes split: option.splits)

text \<open>
  Claim C32. However a run of the generator ends, it has written the twelve files in a fixed order up to some point, and all
  of them exactly when it does not raise. Every written object has just the fields its model admits but one: the atomic claim
  lacks \<open>government_decision_id\<close>, which \<open>AtomicClaim\<close> requires, so the model rejects it. The evidence span quotes the
  protocol: its offsets cut its text out of it. When the attendance cassette cannot be read, which is so in the repository,
  the run raises, and the attendance event and the files after it are not written.
\<close>

theorem fixtures_fit_models:
  assumes "gen_main u5 rp nfc isofmt jl cs = (fs, result)"
  shows "(\<exists>rest. FIXTURE_FILES = map fst fs @ rest \<and> (rest = [] \<longleftrightarrow> result = Inr ())) \<and>
    (\<forall>(file, d) \<in> set fs. file \<noteq> ''atomic_claim.json'' \<longrightarrow>
       (\<exists>m. map_of FIXTURE_MODELS file = Some m \<and> accepts_keys m (map fst d))) \<and>
    (\<forall>d. (''atomic_claim.json'', d) \<in> set fs \<longrightarrow> \<not> accepts_keys atomic_claim_model (map fst d)) \<and>
    (\<forall>d. (''evidence_span.json'', d) \<in> set fs \<longrightarrow> (\<exists>body sha. cs_protocol cs = Inr (body, sha) \<and> quotes body d)) \<and>
    (\<forall>e. cs_attendance cs = Inl e \<longrightarrow> isl result \<and> (\<exists>rest. take 7 FIXTURE_FILES = map fst fs @ rest))"
proof -
  have e: "fx_emits FIXTURE_FILES (fs, result)" and w: "written (as_expected (cs_protocol cs)) (fs, result)"
    using main_emits [of u5 rp nfc isofmt jl cs] main_as_expected [of cs u5 rp nfc isofmt jl] assms by simp_all
  have "isl result \<and> (\<exists>rest. take 7 FIXTURE_FILES = map fst fs @ rest)" if "cs_attendance cs = Inl e" for e
    using main_raises [OF that, of u5 rp nfc isofmt jl] assms by (simp add: raises_within_def)
  moreover have "(rest = [] \<longleftrightarrow> \<not> isl result) \<longleftrightarrow> (rest = [] \<longleftrightarrow> result = Inr ())" for rest :: "string list"
    by (cases result) simp_all
  moreover have "map_of FIXTURE_MODELS ''atomic_claim.json'' = None" by (simp add: FIXTURE_MODELS_def)
  ultimately show ?thesis
    using e w by (fastforce simp: fx_emits_def written_def as_expected_def split: option.splits)
qed

section \<open>The cassettes of the repository\<close>

text \<open>
  The first row of each cassette, with the fields that the generator reads. The identifiers of the witness are all 0, and no
  date can be read. The protocol is just the text looked for, and the attendance cassette is left open.
\<close>

definition fg_cassettes :: "pyerr + pyval list \<Rightarrow> cassettes" where
  "fg_cassettes attendance =
     \<lparr>cs_people = Inr [PDict [(lit ''PersonID'', PInt 48),
        (lit ''LastName'', PStr [1502, 1500, 1512, 45, 1492, 1493, 1512, 1493, 1489, 1497, 1509]),
        (lit ''FirstName'', PStr [1497, 1512, 1491, 1504, 1492]),
        (lit ''GenderDesc'', PStr [1504, 1511, 1489, 1492]),
        (lit ''IsCurrent'', PBool False),
        (lit ''LastUpdatedDate'', PLit ''2024-07-28T21:41:35.37'')]],
      cs_votes = Inr [PDict [(lit ''vote_id'', PLit ''94''),
        (lit ''kmmbr_id'', PLit ''000000405''),
        (lit ''vote_result'', PLit ''1''),
        (lit ''knesset_num'', PLit ''16''),
        (lit ''faction_id'', PLit ''45''),
        (lit ''faction_name'', PStr [1492, 1488, 1497, 1495, 1493, 1491, 32, 1492, 1500, 1488, 1493, 1502, 1497, 45, 1497, 1513, 1512, 1488, 1500, 32, 1489, 1497, 1514, 1504, 1493])]],
      cs_committees = Inr [PDict [(lit ''CommitteeID'', PInt 4185),
        (lit ''Name'', PStr [1492, 1493, 1493, 1506, 1491, 1492, 32, 1492, 1502, 1505, 1491, 1512, 1514]),
        (lit ''KnessetNum'', PInt 25),
        (lit ''StartDate'', PLit ''2022-11-15T00:00:00''),
        (lit ''FinishDate'', PLit ''2023-01-05T00:00:00''),
        (lit ''IsCurrent'', PBool False)]],
      cs_sponsorships = Inr [PDict [(lit ''BillID'', PInt 1038990),
        (lit ''KnessetNum'', PInt 25),
        (lit ''Name'', PStr [1492, 1510, 1506, 1514, 32, 1495, 1493, 1511, 32, 1492, 1497, 1512, 1493, 1513, 1492, 32, 40, 1514, 1497, 1511, 1493, 1503, 32, 1502, 1505, 39, 32, 50, 51, 41, 44, 32, 1492, 1514, 1513, 1508, 34, 1493, 45, 50, 48, 50, 54, 32]),
        (lit ''StatusID'', PInt 141),
        (lit ''PublicationDate'', PNone)]],
      cs_attendance = attendance, cs_protocol = Inr (span_target (lit ''48''), lit ''ab'')\<rparr>"

definition session_row :: pyval where
  "session_row = PDict [(lit ''CommitteeSessionID'', PInt 6), (lit ''CommitteeID'', PLit ''4'')]"

abbreviation fg_main :: "pyerr + pyval list \<Rightarrow> unit writing" where
  "fg_main attendance \<equiv> gen_main (\<lambda>_ _. 0) (\<lambda>_. []) (\<lambda>s. s) (\<lambda>_. None) (\<lambda>_. None) (fg_cassettes attendance)"

lemma fx_bind_simps [simp]:
  "fx_bind (fx_try (Inl e)) f = ([], Inl e)" "fx_bind (fx_try (Inr x)) f = f x"
  "fx_bind (fx_write n d) g = ((n, d) # fst (g ()), snd (g ()))"
  by (simp_all add: fx_bind_def fx_try_def fx_write_def)

lemma fg_parts:
  "\<exists>p. snd (gen_person_office_term (\<lambda>_ _. 0) (\<lambda>_. []) (\<lambda>s. s) (\<lambda>_. None) (cs_people (fg_cassettes a))) = Inr (p, hd (projr (cs_people (fg_cassettes a))))"
  "snd (gen_party (\<lambda>_ _. 0) (\<lambda>_. []) (cs_votes (fg_cassettes a))) = Inr ()"
  "snd (gen_committee (\<lambda>_ _. 0) (\<lambda>_. []) (cs_committees (fg_cassettes a))) = Inr ()"
  "snd (gen_bill (\<lambda>_ _. 0) (\<lambda>_. []) (cs_sponsorships (fg_cassettes a))) = Inr ()"
  "snd (gen_vote_event (\<lambda>_ _. 0) (\<lambda>_. []) (cs_votes (fg_cassettes a))) = Inr ()"
  "snd (gen_attendance_event (\<lambda>_ _. 0) (\<lambda>_. []) (\<lambda>_. None) (Inr [session_row])) = Inr ()"
  by (simp_all add: fg_cassettes_def session_row_def gen_person_office_term_def first_row_def subscript_def first_of_def
      parse_persons_def parse_rows_def parse_person_def normalize_person_def yield1_def row_ext_def rkey_def hebrew_name_def
      normalized_name_def Let_def gen_party_def party_fixture_def gen_committee_def parse_committees_def parse_committee_def
      normalize_committee_def gen_bill_def parse_bills_def parse_bill_def normalize_bill_def py_or_def gen_vote_event_def
      parse_votes_def parse_vote_def list_first_def normalize_vote_def vote_value_of_def try_int_def gen_attendance_event_def
      parse_attendance_def parse_attendance_row_def strip_or_none_def strip_or_empty_def normalize_attendance_def)

lemma fx_bind_done: "snd m = Inr x \<Longrightarrow> fx_bind m f = (fst m @ fst (f x), snd (f x))"
  by (simp add: fx_bind_def)

lemma fx_emits_done: "fx_emits ns m \<Longrightarrow> snd m = Inr x \<Longrightarrow> map fst (fst m) = ns"
  by (auto simp: fx_emits_def)

definition fg_back :: "pystr \<Rightarrow> pyerr + pyval list \<Rightarrow> unit writing" where
  "fg_back person attendance =
     fx_bind (gen_attendance_event (\<lambda>_ _. 0) (\<lambda>_. []) (\<lambda>_. None) attendance) (\<lambda>_.
     fx_bind (gen_source_evidence (\<lambda>_ _. 0) (Inr (span_target (lit ''48''), lit ''ab'')) (lit ''48'')) (\<lambda>source.
     gen_claim_verdict (\<lambda>_ _. 0) person (lit ''48'') False source))"

lemma fg_front:
  obtains pre p where "map fst pre = take 7 FIXTURE_FILES"
    "\<forall>a. fg_main a = (pre @ fst (fg_back p a), snd (fg_back p a))"
proof -
  have same: "cs_people (fg_cassettes a) = cs_people (fg_cassettes (Inr []))" "cs_votes (fg_cassettes a) = cs_votes (fg_cassettes (Inr []))"
    "cs_committees (fg_cassettes a) = cs_committees (fg_cassettes (Inr []))" "cs_sponsorships (fg_cassettes a) = cs_sponsorships (fg_cassettes (Inr []))"
    "cs_attendance (fg_cassettes a) = a" "cs_protocol (fg_cassettes a) = Inr (span_target (lit ''48''), lit ''ab'')" for a
    by (simp_all add: fg_cassettes_def)
  let ?raw = "hd (projr (cs_people (fg_cassettes (Inr []))))"
  obtain p where p: "snd (gen_person_office_term (\<lambda>_ _. 0) (\<lambda>_. []) (\<lambda>s. s) (\<lambda>_. None) (cs_people (fg_cassettes (Inr [])))) = Inr (p, ?raw)"
    using fg_parts(1) by blast
  note parts = p fg_parts(2) [of "Inr []"] fg_parts(3) [of "Inr []"] fg_parts(4) [of "Inr []"] fg_parts(5) [of "Inr []"]
  have raw: "subscript ?raw ''PersonID'' = Inr (PInt 48)" "is_current ?raw = Inr False"
    by (simp_all add: fg_cassettes_def subscript_def rkey_def is_current_def)
  have ext: "str_of_int 48 = lit ''48''" by code_simp
  let ?c = "fg_cassettes (Inr [])"
  let ?pre = "fst (gen_person_office_term (\<lambda>_ _. 0) (\<lambda>_. []) (\<lambda>s. s) (\<lambda>_. None) (cs_people ?c)) @
    fst (gen_party (\<lambda>_ _. 0) (\<lambda>_. []) (cs_votes ?c)) @ fst (gen_committee (\<lambda>_ _. 0) (\<lambda>_. []) (cs_committees ?c)) @
    fst (gen_bill (\<lambda>_ _. 0) (\<lambda>_. []) (cs_sponsorships ?c)) @ fst (gen_vote_event (\<lambda>_ _. 0) (\<lambda>_. []) (cs_votes ?c))"
  have "map fst ?pre = take 7 FIXTURE_FILES"
    by (simp add: FIXTURE_FILES_def parts_emit(1) [THEN fx_emits_done, OF parts(1)] parts_emit(2) [THEN fx_emits_done, OF parts(2)]
        parts_emit(3) [THEN fx_emits_done, OF parts(3)] parts_emit(4) [THEN fx_emits_done, OF parts(4)] parts_emit(5) [THEN fx_emits_done, OF parts(5)])
  moreover have "fg_main a = (?pre @ fst (fg_back (uuid_str (pn_person_id p)) a), snd (fg_back (uuid_str (pn_person_id p)) a))" for a
    unfolding gen_main_def fg_back_def same [of a]
    by (simp add: raw ext fx_bind_done [OF parts(1)] fx_bind_done [OF parts(2)] fx_bind_done [OF parts(3)]
        fx_bind_done [OF parts(4)] fx_bind_done [OF parts(5)] Let_def)
  ultimately show thesis using that by blast
qed

text \<open>As the repository is, and as it would be with the attendance cassette.\<close>

lemma fg_runs:
  "\<exists>fs. fg_main (Inl FileNotFoundError) = (fs, Inl FileNotFoundError) \<and> map fst fs = take 7 FIXTURE_FILES"
  "\<exists>fs. fg_main (Inr [session_row]) = (fs, Inr ())"
proof -
  obtain pre p where f: "map fst pre = take 7 FIXTURE_FILES"
    "\<forall>a. fg_main a = (pre @ fst (fg_back p a), snd (fg_back p a))"
    by (rule fg_front)
  have "text_index (span_target (lit ''48'')) (span_target (lit ''48'')) = Inr 0"
    using py_prefix_append [of "span_target (lit ''48'')" "[]"] by (cases "span_target (lit ''48'')") (simp_all add: text_index_def)
  then show "\<exists>fs. fg_main (Inr [session_row]) = (fs, Inr ())"
    unfolding f(2) [rule_format] fg_back_def fx_bind_done [OF fg_parts(6)] by (simp add: Let_def gen_source_evidence_def gen_claim_verdict_def fx_bind_done [of "(_ # _, _)"])
  show "\<exists>fs. fg_main (Inl FileNotFoundError) = (fs, Inl FileNotFoundError) \<and> map fst fs = take 7 FIXTURE_FILES"
    unfolding f(2) [rule_format] fg_back_def using f(1) by (simp add: gen_attendance_event_def fx_bind_def [of "(_, _)"])
qed

theorem fixtures_fit_models_witness:
  "(\<exists>fs d. fg_main (Inl FileNotFoundError) = (fs, Inl FileNotFoundError) \<and> (''vote_event.json'', d) \<in> set fs \<and>
      accepts_keys vote_event_model (map fst d) \<and> ''attendance_event.json'' \<notin> fst ` set fs) \<and>
   (\<exists>fs d. fg_main (Inr [session_row]) = (fs, Inr ()) \<and> (''atomic_claim.json'', d) \<in> set fs \<and>
      \<not> accepts_keys atomic_claim_model (map fst d))"
proof
  obtain fs where fs: "fg_main (Inl FileNotFoundError) = (fs, Inl FileNotFoundError)" "map fst fs = take 7 FIXTURE_FILES"
    using fg_runs(1) by blast
  have n: "''vote_event.json'' \<in> fst ` set fs" "''attendance_event.json'' \<notin> fst ` set fs"
    using fs(2) [THEN arg_cong [of _ _ set]] by (simp_all add: FIXTURE_FILES_def)
  then obtain d where d: "(''vote_event.json'', d) \<in> set fs" by fastforce
  then have "accepts_keys vote_event_model (map fst d)"
    using fixtures_fit_models [OF fs(1)] by (fastforce simp: FIXTURE_MODELS_def)
  then show "\<exists>fs d. fg_main (Inl FileNotFoundError) = (fs, Inl FileNotFoundError) \<and> (''vote_event.json'', d) \<in> set fs \<and>
      accepts_keys vote_event_model (map fst d) \<and> ''attendance_event.json'' \<notin> fst ` set fs"
    using fs(1) d n(2) by blast
next
  obtain fs where fs: "fg_main (Inr [session_row]) = (fs, Inr ())" using fg_runs(2) by blast
  have "map fst fs = FIXTURE_FILES" using fixtures_fit_models [OF fs] by auto
  then have "''atomic_claim.json'' \<in> fst ` set fs" by (auto dest: arg_cong [of _ _ set] simp: FIXTURE_FILES_def)
  then obtain d where "(''atomic_claim.json'', d) \<in> set fs" by fastforce
  then show "\<exists>fs d. fg_main (Inr [session_row]) = (fs, Inr ()) \<and> (''atomic_claim.json'', d) \<in> set fs \<and>
      \<not> accepts_keys atomic_claim_model (map fst d)"
    using fixtures_fit_models [OF fs] fs by blast
qed

end
