(* ===== verification/Reviewer_Ui.thy ===== *)
theory Reviewer_Ui
  imports Py_Uuid Py_Lines
begin

text \<open>
  The reviewer web interface \<open>apps/reviewer_ui/src/reviewer_ui/main.py\<close>: its credentials, the pages it renders and the
  requests it passes on to the API. The API is a parameter; a handler yields the requests it sends and either an error or
  the page it answers with. The HTML of the templates is not modelled, only what they are given: the tasks, and beside them
  the address of the API and a JSON text of the payload, which the model leaves out.
\<close>

section \<open>Credentials\<close>

text \<open>\<open>os.environ.get(name, default)\<close>.\<close>

definition env_or :: "(string \<Rightarrow> pystr option) \<Rightarrow> string \<Rightarrow> string \<Rightarrow> pystr" where
  "env_or env name dflt = (case env name of None \<Rightarrow> lit dflt | Some v \<Rightarrow> v)"

text \<open>\<open>s.rstrip("/")\<close>.\<close>

definition api_base :: "(string \<Rightarrow> pystr option) \<Rightarrow> pystr" where
  "api_base env = rev (dropWhile (\<lambda>c. c = 47) (rev (env_or env ''CIVIC_API_BASE'' ''http://localhost:8000'')))"

text \<open>Without a configured password every request is refused; both parts are compared before the answer.\<close>

definition verify_credentials :: "(string \<Rightarrow> pystr option) \<Rightarrow> pystr \<Rightarrow> pystr \<Rightarrow> pyerr + pystr" where
  "verify_credentials env username password =
     (let expected_user = env_or env ''REVIEWER_UI_USER'' ''reviewer''; expected_pass = env_or env ''REVIEWER_UI_PASSWORD'' [] in
      if expected_pass = [] then Inl (HTTPException 503)
      else let user_ok = (username = expected_user); pass_ok = (password = expected_pass) in
        if \<not> (user_ok \<and> pass_ok) then Inl (HTTPException 401) else Inr username)"

section \<open>Requests and pages\<close>

datatype http_method = GET | POST

record http_request =
  rq_method :: http_method
  rq_url :: pystr
  rq_limit :: "nat option"
  rq_json :: "pyval option"

text \<open>A response: its status, its text and what the text is as JSON, if it is.\<close>

record api_response =
  ap_status :: nat
  ap_text :: pystr
  ap_json :: "pyval option"

definition is_success :: "api_response \<Rightarrow> bool" where
  "is_success r \<longleftrightarrow> 200 \<le> ap_status r \<and> ap_status r \<le> 299"

datatype page =
    HealthPage
  | QueuePage "pyval list" "pystr option"
  | TaskPage pyval
  | DeclarationPage pyval
  | NotFoundPage pystr
  | HtmlPage pystr nat

type_synonym api = "http_request \<Rightarrow> pyerr + api_response"

type_synonym answer = "http_request list \<times> (pyerr + page)"

text \<open>\<open>_html_escape\<close>.\<close>

definition html_escape :: "pystr \<Rightarrow> pystr" where
  "html_escape s =
     py_replace (lit [CHR 0x22]) (lit ''&quot;'') (py_replace (lit ''>'') (lit ''&gt;'')
       (py_replace (lit ''<'') (lit ''&lt;'') (py_replace (lit ''&'') (lit ''&amp;'') s)))"

section \<open>Pages that list tasks\<close>

definition list_request :: "(string \<Rightarrow> pystr option) \<Rightarrow> nat \<Rightarrow> http_request" where
  "list_request env n = \<lparr>rq_method = GET, rq_url = api_base env @ lit ''/review/tasks'', rq_limit = Some n, rq_json = None\<rparr>"

text \<open>\<open>r.raise_for_status()\<close> and \<open>r.json().get("tasks", [])\<close>.\<close>

definition tasks_of :: "api_response \<Rightarrow> pyerr + pyval list" where
  "tasks_of r =
     (if \<not> is_success r then Inl (BackendError (lit ''HTTPStatusError''))
      else case ap_json r of
        None \<Rightarrow> Inl ValueError
      | Some v \<Rightarrow> bind_err (get_default v ''tasks'' (PList [])) iterate)"

definition fetch_tasks :: "(string \<Rightarrow> pystr option) \<Rightarrow> api \<Rightarrow> nat \<Rightarrow> http_request list \<times> (pyerr + pyval list)" where
  "fetch_tasks env api n = ([list_request env n], bind_err (api (list_request env n)) tasks_of)"

text \<open>The tasks of a kind; a row that is no dictionary has no \<open>get\<close>.\<close>

definition of_kind :: "pystr \<Rightarrow> pyval list \<Rightarrow> pyerr + pyval list" where
  "of_kind kind ts = collect (\<lambda>t. bind_err (get_default t ''kind'' PNone) (\<lambda>k. Inr (if k = PStr kind then Some t else None))) ts"

definition queue :: "(string \<Rightarrow> pystr option) \<Rightarrow> api \<Rightarrow> pystr option \<Rightarrow> answer" where
  "queue env api kind_filter =
     (case fetch_tasks env api 100 of (sent, r) \<Rightarrow>
        (sent, bind_err r (\<lambda>ts. case kind_filter of
           None \<Rightarrow> Inr (QueuePage ts kind_filter)
         | Some k \<Rightarrow> if k = [] then Inr (QueuePage ts kind_filter)
             else bind_err (of_kind k ts) (\<lambda>ts'. Inr (QueuePage ts' kind_filter)))))"

definition conflicts :: "(string \<Rightarrow> pystr option) \<Rightarrow> api \<Rightarrow> answer" where
  "conflicts env api =
     (case fetch_tasks env api 100 of (sent, r) \<Rightarrow>
        (sent, bind_err r (\<lambda>ts. bind_err (of_kind (lit ''conflict'') ts) (\<lambda>ts'. Inr (QueuePage ts' (Some (lit ''conflict'')))))))"

definition declarations :: "(string \<Rightarrow> pystr option) \<Rightarrow> api \<Rightarrow> answer" where
  "declarations env api =
     (case fetch_tasks env api 100 of (sent, r) \<Rightarrow>
        (sent, bind_err r (\<lambda>ts. bind_err (of_kind (lit ''declaration'') ts) (\<lambda>ts'. Inr (QueuePage ts' (Some (lit ''declaration'')))))))"

text \<open>\<open>next((t for t in tasks if t.get("task_id") == task_id), None)\<close>: rows after the first hit are not looked at.\<close>

fun find_task_row :: "pystr \<Rightarrow> pyval list \<Rightarrow> pyerr + pyval option" where
  "find_task_row i [] = Inr None"
| "find_task_row i (t # ts) =
     bind_err (get_default t ''task_id'' PNone) (\<lambda>k. if k = PStr i then Inr (Some t) else find_task_row i ts)"

definition task_detail :: "(string \<Rightarrow> pystr option) \<Rightarrow> api \<Rightarrow> pystr \<Rightarrow> answer" where
  "task_detail env api task_id =
     (case fetch_tasks env api 200 of (sent, r) \<Rightarrow>
        (sent, bind_err r (\<lambda>ts. bind_err (find_task_row task_id ts) (\<lambda>hit. case hit of
           None \<Rightarrow> Inr (NotFoundPage task_id)
         | Some t \<Rightarrow> bind_err (get_default t ''kind'' PNone) (\<lambda>k.
             Inr (if k = PLit ''declaration'' then DeclarationPage t else TaskPage t))))))"

section \<open>Decisions passed on\<close>

definition proxy_result :: "string \<Rightarrow> api_response \<Rightarrow> page" where
  "proxy_result label r =
     HtmlPage (lit ''<p><strong>'' @ lit label @ lit ''</strong> '' @ 8212 # lit '' HTTP '' @ digits_of_nat (ap_status r) @
       lit ''</p><pre>'' @ html_escape (take 2000 (ap_text r)) @ lit ''</pre>'') (if is_success r then 200 else 502)"

definition task_request :: "(string \<Rightarrow> pystr option) \<Rightarrow> pystr \<Rightarrow> string \<Rightarrow> pyval dict \<Rightarrow> http_request" where
  "task_request env task_id action payload =
     \<lparr>rq_method = POST, rq_url = api_base env @ lit ''/review/tasks/'' @ task_id @ lit ''/'' @ lit action, rq_limit = None,
      rq_json = Some (PDict payload)\<rparr>"

definition pass_on :: "api \<Rightarrow> string \<Rightarrow> http_request \<Rightarrow> answer" where
  "pass_on api label rq = ([rq], bind_err (api rq) (\<lambda>r. Inr (proxy_result label r)))"

text \<open>\<open>notes.strip() if notes else None\<close>.\<close>

definition stripped_notes :: "pystr option \<Rightarrow> pyval" where
  "stripped_notes notes = (case notes of None \<Rightarrow> PNone | Some n \<Rightarrow> if n = [] then PNone else PStr (py_strip n))"

definition proxy_resolve :: "(string \<Rightarrow> pystr option) \<Rightarrow> api \<Rightarrow> pystr \<Rightarrow> pystr \<Rightarrow> pystr \<Rightarrow> pystr option \<Rightarrow> answer" where
  "proxy_resolve env api task_id decision reviewer_id notes =
     pass_on api ''resolve'' (task_request env task_id ''resolve''
       [(lit ''decision'', PStr decision), (lit ''reviewer_id'', PStr reviewer_id), (lit ''notes'', stripped_notes notes)])"

definition BAD_UUID_PAGE :: page where
  "BAD_UUID_PAGE = HtmlPage (lit ''<p class='' @ 39 # lit ''err'' @ 39 # lit ''>'' @ heb ''mzhy'' @ lit '' UUID '' @ heb ''la tqynyM'' @ lit ''</p>'') 400"

definition proxy_relink ::
    "(string \<Rightarrow> pystr option) \<Rightarrow> api \<Rightarrow> pystr \<Rightarrow> pystr \<Rightarrow> pystr \<Rightarrow> pystr \<Rightarrow> pystr \<Rightarrow> pystr option \<Rightarrow> answer" where
  "proxy_relink env api task_id candidate_id canonical_entity_id entity_kind reviewer_id notes =
     (case (parse_uuid candidate_id, parse_uuid canonical_entity_id) of
        (Inr _, Inr _) \<Rightarrow> pass_on api ''relink-entity'' (task_request env task_id ''relink-entity''
          [(lit ''candidate_id'', PStr candidate_id), (lit ''canonical_entity_id'', PStr canonical_entity_id),
           (lit ''entity_kind'', PStr entity_kind), (lit ''reviewer_id'', PStr reviewer_id), (lit ''notes'', stripped_notes notes)])
      | _ \<Rightarrow> ([], Inr BAD_UUID_PAGE))"

text \<open>\<open>s.split(c)\<close> on one character.\<close>

fun split_on :: "nat \<Rightarrow> pystr \<Rightarrow> pystr list" where
  "split_on c [] = [[]]"
| "split_on c (d # s) = (if d = c then [] # split_on c s else case split_on c s of w # ws \<Rightarrow> (d # w) # ws | [] \<Rightarrow> [[d]])"

definition span_list :: "pystr \<Rightarrow> pystr list" where
  "span_list s = filter (\<lambda>w. w \<noteq> []) (map py_strip (split_on 44 (py_replace [10] (lit '','') s)))"

definition NO_SPANS_PAGE :: page where
  "NO_SPANS_PAGE = HtmlPage (lit ''<p class='' @ 39 # lit ''err'' @ 39 # lit ''>'' @ heb ''na lhzyN'' @ lit '' span_ids '' @ heb ''mvprdyM bpsyqyM'' @ lit ''</p>'') 400"

definition proxy_confirm :: "(string \<Rightarrow> pystr option) \<Rightarrow> api \<Rightarrow> pystr \<Rightarrow> pystr \<Rightarrow> pystr \<Rightarrow> answer" where
  "proxy_confirm env api task_id span_ids reviewer_id =
     (if span_list span_ids = [] then ([], Inr NO_SPANS_PAGE)
      else pass_on api ''confirm-evidence'' (task_request env task_id ''confirm-evidence''
        [(lit ''span_ids'', PList (map PStr (span_list span_ids))), (lit ''reviewer_id'', PStr reviewer_id)]))"

section \<open>The application\<close>

text \<open>A request to the interface; \<open>Healthz\<close> is the only one without credentials.\<close>

datatype ui_request =
    Healthz
  | Queue "pystr option"
  | Conflicts
  | Declarations
  | TaskDetail pystr
  | Resolve pystr pystr pystr "pystr option"
  | Relink pystr pystr pystr pystr pystr "pystr option"
  | Confirm pystr pystr pystr

fun handle :: "(string \<Rightarrow> pystr option) \<Rightarrow> api \<Rightarrow> ui_request \<Rightarrow> answer" where
  "handle env api Healthz = ([], Inr HealthPage)"
| "handle env api (Queue k) = queue env api k"
| "handle env api Conflicts = conflicts env api"
| "handle env api Declarations = declarations env api"
| "handle env api (TaskDetail i) = task_detail env api i"
| "handle env api (Resolve i d r n) = proxy_resolve env api i d r n"
| "handle env api (Relink i c e k r n) = proxy_relink env api i c e k r n"
| "handle env api (Confirm i s r) = proxy_confirm env api i s r"

text \<open>The dependency runs before the handler. Credentials that are not sent at all are a 401.\<close>

definition serve :: "(string \<Rightarrow> pystr option) \<Rightarrow> api \<Rightarrow> (pystr \<times> pystr) option \<Rightarrow> ui_request \<Rightarrow> answer" where
  "serve env api credentials rq =
     (if rq = Healthz then handle env api rq
      else case credentials of
        None \<Rightarrow> ([], Inl (HTTPException 401))
      | Some (u, p) \<Rightarrow>
          (case verify_credentials env u p of Inl e \<Rightarrow> ([], Inl e) | Inr _ \<Rightarrow> handle env api rq))"

section \<open>Nothing without credentials\<close>

lemma verify_credentials_Inr:
  "verify_credentials env u p = Inr v \<longleftrightarrow>
     v = u \<and> u = env_or env ''REVIEWER_UI_USER'' ''reviewer'' \<and> env ''REVIEWER_UI_PASSWORD'' = Some p \<and> p \<noteq> []"
  by (auto simp: verify_credentials_def Let_def env_or_def split: option.splits)

text \<open>
  The interface fails closed: it passes nothing on to the API, and renders no page but the liveness probe, for a
  request without the configured user and password, and never while no password is configured.
\<close>

theorem ui_needs_credentials:
  assumes "serve env api credentials rq = (sent, r)" "rq \<noteq> Healthz" "sent \<noteq> [] \<or> (\<exists>page. r = Inr page)"
  shows "\<exists>u p. credentials = Some (u, p) \<and> u = env_or env ''REVIEWER_UI_USER'' ''reviewer'' \<and>
    env ''REVIEWER_UI_PASSWORD'' = Some p \<and> p \<noteq> []"
  using assms by (auto simp: serve_def verify_credentials_Inr split: option.splits sum.splits)

section \<open>Escaping\<close>

definition esc_char :: "nat \<Rightarrow> pystr" where
  "esc_char c =
     (if c = 38 then lit ''&amp;'' else if c = 60 then lit ''&lt;'' else if c = 62 then lit ''&gt;''
      else if c = 34 then lit ''&quot;'' else [c])"

text \<open>The four replacements one after the other amount to one pass: the ampersand comes first.\<close>

lemma html_escape_chars: "html_escape s = concat (map esc_char s)"
proof -
  have "concat (map (\<lambda>d. if d = 34 then lit ''&quot;'' else [d]) (concat (map (\<lambda>d. if d = 62 then lit ''&gt;'' else [d])
      (concat (map (\<lambda>d. if d = 60 then lit ''&lt;'' else [d]) (if c = 38 then lit ''&amp;'' else [c])))))) = esc_char c" for c
    by (auto simp: esc_char_def lit_def)
  moreover have "lit [CHR 0x22] = [34]" "lit ''>'' = [62]" "lit ''<'' = [60]" "lit ''&'' = [38]" by (simp_all add: lit_def)
  ultimately show ?thesis by (simp only: html_escape_def py_replace_char concat_map_concat)
qed

text \<open>The text a browser shows for escaped text.\<close>

function html_text :: "pystr \<Rightarrow> pystr" where
  "html_text s =
     (if s = [] then []
      else if py_prefix (lit ''&amp;'') s then 38 # html_text (drop 5 s)
      else if py_prefix (lit ''&lt;'') s then 60 # html_text (drop 4 s)
      else if py_prefix (lit ''&gt;'') s then 62 # html_text (drop 4 s)
      else if py_prefix (lit ''&quot;'') s then 34 # html_text (drop 6 s)
      else hd s # html_text (tl s))"
  by pat_completeness auto
termination
  by (relation "measure length") auto

declare html_text.simps [simp del]

lemma html_text_esc: "html_text (esc_char c @ s) = c # html_text s"
  by (subst html_text.simps) (auto simp: esc_char_def lit_def)

text \<open>
  What the API answers cannot break out of the page: the escaped text holds no angle bracket and no double quote,
  and a browser reads it back as the very text the API sent, since the ampersand is escaped first.
\<close>

theorem html_escape_roundtrip:
  "html_text (html_escape s) = s \<and> set (html_escape s) \<inter> {60, 62, 34} = {}"
proof
  show "html_text (html_escape s) = s"
    by (induction s) (simp_all add: html_escape_chars html_text_esc html_text.simps [of "[]"])
  have "set (esc_char c) \<inter> {60, 62, 34} = {}" for c by (auto simp: esc_char_def lit_def)
  then show "set (html_escape s) \<inter> {60, 62, 34} = {}" by (auto simp: html_escape_chars)
qed

section \<open>Witness\<close>

definition ui_env :: "string \<Rightarrow> pystr option" where
  "ui_env = [''REVIEWER_UI_PASSWORD'' \<mapsto> lit ''secret'']"

theorem ui_needs_credentials_witness:
  "fst (serve ui_env (\<lambda>_. Inl RuntimeError) (Some (lit ''reviewer'', lit ''secret'')) Conflicts) \<noteq> [] \<and>
   fst (serve ui_env (\<lambda>_. Inl RuntimeError) (Some (lit ''reviewer'', lit ''guess'')) Conflicts) = []"
proof -
  have "fst (serve ui_env (\<lambda>_. Inl RuntimeError) (Some (lit ''reviewer'', lit ''guess'')) Conflicts) = []"
    using ui_needs_credentials [of ui_env "\<lambda>_. Inl RuntimeError" "Some (lit ''reviewer'', lit ''guess'')" Conflicts]
    by (cases "serve ui_env (\<lambda>_. Inl RuntimeError) (Some (lit ''reviewer'', lit ''guess'')) Conflicts") (auto simp: ui_env_def)
  then show ?thesis
    by (simp add: serve_def verify_credentials_def ui_env_def env_or_def Let_def conflicts_def fetch_tasks_def)
qed

end
