(* ===== verification/Freshness.thy ===== *)
theory Freshness
  imports Py_Lines
begin

text \<open>
  \<open>scripts/freshness_check.py\<close>: the interval it derives from a cron expression, when a run counts as stale, and the
  report. Times are seconds; the rows of the query over \<open>ingest_runs\<close> are a parameter. What the interval promises is
  stated over the minutes a cron expression fires in.
\<close>

section \<open>The interval of a cron expression\<close>

definition py_isdigit :: "pystr \<Rightarrow> bool" where
  "py_isdigit s \<longleftrightarrow> s \<noteq> [] \<and> list_all is_digit s"

text \<open>
  \<open>_cadence_min_interval_seconds\<close> on the text of the cadence. \<open>isdigit\<close> is read as decimal digits; the few code points
  that are digits without being decimal occur in no cron expression.
\<close>

definition cadence_interval :: "pystr \<Rightarrow> int option" where
  "cadence_interval cadence =
     (case py_split (py_strip cadence) of
        [minute, hour, day, month, weekday] \<Rightarrow>
          if py_prefix (lit ''*/'') minute then
            (case int_of_str (drop 2 minute) of None \<Rightarrow> None | Some n \<Rightarrow> Some (max 60 (n * 60)))
          else if day = lit ''*'' \<and> month = lit ''*'' \<and> weekday = lit ''*'' then
            (if hour = lit ''*'' \<and> py_isdigit minute then Some 3600 else Some (24 * 3600))
          else Some (24 * 3600)
      | _ \<Rightarrow> None)"

text \<open>On a value of the manifest: nothing for an empty one, and otherwise its text.\<close>

definition cadence_min_interval :: "(pyval \<Rightarrow> pystr) \<Rightarrow> pyval \<Rightarrow> int option" where
  "cadence_min_interval rp cadence =
     (if \<not> truthy cadence \<or> py_strip (py_str rp cadence) = [] then None else cadence_interval (py_str rp cadence))"

section \<open>The report\<close>

text \<open>\<open>_fetch_last_runs\<close> on the rows of its query: the newest start of each adapter, \<open>None\<close> for a null.\<close>

definition last_runs :: "(pystr \<times> rat option) list \<Rightarrow> rat dict" where
  "last_runs rows = foldl (\<lambda>d (adapter, last_at). case last_at of
      Some t \<Rightarrow> if adapter = [] then d else dset d adapter t | None \<Rightarrow> d) [] rows"

text \<open>
  The query itself, over the rows of \<open>ingest_runs\<close>: the text of \<open>stats->>'adapter'\<close> (\<open>js\<close> prints a value that is no
  string), and the newest start of every adapter. Without settings or without a connection there is nothing.
\<close>

record logged_run =
  lr_stats :: "pyval dict"
  lr_started_at :: rat

definition adapter_text :: "(pyval \<Rightarrow> pystr) \<Rightarrow> logged_run \<Rightarrow> pystr option" where
  "adapter_text js run = (case vget (lr_stats run) (lit ''adapter'') of PNone \<Rightarrow> None | PStr s \<Rightarrow> Some s | v \<Rightarrow> Some (js v))"

definition starts :: "(pyval \<Rightarrow> pystr) \<Rightarrow> logged_run list \<Rightarrow> pystr \<Rightarrow> rat list" where
  "starts js runs a = map lr_started_at (filter (\<lambda>r. adapter_text js r = Some a) runs)"

definition latest_runs :: "(pyval \<Rightarrow> pystr) \<Rightarrow> logged_run list \<Rightarrow> (pystr \<times> rat option) list" where
  "latest_runs js runs = map (\<lambda>a. (a, Some (fold max (tl (starts js runs a)) (hd (starts js runs a))))) (remdups (List.map_filter (adapter_text js) runs))"

definition fetch_last_runs :: "(pyval \<Rightarrow> pystr) \<Rightarrow> bool \<Rightarrow> bool \<Rightarrow> logged_run list \<Rightarrow> rat dict option" where
  "fetch_last_runs js settings_load reached runs =
     (if settings_load \<and> reached then Some (last_runs (latest_runs js runs)) else None)"

lemma last_runs_get:
  assumes "distinct (map fst rows)"
  shows "dget (last_runs rows) a = (if a = [] then None else Option.bind (map_of rows a) id)"
proof -
  have "dget (foldl (\<lambda>d (adapter, last_at). case last_at of
      Some t \<Rightarrow> if adapter = [] then d else dset d adapter t | None \<Rightarrow> d) d rows) a =
      (if a = [] then dget d a else case map_of rows a of Some (Some t) \<Rightarrow> Some t | _ \<Rightarrow> dget d a)" for d
    using assms
  proof (induction rows arbitrary: d)
    case (Cons row rows)
    obtain b t where row: "row = (b, t)" by fastforce
    have "map_of rows b = None" using Cons.prems row by (simp add: map_of_eq_None_iff)
    then show ?case using Cons row by (cases t) (auto simp: dget_dset split: option.split)
  qed simp
  then show ?thesis by (auto simp: last_runs_def split: option.splits)
qed

text \<open>What the report reads for an adapter is the newest start of its runs, whatever they did.\<close>

lemma fetch_last_runs_newest:
  assumes "fetch_last_runs js True True runs = Some d"
  shows "dget d a = Some t \<longleftrightarrow> a \<noteq> [] \<and> starts js runs a \<noteq> [] \<and> t = Max (set (starts js runs a))"
proof -
  define as where "as = remdups (List.map_filter (adapter_text js) runs)"
  have mem: "a \<in> set as \<longleftrightarrow> starts js runs a \<noteq> []"
    by (auto simp: as_def starts_def filter_empty_conv List.map_filter_def intro: rev_image_eqI)
  have newest: "fold max (tl xs) (hd xs) = Max (set xs)" if "xs \<noteq> []" for xs :: "rat list"
    using that by (cases xs) (simp_all add: Max.set_eq_fold [symmetric])
  have "map_of (latest_runs js runs) a = (if a \<in> set as then Some (Some (Max (set (starts js runs a)))) else None)"
    using mem newest unfolding latest_runs_def as_def [symmetric] by (auto simp: map_of_map_restrict)
  moreover have "distinct (map fst (latest_runs js runs))" by (simp add: latest_runs_def comp_def)
  ultimately show ?thesis using assms mem by (auto simp: fetch_last_runs_def last_runs_get split: if_splits)
qed

record fresh_entry =
  fe_name :: pystr
  fe_adapter :: pyval
  fe_cadence :: pyval
  fe_interval :: "int option"
  fe_last_run_at :: "rat option"
  fe_stale :: "bool option"
  fe_age_seconds :: "int option"
  fe_note :: bool

datatype fresh_row = FreshError pystr | FreshEntry fresh_entry

text \<open>
  One manifest, a mapping, or \<open>None\<close> when it cannot be read; \<open>db\<close> is \<open>None\<close> when Postgres was not reached. An interval
  of more days than a \<open>timedelta\<close> holds is not modelled.
\<close>

definition fresh_row_of :: "(pyval \<Rightarrow> pystr) \<Rightarrow> rat \<Rightarrow> rat dict option \<Rightarrow> pystr \<Rightarrow> pyval dict option \<Rightarrow> fresh_row" where
  "fresh_row_of rp now db name manifest =
     (case manifest of
        None \<Rightarrow> FreshError name
      | Some m \<Rightarrow>
          (let adapter = vget m (lit ''adapter''); cadence = vget m (lit ''cadence_cron'');
               interval = cadence_min_interval rp cadence;
               last_at = (if truthy adapter then dget (case db of None \<Rightarrow> [] | Some d \<Rightarrow> d) (py_str rp adapter) else None)
           in FreshEntry
             \<lparr>fe_name = name, fe_adapter = adapter, fe_cadence = cadence, fe_interval = interval, fe_last_run_at = last_at,
              fe_stale = (case (last_at, interval) of (Some t, Some i) \<Rightarrow> Some (now - t > of_int (2 * i)) | _ \<Rightarrow> None),
              fe_age_seconds = (case (last_at, interval) of (Some t, Some i) \<Rightarrow> Some (if now - t < 0 then - \<lfloor>t - now\<rfloor> else \<lfloor>now - t\<rfloor>) | _ \<Rightarrow> None),
              fe_note = (last_at = None \<and> db \<noteq> None)\<rparr>))"

definition freshness_report :: "(pyval \<Rightarrow> pystr) \<Rightarrow> rat \<Rightarrow> (pystr \<times> rat option) list option \<Rightarrow> (pystr \<times> pyval dict option) list \<Rightarrow> bool \<times> fresh_row list" where
  "freshness_report rp now rows manifests =
     (rows \<noteq> None, map (\<lambda>(name, m). fresh_row_of rp now (map_option last_runs rows) name m) manifests)"

section \<open>When a cron expression fires\<close>

text \<open>
  A field fires at a value when it is a star, a list that holds the value, or a star with a step that divides the value;
  the time is a number of minutes, whose minute and hour of the day are its remainders.
\<close>

datatype cron_field = Star | At "nat list" | Step nat

fun fires :: "cron_field \<Rightarrow> nat \<Rightarrow> bool" where
  "fires Star v = True"
| "fires (At vs) v = (v \<in> set vs)"
| "fires (Step n) v = (v mod n = 0)"

fun field_text :: "cron_field \<Rightarrow> pystr" where
  "field_text Star = lit ''*''"
| "field_text (At vs) = py_join (lit '','') (map digits_of_nat vs)"
| "field_text (Step n) = lit ''*/'' @ digits_of_nat n"

definition runs_at :: "cron_field \<Rightarrow> cron_field \<Rightarrow> nat \<Rightarrow> bool" where
  "runs_at minute hour t \<longleftrightarrow> fires minute (t mod 60) \<and> fires hour ((t div 60) mod 24)"

definition daily_text :: "cron_field \<Rightarrow> cron_field \<Rightarrow> pystr" where
  "daily_text minute hour = py_join [32] [field_text minute, field_text hour, lit ''*'', lit ''*'', lit ''*'']"

section \<open>What the interval promises\<close>

lemma word_field:
  "word (field_text Star)" "word (field_text (At [m]))" "word (field_text (Step n))"
  using word_digits_of_nat by (auto simp: lit_def is_space_def)

lemma daily_parts:
  assumes "word (field_text minute)" "word (field_text hour)"
  shows "py_split (py_strip (daily_text minute hour)) = [field_text minute, field_text hour, lit ''*'', lit ''*'', lit ''*'']"
proof -
  have "hd (daily_text minute hour) = hd (field_text minute)" "last (daily_text minute hour) = 42" "daily_text minute hour \<noteq> []"
    using assms by (auto simp: daily_text_def lit_def)
  then have "py_strip (daily_text minute hour) = daily_text minute hour"
    using assms by (intro py_strip_idle) (auto simp: list_all_iff is_space_def)
  moreover have "word (lit ''*'')" by (simp add: lit_def is_space_def)
  ultimately show ?thesis using assms by (simp add: daily_text_def py_split_join del: py_join.simps)
qed

lemma digits_facts: "py_isdigit (digits_of_nat m)" "\<not> py_prefix (lit ''*/'') (digits_of_nat m)" "digits_of_nat m \<noteq> lit ''*''"
proof -
  have h: "48 \<le> hd (digits_of_nat m)" using digits_of_nat_ascii [of m] digits_of_nat_not_Nil by simp
  show "py_isdigit (digits_of_nat m)"
    using nat_of_digits_of_nat by (simp add: py_isdigit_def digits_of_nat_not_Nil)
  show "\<not> py_prefix (lit ''*/'') (digits_of_nat m)" "digits_of_nat m \<noteq> lit ''*''"
    using h digits_of_nat_not_Nil [of m] by (cases "digits_of_nat m"; auto simp: lit_def)+
qed

lemma cadence_hourly: "cadence_interval (daily_text (At [m]) Star) = Some 3600"
  using digits_facts [of m] by (simp add: cadence_interval_def daily_parts [OF word_field(2) word_field(1)])

lemma cadence_daily: "cadence_interval (daily_text (At [m]) (At [h])) = Some (24 * 3600)"
  using digits_facts [of m] digits_facts [of h] by (simp add: cadence_interval_def daily_parts [OF word_field(2) word_field(2)])

lemma cadence_step:
  assumes "0 < n" "n < 60" "word (field_text hour)"
  shows "cadence_interval (daily_text (Step n) hour) = Some (60 * int n)"
proof -
  have "length (digits_of_nat n) \<le> 2" using assms by (intro length_digits_of_nat) simp_all
  then have "int_of_str (digits_of_nat n) = Some (int n)" by (intro int_of_str_digits_of_nat) simp
  then show ?thesis using assms(1,2) by (simp add: cadence_interval_def daily_parts [OF word_field(3) assms(3)] lit_def)
qed

text \<open>Two minutes with the same remainder are a multiple of the divisor apart.\<close>

lemma mod_gap:
  fixes t1 t2 k :: nat
  assumes "t1 < t2" "t1 mod k = t2 mod k" shows "k \<le> t2 - t1"
proof -
  have "k dvd t2 - t1" using mod_eq_dvd_iff_nat [of t1 t2 k] assms by simp
  then show ?thesis using assms(1) by (intro dvd_imp_le) simp_all
qed

lemma mod_both: "(t :: nat) mod 60 = m \<Longrightarrow> t div 60 mod 24 = h \<Longrightarrow> t mod 1440 = 60 * h + m"
  using mod_mult2_eq [of t 60 24] by simp

text \<open>Only a star, or one number.\<close>

definition simple_field :: "cron_field \<Rightarrow> bool" where
  "simple_field f \<longleftrightarrow> f = Star \<or> (\<exists>v. f = At [v])"

lemma cadence_gap:
  assumes "(\<exists>m. minute = At [m]) \<or> (\<exists>n. minute = Step n \<and> 0 < n \<and> n < 60 \<and> n dvd 60)" "simple_field hour"
    and "runs_at minute hour t1" "runs_at minute hour t2" "t1 < t2"
  shows "\<exists>s. cadence_interval (daily_text minute hour) = Some s \<and> s \<le> 60 * int (t2 - t1)"
  using assms(1)
proof (elim disjE exE conjE)
  fix m assume m: "minute = At [m]"
  show ?thesis
  proof (cases hour)
    case Star
    have "60 \<le> t2 - t1" using assms(3-5) m by (intro mod_gap) (simp_all add: runs_at_def)
    then have "3600 \<le> 60 * int (t2 - t1)" by simp
    then show ?thesis using cadence_hourly m Star by simp
  next
    case (At vs)
    then obtain h where h: "hour = At [h]" using assms(2) by (auto simp: simple_field_def)
    then have "t1 mod 1440 = t2 mod 1440" using assms(3,4) m mod_both [of t1 m h] mod_both [of t2 m h] by (simp add: runs_at_def)
    then have "1440 \<le> t2 - t1" using assms(5) by (intro mod_gap)
    then have "86400 \<le> 60 * int (t2 - t1)" by simp
    then show ?thesis using cadence_daily m h by simp
  qed (use assms(2) in \<open>simp add: simple_field_def\<close>)
next
  fix n assume n: "minute = Step n" "0 < n" "n < 60" "n dvd 60"
  have "t1 mod n = t2 mod n" using assms(3,4) n(1,4) by (simp add: runs_at_def mod_mod_cancel)
  then have "n \<le> t2 - t1" using assms(5) by (intro mod_gap)
  then have "60 * int n \<le> 60 * int (t2 - t1)" by simp
  moreover have "word (field_text hour)" using assms(2) word_field unfolding simple_field_def by blast
  ultimately show ?thesis using cadence_step [OF n(2,3)] n(1) by simp
qed

text \<open>A list of minutes is taken for a daily run, and a step that does not divide the hour for an even one.\<close>

lemma cadence_too_long:
  "cadence_interval (daily_text (At [0, 30]) Star) = Some 86400 \<and> runs_at (At [0, 30]) Star 0 \<and> runs_at (At [0, 30]) Star 30"
  "cadence_interval (daily_text (Step 7) Star) = Some 420 \<and> runs_at (Step 7) Star 56 \<and> runs_at (Step 7) Star 60"
proof -
  have d: "digits_of_nat 0 = [48]" "digits_of_nat 30 = [51, 48]" by (simp_all add: digits_of_nat.simps)
  then have "word (field_text (At [0, 30]))" by (simp add: is_space_def lit_def)
  then show "cadence_interval (daily_text (At [0, 30]) Star) = Some 86400 \<and> runs_at (At [0, 30]) Star 0 \<and> runs_at (At [0, 30]) Star 30"
    using daily_parts [of "At [0, 30]" Star] word_field(1)
    by (simp add: cadence_interval_def d runs_at_def lit_def py_isdigit_def is_digit_def)
  show "cadence_interval (daily_text (Step 7) Star) = Some 420 \<and> runs_at (Step 7) Star 56 \<and> runs_at (Step 7) Star 60"
    using cadence_step [of 7 Star] word_field(1) by (simp add: runs_at_def)
qed

text \<open>
  Claim C33. For a cron expression whose minute is one number or a step that divides the hour, and whose hour is a star or
  one number, the interval is what its documentation calls it, a lower bound on the time between two runs. For a list of
  minutes it is not: \<open>0,30 * * * *\<close> counts as daily.
\<close>

theorem cadence_lower_bound:
  assumes "(\<exists>m. minute = At [m]) \<or> (\<exists>n. minute = Step n \<and> 0 < n \<and> n < 60 \<and> n dvd 60)" "simple_field hour"
    and "runs_at minute hour t1" "runs_at minute hour t2" "t1 < t2"
  shows "(\<exists>s. cadence_interval (daily_text minute hour) = Some s \<and> s \<le> 60 * int (t2 - t1)) \<and>
    (cadence_interval (daily_text (At [0, 30]) Star) = Some 86400 \<and> runs_at (At [0, 30]) Star 0 \<and> runs_at (At [0, 30]) Star 30)"
  using cadence_gap [OF assms] cadence_too_long(1) by blast

theorem cadence_lower_bound_witness:
  "\<exists>s. cadence_interval (daily_text (Step 30) Star) = Some s \<and> s \<le> 60 * int (60 - 30)"
proof -
  have "\<exists>n. Step 30 = Step n \<and> 0 < n \<and> n < 60 \<and> n dvd 60" by simp
  then show ?thesis
    using cadence_lower_bound [of "Step 30" Star 30 60] by (auto simp: simple_field_def runs_at_def)
qed

end
