(* ===== verification/Recording.thy ===== *)
theory Recording
  imports Py_Lines Archive
begin

text \<open>
  Recording what upstream says: the statement recorder \<open>scripts/record-statements.py\<close>, whose records are directories named
  after the digest of the page, and the capture command of \<open>civic_archival/cli.py\<close>. Fetching, decoding, \<open>json.loads\<close>, SHA-256 and the clock are parameters.
\<close>

section \<open>The statement recorder\<close>

text \<open>\<open>_select\<close> on the decoded body: the stripped text, or the first of its lines that holds the selector.\<close>

fun find_line :: "pyval \<Rightarrow> pystr list \<Rightarrow> pyerr + pystr option" where
  "find_line sel [] = Inr None"
| "find_line sel (l # ls) =
     (case sel of
        PStr s \<Rightarrow> if py_contains s l then Inr (Some (py_strip l)) else find_line sel ls
      | _ \<Rightarrow> Inl TypeError)"

definition select_excerpt :: "pystr \<Rightarrow> pyval \<Rightarrow> pyerr + pystr" where
  "select_excerpt decoded sel =
     (let s = py_strip decoded in
      if \<not> truthy sel then Inr s
      else bind_err (find_line sel (splitlines s)) (\<lambda>hit. Inr (case hit of None \<Rightarrow> s | Some l \<Rightarrow> l)))"

text \<open>The records below the output directory: a name and the files of the directory.\<close>

type_synonym record_dirs = "(pystr \<times> pystr dict) list"

definition field_line :: "(pyval \<Rightarrow> pystr) \<Rightarrow> string \<Rightarrow> pyval \<Rightarrow> pystr" where
  "field_line rp name v = lit ''- '' @ lit name @ lit '': '' @ py_str rp v @ [10]"

definition entry_get :: "pyval dict \<Rightarrow> string \<Rightarrow> pyval" where
  "entry_get e k = (case dget e (lit k) of None \<Rightarrow> PStr [] | Some v \<Rightarrow> v)"

definition source_md :: "(pyval \<Rightarrow> pystr) \<Rightarrow> pystr \<Rightarrow> pyval dict \<Rightarrow> pystr \<Rightarrow> pyerr + pystr" where
  "source_md rp now entry sha =
     (case entry_get entry ''notes'' of
        PStr notes \<Rightarrow> Inr (lit ''# Statement provenance'' @ [10, 10] @
          field_line rp ''source_url'' (vget entry (lit ''source_url'')) @ field_line rp ''source_family'' (vget entry (lit ''source_family'')) @
          field_line rp ''language'' (vget entry (lit ''language'')) @ field_line rp ''speaker_hint'' (entry_get entry ''speaker_hint'') @
          field_line rp ''accessed_at'' (PStr now) @ field_line rp ''sha256'' (PStr sha) @
          field_line rp ''excerpt_selector'' (entry_get entry ''excerpt_selector'') @ [10] @
          lit ''## Curator notes'' @ [10, 10] @ py_strip notes @ [10])
      | _ \<Rightarrow> Inl AttributeError)"

definition labels_template :: pystr where
  "labels_template = lines_text (map lit
     [''# Fill in expected outputs for this gold-set row.'', ''# All fields optional for smoke tests; required for gold audits.'',
      ''expected:'', ''  claim_type: null        # vote_cast | bill_sponsorship | ...'',
      ''  speaker_person_id: null # UUID in Neo4j, or null if unresolvable'', ''  target_person_id: null'', ''  bill_id: null'',
      ''  committee_id: null'', ''  office_id: null'', ''  vote_value: null'', ''  time_granularity: unknown'',
      ''  checkability: non_checkable'', ''  verdict: not_enough_information''])"

text \<open>How one manifest line ends: the run goes on, or it ends with an exit code or an exception.\<close>

datatype line_end_state = GoOn | Exit nat | Raise pyerr

text \<open>\<open>_write_record\<close>: the directory and the statement come first, so that notes that are no text leave an incomplete record.\<close>

definition write_record ::
    "(pyval \<Rightarrow> pystr) \<Rightarrow> pystr \<Rightarrow> pystr \<Rightarrow> pyval dict \<Rightarrow> pystr \<Rightarrow> record_dirs \<Rightarrow> record_dirs \<times> line_end_state" where
  "write_record rp now statement entry sha dirs =
     (if dget dirs (take 12 sha) \<noteq> None then (dirs, Exit 1)
      else case source_md rp now entry sha of
        Inl e \<Rightarrow> (dset dirs (take 12 sha) [(lit ''statement.txt'', statement @ [10])], Raise e)
      | Inr md \<Rightarrow> (dset dirs (take 12 sha)
          [(lit ''statement.txt'', statement @ [10]), (lit ''SOURCE.md'', md), (lit ''labels.yaml'', labels_template)], GoOn))"

text \<open>\<open>required not in entry\<close> for the three fields, in order.\<close>

fun missing_field :: "pystr list \<Rightarrow> pyval \<Rightarrow> pyerr + bool" where
  "missing_field [] entry = Inr False"
| "missing_field (f # fs) entry = bind_err (str_in f entry) (\<lambda>there. if there then missing_field fs entry else Inr True)"

text \<open>What one run of the recorder gets: \<open>rc_fetch\<close> is the page the request of a manifest line is answered with.\<close>

record recorder =
  rc_json :: "pystr \<Rightarrow> pyval option"
  rc_fetch :: "nat \<Rightarrow> pyval \<Rightarrow> pyerr + pystr"
  rc_decode :: "pystr \<Rightarrow> pystr"
  rc_sha256 :: "pystr \<Rightarrow> pystr"
  rc_repr :: "pyval \<Rightarrow> pystr"
  rc_now :: pystr

definition skipped_line :: "pystr \<Rightarrow> bool" where
  "skipped_line raw \<longleftrightarrow> py_strip raw = [] \<or> py_prefix (lit ''#'') (py_lstrip raw)"

definition record_line :: "recorder \<Rightarrow> nat \<Rightarrow> pystr \<Rightarrow> record_dirs \<Rightarrow> record_dirs \<times> line_end_state" where
  "record_line rc lineno raw dirs =
     (if skipped_line raw then (dirs, GoOn)
      else case rc_json rc raw of None \<Rightarrow> (dirs, Raise ValueError) | Some v \<Rightarrow>
      case missing_field (map lit [''source_url'', ''source_family'', ''language'']) v of
        Inl e \<Rightarrow> (dirs, Raise e)
      | Inr missing \<Rightarrow>
          if missing then (dirs, Exit 2)
          else case v of PDict entry \<Rightarrow>
            (case rc_fetch rc lineno (vget entry (lit ''source_url'')) of Inl e \<Rightarrow> (dirs, Raise e) | Inr body \<Rightarrow>
             if body = [] then (dirs, Exit 3)
             else case select_excerpt (rc_decode rc body) (vget entry (lit ''excerpt_selector'')) of
               Inl e \<Rightarrow> (dirs, Raise e)
             | Inr excerpt \<Rightarrow>
                 if excerpt = [] then (dirs, Exit 3)
                 else write_record (rc_repr rc) (rc_now rc) excerpt entry (rc_sha256 rc body) dirs)
          | _ \<Rightarrow> (dirs, Raise TypeError))"



section \<open>Records are never touched again\<close>

definition extends_dirs :: "record_dirs \<Rightarrow> record_dirs \<Rightarrow> bool" where
  "extends_dirs d d' \<longleftrightarrow> (\<forall>k files. dget d k = Some files \<longrightarrow> dget d' k = Some files)"

lemma extends_dirs_refl [simp]: "extends_dirs d d"
  by (simp add: extends_dirs_def)





text \<open>What a line that is not skipped has to get through before its record is written.\<close>

definition line_reads :: "recorder \<Rightarrow> nat \<Rightarrow> pystr \<Rightarrow> pyval dict \<Rightarrow> pystr \<Rightarrow> pystr \<Rightarrow> bool" where
  "line_reads rc k raw entry body excerpt \<longleftrightarrow> \<not> skipped_line raw \<and> rc_json rc raw = Some (PDict entry) \<and>
     missing_field (map lit [''source_url'', ''source_family'', ''language'']) (PDict entry) = Inr False \<and>
     rc_fetch rc k (vget entry (lit ''source_url'')) = Inr body \<and> body \<noteq> [] \<and>
     select_excerpt (rc_decode rc body) (vget entry (lit ''excerpt_selector'')) = Inr excerpt \<and> excerpt \<noteq> []"

lemma record_line_reads:
  "line_reads rc k raw entry body excerpt \<Longrightarrow>
     record_line rc k raw dirs = write_record (rc_repr rc) (rc_now rc) excerpt entry (rc_sha256 rc body) dirs"
  by (simp add: line_reads_def record_line_def)


lemma record_line_changed:
  "line_reads rc k raw entry body excerpt \<Longrightarrow> dget dirs (take 12 (rc_sha256 rc body)) = None \<Longrightarrow>
     \<exists>files r. record_line rc k raw dirs = (dset dirs (take 12 (rc_sha256 rc body)) files, r) \<and> r \<noteq> Exit 1"
  by (auto simp: record_line_reads write_record_def split: sum.split)

section \<open>Capturing a response\<close>

record capture_args =
  cp_url_flag :: "pystr option"
  cp_url :: "pystr option"
  cp_family :: pystr
  cp_tier :: int
  cp_body :: bool
  cp_out :: "pystr option"
  cp_allow_error :: bool
  cp_max_bytes :: "int option"
  cp_max_lines :: "int option"

record capture_report =
  cr_url :: pystr
  cr_status_code :: nat
  cr_content_type :: pystr
  cr_upstream_byte_size :: nat
  cr_captured_byte_size :: nat
  cr_content_sha256 :: pystr
  cr_family :: pystr
  cr_tier :: int
  cr_body_preview :: "pystr option"
  cr_out :: "(pystr \<times> nat) option"

text \<open>How the command ends: refused for its arguments, or with a report and the file it wrote.\<close>

datatype capture_end = Usage | Captured capture_report "(pystr \<times> nat list) option"

definition capture_main ::
    "(pystr \<Rightarrow> bool \<Rightarrow> pyerr + fetch_result) \<Rightarrow> (nat list \<Rightarrow> pystr) \<Rightarrow> (nat list \<Rightarrow> pystr) \<Rightarrow> capture_args \<Rightarrow> pyerr + capture_end" where
  "capture_main fetcher sha256 decode ca =
     (let given = (case cp_url_flag ca of Some u \<Rightarrow> if u = [] then cp_url ca else Some u | None \<Rightarrow> cp_url ca) in
      case given of
        None \<Rightarrow> Inr Usage
      | Some url \<Rightarrow>
          if url = [] then Inr Usage
          else bind_err (fetcher url (cp_allow_error ca)) (\<lambda>fr.
            let captured = truncate_capture (fr_content fr) (cp_max_bytes ca) (cp_max_lines ca) in
            Inr (Captured
              \<lparr>cr_url = fr_url fr, cr_status_code = fr_status_code fr, cr_content_type = fr_content_type fr,
               cr_upstream_byte_size = length (fr_content fr), cr_captured_byte_size = length captured,
               cr_content_sha256 = sha256 captured, cr_family = cp_family ca, cr_tier = cp_tier ca,
               cr_body_preview = (if cp_body ca then Some (decode (take 500 captured)) else None),
               cr_out = map_option (\<lambda>p. (p, length captured)) (cp_out ca)\<rparr>
              (map_option (\<lambda>p. (p, captured)) (cp_out ca)))))"

text \<open>The file holds a prefix of the response, and the report its size and digest.\<close>

lemma capture_report_true:
  assumes "capture_main fetcher sha256 decode ca = Inr (Captured rep (Some (path, bytes)))"
  shows "cp_out ca = Some path \<and> cr_content_sha256 rep = sha256 bytes \<and> cr_captured_byte_size rep = length bytes \<and>
    (\<exists>url fr rest. fetcher url (cp_allow_error ca) = Inr fr \<and> fr_content fr = bytes @ rest \<and> cr_upstream_byte_size rep = length (fr_content fr))"
proof -
  obtain url fr where f: "fetcher url (cp_allow_error ca) = Inr fr" "bytes = truncate_capture (fr_content fr) (cp_max_bytes ca) (cp_max_lines ca)"
    "cp_out ca = Some path" "cr_content_sha256 rep = sha256 bytes" "cr_captured_byte_size rep = length bytes"
    "cr_upstream_byte_size rep = length (fr_content fr)"
    using assms by (auto simp: capture_main_def Let_def bind_err_Inr split: option.splits if_splits)
  then show ?thesis using truncate_capture_prefix(1) [of "fr_content fr" "cp_max_bytes ca" "cp_max_lines ca"] by auto
qed

section \<open>The same manifest twice\<close>











end
