(* ===== verification/Api_App.thy ===== *)
theory Api_App
  imports Pipeline Review_Queue
begin

text \<open>
  The API process \<open>apps/api/src/api/main.py\<close>: what its lifespan wires at startup and undoes at shutdown, with the probes of
  \<open>health.py\<close>, the person card of \<open>routers/persons.py\<close>, the verification endpoint of \<open>routers/claims.py\<close> and the choice of
  review repository of \<open>routers/review.py\<close>. Which client constructor fails is a parameter; the backing stores are their pings.
\<close>

section \<open>State of the process\<close>

text \<open>The one Postgres connection of the process.\<close>

datatype connection = NoConnection | Connected | Disconnected

text \<open>The module-level repository and pipeline, and whether \<open>app.state.pg_connection\<close> was set.\<close>

datatype repository = EmptyRepository | PostgresRepository

record process =
  pr_connection :: connection
  pr_repository :: repository
  pr_live_pipeline :: bool
  pr_pg_state :: bool

definition fresh_process :: process where
  "fresh_process = \<lparr>pr_connection = NoConnection, pr_repository = EmptyRepository, pr_live_pipeline = False, pr_pg_state = False\<rparr>"

section \<open>The lifespan\<close>

text \<open>\<open>_env_truthy\<close>.\<close>

definition env_truthy :: "(string \<Rightarrow> pystr option) \<Rightarrow> string \<Rightarrow> bool \<Rightarrow> bool" where
  "env_truthy env name dflt =
     (case env name of None \<Rightarrow> dflt | Some v \<Rightarrow> py_lower v \<in> {lit ''1'', lit ''true'', lit ''yes''})"

text \<open>The steps of the wiring that may raise, in the order of the code.\<close>

datatype step = MakeConnection | SetAutocommit | MakeGraphDriver | MakeSearchClient | MakeResolverDriver | MakePipeline

record pings =
  pg_ping :: bool
  neo4j_ping :: bool
  opensearch_ping :: bool
  minio_ping :: bool

definition skips_wiring :: "(string \<Rightarrow> pystr option) \<Rightarrow> pystr \<Rightarrow> bool" where
  "skips_wiring env s_env \<longleftrightarrow> s_env \<in> {lit ''test'', lit ''ci''} \<and> \<not> env_truthy env ''CIVIC_LIVE_WIRING'' False"

definition stores_up :: "pings \<Rightarrow> bool" where
  "stores_up p \<longleftrightarrow> pg_ping p \<and> neo4j_ping p \<and> opensearch_ping p"

text \<open>
  The body of the \<open>try\<close>. The repository is set before the pipeline is built; an exception closes the connection and
  leaves the rest as it is.
\<close>

definition close_connection :: "process \<Rightarrow> process" where
  "close_connection p = p\<lparr>pr_connection := (if pr_connection p = NoConnection then NoConnection else Disconnected)\<rparr>"

definition wire :: "(step \<Rightarrow> bool) \<Rightarrow> process \<Rightarrow> process" where
  "wire fails p =
     (if fails MakeConnection then p
      else let p1 = p\<lparr>pr_connection := Connected\<rparr> in
        if fails SetAutocommit then close_connection p1
        else let p2 = p1\<lparr>pr_repository := PostgresRepository\<rparr> in
          if list_ex fails [MakeGraphDriver, MakeSearchClient, MakeResolverDriver, MakePipeline] then close_connection p2
          else p2\<lparr>pr_live_pipeline := True, pr_pg_state := True\<rparr>)"

definition startup :: "(string \<Rightarrow> pystr option) \<Rightarrow> pystr \<Rightarrow> pings \<Rightarrow> (step \<Rightarrow> bool) \<Rightarrow> process \<Rightarrow> process" where
  "startup env s_env p fails pr = (if skips_wiring env s_env \<or> \<not> stores_up p then pr else wire fails pr)"

text \<open>The \<open>finally\<close>, which only a startup that got past the pings reaches.\<close>

definition shutdown :: "(string \<Rightarrow> pystr option) \<Rightarrow> pystr \<Rightarrow> pings \<Rightarrow> process \<Rightarrow> process" where
  "shutdown env s_env p pr =
     (if skips_wiring env s_env \<or> \<not> stores_up p then pr
      else (close_connection pr)\<lparr>pr_live_pipeline := False, pr_repository := EmptyRepository\<rparr>)"

section \<open>Endpoints\<close>

text \<open>\<open>/readyz\<close>: the status code, the status and the components.\<close>

definition readyz :: "pings \<Rightarrow> nat \<times> string \<times> (string \<times> bool) list" where
  "readyz p =
     (let components = [(''postgres'', pg_ping p), (''neo4j'', neo4j_ping p), (''opensearch'', opensearch_ping p), (''minio'', minio_ping p)]
      in if list_all snd components then (200, ''ready'', components) else (503, ''not_ready'', components))"

text \<open>\<open>GET /persons/{id}\<close> on the repository the module starts with, which nothing replaces.\<close>

definition empty_person_fetch :: "pystr \<Rightarrow> pyval dict option" where
  "empty_person_fetch person_id = None"

definition get_person :: "(pystr \<Rightarrow> pyval dict option) \<Rightarrow> pystr \<Rightarrow> pyerr + pyval dict" where
  "get_person fetch person_id = (case fetch person_id of None \<Rightarrow> Inl (HTTPException 404) | Some c \<Rightarrow> Inr c)"

text \<open>A statement on a connection that is not open raises.\<close>

definition on_connection :: "connection \<Rightarrow> pyerr + 'a \<Rightarrow> pyerr + 'a" where
  "on_connection c r = (if c = Connected then r else Inl DatabaseError)"

text \<open>\<open>GET /review/tasks\<close> on the repository in place, and \<open>_get_pg_connection\<close> for the other two endpoints.\<close>

definition review_tasks :: "process \<Rightarrow> int \<Rightarrow> review_db \<Rightarrow> pyerr + review_task list" where
  "review_tasks pr limit db =
     (case pr_repository pr of
        EmptyRepository \<Rightarrow> list_review_tasks empty_list_open_tasks limit db
      | PostgresRepository \<Rightarrow> on_connection (pr_connection pr) (list_review_tasks list_open_tasks limit db))"

definition pg_connection_of :: "process \<Rightarrow> pyerr + connection" where
  "pg_connection_of pr = (if pr_pg_state pr then Inr (pr_connection pr) else Inl (HTTPException 503))"

text \<open>
  \<open>POST /claims/verify\<close> on the pipeline in place, which is the offline one unless the startup went through. A body that its
  model rejects is a 422.
\<close>

definition offline_pipeline :: pipeline where
  "offline_pipeline = \<lparr>pl_graph = None, pl_lexical = None, pl_resolver = None, pl_default_language = HE, pl_review = None\<rparr>"

definition get_pipeline :: "process \<Rightarrow> pipeline \<Rightarrow> pipeline" where
  "get_pipeline pr live = (if pr_live_pipeline pr then live else offline_pipeline)"

definition request_language :: "pyval option \<Rightarrow> language option" where
  "request_language v =
     (case v of
        None \<Rightarrow> Some HE
      | Some (PStr s) \<Rightarrow> if s = lit ''he'' then Some HE else if s = lit ''en'' then Some EN else None
      | Some _ \<Rightarrow> None)"

definition verify_claim ::
    "(pyval \<Rightarrow> pystr) \<Rightarrow> (nat \<Rightarrow> pystr) \<Rightarrow> nat \<Rightarrow> date \<Rightarrow> pipeline \<Rightarrow> pyval dict \<Rightarrow> review_db \<Rightarrow>
     review_db \<times> (pyerr + pyval dict list)" where
  "verify_claim rp uuid4 n today pl payload db =
     (case (vget payload (lit ''statement''), request_language (dget payload (lit ''language''))) of
        (PStr s, Some l) \<Rightarrow> if s = [] then (db, Inl (HTTPException 422)) else verify rp uuid4 n today pl s (Some l) db
      | _ \<Rightarrow> (db, Inl (HTTPException 422)))"

lemma verify_claim_offline:
  assumes "\<not> pr_live_pipeline pr" "vget payload (lit ''statement'') = PStr s" "s \<noteq> []"
    and "request_language (dget payload (lit ''language'')) = Some l"
  shows "\<exists>runs. verify_claim rp uuid4 n today (get_pipeline pr live) payload db = (db, Inr (map claim_payload runs)) \<and>
    list_all (\<lambda>run. vo_status (cl_outcome run) \<in> {NonCheckableVerdict, InsufficientEvidence}) runs"
proof -
  have "no_evidence offline_pipeline" by (simp add: no_evidence_def offline_pipeline_def)
  then have v: "\<exists>runs. verify_claims rp today offline_pipeline 0 cs db = (db, Inr runs) \<and>
      list_all (\<lambda>run. vo_status (cl_outcome run) \<in> {NonCheckableVerdict, InsufficientEvidence}) runs" for cs
    using verify_claims_nothing [of offline_pipeline rp today 0 cs db] by blast
  obtain n' r where "decompose uuid4 n s l None = Inr (n', r)" using decompose_no_llm by blast
  then show ?thesis
    using v [of "dr_claims r"] assms by (auto simp: verify_claim_def get_pipeline_def verify_def verify_runs_def)
qed

section \<open>What a startup leaves\<close>

text \<open>The steps after the repository was set.\<close>

definition client_steps :: "step list" where
  "client_steps = [MakeGraphDriver, MakeSearchClient, MakeResolverDriver, MakePipeline]"

definition wiring_starts :: "(string \<Rightarrow> pystr option) \<Rightarrow> pystr \<Rightarrow> pings \<Rightarrow> (step \<Rightarrow> bool) \<Rightarrow> bool" where
  "wiring_starts env s_env p fails \<longleftrightarrow>
     \<not> skips_wiring env s_env \<and> stores_up p \<and> \<not> fails MakeConnection \<and> \<not> fails SetAutocommit"

definition live_process :: process where
  "live_process = \<lparr>pr_connection = Connected, pr_repository = PostgresRepository, pr_live_pipeline = True, pr_pg_state = True\<rparr>"

definition half_wired_process :: process where
  "half_wired_process = \<lparr>pr_connection = Disconnected, pr_repository = PostgresRepository, pr_live_pipeline = False, pr_pg_state = False\<rparr>"

definition offline :: "process \<Rightarrow> bool" where
  "offline pr \<longleftrightarrow> pr_repository pr = EmptyRepository \<and> \<not> pr_live_pipeline pr \<and> pr_connection pr \<noteq> Connected"

lemma offline_tasks: "offline pr \<Longrightarrow> review_tasks pr limit db = Inr []"
  by (simp add: offline_def review_tasks_def list_review_tasks_def empty_list_open_tasks_def)

lemma half_wired_not_live: "half_wired_process \<noteq> live_process"
  by (simp add: half_wired_process_def live_process_def)

lemma half_wired_tasks:
  "review_tasks half_wired_process limit db = Inl DatabaseError" "pg_connection_of half_wired_process = Inl (HTTPException 503)"
  by (simp_all add: half_wired_process_def review_tasks_def on_connection_def pg_connection_of_def)

lemma live_tasks: "review_tasks live_process limit db = list_open_tasks limit db"
  by (simp add: live_process_def review_tasks_def on_connection_def list_review_tasks_def)

lemma startup_fresh:
  "startup env s_env p fails fresh_process =
     (if wiring_starts env s_env p fails then if list_ex fails client_steps then half_wired_process else live_process
      else if skips_wiring env s_env \<or> \<not> stores_up p \<or> fails MakeConnection then fresh_process
      else fresh_process\<lparr>pr_connection := Disconnected\<rparr>)"
  by (auto simp: startup_def wire_def wiring_starts_def client_steps_def fresh_process_def live_process_def half_wired_process_def
      close_connection_def Let_def)

lemma shutdown_offline:
  "skips_wiring env s_env \<or> \<not> stores_up p \<Longrightarrow> offline pr \<Longrightarrow> offline (shutdown env s_env p pr)"
  "\<not> (skips_wiring env s_env \<or> \<not> stores_up p) \<Longrightarrow> offline (shutdown env s_env p pr)"
  by (simp_all add: shutdown_def offline_def close_connection_def)

text \<open>
  Claim C35. A startup of a fresh process leaves one of three states. It is live on an open connection exactly when the wiring
  was attempted and no step of it failed, and half wired exactly when the connection was set up and a client after it could not
  be made; otherwise everything is offline and the task list is empty. The half-wired process keeps the Postgres repository
  on the connection it has just closed, so listing the review tasks raises, although the log says the queue stays on the
  empty repository, while the endpoints that want the connection answer 503. After the shutdown the repository
  is the empty one again, no pipeline is live and no connection is open.
\<close>

theorem startup_states:
  assumes "startup env s_env p fails fresh_process = pr"
  shows "(pr = live_process \<longleftrightarrow> wiring_starts env s_env p fails \<and> \<not> list_ex fails client_steps) \<and>
    (pr = half_wired_process \<longleftrightarrow> wiring_starts env s_env p fails \<and> list_ex fails client_steps) \<and>
    (offline pr \<longleftrightarrow> \<not> wiring_starts env s_env p fails) \<and>
    review_tasks pr limit db =
      (if pr = live_process then list_open_tasks limit db else if pr = half_wired_process then Inl DatabaseError else Inr []) \<and>
    (pg_connection_of pr = Inr Connected \<longleftrightarrow> pr = live_process) \<and>
    offline (shutdown env s_env p pr) \<and> review_tasks (shutdown env s_env p pr) limit db = Inr []"
proof -
  have distinct: "live_process \<noteq> half_wired_process" "\<not> offline live_process" "\<not> offline half_wired_process"
    "offline fresh_process" "offline (fresh_process\<lparr>pr_connection := Disconnected\<rparr>)"
    by (simp_all add: live_process_def half_wired_process_def offline_def fresh_process_def)
  have pg: "pg_connection_of live_process = Inr Connected" "pg_connection_of half_wired_process \<noteq> Inr Connected"
    "pg_connection_of fresh_process \<noteq> Inr Connected" "pg_connection_of (fresh_process\<lparr>pr_connection := Disconnected\<rparr>) \<noteq> Inr Connected"
    by (simp_all add: pg_connection_of_def live_process_def half_wired_process_def fresh_process_def)
  have down: "offline (shutdown env s_env p pr)"
    using assms distinct shutdown_offline [of env s_env p pr] by (auto simp: startup_fresh wiring_starts_def split: if_splits)
  have off: "offline pr \<longleftrightarrow> pr \<noteq> live_process \<and> pr \<noteq> half_wired_process"
    using assms distinct by (auto simp: startup_fresh split: if_splits)
  have "review_tasks pr limit db =
      (if pr = live_process then list_open_tasks limit db else if pr = half_wired_process then Inl DatabaseError else Inr [])"
    using off offline_tasks [of pr limit db] by (auto simp: live_tasks half_wired_tasks)
  moreover have "pr = live_process \<longleftrightarrow> wiring_starts env s_env p fails \<and> \<not> list_ex fails client_steps"
    "pr = half_wired_process \<longleftrightarrow> wiring_starts env s_env p fails \<and> list_ex fails client_steps"
    using assms distinct by (auto simp: startup_fresh split: if_splits)
  moreover have "pg_connection_of pr = Inr Connected \<longleftrightarrow> pr = live_process"
    using assms distinct pg by (auto simp: startup_fresh split: if_splits)
  ultimately show ?thesis using off down offline_tasks by blast
qed

text \<open>Everything is up and the Neo4j driver of the graph retriever cannot be made.\<close>

theorem startup_states_witness:
  "let up = \<lparr>pg_ping = True, neo4j_ping = True, opensearch_ping = True, minio_ping = True\<rparr>;
       pr = startup (\<lambda>_. None) (lit ''dev'') up (\<lambda>s. s = MakeGraphDriver) fresh_process
   in pr = half_wired_process \<and> review_tasks pr 50 \<lparr>tasks = [], actions = [], candidates = []\<rparr> = Inl DatabaseError \<and>
      offline (shutdown (\<lambda>_. None) (lit ''dev'') up pr)"
proof -
  have "wiring_starts (\<lambda>_. None) (lit ''dev'') \<lparr>pg_ping = True, neo4j_ping = True, opensearch_ping = True, minio_ping = True\<rparr> (\<lambda>s. s = MakeGraphDriver)"
    by (simp add: wiring_starts_def skips_wiring_def stores_up_def)
  then show ?thesis
    using startup_states [OF refl, of "\<lambda>_. None" "lit ''dev''" "\<lparr>pg_ping = True, neo4j_ping = True, opensearch_ping = True, minio_ping = True\<rparr>"
        "\<lambda>s. s = MakeGraphDriver" 50 "\<lparr>tasks = [], actions = [], candidates = []\<rparr>"]
    by (auto simp: client_steps_def Let_def half_wired_not_live)
qed

end
