(* ===== verification/Adapter_Cli.thy ===== *)
theory Adapter_Cli
  imports Elections
begin

text \<open>
  The source manifests (\<open>civic_ingest/manifest.py\<close>) and the command lines of the eight Knesset adapters
  (\<open>services/ingestion/knesset/*/cli.py\<close>): a manifest is validated, a run is opened, the adapter loop runs with the callbacks
  of the adapter, and \<open>--dry-run\<close> replaces the archiver and the upsert by functions that do nothing. YAML reading, the URL
  check of pydantic and the HTTP server are parameters.
\<close>

section \<open>Source manifests\<close>

definition source_families :: "string list" where
  "source_families = [''knesset'', ''gov_il'', ''elections'']"

definition parser_kinds :: "string list" where
  "parser_kinds = [''structured_json'', ''structured_csv'', ''csv'', ''html'', ''pdf'', ''odata_json'']"

definition adapter_kinds :: "string list" where
  "adapter_kinds = [''people'', ''committees'', ''votes'', ''sponsorships'', ''attendance'', ''positions'', ''bill_initiators'',
     ''committee_memberships'', ''election_results'', ''government_decisions'']"

text \<open>A field of type \<open>Literal[...]\<close>.\<close>

definition literal_of :: "string list \<Rightarrow> pyval \<Rightarrow> string option" where
  "literal_of names v = (case v of PStr s \<Rightarrow> find (\<lambda>n. lit n = s) names | _ \<Rightarrow> None)"

definition nullable_text :: "pyval \<Rightarrow> bool" where
  "nullable_text v \<longleftrightarrow> (case v of PNone \<Rightarrow> True | PStr _ \<Rightarrow> True | _ \<Rightarrow> False)"

record entity_hints =
  eh_hebrew_name_field :: pyval
  eh_external_id_field :: pyval
  eh_locale :: string

text \<open>\<open>extra="forbid"\<close>.\<close>

definition only_fields :: "string list \<Rightarrow> pyval dict \<Rightarrow> bool" where
  "only_fields names d \<longleftrightarrow> (\<forall>(k, _) \<in> set d. k \<in> lit ` set names)"

definition validate_hints :: "pyval \<Rightarrow> entity_hints option" where
  "validate_hints v =
     (case v of
        PDict d \<Rightarrow>
          (let h = vget d (lit ''hebrew_name_field''); x = vget d (lit ''external_id_field'');
               locale_value = (case dget d (lit ''locale'') of None \<Rightarrow> PLit ''he'' | Some l \<Rightarrow> l) in
           if only_fields [''hebrew_name_field'', ''external_id_field'', ''locale''] d \<and> nullable_text h \<and> nullable_text x then
             (case literal_of [''he'', ''en''] locale_value of None \<Rightarrow> None
              | Some l \<Rightarrow> Some \<lparr>eh_hebrew_name_field = h, eh_external_id_field = x, eh_locale = l\<rparr>)
           else None)
      | _ \<Rightarrow> None)"

record source_manifest =
  so_entry :: manifest_entry
  so_parser :: string
  so_cadence_cron :: pystr
  so_entity_hints :: entity_hints

text \<open>\<open>SourceManifest.model_validate\<close>. A field that is missing reads as \<open>None\<close>, which no required field accepts.\<close>

definition validate_manifest :: "(pyval \<Rightarrow> pystr option) \<Rightarrow> pyval \<Rightarrow> pyerr + source_manifest" where
  "validate_manifest http_url data =
     (case data of
        PDict d \<Rightarrow>
          (let field = (\<lambda>k. vget d (lit k));
               hints = (case dget d (lit ''entity_hints'') of None \<Rightarrow> PDict [] | Some v \<Rightarrow> v) in
           case (literal_of source_families (field ''family''), literal_of adapter_kinds (field ''adapter''),
                 http_url (field ''source_url''), field ''source_tier'', literal_of parser_kinds (field ''parser''),
                 field ''cadence_cron'', validate_hints hints) of
             (Some family, Some adapter, Some url, PInt tier, Some parser, PStr cron, Some h) \<Rightarrow>
               if tier \<in> {1, 2, 3} \<and>
                 only_fields [''family'', ''adapter'', ''source_url'', ''source_tier'', ''parser'', ''cadence_cron'', ''entity_hints''] d
               then Inr \<lparr>so_entry = \<lparr>mf_family = lit family, mf_adapter = adapter, mf_source_url = url, mf_source_tier = tier\<rparr>,
                 so_parser = parser, so_cadence_cron = cron, so_entity_hints = h\<rparr>
               else Inl ValidationError
           | _ \<Rightarrow> Inl ValidationError)
      | _ \<Rightarrow> Inl ValidationError)"

text \<open>\<open>yaml.safe_load(...) or {}\<close>, or what reading the file raised.\<close>

definition load_manifest :: "(pyval \<Rightarrow> pystr option) \<Rightarrow> pyerr + pyval \<Rightarrow> pyerr + source_manifest" where
  "load_manifest http_url yaml = bind_err yaml (\<lambda>v. validate_manifest http_url (py_or v (PDict [])))"

text \<open>\<open>load_all_manifests\<close> on the files below \<open>manifests\<close> directories, sorted: the first one that fails ends it.\<close>

definition load_all_manifests :: "(pyval \<Rightarrow> pystr option) \<Rightarrow> (pystr \<times> (pyerr + pyval)) list \<Rightarrow> pyerr + source_manifest list" where
  "load_all_manifests http_url files =
     collect (\<lambda>(name, yaml). if py_prefix (lit ''_'') name then Inr None
       else bind_err (load_manifest http_url yaml) (\<lambda>m. Inr (Some m))) files"

section \<open>The command line of an adapter\<close>

text \<open>What an adapter hands to \<open>run_adapter\<close>: its extension, page parser, row parser, and normalizer with upsert.\<close>

record callbacks =
  cb_ext :: string
  cb_page_parser :: "nat list \<Rightarrow> pyerr + odata_page"
  cb_parse :: "pyval list \<Rightarrow> row gen"
  cb_normalize :: "row \<Rightarrow> call list gen"

text \<open>
  What a run works against: the answer of the server to an address, which does not change during a run, the archiver at
  the page of an address, \<open>datetime()\<close> of Cypher and the two URL functions of the loop; beside them the manifest file, the URL
  check of its validation, the libraries of the adapters and the time of the normalization.
\<close>

record cli_env =
  ce_fetch :: "pystr \<Rightarrow> pyerr + fetch_result"
  ce_archive :: "pystr \<Rightarrow> archive_env"
  ce_dtm :: "pyval \<Rightarrow> pyval option"
  ce_has_scheme :: "pystr \<Rightarrow> bool"
  ce_urljoin :: "pystr \<Rightarrow> pystr \<Rightarrow> pystr"
  ce_http_url :: "pyval \<Rightarrow> pystr option"
  ce_manifest :: "pyerr + pyval"
  ce_libs :: seed_libs
  ce_now :: pystr

text \<open>Every page is archived under the address of the manifest.\<close>

definition cli_archive ::
    "cli_env \<Rightarrow> manifest_entry \<Rightarrow> string \<Rightarrow> int \<Rightarrow> fetch_result \<Rightarrow> run_state \<Rightarrow> run_state \<times> (pyerr + archive_record option)" where
  "cli_archive env mf ext db_id fr st =
     (case archive_payload (ce_archive env (fr_url fr)) False (mf_family mf) (mf_source_url mf) fr db_id (mf_source_tier mf)
         (Some (lit ext)) (rs_archive st) of
        (a, Inl e) \<Rightarrow> (st\<lparr>rs_archive := a, rs_aborted := rs_aborted st \<or> e = DatabaseError\<rparr>, Inl e)
      | (a, Inr r) \<Rightarrow> (st\<lparr>rs_archive := a\<rparr>, Inr (Some r)))"

definition cli_adapter :: "cli_env \<Rightarrow> manifest_entry \<Rightarrow> callbacks \<Rightarrow> bool \<Rightarrow> int \<Rightarrow> (run_state, call list) adapter" where
  "cli_adapter env mf cb dry db_id =
     \<lparr>ad_fetch = (\<lambda>url st. (st, ce_fetch env url)),
      ad_archive = Some (if dry then (\<lambda>fr st. (st, Inr None)) else cli_archive env mf (cb_ext cb) db_id),
      ad_page_parser = cb_page_parser cb, ad_parse = cb_parse cb, ad_normalize = cb_normalize cb,
      ad_upsert = (if dry then (\<lambda>cs st. (st, None))
        else (\<lambda>cs st. case run_calls (ce_dtm env) cs (rs_graph st) of (g, e) \<Rightarrow> (st\<lparr>rs_graph := g\<rparr>, e))),
      ad_has_scheme = ce_has_scheme env, ad_urljoin = ce_urljoin env\<rparr>"

text \<open>The \<open>with IngestRun(...)\<close> block. Not returning is \<open>None\<close>.\<close>

definition cli_run ::
    "cli_env \<Rightarrow> manifest_entry \<Rightarrow> callbacks \<Rightarrow> bool \<Rightarrow> int option \<Rightarrow> nat \<Rightarrow> pyerr option \<Rightarrow> world \<Rightarrow>
     (world \<times> (pyerr + adapter_result)) option" where
  "cli_run env mf cb dry max_pages run_id exit_err w =
     (case enter_run run_id (mf_family mf) w of
        (w1, Inl e) \<Rightarrow> Some (w1, Inl e)
      | (w1, Inr i) \<Rightarrow>
          (case run_adapter (cli_adapter env mf cb dry i) (mf_source_url mf) max_pages
              \<lparr>rs_archive = w_archive w1, rs_aborted = False, rs_graph = w_graph w1, rs_stats = []\<rparr> of
             None \<Rightarrow> None
           | Some (st, Inl e) \<Rightarrow> Some (with_run run_id (mf_family mf) exit_err (\<lambda>_ _. (st, Inl e)) w)
           | Some (st, Inr res) \<Rightarrow> Some (with_run run_id (mf_family mf) exit_err
               (\<lambda>_ _. (add_stats (adapter_stats (Some (mf_adapter mf)) res) st, Inr res)) w)))"

section \<open>The eight adapters\<close>

definition people_callbacks :: "seed_libs \<Rightarrow> pystr \<Rightarrow> callbacks" where
  "people_callbacks l now = \<lparr>cb_ext = ''json'', cb_page_parser = parse_odata_page (sl_jl l), cb_parse = parse_persons (sl_rp l),
     cb_normalize = (\<lambda>r. gen_map (fst \<circ> upsert_person (sl_jd l) now) (normalize_person (sl_u5 l) (sl_rp l) (sl_nfc l) r))\<rparr>"

definition committees_callbacks :: "seed_libs \<Rightarrow> pystr \<Rightarrow> callbacks" where
  "committees_callbacks l now = \<lparr>cb_ext = ''json'', cb_page_parser = parse_odata_page (sl_jl l), cb_parse = parse_committees (sl_rp l),
     cb_normalize = (\<lambda>r. gen_map (fst \<circ> upsert_committee now) (normalize_committee (sl_u5 l) (sl_rp l) r))\<rparr>"

definition positions_callbacks :: "seed_libs \<Rightarrow> callbacks" where
  "positions_callbacks l = \<lparr>cb_ext = ''json'', cb_page_parser = parse_odata_page (sl_jl l), cb_parse = parse_positions (sl_rp l),
     cb_normalize = (\<lambda>r. gen_map (fst \<circ> upsert_position) (normalize_position (sl_u5 l) (sl_rp l) r))\<rparr>"

definition committee_memberships_callbacks :: "seed_libs \<Rightarrow> mk_lookup \<Rightarrow> callbacks" where
  "committee_memberships_callbacks l lookup = \<lparr>cb_ext = ''csv'', cb_page_parser = parse_csv_page (sl_cr l),
     cb_parse = parse_committee_memberships,
     cb_normalize = (\<lambda>r. gen_map (fst \<circ> upsert_committee_membership) (normalize_committee_membership (sl_u5 l) (sl_rp l) lookup r))\<rparr>"

definition sponsorships_callbacks :: "seed_libs \<Rightarrow> callbacks" where
  "sponsorships_callbacks l = \<lparr>cb_ext = ''json'', cb_page_parser = parse_odata_page (sl_jl l), cb_parse = parse_bills (sl_rp l),
     cb_normalize = (\<lambda>r. gen_map (fst \<circ> upsert_bill) (normalize_bill (sl_u5 l) (sl_rp l) r))\<rparr>"

definition bill_initiators_callbacks :: "seed_libs \<Rightarrow> callbacks" where
  "bill_initiators_callbacks l = \<lparr>cb_ext = ''json'', cb_page_parser = parse_odata_page (sl_jl l), cb_parse = parse_bill_initiators (sl_rp l),
     cb_normalize = (\<lambda>r. gen_map (fst \<circ> upsert_bill_sponsorship) (normalize_bill_initiator (sl_u5 l) (sl_rp l) r))\<rparr>"

definition votes_callbacks :: "seed_libs \<Rightarrow> callbacks" where
  "votes_callbacks l = \<lparr>cb_ext = ''csv'', cb_page_parser = parse_csv_page (sl_cr l), cb_parse = parse_votes (sl_rp l),
     cb_normalize = (\<lambda>r. gen_map (fst \<circ> upsert_vote) (normalize_vote (sl_u5 l) (sl_rp l) r))\<rparr>"

definition attendance_callbacks :: "seed_libs \<Rightarrow> mk_lookup \<Rightarrow> callbacks" where
  "attendance_callbacks l lookup = \<lparr>cb_ext = ''csv'', cb_page_parser = parse_csv_page (sl_cr l), cb_parse = parse_attendance (sl_rp l),
     cb_normalize = (\<lambda>r. gen_map (fst \<circ> upsert_attendance) (normalize_attendance (sl_u5 l) (sl_rp l) (sl_js l) (Some lookup) r))\<rparr>"

text \<open>A page limit, a dry run, the identifier of the run and what its closing statement raises.\<close>

record cli_args =
  ca_max_pages :: "int option"
  ca_dry_run :: bool
  ca_run_id :: nat
  ca_exit_error :: "pyerr option"

type_synonym cli_outcome = "(world \<times> (pyerr + adapter_result)) option"

definition cli_main :: "callbacks \<Rightarrow> cli_env \<Rightarrow> cli_args \<Rightarrow> world \<Rightarrow> cli_outcome" where
  "cli_main cb env ca w =
     (case load_manifest (ce_http_url env) (ce_manifest env) of
        Inl e \<Rightarrow> Some (w, Inl e)
      | Inr m \<Rightarrow> cli_run env (so_entry m) cb (ca_dry_run ca) (ca_max_pages ca) (ca_run_id ca) (ca_exit_error ca) w)"

text \<open>Two adapters first fetch the table from one numbering of the members to the other, before the run is opened.\<close>

definition MK_INDIVIDUAL_URL :: pystr where
  "MK_INDIVIDUAL_URL = lit ''https://production.oknesset.org/pipelines/data/members/mk_individual/mk_individual.csv''"

definition fetch_lookup :: "cli_env \<Rightarrow> pyerr + mk_lookup" where
  "fetch_lookup env = bind_err (ce_fetch env MK_INDIVIDUAL_URL) (\<lambda>fr.
     bind_err (sl_cr (ce_libs env) (fr_content fr)) parse_mk_csv)"

definition lookup_main :: "(mk_lookup \<Rightarrow> callbacks) \<Rightarrow> cli_env \<Rightarrow> cli_args \<Rightarrow> world \<Rightarrow> cli_outcome" where
  "lookup_main cb env ca w =
     (case load_manifest (ce_http_url env) (ce_manifest env) of
        Inl e \<Rightarrow> Some (w, Inl e)
      | Inr m \<Rightarrow>
          (case fetch_lookup env of
             Inl e \<Rightarrow> Some (w, Inl e)
           | Inr lookup \<Rightarrow> cli_run env (so_entry m) (cb lookup) (ca_dry_run ca) (ca_max_pages ca) (ca_run_id ca) (ca_exit_error ca) w))"

definition people_main :: "cli_env \<Rightarrow> cli_args \<Rightarrow> world \<Rightarrow> cli_outcome" where
  "people_main env = cli_main (people_callbacks (ce_libs env) (ce_now env)) env"

definition committees_main :: "cli_env \<Rightarrow> cli_args \<Rightarrow> world \<Rightarrow> cli_outcome" where
  "committees_main env = cli_main (committees_callbacks (ce_libs env) (ce_now env)) env"

definition positions_main :: "cli_env \<Rightarrow> cli_args \<Rightarrow> world \<Rightarrow> cli_outcome" where
  "positions_main env = cli_main (positions_callbacks (ce_libs env)) env"

definition committee_memberships_main :: "cli_env \<Rightarrow> cli_args \<Rightarrow> world \<Rightarrow> cli_outcome" where
  "committee_memberships_main env = lookup_main (committee_memberships_callbacks (ce_libs env)) env"

definition sponsorships_main :: "cli_env \<Rightarrow> cli_args \<Rightarrow> world \<Rightarrow> cli_outcome" where
  "sponsorships_main env = cli_main (sponsorships_callbacks (ce_libs env)) env"

definition bill_initiators_main :: "cli_env \<Rightarrow> cli_args \<Rightarrow> world \<Rightarrow> cli_outcome" where
  "bill_initiators_main env = cli_main (bill_initiators_callbacks (ce_libs env)) env"

definition votes_main :: "cli_env \<Rightarrow> cli_args \<Rightarrow> world \<Rightarrow> cli_outcome" where
  "votes_main env = cli_main (votes_callbacks (ce_libs env)) env"

definition attendance_main :: "cli_env \<Rightarrow> cli_args \<Rightarrow> world \<Rightarrow> cli_outcome" where
  "attendance_main env = lookup_main (attendance_callbacks (ce_libs env)) env"

text \<open>The demo seed replays exactly these adapters.\<close>

definition step_callbacks :: "seed_step \<Rightarrow> callbacks" where
  "step_callbacks s = \<lparr>cb_ext = sd_ext s, cb_page_parser = sd_page_parser s, cb_parse = sd_parse s, cb_normalize = sd_normalize s\<rparr>"

lemma seed_replays_adapters:
  "map step_callbacks (seed_steps l now lookup cassette) =
     [people_callbacks l now, committees_callbacks l now, positions_callbacks l, committee_memberships_callbacks l lookup,
      sponsorships_callbacks l, bill_initiators_callbacks l, votes_callbacks l, attendance_callbacks l lookup]"
  by (simp add: seed_steps_def Let_def step_callbacks_def people_callbacks_def committees_callbacks_def positions_callbacks_def
      committee_memberships_callbacks_def sponsorships_callbacks_def bill_initiators_callbacks_def votes_callbacks_def
      attendance_callbacks_def)

section \<open>Dry runs\<close>

lemma cli_adapter_simps [simp]:
  "ad_fetch (cli_adapter env mf cb dry i) url st = (st, ce_fetch env url)"
  "ad_page_parser (cli_adapter env mf cb dry i) = cb_page_parser cb" "ad_parse (cli_adapter env mf cb dry i) = cb_parse cb"
  "ad_normalize (cli_adapter env mf cb dry i) = cb_normalize cb"
  "ad_upsert (cli_adapter env mf cb True i) cs st = (st, None)"
  "ad_archive (cli_adapter env mf cb True i) = Some (\<lambda>fr st. (st, Inr None))"
  by (simp_all add: cli_adapter_def)

lemma cli_next_url: "next_url (cli_adapter env mf cb dry i) = next_url (cli_adapter env mf cb True 0)"
  by (intro ext) (simp add: cli_adapter_def next_url_def split: pyval.split)

text \<open>Two results that differ in the addresses of archived pages only.\<close>

definition same_counts :: "adapter_result \<Rightarrow> adapter_result \<Rightarrow> bool" where
  "same_counts a b \<longleftrightarrow> ar_pages a = ar_pages b \<and> ar_rows_parsed a = ar_rows_parsed b \<and> ar_rows_upserted a = ar_rows_upserted b"

lemma upsert_records_dry:
  "upsert_records (ad_upsert (cli_adapter env mf cb True i)) ns res st =
     (st, Inr (res\<lparr>ar_rows_upserted := ar_rows_upserted res + length ns\<rparr>))"
  by (induction ns arbitrary: res) simp_all

lemma upsert_records_count:
  "upsert_records up ns res st = (st', Inr res') \<Longrightarrow> res' = res\<lparr>ar_rows_upserted := ar_rows_upserted res + length ns\<rparr>"
  by (induction up ns res st rule: upsert_records.induct) (auto split: prod.splits option.splits)

lemma process_rows_dry: "fst (process_rows (cli_adapter env mf cb True i) rs res st) = st"
  by (induction rs arbitrary: res) (auto simp: upsert_records_dry split: prod.splits option.splits)

lemma process_rows_forecast:
  assumes "process_rows (cli_adapter env mf cb False i) rs res st = (st', Inr res')" "same_counts res0 res"
  shows "\<exists>res0'. process_rows (cli_adapter env mf cb True j) rs res0 st0 = (st0, Inr res0') \<and> same_counts res0' res'"
  using assms
proof (induction rs arbitrary: res res0 st)
  case (Cons r rs)
  let ?L = "cli_adapter env mf cb False i"
  obtain ns err where n: "cb_normalize cb r = (ns, err)" by fastforce
  obtain st1 res1 where u: "upsert_records (ad_upsert ?L) ns (res\<lparr>ar_rows_parsed := ar_rows_parsed res + 1\<rparr>) st = (st1, Inr res1)"
    and e: "err = None" and p: "process_rows ?L rs res1 st1 = (st', Inr res')"
    using Cons.prems(1) n by (auto split: prod.splits sum.splits option.splits)
  have "same_counts (res0\<lparr>ar_rows_parsed := ar_rows_parsed res0 + 1, ar_rows_upserted := ar_rows_upserted res0 + length ns\<rparr>) res1"
    using Cons.prems(2) upsert_records_count [OF u] by (simp add: same_counts_def)
  then show ?case using Cons.IH [OF p] by (simp add: n e upsert_records_dry)
qed (simp add: exI)

lemma archive_page_dry: "archive_page (cli_adapter env mf cb True i) fr res st = (st, Inr res)"
  by (simp add: archive_page_def)

lemma archive_page_count: "archive_page ad fr res st = (st', Inr res') \<Longrightarrow> same_counts res' res"
  by (auto simp: archive_page_def same_counts_def split: option.splits prod.splits sum.splits if_splits)

lemma run_page_dry: "fst (run_page (cli_adapter env mf cb True i) url res st) = st"
proof -
  have "process_rows (cli_adapter env mf cb True i) rs r s = (s', x) \<Longrightarrow> s' = s" for rs r s s' x
    using process_rows_dry [of env mf cb i rs r s] by simp
  then show ?thesis by (auto simp: run_page_def archive_page_dry split: prod.splits sum.splits option.splits)
qed

lemma run_page_forecast:
  assumes "run_page (cli_adapter env mf cb False i) url res st = (st', Inr (res', page))" "same_counts res0 res"
  shows "\<exists>res0'. run_page (cli_adapter env mf cb True j) url res0 st0 = (st0, Inr (res0', page)) \<and> same_counts res0' res'"
proof -
  obtain fr st2 res1 rows res2 where p: "ce_fetch env url = Inr fr" "cb_page_parser cb (fr_content fr) = Inr page"
    "archive_page (cli_adapter env mf cb False i) fr res st = (st2, Inr res1)" "cb_parse cb (op_value page) = (rows, None)"
    "process_rows (cli_adapter env mf cb False i) rows res1 st2 = (st', Inr res2)" "res' = res2\<lparr>ar_pages := ar_pages res2 + 1\<rparr>"
    using assms(1) by (auto simp: run_page_def split: prod.splits sum.splits option.splits)
  have "same_counts res0 res1" using assms(2) archive_page_count [OF p(3)] by (simp add: same_counts_def)
  then obtain res0' where "process_rows (cli_adapter env mf cb True j) rows res0 st0 = (st0, Inr res0')" "same_counts res0' res2"
    using process_rows_forecast [OF p(5)] by blast
  then show ?thesis by (simp add: run_page_def p(1,2,4,6) archive_page_dry same_counts_def)
qed

lemma adapter_loop_dry:
  assumes "adapter_loop (cli_adapter env mf cb True i) m url n res st = Some (st', out)"
  shows "st' = st"
proof -
  have "a = cli_adapter env mf cb True i \<Longrightarrow> fst x = s" if "adapter_loop a m u n r s = Some x" for a m u n r s x
    using that
  proof (induction rule: adapter_loop.raw_induct [rotated, consumes 1])
    case (1 loop a m u n r s y)
    have "fst (run_page a u r s) = s" using run_page_dry 1(3) by simp
    then show ?case using 1 by (auto split: prod.splits sum.splits option.splits if_splits)
  qed
  then show ?thesis using assms by fastforce
qed

lemma adapter_loop_forecast:
  assumes "adapter_loop (cli_adapter env mf cb False i) m url n res st = Some (st', Inr res')" "same_counts res0 res"
  shows "\<exists>res0'. adapter_loop (cli_adapter env mf cb True j) m url n res0 st0 = Some (st0, Inr res0') \<and> same_counts res0' res'"
proof -
  let ?L = "cli_adapter env mf cb False i" and ?D = "cli_adapter env mf cb True j"
  have "a = ?L \<Longrightarrow> x = (st', Inr res') \<Longrightarrow> same_counts r0 r \<Longrightarrow>
      \<exists>res0'. adapter_loop ?D m u n r0 st0 = Some (st0, Inr res0') \<and> same_counts res0' res'"
    if "adapter_loop a m u n r s = Some x" for a m u n r s x r0
    using that
  proof (induction arbitrary: r0 rule: adapter_loop.raw_induct [rotated, consumes 1])
    case (1 loop a m u n r s y)
    obtain s1 r1 page where p: "run_page ?L u r s = (s1, Inr (r1, page))"
      using 1(2-4) by (auto split: prod.splits sum.splits)
    obtain d1 where d: "run_page ?D u r0 st0 = (st0, Inr (d1, page))" "same_counts d1 r1"
      using run_page_forecast [OF p 1(5)] by blast
    note nu = cli_next_url [of env mf cb False i] cli_next_url [of env mf cb True j]
    show ?case
    proof (cases "page_limit m (n + 1)")
      case True
      then show ?thesis using 1(2-4) p d by (subst adapter_loop.simps) simp
    next
      case False
      obtain v where v: "next_url (cli_adapter env mf cb True 0) u page = Inr v"
        using 1(2-4) p False by (cases "next_url (cli_adapter env mf cb True 0) u page") (simp_all add: nu)
      show ?thesis
      proof (cases v)
        case None
        then show ?thesis using 1(2-4) p d False v by (subst adapter_loop.simps) (simp add: nu)
      next
        case (Some w)
        then have "loop ?L m w (n + 1) r1 s1 = Some y" using 1(2-3) p False v by (simp add: nu)
        from 1(1) [OF this refl 1(4) d(2)] show ?thesis
          using d False v Some by (subst adapter_loop.simps) (simp add: nu)
      qed
    qed
  qed
  then show ?thesis using assms by blast
qed

text \<open>What a run of the command line amounts to, once its identifier is fresh and its closing statement succeeds.\<close>

lemma cli_run_cases:
  assumes "run_id \<notin> ir_run_id ` set (w_runs w)" "cli_run env mf cb dry m run_id None w = Some (w', out)"
  obtains st r where "run_adapter (cli_adapter env mf cb dry (w_next w)) (mf_source_url mf) m
      \<lparr>rs_archive = (w_archive w)\<lparr>as_run_ids := as_run_ids (w_archive w) @ [w_next w]\<rparr>, rs_aborted = False,
       rs_graph = w_graph w, rs_stats = []\<rparr> = Some (st, r)"
    "rs_aborted st \<longrightarrow> isl out" "\<not> rs_aborted st \<longrightarrow> out = r"
    "\<not> rs_aborted st \<longrightarrow> w_graph w' = rs_graph st \<and> w_archive w' = rs_archive st \<and>
       (\<exists>row. w_runs w' = w_runs w @ [row] \<and> ir_status row = (if isl r then ''failed'' else ''succeeded'') \<and>
          ir_stats row = (case r of Inl _ \<Rightarrow> rs_stats st | Inr res \<Rightarrow> rs_stats (add_stats (adapter_stats (Some (mf_adapter mf)) res) st)))"
proof -
  let ?st = "\<lparr>rs_archive = (w_archive w)\<lparr>as_run_ids := as_run_ids (w_archive w) @ [w_next w]\<rparr>, rs_aborted = False,
       rs_graph = w_graph w, rs_stats = []\<rparr>"
  have same: "map (\<lambda>r. if ir_run_id r = run_id then f r else r) (w_runs w) = w_runs w" for f
    using assms(1) by (intro map_idI) auto
  obtain st r where a: "run_adapter (cli_adapter env mf cb dry (w_next w)) (mf_source_url mf) m ?st = Some (st, r)"
    using assms by (auto simp: cli_run_def enter_run_def Let_def split: option.splits)
  show thesis
    by (rule that [OF a]) (use assms a same in \<open>auto simp: cli_run_def enter_run_def Let_def with_run_def exit_run_def
      add_stats_def split: sum.splits if_splits\<close>)
qed

text \<open>
  Claim C36. A dry run of an adapter, whatever the adapter and however the run ends, writes nothing to the graph, to the
  archived rows or to the object store; it only leaves its row in \<open>ingest_runs\<close>. It forecasts the real run: if a run
  of the same command succeeds, in whatever state of the stores, the dry run succeeds too, with the same numbers of pages,
  of parsed rows and of upserts. Its row says so as well: it reports the upserts as if they had been made.
\<close>

theorem dry_run_forecasts:
  assumes "run_id \<notin> ir_run_id ` set (w_runs w)" "cli_run env mf cb True m run_id None w = Some (wd, out)"
  shows "w_graph wd = w_graph w \<and> w_archive wd = (w_archive w)\<lparr>as_run_ids := as_run_ids (w_archive w) @ [w_next w]\<rparr> \<and>
    (\<exists>row. w_runs wd = w_runs w @ [row] \<and> ir_status row = (if isl out then ''failed'' else ''succeeded'') \<and>
       (\<forall>res. out = Inr res \<longrightarrow> ir_stats row = adapter_stats (Some (mf_adapter mf)) res)) \<and>
    (\<forall>rid v wl res. rid \<notin> ir_run_id ` set (w_runs v) \<longrightarrow> cli_run env mf cb False m rid None v = Some (wl, Inr res) \<longrightarrow>
       (\<exists>r. out = Inr r \<and> same_counts r res))"
proof -
  let ?st = "\<lparr>rs_archive = (w_archive w)\<lparr>as_run_ids := as_run_ids (w_archive w) @ [w_next w]\<rparr>, rs_aborted = False,
       rs_graph = w_graph w, rs_stats = []\<rparr>"
  obtain st r where a: "run_adapter (cli_adapter env mf cb True (w_next w)) (mf_source_url mf) m ?st = Some (st, r)"
    and ab: "rs_aborted st \<longrightarrow> isl out" and st: "\<not> rs_aborted st \<longrightarrow> out = r" "\<not> rs_aborted st \<longrightarrow> w_graph wd = rs_graph st \<and> w_archive wd = rs_archive st \<and>
       (\<exists>row. w_runs wd = w_runs w @ [row] \<and> ir_status row = (if isl r then ''failed'' else ''succeeded'') \<and>
          ir_stats row = (case r of Inl _ \<Rightarrow> rs_stats st | Inr res \<Rightarrow> rs_stats (add_stats (adapter_stats (Some (mf_adapter mf)) res) st)))"
    using assms by (rule cli_run_cases)
  have s: "st = ?st" using a adapter_loop_dry by (auto simp: run_adapter_def)
  have stats: "rs_stats (add_stats (adapter_stats (Some x) res) ?st) = adapter_stats (Some x) res" for x res
    by (simp add: add_stats_def adapter_stats_def)
  have same: "\<exists>r'. out = Inr r' \<and> same_counts r' res"
    if live: "rid \<notin> ir_run_id ` set (w_runs v)" "cli_run env mf cb False m rid None v = Some (wl, Inr res)" for rid v wl res
  proof -
    obtain s1 r1 where l: "run_adapter (cli_adapter env mf cb False (w_next v)) (mf_source_url mf) m
        \<lparr>rs_archive = (w_archive v)\<lparr>as_run_ids := as_run_ids (w_archive v) @ [w_next v]\<rparr>, rs_aborted = False,
         rs_graph = w_graph v, rs_stats = []\<rparr> = Some (s1, r1)" "rs_aborted s1 \<longrightarrow> isl (Inr res :: pyerr + adapter_result)"
      "\<not> rs_aborted s1 \<longrightarrow> Inr res = r1"
      using live by (elim cli_run_cases) blast
    then have "r1 = Inr res" by (cases "rs_aborted s1") auto
    then have "\<exists>r'. r = Inr r' \<and> same_counts r' res"
      using adapter_loop_forecast [OF l(1) [unfolded run_adapter_def \<open>r1 = Inr res\<close>], of no_result "w_next w" ?st] a
      by (auto simp: run_adapter_def same_counts_def)
    then show ?thesis using st(1) s by simp
  qed
  show ?thesis
    using st s same by (auto simp: stats split: sum.splits)
qed

section \<open>A dry run on a concrete feed\<close>

text \<open>An empty page of persons, whose payload is archived already.\<close>

definition sample_cli :: cli_env where
  "sample_cli = \<lparr>ce_fetch = (\<lambda>url. Inr (stub_fetch (Aware (2024, 2, 29)) ''json'' [60] url)), ce_archive = (\<lambda>_. sample_env),
     ce_dtm = Some, ce_has_scheme = (\<lambda>_. True), ce_urljoin = (\<lambda>_ u. u), ce_http_url = (\<lambda>_. None), ce_manifest = Inr PNone,
     ce_libs = sample_libs\<lparr>sl_jl := (\<lambda>_. Inr (PDict [(lit ''value'', PList [])]))\<rparr>, ce_now = []\<rparr>"

definition sample_manifest_entry :: manifest_entry where
  "sample_manifest_entry = \<lparr>mf_family = lit ''knesset'', mf_adapter = ''people'', mf_source_url = lit ''https://x/'', mf_source_tier = 1\<rparr>"

lemma sample_cli_run:
  "\<exists>w' res. cli_run sample_cli sample_manifest_entry (people_callbacks (ce_libs sample_cli) []) dry None 5 None archived_world = Some (w', Inr res)"
proof -
  let ?ad = "cli_adapter sample_cli sample_manifest_entry (people_callbacks (ce_libs sample_cli) []) dry 1"
  let ?pg = "\<lparr>op_value = [], op_next_link = PNone, op_total_count = PNone\<rparr>"
  let ?st = "\<lparr>rs_archive = (w_archive archived_world)\<lparr>as_run_ids := [1]\<rparr>, rs_aborted = False, rs_graph = empty_graph, rs_stats = []\<rparr>"
  have pg: "cb_page_parser (people_callbacks (ce_libs sample_cli) []) c = Inr ?pg" for c
    by (simp add: people_callbacks_def sample_cli_def parse_odata_page_def py_or_def vget_def lit_def)
  have ft: "ce_fetch sample_cli u = Inr (stub_fetch (Aware (2024, 2, 29)) ''json'' [60] u)" for u by (simp add: sample_cli_def)
  have rows: "cb_parse (people_callbacks (ce_libs sample_cli) []) [] = ([], None)"
    by (simp add: people_callbacks_def parse_persons_def parse_rows_def)
  have arch: "\<exists>r. archive_page ?ad (stub_fetch (Aware (2024, 2, 29)) ''json'' [60] u) no_result ?st = (?st, Inr r)" for u
    by (auto simp: archive_page_def cli_adapter_def cli_archive_def archive_payload_def sample_manifest_entry_def SOURCE_FAMILIES_def sample_cli_def
        sample_env_def stub_fetch_def find_existing_def archived_world_def empty_archive_def Let_def empty_world_def)
  obtain r where "run_page ?ad (lit ''https://x/'') no_result ?st = (?st, Inr (r, ?pg))"
    using arch [of "lit ''https://x/''"] rows by (auto simp: run_page_def pg ft)
  moreover have "next_url ?ad u ?pg = Inr None" for u by (simp add: next_url_def)
  ultimately have "run_adapter ?ad (lit ''https://x/'') None ?st = Some (?st, Inr r)"
    unfolding run_adapter_def by (subst adapter_loop.simps) (simp add: page_limit_def)
  then show ?thesis
    by (simp add: cli_run_def enter_run_def archived_world_def empty_world_def empty_archive_def sample_manifest_entry_def Let_def with_run_def
        exit_run_def add_stats_def)
qed

theorem dry_run_forecasts_witness:
  "\<exists>wd r wl res. cli_run sample_cli sample_manifest_entry (people_callbacks (ce_libs sample_cli) []) True None 5 None archived_world = Some (wd, Inr r) \<and>
     cli_run sample_cli sample_manifest_entry (people_callbacks (ce_libs sample_cli) []) False None 5 None archived_world = Some (wl, Inr res) \<and>
     w_graph wd = w_graph archived_world \<and> same_counts r res"
proof -
  obtain wd r wl res where w: "cli_run sample_cli sample_manifest_entry (people_callbacks (ce_libs sample_cli) []) True None 5 None archived_world = Some (wd, Inr r)"
    "cli_run sample_cli sample_manifest_entry (people_callbacks (ce_libs sample_cli) []) False None 5 None archived_world = Some (wl, Inr res)"
    using sample_cli_run by metis
  have "(5 :: nat) \<notin> ir_run_id ` set (w_runs archived_world)" by (simp add: archived_world_def empty_world_def)
  from dry_run_forecasts [OF this w(1)] this w show ?thesis by blast
qed

section \<open>Manifests and the archiver\<close>

text \<open>A manifest that loads names a family and a tier that the archiver accepts, and an adapter of the list.\<close>

lemma loaded_manifest:
  assumes "load_manifest http_url yaml = Inr m"
  shows "mf_family (so_entry m) \<in> set SOURCE_FAMILIES" "mf_source_tier (so_entry m) \<in> {1, 2, 3}" "mf_adapter (so_entry m) \<in> set adapter_kinds"
proof -
  obtain v where v: "validate_manifest http_url v = Inr m" using assms by (auto simp: load_manifest_def bind_err_Inr)
  have lf: "literal_of ns x = Some n \<Longrightarrow> n \<in> set ns" for ns x n
    by (auto simp: literal_of_def find_Some_iff split: pyval.splits)
  have m: "\<exists>fam ad. mf_family (so_entry m) = lit fam \<and> fam \<in> set source_families \<and> mf_adapter (so_entry m) = ad \<and> ad \<in> set adapter_kinds \<and>
      mf_source_tier (so_entry m) \<in> {1, 2, 3}"
    using v by (auto simp: validate_manifest_def Let_def dest!: lf split: pyval.splits option.splits if_splits)
  then show "mf_family (so_entry m) \<in> set SOURCE_FAMILIES" "mf_source_tier (so_entry m) \<in> {1, 2, 3}" "mf_adapter (so_entry m) \<in> set adapter_kinds"
    by (auto simp: source_families_def SOURCE_FAMILIES_def)
qed

end
