(* ===== verification/Indexing.thy ===== *)
theory Indexing
  imports Retrieval Ingest_Rows "HOL-Library.Multiset"
begin

text \<open>
  \<open>scripts/index_evidence.py\<close>: one evidence span per \<open>SourceDocument\<close> of the graph, written to the index that the lexical
  retriever searches, whose template \<open>infra/opensearch/templates/0002_evidence_spans.json\<close> accepts no other fields than its
  own. The graph and the search server are parameters.
\<close>

section \<open>The index\<close>

datatype field_type = Keyword | Integer | FullText | Vector | Date

definition EVIDENCE_SPANS_MAPPING :: "(pystr \<times> field_type) list" where
  "EVIDENCE_SPANS_MAPPING =
     [(lit ''span_id'', Keyword), (lit ''document_id'', Keyword), (lit ''source_tier'', Integer), (lit ''source_type'', Keyword),
      (lit ''url'', Keyword), (lit ''archive_uri'', Keyword), (lit ''text'', FullText), (lit ''normalized_text'', FullText),
      (lit ''embedding'', Vector), (lit ''char_start'', Integer), (lit ''char_end'', Integer), (lit ''captured_at'', Date)]"

fun fits_type :: "field_type \<Rightarrow> pyval \<Rightarrow> bool" where
  "fits_type Integer (PInt _) = True"
| "fits_type Keyword (PStr _) = True"
| "fits_type FullText (PStr _) = True"
| "fits_type Date (PStr _) = True"
| "fits_type Vector (PList _) = True"
| "fits_type _ _ = False"

text \<open>\<open>"dynamic": "strict"\<close>: every field is one of the mapping.\<close>

definition fits_mapping :: "pyval dict \<Rightarrow> bool" where
  "fits_mapping doc \<longleftrightarrow> (\<forall>(k, v) \<in> set doc. case dget EVIDENCE_SPANS_MAPPING k of None \<Rightarrow> False | Some t \<Rightarrow> fits_type t v)"

section \<open>Documents\<close>

text \<open>
  The \<open>captured_at\<close> of a row: absent, a Neo4j time with its \<open>iso_format\<close>, a Python time with its \<open>isoformat\<close> and whether
  it has a zone, or any other value.
\<close>

datatype captured = NoTime | GraphTime pystr | PyTime pystr bool | OtherTime pyval

record document_row =
  dr_values :: "pyval dict"
  dr_captured_at :: captured

definition NAMESPACE_URL :: nat where
  "NAMESPACE_URL = 0x6ba7b8119dad11d180b400c04fd430c8"

definition SPAN_NS :: "uuid5 \<Rightarrow> nat" where
  "SPAN_NS u5 = u5 NAMESPACE_URL (lit ''civic-proof-il/evidence_spans/v1'')"

definition span_id :: "uuid5 \<Rightarrow> pystr \<Rightarrow> pystr" where
  "span_id u5 document_id = uuid_str (u5 (SPAN_NS u5) document_id)"

text \<open>A naive time is taken for UTC, which adds the offset to its text.\<close>

fun serialize_dt :: "(pyval \<Rightarrow> pystr) \<Rightarrow> captured \<Rightarrow> pystr option" where
  "serialize_dt rp NoTime = None"
| "serialize_dt rp (GraphTime s) = Some s"
| "serialize_dt rp (PyTime s zone) = Some (if zone then s else s @ lit ''+00:00'')"
| "serialize_dt rp (OtherTime v) = Some (py_str rp v)"

definition row_text :: "(pyval \<Rightarrow> pystr) \<Rightarrow> pyval dict \<Rightarrow> string \<Rightarrow> string \<Rightarrow> pystr" where
  "row_text rp d k dflt = py_str rp (py_or (vget d (lit k)) (PLit dflt))"

definition row_title :: "pyval dict \<Rightarrow> pyerr + pystr" where
  "row_title d =
     (case py_or (vget d (lit ''title'')) (PStr []) of
        PStr t \<Rightarrow> Inr (if py_strip t = [] then lit ''.'' else py_strip t)
      | _ \<Rightarrow> Inl AttributeError)"

definition row_span :: "uuid5 \<Rightarrow> (pyval \<Rightarrow> pystr) \<Rightarrow> document_row \<Rightarrow> pystr" where
  "row_span u5 rp r = span_id u5 (row_text rp (dr_values r) ''document_id'' '''')"

text \<open>\<open>_build_doc\<close>.\<close>

definition build_doc :: "uuid5 \<Rightarrow> (pyval \<Rightarrow> pystr) \<Rightarrow> document_row \<Rightarrow> pyerr + pyval dict" where
  "build_doc u5 rp r =
     (let d = dr_values r in
      bind_err (row_title d) (\<lambda>title.
      bind_err (py_int (py_or (vget d (lit ''source_tier'')) (PInt 2))) (\<lambda>tier.
      Inr ([(lit ''span_id'', PStr (row_span u5 rp r)), (lit ''document_id'', PStr (row_text rp d ''document_id'' '''')),
         (lit ''source_tier'', PInt tier), (lit ''source_type'', PStr (row_text rp d ''source_type'' ''unknown'')),
         (lit ''url'', PStr (row_text rp d ''url'' '''')), (lit ''archive_uri'', PStr (row_text rp d ''archive_uri'' '''')),
         (lit ''text'', PStr title), (lit ''normalized_text'', PStr (py_lower title)), (lit ''char_start'', PInt 0),
         (lit ''char_end'', PInt (max 0 (int (length title))))] @
        (case serialize_dt rp (dr_captured_at r) of
           None \<Rightarrow> [] | Some c \<Rightarrow> if c = [] then [] else [(lit ''captured_at'', PStr c)])))))"

section \<open>The run\<close>

type_synonym search_index = "pyval dict dict"

text \<open>
  The loop of \<open>main\<close>: what the server does not accept is counted as an error, while a row that cannot be built ends the
  run. The result is the number of indexed rows and the spans that failed.
\<close>

fun index_rows ::
    "uuid5 \<Rightarrow> (pyval \<Rightarrow> pystr) \<Rightarrow> (pyval dict \<Rightarrow> bool) \<Rightarrow> document_row list \<Rightarrow> nat \<Rightarrow> pystr list \<Rightarrow> search_index \<Rightarrow>
     search_index \<times> (pyerr + nat \<times> pystr list)" where
  "index_rows u5 rp accepts [] n errors ix = (ix, Inr (n, errors))"
| "index_rows u5 rp accepts (r # rs) n errors ix =
     (case build_doc u5 rp r of
        Inl e \<Rightarrow> (ix, Inl e)
      | Inr doc \<Rightarrow>
          if accepts doc then index_rows u5 rp accepts rs (n + 1) errors (dset ix (row_span u5 rp r) doc)
          else index_rows u5 rp accepts rs n (errors @ [row_span u5 rp r]) ix)"

text \<open>
  The query for the nodes has a limit and no order: \<open>order\<close> is the order in which the server happens to give the nodes of
  the graph in this run. A negative limit is an error.
\<close>

definition query_documents ::
    "(document_row list \<Rightarrow> document_row list) \<Rightarrow> document_row list \<Rightarrow> int \<Rightarrow> pyerr + document_row list" where
  "query_documents order graph limit = (if limit < 0 then Inl DatabaseError else Inr (take (nat limit) (order graph)))"

text \<open>\<open>documents\<close> is the query; without Neo4j there are no rows. The result is the exit code.\<close>

definition index_main ::
    "uuid5 \<Rightarrow> (pyval \<Rightarrow> pystr) \<Rightarrow> bool \<Rightarrow> bool \<Rightarrow> (int \<Rightarrow> pyerr + document_row list) \<Rightarrow> (pyval dict \<Rightarrow> bool) \<Rightarrow> int \<Rightarrow>
     search_index \<Rightarrow> search_index \<times> (pyerr + nat)" where
  "index_main u5 rp search_up graph_up documents accepts limit ix =
     (if \<not> search_up then (ix, Inr 0)
      else case (if graph_up then documents limit else Inr []) of
        Inl e \<Rightarrow> (ix, Inl e)
      | Inr rows \<Rightarrow>
          if rows = [] then (ix, Inr 0)
          else (case index_rows u5 rp accepts rows 0 [] ix of
             (ix', Inl e) \<Rightarrow> (ix', Inl e)
           | (ix', Inr (n, errors)) \<Rightarrow> (ix', Inr (if errors = [] then 0 else 1))))"

section \<open>Keyed stores\<close>

text \<open>
  What writing documents under their keys relies on: a key that was written reads as its value, other keys as before, and
  writing what is there already changes nothing. The client writes a list of entries.
\<close>

locale keyed_store =
  fixes get :: "'s \<Rightarrow> 'k \<Rightarrow> 'v option"
    and put :: "'s \<Rightarrow> 'k \<Rightarrow> 'v \<Rightarrow> 's"
  assumes get_put: "get (put s k v) k' = (if k = k' then Some v else get s k')"
    and put_present: "get s k = Some v \<Longrightarrow> put s k v = s"
begin

lemma puts_get:
  "distinct (map fst kvs) \<Longrightarrow>
     get (foldl (\<lambda>s (k, v). put s k v) s kvs) k = (case map_of kvs k of None \<Rightarrow> get s k | Some v \<Rightarrow> Some v)"
proof (induction kvs arbitrary: s)
  case (Cons kv kvs)
  obtain k0 v0 where kv: "kv = (k0, v0)" by fastforce
  have "map_of kvs k0 = None" using Cons.prems by (simp add: kv map_of_eq_None_iff)
  then show ?case using Cons by (cases "k0 = k") (simp_all add: kv get_put cong: option.case_cong)
qed simp

lemma puts_got: "distinct (map fst kvs) \<Longrightarrow> (k, v) \<in> set kvs \<Longrightarrow> get (foldl (\<lambda>s (k, v). put s k v) s kvs) k = Some v"
  by (simp add: puts_get)

lemma puts_present: "(\<And>k v. (k, v) \<in> set kvs \<Longrightarrow> get s k = Some v) \<Longrightarrow> foldl (\<lambda>s (k, v). put s k v) s kvs = s"
  by (induction kvs) (auto simp: put_present)

lemma puts_again:
  "distinct (map fst kvs) \<Longrightarrow> foldl (\<lambda>s (k, v). put s k v) (foldl (\<lambda>s (k, v). put s k v) s kvs) kvs = foldl (\<lambda>s (k, v). put s k v) s kvs"
  by (intro puts_present puts_got)

end

lemma dset_present: "dget d k = Some v \<Longrightarrow> dset d k v = d"
  by (induction d k v rule: dset.induct) (auto split: if_splits)

interpretation span_index: keyed_store dget dset
  by unfold_locales (simp_all add: dset_present)

section \<open>What the retriever finds\<close>

lemma uuid_str_not_Nil: "uuid_str n \<noteq> []"
  by (simp add: uuid_str_def Let_def)


lemma row_title_not_Nil: "row_title d = Inr t \<Longrightarrow> t \<noteq> []"
  by (auto simp: row_title_def lit_def split: pyval.splits if_splits)

lemma mapping_simps [simp]:
  "dget EVIDENCE_SPANS_MAPPING (lit ''span_id'') = Some Keyword" "dget EVIDENCE_SPANS_MAPPING (lit ''document_id'') = Some Keyword"
  "dget EVIDENCE_SPANS_MAPPING (lit ''source_tier'') = Some Integer" "dget EVIDENCE_SPANS_MAPPING (lit ''source_type'') = Some Keyword"
  "dget EVIDENCE_SPANS_MAPPING (lit ''url'') = Some Keyword" "dget EVIDENCE_SPANS_MAPPING (lit ''archive_uri'') = Some Keyword"
  "dget EVIDENCE_SPANS_MAPPING (lit ''text'') = Some FullText" "dget EVIDENCE_SPANS_MAPPING (lit ''normalized_text'') = Some FullText"
  "dget EVIDENCE_SPANS_MAPPING (lit ''char_start'') = Some Integer" "dget EVIDENCE_SPANS_MAPPING (lit ''char_end'') = Some Integer"
  "dget EVIDENCE_SPANS_MAPPING (lit ''captured_at'') = Some Date"
  by (simp_all add: EVIDENCE_SPANS_MAPPING_def)

lemma fits_mapping_simps [simp]:
  "fits_mapping []" "fits_mapping ((k, v) # d) = ((case dget EVIDENCE_SPANS_MAPPING k of None \<Rightarrow> False | Some t \<Rightarrow> fits_type t v) \<and> fits_mapping d)"
  "fits_mapping (d @ e) = (fits_mapping d \<and> fits_mapping e)"
  by (auto simp: fits_mapping_def)

text \<open>A document that is built fits the mapping, and the retriever reads its row back from it.\<close>

lemma build_doc_facts:
  assumes "build_doc u5 rp r = Inr doc"
  obtains title tier where "row_title (dr_values r) = Inr title" "py_int (py_or (vget (dr_values r) (lit ''source_tier'')) (PInt 2)) = Inr tier"
    "fits_mapping doc" "vget doc (lit ''span_id'') = PStr (row_span u5 rp r)"
    "vget doc (lit ''document_id'') = PStr (row_text rp (dr_values r) ''document_id'' '''')"
    "vget doc (lit ''text'') = PStr title" "vget doc (lit ''source_tier'') = PInt tier"
    "vget doc (lit ''url'') = PStr (row_text rp (dr_values r) ''url'' '''')"
proof -
  obtain title tier where t: "row_title (dr_values r) = Inr title" "py_int (py_or (vget (dr_values r) (lit ''source_tier'')) (PInt 2)) = Inr tier"
    using assms by (auto simp: build_doc_def Let_def bind_err_Inr)
  note doc = assms [unfolded build_doc_def Let_def t bind_err_simps, THEN Inr_inject, symmetric]
  have "fits_mapping doc"
    unfolding doc by (simp split: option.split)
  moreover have "vget doc (lit ''span_id'') = PStr (row_span u5 rp r)"
    "vget doc (lit ''document_id'') = PStr (row_text rp (dr_values r) ''document_id'' '''')"
    "vget doc (lit ''text'') = PStr title" "vget doc (lit ''source_tier'') = PInt tier"
    "vget doc (lit ''url'') = PStr (row_text rp (dr_values r) ''url'' '''')"
    unfolding doc by (simp_all add: vget_def)
  ultimately show thesis using that t by blast
qed

text \<open>Without errors, the loop has stored the document of every row, and nothing but them.\<close>

definition entries_of :: "uuid5 \<Rightarrow> (pyval \<Rightarrow> pystr) \<Rightarrow> document_row list \<Rightarrow> (pystr \<times> pyval dict) list" where
  "entries_of u5 rp rs = map (\<lambda>r. (row_span u5 rp r, projr (build_doc u5 rp r))) rs"

lemma index_rows_errors: "index_rows u5 rp accepts rs n errors ix = (ix', Inr (m, errors')) \<Longrightarrow> \<exists>more. errors' = errors @ more"
  by (induction u5 rp accepts rs n errors ix rule: index_rows.induct) (auto split: sum.splits if_splits)

definition all_accepted :: "uuid5 \<Rightarrow> (pyval \<Rightarrow> pystr) \<Rightarrow> (pyval dict \<Rightarrow> bool) \<Rightarrow> document_row list \<Rightarrow> bool" where
  "all_accepted u5 rp accepts rs \<longleftrightarrow> (\<forall>r \<in> set rs. \<exists>d. build_doc u5 rp r = Inr d \<and> accepts d)"

lemma index_rows_clean:
  "index_rows u5 rp accepts rs n [] ix = (ix', Inr (m, [])) \<longleftrightarrow>
     all_accepted u5 rp accepts rs \<and> ix' = foldl (\<lambda>ix (k, d). dset ix k d) ix (entries_of u5 rp rs) \<and> m = n + length rs"
proof (induction rs arbitrary: n ix)
  case (Cons r rs)
  show ?case
  proof (cases "build_doc u5 rp r")
    case (Inr d)
    have "index_rows u5 rp accepts rs n [row_span u5 rp r] ix \<noteq> (ix', Inr (m, []))"
      using index_rows_errors [of u5 rp accepts rs n "[row_span u5 rp r]" ix ix' m "[]"] by auto
    then show ?thesis using Inr Cons.IH by (auto simp: all_accepted_def entries_of_def)
  qed (simp add: all_accepted_def)
qed (auto simp: all_accepted_def entries_of_def)

text \<open>The index holds the document of a row as the template admits it, and the retriever reads the row back.\<close>

definition indexed :: "uuid5 \<Rightarrow> (pyval \<Rightarrow> pystr) \<Rightarrow> search_index \<Rightarrow> document_row \<Rightarrow> bool" where
  "indexed u5 rp ix r \<longleftrightarrow>
     (\<exists>doc title tier ev. dget ix (row_span u5 rp r) = Some doc \<and> fits_mapping doc \<and>
        row_title (dr_values r) = Inr title \<and> py_int (py_or (vget (dr_values r) (lit ''source_tier'')) (PInt 2)) = Inr tier \<and>
        unpack_hits rp [\<lparr>h_source = Some doc, h_id = PNone, h_score = None\<rparr>] = Inr [ev] \<and>
        le_span_id ev = row_span u5 rp r \<and> le_document_id ev = row_text rp (dr_values r) ''document_id'' '''' \<and>
        le_text ev = title \<and> le_source_tier ev = (if tier = 0 then 2 else tier))"

lemma built_indexed:
  assumes "build_doc u5 rp r = Inr doc" "dget ix (row_span u5 rp r) = Some doc"
  shows "indexed u5 rp ix r"
proof -
  obtain title tier where f: "row_title (dr_values r) = Inr title" "py_int (py_or (vget (dr_values r) (lit ''source_tier'')) (PInt 2)) = Inr tier"
    "fits_mapping doc" "vget doc (lit ''span_id'') = PStr (row_span u5 rp r)"
    "vget doc (lit ''document_id'') = PStr (row_text rp (dr_values r) ''document_id'' '''')"
    "vget doc (lit ''text'') = PStr title" "vget doc (lit ''source_tier'') = PInt tier"
    using assms(1) by (rule build_doc_facts)
  have "row_span u5 rp r \<noteq> []" by (simp add: row_span_def span_id_def uuid_str_not_Nil)
  then show ?thesis
    unfolding indexed_def using assms(2) f row_title_not_Nil [OF f(1)] by (auto simp: unpack_hit_def or_default_def py_or_def Let_def)
qed

text \<open>A run without errors, over the rows the query gave.\<close>

lemma index_main_clean:
  assumes "documents limit = Inr rows" "distinct (map (row_span u5 rp) rows)"
  shows "index_main u5 rp True True documents accepts limit ix = (ix', Inr 0) \<longleftrightarrow>
     all_accepted u5 rp accepts rows \<and> ix' = foldl (\<lambda>ix (k, d). dset ix k d) ix (entries_of u5 rp rows)"
proof (cases "rows = []")
  case True
  then show ?thesis using assms(1) by (auto simp: index_main_def all_accepted_def entries_of_def)
next
  case False
  have "index_main u5 rp True True documents accepts limit ix = (ix', Inr 0) \<longleftrightarrow>
      (\<exists>m. index_rows u5 rp accepts rows 0 [] ix = (ix', Inr (m, [])))"
    using assms(1) False by (auto simp: index_main_def split: prod.splits sum.splits)
  then show ?thesis using index_rows_clean [of u5 rp accepts rows 0 ix ix'] by auto
qed

lemma entries_distinct: "distinct (map (row_span u5 rp) rows) \<Longrightarrow> distinct (map fst (entries_of u5 rp rows))"
  by (simp add: entries_of_def comp_def)

lemma clean_run_indexed:
  assumes "distinct (map (row_span u5 rp) rows)" "all_accepted u5 rp accepts rows" "r \<in> set rows"
    and "ix' = foldl (\<lambda>ix (k, d). dset ix k d) ix (entries_of u5 rp rows)"
  shows "indexed u5 rp ix' r" "dget ix' (row_span u5 rp r) = Some (projr (build_doc u5 rp r))"
proof -
  obtain doc where d: "build_doc u5 rp r = Inr doc" using assms(2,3) by (auto simp: all_accepted_def)
  have "(row_span u5 rp r, doc) \<in> set (entries_of u5 rp rows)" using assms(3) d by (force simp: entries_of_def)
  then have "dget ix' (row_span u5 rp r) = Some doc" using span_index.puts_got [OF entries_distinct [OF assms(1)]] assms(4) by simp
  then show "indexed u5 rp ix' r" "dget ix' (row_span u5 rp r) = Some (projr (build_doc u5 rp r))"
    using built_indexed [OF d] d by simp_all
qed

text \<open>A document that the query left out is not put into the index.\<close>

lemma clean_run_missing:
  assumes "distinct (map (row_span u5 rp) rows)" "k \<notin> row_span u5 rp ` set rows"
  shows "dget (foldl (\<lambda>ix (k, d). dset ix k d) ix (entries_of u5 rp rows)) k = dget ix k"
proof -
  have "k \<notin> fst ` set (entries_of u5 rp rows)" using assms(2) by (auto simp: entries_of_def)
  then have "map_of (entries_of u5 rp rows) k = None" by (simp add: map_of_eq_None_iff)
  then show ?thesis using span_index.puts_get [OF entries_distinct [OF assms(1)]] by simp
qed

lemma left_out:
  assumes "mset rows = mset graph" "n < length graph" "distinct (map f graph)"
  obtains r where "r \<in> set graph" "f r \<notin> f ` set (take n rows)"
proof -
  have len: "length rows = length graph" and s: "set rows = set graph" using assms(1) mset_eq_length mset_eq_setD by blast+
  have "mset (map f rows) = mset (map f graph)" using assms(1) by simp
  then have "distinct (map f rows)" using assms(3) by (metis mset_eq_imp_distinct_iff)
  moreover have "rows = take n rows @ rows ! n # drop (Suc n) rows" using assms(2) len by (simp add: id_take_nth_drop)
  ultimately have "f (rows ! n) \<notin> f ` set (take n rows)"
    by (metis (no_types, lifting) append.assoc disjoint_iff distinct_append list.set_intros(1) list.set_map list.simps(9) map_append)
  then show thesis using that assms(2) len s by (metis nth_mem)
qed

text \<open>
  Claim C37. After a run that reports no error, the index holds for every document the query gave one span that the strict
  template of the index admits, and the lexical retriever reads from it the span, the document, the trimmed title and the
  tier of that document (a tier of 0, which the retriever takes for a missing one, excepted). When the limit is at least the
  size of the graph these are all its documents, and running again changes nothing, in whatever order the query then
  gives them. When it is less, a run on an empty index leaves a document out and still ends with exit code 0.
\<close>

theorem indexed_spans_found:
  assumes "index_main u5 rp True True (query_documents order graph) accepts limit ix = (ix', Inr 0)"
    and "mset (order graph) = mset graph" "distinct (map (row_span u5 rp) graph)"
  shows "(\<forall>r \<in> set (take (nat limit) (order graph)). indexed u5 rp ix' r) \<and>
    (int (length graph) \<le> limit \<longrightarrow> (\<forall>r \<in> set graph. indexed u5 rp ix' r) \<and>
      (\<forall>order'. mset (order' graph) = mset graph \<longrightarrow>
         index_main u5 rp True True (query_documents order' graph) accepts limit ix' = (ix', Inr 0))) \<and>
    (ix = [] \<longrightarrow> limit < int (length graph) \<longrightarrow> (\<exists>r \<in> set graph. dget ix' (row_span u5 rp r) = None))"
proof -
  have lim: "0 \<le> limit" using assms(1) by (auto simp: index_main_def query_documents_def split: if_splits)
  have spans: "distinct (map (row_span u5 rp) (take (nat limit) (o' graph)))" if "mset (o' graph) = mset graph" for o'
  proof -
    have "mset (map (row_span u5 rp) (o' graph)) = mset (map (row_span u5 rp) graph)" using that by simp
    then have "distinct (map (row_span u5 rp) (o' graph))" using assms(3) by (metis mset_eq_imp_distinct_iff)
    then show ?thesis by (metis distinct_take take_map)
  qed
  have q: "query_documents o' graph limit = Inr (take (nat limit) (o' graph))" for o' using lim by (simp add: query_documents_def)
  let ?rows = "take (nat limit) (order graph)"
  have acc: "all_accepted u5 rp accepts ?rows" and ix': "ix' = foldl (\<lambda>ix (k, d). dset ix k d) ix (entries_of u5 rp ?rows)"
    using assms(1) unfolding index_main_clean [of "query_documents order graph", OF q spans [of order, OF assms(2)]] by simp_all
  note run = clean_run_indexed [OF spans [of order, OF assms(2)] acc _ ix']
  have all: "take (nat limit) (o' graph) = o' graph" "set (o' graph) = set graph"
    if "int (length graph) \<le> limit" "mset (o' graph) = mset graph" for o'
    using that mset_eq_length [OF that(2)] mset_eq_setD [OF that(2)] by simp_all
  have again: "index_main u5 rp True True (query_documents o' graph) accepts limit ix' = (ix', Inr 0)"
    if l: "int (length graph) \<le> limit" and o: "mset (o' graph) = mset graph" for o'
  proof -
    have same: "set (take (nat limit) (o' graph)) = set ?rows" using all [of o', OF l o] all [of order, OF l assms(2)] by simp
    have "foldl (\<lambda>ix (k, d). dset ix k d) ix' (entries_of u5 rp (take (nat limit) (o' graph))) = ix'"
      by (rule span_index.puts_present) (use same run(2) in \<open>auto simp: entries_of_def\<close>)
    moreover have "all_accepted u5 rp accepts (take (nat limit) (o' graph))" using acc same by (simp add: all_accepted_def)
    ultimately show ?thesis using index_main_clean [of "query_documents o' graph", OF q spans [of o', OF o]] by simp
  qed
  have "\<exists>r \<in> set graph. dget ix' (row_span u5 rp r) = None" if e: "ix = []" and l: "limit < int (length graph)"
  proof -
    obtain r where r: "r \<in> set graph" "row_span u5 rp r \<notin> row_span u5 rp ` set ?rows"
      by (rule left_out [OF assms(2) _ assms(3), of "nat limit"]) (use l lim in linarith)
    have "dget ix' (row_span u5 rp r) = None"
      using clean_run_missing [OF spans [of order, OF assms(2)] r(2)] by (simp add: ix' e)
    then show ?thesis using r(1) by blast
  qed
  then show ?thesis using run(1) again all [of order, OF _ assms(2)] by auto
qed

section \<open>An index of two documents\<close>

definition two_documents :: "document_row list" where
  "two_documents =
     [\<lparr>dr_values = [(lit ''document_id'', PLit ''d1''), (lit ''title'', PLit '' Vote ''), (lit ''source_tier'', PInt 1)], dr_captured_at = GraphTime (lit ''t'')\<rparr>,
      \<lparr>dr_values = [(lit ''document_id'', PLit ''d22''), (lit ''title'', PNone)], dr_captured_at = NoTime\<rparr>]"

definition length_uuid :: uuid5 where
  "length_uuid _ s = length s"

lemma two_documents_rows:
  "row_span length_uuid rp (two_documents ! 0) = uuid_str 2" "row_span length_uuid rp (two_documents ! 1) = uuid_str 3"
  by (simp_all add: row_span_def span_id_def row_text_def two_documents_def length_uuid_def vget_def py_or_def numeral_2_eq_2 numeral_3_eq_3)

lemma two_documents_distinct: "distinct (map (row_span length_uuid rp) two_documents)"
proof -
  have "parse_uuid (uuid_str 2) \<noteq> parse_uuid (uuid_str 3)" by (simp add: parse_uuid_str)
  then have "uuid_str 2 \<noteq> uuid_str 3" by metis
  moreover have "two_documents = [two_documents ! 0, two_documents ! 1]" by (simp add: two_documents_def)
  ultimately show ?thesis using two_documents_rows [of rp]
    by (metis distinct_length_2_or_more distinct_singleton list.simps(8,9))
qed

text \<open>The server gives the later document first; with a limit of one, the other is left out.\<close>

lemma two_documents_indexed:
  "\<exists>ix. index_main length_uuid (\<lambda>_. []) True True (query_documents rev two_documents) (\<lambda>_. True) limit [] = (ix, Inr 0)"
  if "0 \<le> limit"
  using that index_main_clean [of "query_documents rev two_documents" limit "take (nat limit) (rev two_documents)" length_uuid "\<lambda>_. []" "\<lambda>_. True" "[]"]
    two_documents_distinct [of "\<lambda>_. []"]
  by (auto simp: query_documents_def all_accepted_def two_documents_def build_doc_def row_title_def Let_def vget_def py_or_def
      dest!: in_set_takeD intro: distinct_take simp flip: take_map rev_map)

theorem indexed_spans_found_witness:
  "\<exists>ix one r. index_main length_uuid (\<lambda>_. []) True True (query_documents rev two_documents) (\<lambda>_. True) 500 [] = (ix, Inr 0) \<and>
     list_all (indexed length_uuid (\<lambda>_. []) ix) two_documents \<and>
     index_main length_uuid (\<lambda>_. []) True True (query_documents rev two_documents) (\<lambda>_. True) 1 [] = (one, Inr 0) \<and>
     r \<in> set two_documents \<and> dget one (row_span length_uuid (\<lambda>_. []) r) = None"
proof -
  obtain ix one where i: "index_main length_uuid (\<lambda>_. []) True True (query_documents rev two_documents) (\<lambda>_. True) 500 [] = (ix, Inr 0)"
    "index_main length_uuid (\<lambda>_. []) True True (query_documents rev two_documents) (\<lambda>_. True) 1 [] = (one, Inr 0)"
    using two_documents_indexed [of 500] two_documents_indexed [of 1] by auto
  have n: "length two_documents = 2" by (simp add: two_documents_def)
  have "list_all (indexed length_uuid (\<lambda>_. []) ix) two_documents"
    using indexed_spans_found [OF i(1) _ two_documents_distinct] n by (simp add: list_all_iff)
  moreover have "\<exists>r \<in> set two_documents. dget one (row_span length_uuid (\<lambda>_. []) r) = None"
    using indexed_spans_found [OF i(2) _ two_documents_distinct] n by simp
  ultimately show ?thesis using i by blast
qed

end
