(* ===== verification/Providers.thy ===== *)
theory Providers
  imports Decomposer
begin

text \<open>
  The language-model side of the decomposer: the providers of \<open>claim_decomposition/llm.py\<close>, a table of canned answers and the
  choice by environment, and the prompt cards of \<open>packages/prompts/src/civic_prompts/loader.py\<close>. SHA-256, UTF-8, YAML and
  JSON reading are parameters; the providers plug into the decomposer's parameter.
\<close>

section \<open>Canned answers\<close>

fun language_code :: "language \<Rightarrow> pystr" where
  "language_code HE = lit ''he''"
| "language_code EN = lit ''en''"

text \<open>The digest of the language, two colons and the statement, cut to 16 characters.\<close>

definition statement_key :: "(nat list \<Rightarrow> pystr) \<Rightarrow> (pystr \<Rightarrow> nat list) \<Rightarrow> pystr \<Rightarrow> language \<Rightarrow> pystr" where
  "statement_key sha256 utf8 statement lang = take 16 (sha256 (utf8 (language_code lang) @ lit ''::'' @ utf8 statement))"

text \<open>The decomposer calls \<open>get\<close> on every answer, so one that is no dictionary makes it raise.\<close>

definition as_raws :: "pyval list \<Rightarrow> pyerr + pyval dict list" where
  "as_raws vs = (if list_all (\<lambda>v. case v of PDict _ \<Rightarrow> True | _ \<Rightarrow> False) vs then Inr (map (\<lambda>v. case v of PDict d \<Rightarrow> d | _ \<Rightarrow> []) vs) else Inl AttributeError)"

text \<open>\<open>StubProvider.decompose\<close>: a null or missing payload has no claims.\<close>

definition stub_decompose ::
    "(nat list \<Rightarrow> pystr) \<Rightarrow> (pystr \<Rightarrow> nat list) \<Rightarrow> pyval dict \<Rightarrow> pystr \<Rightarrow> language \<Rightarrow> pyerr + pyval list" where
  "stub_decompose sha256 utf8 canned statement lang =
     (case vget canned (statement_key sha256 utf8 statement lang) of
        PNone \<Rightarrow> Inr []
      | payload \<Rightarrow> bind_err (get_default payload ''claims'' (PList [])) iterate)"

text \<open>
  \<open>load_stub_provider_from_dir\<close>: the stems of the JSON files, sorted, and what they hold; the first that cannot be read
  ends it.
\<close>

fun load_stubs :: "(pystr \<times> (pyerr + pyval)) list \<Rightarrow> pyval dict \<Rightarrow> pyerr + pyval dict" where
  "load_stubs [] canned = Inr canned"
| "load_stubs ((stem, json) # files) canned =
     (case json of Inl e \<Rightarrow> Inl e | Inr v \<Rightarrow> load_stubs files (dset canned stem v))"

definition load_stub_provider :: "(pystr \<times> (pyerr + pyval)) list option \<Rightarrow> pyerr + pyval dict" where
  "load_stub_provider directory = (case directory of None \<Rightarrow> Inr [] | Some files \<Rightarrow> load_stubs files [])"

text \<open>\<open>EnvProvider.decompose\<close>: any provider but the stub is unavailable.\<close>

definition env_decompose ::
    "(string \<Rightarrow> pystr option) \<Rightarrow> (pystr \<Rightarrow> language \<Rightarrow> pyerr + pyval list) \<Rightarrow> pystr \<Rightarrow> language \<Rightarrow> pyerr + pyval list" where
  "env_decompose env stub statement lang =
     (let name = py_lower (case env ''CIVIC_LLM_PROVIDER'' of None \<Rightarrow> lit ''stub'' | Some v \<Rightarrow> v)
      in if name = lit ''stub'' then stub statement lang else Inr [])"

definition as_provider :: "(pystr \<Rightarrow> language \<Rightarrow> pyerr + pyval list) \<Rightarrow> llm_provider" where
  "as_provider p statement lang = bind_err (p statement lang) as_raws"

section \<open>What the decomposer makes of them\<close>

text \<open>A file named by the key of a statement answers for that statement.\<close>

lemma load_stubs_get:
  "load_stubs files canned = Inr c \<Longrightarrow> distinct (map fst files) \<Longrightarrow> (stem, Inr v) \<in> set files \<Longrightarrow> dget c stem = Some v"
proof (induction files canned arbitrary: c rule: load_stubs.induct)
  case (2 s json files canned)
  obtain w where w: "json = Inr w" "load_stubs files (dset canned s w) = Inr c" using 2 by (auto split: sum.splits)
  have other: "load_stubs fs d = Inr e \<Longrightarrow> k \<notin> fst ` set fs \<Longrightarrow> dget e k = dget d k" for fs d e k
    by (induction fs d arbitrary: e rule: load_stubs.induct) (auto split: sum.splits)
  show ?case using 2 w other [OF w(2)] by (cases "stem = s") (force split: sum.splits)+
qed simp

lemma stub_answers:
  assumes "load_stub_provider (Some files) = Inr canned" "distinct (map fst files)"
    and "(statement_key sha256 utf8 statement lang, Inr (PDict [(lit ''claims'', PList raws)])) \<in> set files"
  shows "stub_decompose sha256 utf8 canned statement lang = Inr raws"
  using load_stubs_get [OF _ assms(2,3)] assms(1)
  by (simp add: load_stub_provider_def stub_decompose_def vget_def get_default_def iterate_def)

text \<open>
  With a provider that is configured but not available, decomposition is that of the rules alone; the result still says
  that a model was asked whenever the rules found nothing.
\<close>

lemma provider_unavailable:
  assumes "env ''CIVIC_LLM_PROVIDER'' = Some name" "py_lower name \<noteq> lit ''stub''"
    and "decompose uuid4 n statement lang None = Inr (n', r)"
  shows "decompose uuid4 n statement lang (Some (as_provider (env_decompose env stub))) =
    Inr (n', r\<lparr>dr_llm_invoked := (py_strip statement \<noteq> [] \<and> dr_claims r = [])\<rparr>)"
proof -
  have "as_provider (env_decompose env stub) s l = Inr []" for s l
    using assms(1,2) by (simp add: as_provider_def env_decompose_def as_raws_def)
  then show ?thesis using assms(3) by (auto simp: decompose_def Let_def empty_result_def split: prod.splits if_splits)
qed

section \<open>Prompt cards\<close>

definition ALLOWED_CATEGORIES :: "string list" where
  "ALLOWED_CATEGORIES = [''decomposition'', ''reviewer_explanation'', ''summarize_evidence'', ''temporal_normalization'']"

record prompt_card =
  pc_category :: pystr
  pc_version :: pystr
  pc_system :: pystr
  pc_user_template :: pystr
  pc_metadata :: "pyval dict"

text \<open>The directory of cards: by category, its files in order of their names, each with what YAML reads from it.\<close>

type_synonym card_files = "(pystr \<times> (pystr \<times> pyval) list) list"

definition card_doc :: "card_files \<Rightarrow> pystr \<Rightarrow> pystr \<Rightarrow> pyval option" where
  "card_doc files category version = (case map_of files category of None \<Rightarrow> None | Some cards \<Rightarrow> map_of cards version)"

definition load_card :: "(pyval \<Rightarrow> pystr) \<Rightarrow> card_files \<Rightarrow> pystr \<Rightarrow> pystr \<Rightarrow> pyerr + prompt_card" where
  "load_card rp files category version =
     (if category \<notin> lit ` set ALLOWED_CATEGORIES then Inl ValueError
      else case card_doc files category version of
        None \<Rightarrow> Inl FileNotFoundError
      | Some (PDict doc) \<Rightarrow>
          (case (dget doc (lit ''system''), dget doc (lit ''user_template'')) of
             (Some s, Some u) \<Rightarrow> Inr
               \<lparr>pc_category = category, pc_version = version, pc_system = py_rstrip (py_str rp s), pc_user_template = py_str rp u,
                pc_metadata = filter (\<lambda>(k, _). k \<notin> {lit ''system'', lit ''user_template''}) doc\<rparr>
           | _ \<Rightarrow> Inl KeyError)
      | Some _ \<Rightarrow> Inl ValueError)"

definition available_cards :: "card_files \<Rightarrow> (pystr \<times> pystr) list" where
  "available_cards files =
     concat (map (\<lambda>c. case map_of files (lit c) of None \<Rightarrow> [] | Some cards \<Rightarrow> map (\<lambda>(v, _). (lit c, v)) cards) ALLOWED_CATEGORIES)"

text \<open>A card that is listed is found: loading it fails on its contents only.\<close>

lemma available_cards_load:
  assumes "(c, v) \<in> set (available_cards files)"
  shows "load_card rp files c v \<noteq> Inl FileNotFoundError" "\<exists>doc. card_doc files c v = Some doc"
proof -
  obtain n cards where n: "n \<in> set ALLOWED_CATEGORIES" "c = lit n" "map_of files c = Some cards" "v \<in> fst ` set cards"
    using assms by (auto simp: available_cards_def split: option.splits) force
  then obtain doc where d: "card_doc files c v = Some doc"
    by (metis card_doc_def domD dom_map_of_conv_image_fst option.case(2))
  then show "\<exists>doc. card_doc files c v = Some doc" by blast
  show "load_card rp files c v \<noteq> Inl FileNotFoundError"
    using d by (auto simp: load_card_def split: pyval.splits option.splits)
qed

end
