(* ===== verification/Enrichment.thy ===== *)
theory Enrichment
  imports Ingest
begin

text \<open>
  \<open>scripts/enrich_vote_bills.py\<close>, which is to set the bill of a vote event and to link the two, with its template
  \<open>infra/neo4j/upserts/relationships/vote_event_about_bill.cypher\<close> and the page iterator of \<open>civic_ingest/odata.py\<close> it calls.
\<close>

section \<open>Pages one after the other\<close>

text \<open>
  \<open>iter_odata_pages\<close>: the pages it yields and the exception that ends it. Unlike the adapter loop it takes a link as it is.
  The fuel bounds the pages; \<open>None\<close> means that it was not enough.
\<close>

fun odata_pages ::
    "nat \<Rightarrow> (nat list \<Rightarrow> pyerr + pyval) \<Rightarrow> (pystr \<Rightarrow> pyerr + nat list) \<Rightarrow> int option \<Rightarrow> nat \<Rightarrow> pystr \<Rightarrow>
     ((pystr \<times> odata_page) gen) option" where
  "odata_pages 0 jl fetcher max_pages n url = None"
| "odata_pages (Suc fuel) jl fetcher max_pages n url =
     (case fetcher url of
        Inl e \<Rightarrow> Some ([], Some e)
      | Inr content \<Rightarrow>
          (case parse_odata_page jl content of
             Inl e \<Rightarrow> Some ([], Some e)
           | Inr page \<Rightarrow>
               if page_limit max_pages (n + 1) then Some ([(url, page)], None)
               else (case op_next_link page of
                  PNone \<Rightarrow> Some ([(url, page)], None)
                | PStr next \<Rightarrow> map_option (\<lambda>(ps, e). ((url, page) # ps, e)) (odata_pages fuel jl fetcher max_pages (n + 1) next)
                | _ \<Rightarrow> Some ([(url, page)], Some TypeError))))"

text \<open>With a page limit the fuel can be named: the limit, or one page.\<close>

lemma odata_pages_enough:
  "nat m - n < fuel \<Longrightarrow> \<exists>g. odata_pages fuel jl fetcher (Some m) n url = Some g"
proof (induction fuel arbitrary: n url)
  case (Suc fuel)
  have "\<exists>g. odata_pages fuel jl fetcher (Some m) (n + 1) u = Some g" if "\<not> page_limit (Some m) (n + 1)" for u
    using that Suc by (simp add: page_limit_def)
  then show ?case by (auto split: sum.split pyval.split; metis)
qed simp

section \<open>Linking a vote to its bill\<close>

text \<open>
  The template: a vote event that exists gets the bill and the other values, whether or not the bill exists; the edge and the
  row it returns need both. \<open>None\<close> for the row means that nothing was matched to the end.
\<close>

definition vote_event_about_bill ::
    "(pyval \<Rightarrow> pyval option) \<Rightarrow> pystr \<Rightarrow> pystr \<Rightarrow> pyval \<Rightarrow> pyval \<Rightarrow> graph \<Rightarrow> pyerr + graph \<times> bool" where
  "vote_event_about_bill dtm vote_event_id bill_id occurred_at vote_type g =
     (let v = (''VoteEvent'', vote_event_id); b = (''Bill'', bill_id) in
      case g_nodes g v of
        None \<Rightarrow> Inr (g, False)
      | Some pr \<Rightarrow>
          if \<not> date_ok dtm occurred_at then Inl DatabaseError
          else let pr' = pr(''bill_id'' := PStr bill_id, ''occurred_at'' := coalesce [as_date dtm occurred_at, pr ''occurred_at''],
                 ''vote_type'' := coalesce [vote_type, pr ''vote_type'']);
               g' = g\<lparr>g_nodes := (g_nodes g)(v := Some pr')\<rparr>
          in if g_nodes g' b = None then Inr (g', False)
             else Inr (g'\<lparr>g_edges := (g_edges g')((''ABOUT_BILL'', v, b) :=
               Some (case g_edges g' (''ABOUT_BILL'', v, b) of None \<Rightarrow> (\<lambda>_. PNone) | Some p \<Rightarrow> p))\<rparr>, True))"

record enrich_counts =
  en_processed :: nat
  en_linked :: nat
  en_missing :: nat

definition no_counts :: enrich_counts where
  "no_counts = \<lparr>en_processed = 0, en_linked = 0, en_missing = 0\<rparr>"

definition ext_uuid_str :: "uuid5 \<Rightarrow> (pyval \<Rightarrow> pystr) \<Rightarrow> string \<Rightarrow> pyval \<Rightarrow> pystr" where
  "ext_uuid_str u5 rp kind v = uuid_str (ext_uuid u5 kind (py_str rp v))"

text \<open>The loop over the rows; a row that is no dictionary has no \<open>get\<close>.\<close>

fun enrich_rows ::
    "uuid5 \<Rightarrow> (pyval \<Rightarrow> pystr) \<Rightarrow> (pyval \<Rightarrow> pyval option) \<Rightarrow> bool \<Rightarrow> pyval list \<Rightarrow> enrich_counts \<Rightarrow> graph \<Rightarrow>
     graph \<times> (pyerr + enrich_counts)" where
  "enrich_rows u5 rp dtm dry [] c g = (g, Inr c)"
| "enrich_rows u5 rp dtm dry (PDict r # rs) c g =
     (let vote = vget r (lit ''VoteID''); bill = vget r (lit ''BillID'') in
      if \<not> truthy vote \<or> \<not> truthy bill then enrich_rows u5 rp dtm dry rs c g
      else let c1 = c\<lparr>en_processed := en_processed c + 1\<rparr> in
        if dry then enrich_rows u5 rp dtm dry rs (c1\<lparr>en_linked := en_linked c1 + 1\<rparr>) g
        else (case vote_event_about_bill dtm (ext_uuid_str u5 rp ''knesset_vote'' vote) (ext_uuid_str u5 rp ''knesset_bill'' bill)
            (vget r (lit ''StartDate'')) (vget r (lit ''VoteType'')) g of
           Inl e \<Rightarrow> (g, Inl e)
         | Inr (g', linked) \<Rightarrow> enrich_rows u5 rp dtm dry rs
             (if linked then c1\<lparr>en_linked := en_linked c1 + 1\<rparr> else c1\<lparr>en_missing := en_missing c1 + 1\<rparr>) g'))"
| "enrich_rows u5 rp dtm dry (_ # rs) c g = (g, Inl AttributeError)"

text \<open>
  \<open>_parse_odata_pages\<close> hands the fetcher and the address to \<open>iter_odata_pages\<close> as two positional arguments, of which that
  function takes one: Python raises before the first page.
\<close>

definition parse_odata_pages :: "pyval gen" where
  "parse_odata_pages = ([], Some TypeError)"

definition enrich_main ::
    "uuid5 \<Rightarrow> (pyval \<Rightarrow> pystr) \<Rightarrow> (pyval \<Rightarrow> pyval option) \<Rightarrow> bool \<Rightarrow> bool \<Rightarrow> bool \<Rightarrow> pyval gen \<Rightarrow> graph \<Rightarrow> graph \<times> (pyerr + nat)" where
  "enrich_main u5 rp dtm template_there graph_up dry pages g =
     (if \<not> template_there \<or> \<not> graph_up then (g, Inr 1)
      else case enrich_rows u5 rp dtm dry (fst pages) no_counts g of
        (g', Inl e) \<Rightarrow> (g', Inl e)
      | (g', Inr c) \<Rightarrow> (case snd pages of Some e \<Rightarrow> (g', Inl e) | None \<Rightarrow> (g', Inr 0)))"

section \<open>What it does to the graph\<close>

lemma enrich_never_runs:
  "fst (enrich_main u5 rp dtm there up dry parse_odata_pages g) = g \<and> snd (enrich_main u5 rp dtm there up dry parse_odata_pages g) \<noteq> Inr 0"
  by (simp add: enrich_main_def parse_odata_pages_def)

text \<open>On rows that do arrive, edges still never dangle, and no node or edge is lost or made up but the links themselves.\<close>

lemma vote_event_about_bill_ok:
  assumes "vote_event_about_bill dtm v b o' t g = Inr (g', linked)" "graph_ok g"
  shows "graph_ok g' \<and> (\<forall>n. (g_nodes g' n = None) = (g_nodes g n = None)) \<and>
    (linked \<longleftrightarrow> g_nodes g (''VoteEvent'', v) \<noteq> None \<and> g_nodes g (''Bill'', b) \<noteq> None)"
proof (cases "g_nodes g (''VoteEvent'', v)")
  case None
  then show ?thesis using assms by (auto simp: vote_event_about_bill_def)
next
  case (Some pr)
  define g1 where "g1 = g\<lparr>g_nodes := (g_nodes g)((''VoteEvent'', v) :=
    Some (pr(''bill_id'' := PStr b, ''occurred_at'' := coalesce [as_date dtm o', pr ''occurred_at''], ''vote_type'' := coalesce [t, pr ''vote_type''])))\<rparr>"
  have n1: "(g_nodes g1 n = None) = (g_nodes g n = None)" for n using Some by (simp add: g1_def)
  have e1: "g_edges g1 = g_edges g" by (simp add: g1_def)
  have ok: "graph_ok g1" using assms(2) unfolding graph_ok_def e1 by (metis n1)
  have r: "vote_event_about_bill dtm v b o' t g =
      (if \<not> date_ok dtm o' then Inl DatabaseError
       else if g_nodes g1 (''Bill'', b) = None then Inr (g1, False)
       else Inr (g1\<lparr>g_edges := (g_edges g1)((''ABOUT_BILL'', (''VoteEvent'', v), (''Bill'', b)) :=
         Some (case g_edges g1 (''ABOUT_BILL'', (''VoteEvent'', v), (''Bill'', b)) of None \<Rightarrow> (\<lambda>_. PNone) | Some p \<Rightarrow> p))\<rparr>, True))"
    unfolding vote_event_about_bill_def Let_def Some g1_def by simp
  show ?thesis
  proof (cases "g_nodes g1 (''Bill'', b) = None")
    case True
    then have "g' = g1" "\<not> linked" using assms(1) unfolding r by (auto split: if_splits)
    then show ?thesis using ok n1 True by simp
  next
    case False
    then have g': "g_nodes g' = g_nodes g1" "linked" and edges: "g_edges g' = (g_edges g1)((''ABOUT_BILL'', (''VoteEvent'', v), (''Bill'', b)) :=
         Some (case g_edges g1 (''ABOUT_BILL'', (''VoteEvent'', v), (''Bill'', b)) of None \<Rightarrow> (\<lambda>_. PNone) | Some p \<Rightarrow> p))"
      using assms(1) unfolding r by (auto split: if_splits)
    have "g_nodes g1 (''VoteEvent'', v) \<noteq> None" using Some n1 by simp
    then have "graph_ok g'" using ok False unfolding graph_ok_def edges g'(1) fun_upd_apply by auto
    then show ?thesis using False g' n1 Some by simp
  qed
qed

lemma enrich_rows_ok:
  "graph_ok g \<Longrightarrow> enrich_rows u5 rp dtm dry rs c g = (g', out) \<Longrightarrow> graph_ok g' \<and> (\<forall>n. (g_nodes g' n = None) = (g_nodes g n = None))"
proof (induction u5 rp dtm dry rs c g rule: enrich_rows.induct)
  case (2 u5 rp dtm dry r rs c g)
  then show ?case
    by (auto simp: Let_def split: if_splits sum.splits prod.splits dest!: vote_event_about_bill_ok)
qed auto

text \<open>A vote whose bill is not in the graph is counted as skipped, and its event has the bill all the same.\<close>

lemma missing_bill_set:
  assumes "g_nodes g (''VoteEvent'', v) = Some pr" "g_nodes g (''Bill'', b) = None" "date_ok dtm t"
  shows "\<exists>g'. vote_event_about_bill dtm v b t k g = Inr (g', False) \<and> (\<exists>pr'. g_nodes g' (''VoteEvent'', v) = Some pr' \<and> pr' ''bill_id'' = PStr b)"
  using assms by (auto simp: vote_event_about_bill_def Let_def)

end
