(* ===== verification/Migrations.thy ===== *)
theory Migrations
  imports Py_Prelude
begin

text \<open>
  The Postgres schema: the six Alembic migrations of \<open>infra/migrations/versions/\<close> as data, the statements they consist of as
  operations on a schema, and \<open>alembic upgrade\<close> and \<open>downgrade\<close> along their chain. A statement that Postgres rejects raises;
  rows are not modelled.
\<close>

section \<open>Schemas\<close>

datatype col_type = IntegerCol | BigIntCol | SmallIntCol | TextCol | TimestampCol | UuidCol | JsonCol | RealCol | BoolCol

text \<open>A server default: a quoted literal or an expression.\<close>

datatype server_default = Quoted string | Plain string

text \<open>Every foreign key cascades on delete, so the target is all there is to say of one.\<close>

record column =
  co_name :: string
  co_type :: col_type
  co_nullable :: bool
  co_unique :: bool
  co_primary :: bool
  co_default :: "server_default option"
  co_foreign_key :: "(string \<times> string) option"

datatype check = OneOf string "string list" | OneOfInt string "int list" | Between string int int

datatype table_constraint =
    Check string check
  | Unique string "string list"
  | ForeignKey string "string list" string "string list"

record table =
  tb_name :: string
  tb_columns :: "column list"
  tb_constraints :: "table_constraint list"

datatype index_key = Asc string | Desc string

record table_index =
  ix_name :: string
  ix_table :: string
  ix_keys :: "index_key list"

record schema =
  sc_tables :: "table list"
  sc_indexes :: "table_index list"

definition empty_schema :: schema where
  "empty_schema = \<lparr>sc_tables = [], sc_indexes = []\<rparr>"

definition req_col :: "string \<Rightarrow> col_type \<Rightarrow> column" where
  "req_col n t = \<lparr>co_name = n, co_type = t, co_nullable = False, co_unique = False, co_primary = False, co_default = None, co_foreign_key = None\<rparr>"

definition pk_col :: "string \<Rightarrow> col_type \<Rightarrow> column" where
  "pk_col n t = (req_col n t)\<lparr>co_primary := True\<rparr>"

definition unique_col :: "string \<Rightarrow> col_type \<Rightarrow> column" where
  "unique_col n t = (req_col n t)\<lparr>co_unique := True\<rparr>"

definition null_col :: "string \<Rightarrow> col_type \<Rightarrow> column" where
  "null_col n t = (req_col n t)\<lparr>co_nullable := True\<rparr>"

definition default_col :: "string \<Rightarrow> col_type \<Rightarrow> server_default \<Rightarrow> column" where
  "default_col n t d = (req_col n t)\<lparr>co_default := Some d\<rparr>"

definition now_col :: "string \<Rightarrow> column" where
  "now_col n = default_col n TimestampCol (Plain ''now()'')"

definition fk_col :: "string \<Rightarrow> col_type \<Rightarrow> string \<times> string \<Rightarrow> column" where
  "fk_col n t target = (req_col n t)\<lparr>co_foreign_key := Some target\<rparr>"

section \<open>Statements\<close>

datatype ddl =
    CreateTable table
  | DropTable string
  | CreateIndex string string "index_key list"
  | DropIndex string string
  | RenameColumn string string string
  | AddColumn string column
  | DropColumn string string
  | AddConstraint string table_constraint
  | DropConstraint string string
  | InsertInto string "string list"

definition find_table :: "schema \<Rightarrow> string \<Rightarrow> table option" where
  "find_table s n = find (\<lambda>t. tb_name t = n) (sc_tables s)"

definition col_names :: "table \<Rightarrow> string list" where
  "col_names t = map co_name (tb_columns t)"

fun check_column :: "check \<Rightarrow> string" where
  "check_column (OneOf c _) = c"
| "check_column (OneOfInt c _) = c"
| "check_column (Between c _ _) = c"

fun con_name :: "table_constraint \<Rightarrow> string" where
  "con_name (Check n _) = n"
| "con_name (Unique n _) = n"
| "con_name (ForeignKey n _ _ _) = n"

fun con_columns :: "table_constraint \<Rightarrow> string list" where
  "con_columns (Check _ c) = [check_column c]"
| "con_columns (Unique _ cs) = cs"
| "con_columns (ForeignKey _ cs _ _) = cs"

fun key_column :: "index_key \<Rightarrow> string" where
  "key_column (Asc c) = c"
| "key_column (Desc c) = c"

text \<open>The keys a foreign key may refer to, and the foreign keys of a table.\<close>

definition table_keys :: "table \<Rightarrow> string list list" where
  "table_keys t = map (\<lambda>c. [co_name c]) (filter (\<lambda>c. co_primary c \<or> co_unique c) (tb_columns t)) @
     concat (map (\<lambda>k. case k of Unique _ cs \<Rightarrow> [cs] | _ \<Rightarrow> []) (tb_constraints t))"

fun con_target :: "table_constraint \<Rightarrow> (string \<times> string list) list" where
  "con_target (ForeignKey _ _ t cs) = [(t, cs)]"
| "con_target _ = []"

definition column_target :: "column \<Rightarrow> (string \<times> string list) list" where
  "column_target c = (case co_foreign_key c of None \<Rightarrow> [] | Some (t, k) \<Rightarrow> [(t, [k])])"

definition references :: "table \<Rightarrow> (string \<times> string list) list" where
  "references t = concat (map column_target (tb_columns t)) @ concat (map con_target (tb_constraints t))"

definition resolves :: "table list \<Rightarrow> string \<times> string list \<Rightarrow> bool" where
  "resolves ts r \<longleftrightarrow> list_ex (\<lambda>t. tb_name t = fst r \<and> List.member (table_keys t) (snd r)) ts"

text \<open>A table by itself, and every reference of a schema.\<close>

definition table_ok :: "table \<Rightarrow> bool" where
  "table_ok t \<longleftrightarrow> distinct (col_names t) \<and> distinct (map con_name (tb_constraints t)) \<and>
     list_all (\<lambda>k. list_all (List.member (col_names t)) (con_columns k)) (tb_constraints t)"

definition references_ok :: "table list \<Rightarrow> bool" where
  "references_ok ts \<longleftrightarrow> list_all (\<lambda>t. list_all (resolves ts) (references t)) ts"

definition index_ok :: "schema \<Rightarrow> table_index \<Rightarrow> bool" where
  "index_ok s i \<longleftrightarrow> (case find_table s (ix_table i) of None \<Rightarrow> False
     | Some t \<Rightarrow> list_all (\<lambda>k. List.member (col_names t) (key_column k)) (ix_keys i))"

definition schema_ok :: "schema \<Rightarrow> bool" where
  "schema_ok s \<longleftrightarrow> distinct (map tb_name (sc_tables s) @ map ix_name (sc_indexes s)) \<and> list_all table_ok (sc_tables s) \<and>
     references_ok (sc_tables s) \<and> list_all (index_ok s) (sc_indexes s)"

text \<open>Tables and indexes share one name space.\<close>

definition name_taken :: "schema \<Rightarrow> string \<Rightarrow> bool" where
  "name_taken s n \<longleftrightarrow> list_ex (\<lambda>t. tb_name t = n) (sc_tables s) \<or> list_ex (\<lambda>i. ix_name i = n) (sc_indexes s)"

definition on_table :: "string \<Rightarrow> (table \<Rightarrow> table) \<Rightarrow> schema \<Rightarrow> schema" where
  "on_table n f s = s\<lparr>sc_tables := map (\<lambda>t. if tb_name t = n then f t else t) (sc_tables s)\<rparr>"

definition swap_name :: "string \<Rightarrow> string \<Rightarrow> string \<Rightarrow> string" where
  "swap_name old new c = (if c = old then new else c)"

fun rename_check :: "string \<Rightarrow> string \<Rightarrow> check \<Rightarrow> check" where
  "rename_check old new (OneOf c vs) = OneOf (swap_name old new c) vs"
| "rename_check old new (OneOfInt c vs) = OneOfInt (swap_name old new c) vs"
| "rename_check old new (Between c a b) = Between (swap_name old new c) a b"

fun rename_con :: "string \<Rightarrow> string \<Rightarrow> table_constraint \<Rightarrow> table_constraint" where
  "rename_con old new (Check n c) = Check n (rename_check old new c)"
| "rename_con old new (Unique n cs) = Unique n (map (swap_name old new) cs)"
| "rename_con old new (ForeignKey n cs t ks) = ForeignKey n (map (swap_name old new) cs) t ks"

fun rename_key :: "string \<Rightarrow> string \<Rightarrow> index_key \<Rightarrow> index_key" where
  "rename_key old new (Asc c) = Asc (swap_name old new c)"
| "rename_key old new (Desc c) = Desc (swap_name old new c)"

definition rename_in :: "string \<Rightarrow> string \<Rightarrow> table \<Rightarrow> table" where
  "rename_in old new t = t\<lparr>tb_columns := map (\<lambda>c. c\<lparr>co_name := swap_name old new (co_name c)\<rparr>) (tb_columns t),
     tb_constraints := map (rename_con old new) (tb_constraints t)\<rparr>"

text \<open>Dropping a column takes the constraints and indexes that use it along.\<close>

definition drop_in :: "string \<Rightarrow> table \<Rightarrow> table" where
  "drop_in c t = t\<lparr>tb_columns := filter (\<lambda>k. co_name k \<noteq> c) (tb_columns t),
     tb_constraints := filter (\<lambda>k. \<not> List.member (con_columns k) c) (tb_constraints t)\<rparr>"

text \<open>
  One statement. A reference that would be left without its target makes Postgres reject it. Renaming a column that is
  referred to is left out: no migration does.
\<close>

definition checked :: "schema \<Rightarrow> pyerr + schema" where
  "checked s = (if references_ok (sc_tables s) then Inr s else Inl DatabaseError)"

definition with_table :: "schema \<Rightarrow> string \<Rightarrow> (table \<Rightarrow> bool) \<Rightarrow> schema \<Rightarrow> pyerr + schema" where
  "with_table s n ok s' = (case find_table s n of None \<Rightarrow> Inl DatabaseError | Some t \<Rightarrow> if ok t then checked s' else Inl DatabaseError)"

fun run_statement :: "ddl \<Rightarrow> schema \<Rightarrow> pyerr + schema" where
  "run_statement (CreateTable t) s =
     (if name_taken s (tb_name t) \<or> \<not> table_ok t then Inl DatabaseError else checked (s\<lparr>sc_tables := sc_tables s @ [t]\<rparr>))"
| "run_statement (DropTable n) s =
     with_table s n (\<lambda>_. True) \<lparr>sc_tables = filter (\<lambda>t. tb_name t \<noteq> n) (sc_tables s), sc_indexes = filter (\<lambda>i. ix_table i \<noteq> n) (sc_indexes s)\<rparr>"
| "run_statement (CreateIndex n t keys) s =
     (let i = \<lparr>ix_name = n, ix_table = t, ix_keys = keys\<rparr> in
      if name_taken s n \<or> \<not> index_ok s i then Inl DatabaseError else Inr (s\<lparr>sc_indexes := sc_indexes s @ [i]\<rparr>))"
| "run_statement (DropIndex n t) s =
     (if list_ex (\<lambda>i. ix_name i = n) (sc_indexes s) then Inr (s\<lparr>sc_indexes := filter (\<lambda>i. ix_name i \<noteq> n) (sc_indexes s)\<rparr>)
      else Inl DatabaseError)"
| "run_statement (RenameColumn n old new) s =
     with_table s n (\<lambda>t. List.member (col_names t) old \<and> \<not> List.member (col_names t) new)
       ((on_table n (rename_in old new) s)\<lparr>sc_indexes :=
          map (\<lambda>i. if ix_table i = n then i\<lparr>ix_keys := map (rename_key old new) (ix_keys i)\<rparr> else i) (sc_indexes s)\<rparr>)"
| "run_statement (AddColumn n c) s =
     with_table s n (\<lambda>t. \<not> List.member (col_names t) (co_name c)) (on_table n (\<lambda>t. t\<lparr>tb_columns := tb_columns t @ [c]\<rparr>) s)"
| "run_statement (DropColumn n c) s =
     with_table s n (\<lambda>t. List.member (col_names t) c)
       ((on_table n (drop_in c) s)\<lparr>sc_indexes := filter (\<lambda>i. \<not> (ix_table i = n \<and> list_ex (\<lambda>k. key_column k = c) (ix_keys i))) (sc_indexes s)\<rparr>)"
| "run_statement (AddConstraint n k) s =
     with_table s n (\<lambda>t. \<not> List.member (map con_name (tb_constraints t)) (con_name k) \<and> list_all (List.member (col_names t)) (con_columns k))
       (on_table n (\<lambda>t. t\<lparr>tb_constraints := tb_constraints t @ [k]\<rparr>) s)"
| "run_statement (DropConstraint n k) s =
     with_table s n (\<lambda>t. List.member (map con_name (tb_constraints t)) k)
       (on_table n (\<lambda>t. t\<lparr>tb_constraints := filter (\<lambda>x. con_name x \<noteq> k) (tb_constraints t)\<rparr>) s)"
| "run_statement (InsertInto n cs) s = with_table s n (\<lambda>t. list_all (List.member (col_names t)) cs) s"

fun run_statements :: "ddl list \<Rightarrow> schema \<Rightarrow> pyerr + schema" where
  "run_statements [] s = Inr s"
| "run_statements (x # xs) s = bind_err (run_statement x s) (run_statements xs)"

section \<open>The migrations\<close>

record migration =
  mg_revision :: string
  mg_down_revision :: "string option"
  mg_upgrade :: "ddl list"
  mg_downgrade :: "ddl list"

definition schema_migrations_info_table :: table where
  "schema_migrations_info_table = \<lparr>tb_name = ''schema_migrations_info'',
     tb_columns = [
       pk_col ''id'' IntegerCol, req_col ''note'' TextCol, now_col ''applied_at''],
     tb_constraints = []\<rparr>"

definition migration_0001 :: migration where
  "migration_0001 = \<lparr>mg_revision = ''0001'', mg_down_revision = None,
     mg_upgrade = [
       CreateTable schema_migrations_info_table, InsertInto ''schema_migrations_info'' [''note'']],
     mg_downgrade = [DropTable ''schema_migrations_info'']\<rparr>"

definition ingest_runs_table :: table where
  "ingest_runs_table = \<lparr>tb_name = ''ingest_runs'',
     tb_columns = [pk_col ''id'' BigIntCol,
       unique_col ''run_id'' UuidCol, req_col ''source_family'' TextCol, now_col ''started_at'',
       null_col ''finished_at'' TimestampCol, req_col ''status'' TextCol, default_col ''stats'' JsonCol (Quoted ''{}'')],
     tb_constraints = [Check ''ingest_runs_status_check'' (OneOf ''status'' [''running'', ''succeeded'', ''failed''])]\<rparr>"

definition raw_fetch_objects_table :: table where
  "raw_fetch_objects_table = \<lparr>tb_name = ''raw_fetch_objects'',
     tb_columns = [pk_col ''id'' BigIntCol,
       unique_col ''object_id'' UuidCol, fk_col ''ingest_run_id'' BigIntCol (''ingest_runs'', ''id''),
       req_col ''source_url'' TextCol, req_col ''archive_uri'' TextCol, unique_col ''content_sha256'' TextCol,
       null_col ''content_type'' TextCol, null_col ''byte_size'' BigIntCol, now_col ''captured_at'',
       req_col ''source_tier'' IntegerCol],
     tb_constraints = [Check ''raw_fetch_objects_source_tier_check'' (OneOfInt ''source_tier'' [1, 2, 3])]\<rparr>"

definition parse_jobs_table :: table where
  "parse_jobs_table = \<lparr>tb_name = ''parse_jobs'',
     tb_columns = [pk_col ''id'' BigIntCol,
       unique_col ''job_id'' UuidCol, fk_col ''raw_fetch_object_id'' BigIntCol (''raw_fetch_objects'', ''id''),
       req_col ''parser_name'' TextCol, req_col ''status'' TextCol, null_col ''error'' TextCol, now_col ''created_at'',
       null_col ''finished_at'' TimestampCol],
     tb_constraints = [
       Check ''parse_jobs_status_check'' (OneOf ''status'' [''pending'', ''running'', ''succeeded'', ''failed''])]\<rparr>"

definition normalized_records_table :: table where
  "normalized_records_table = \<lparr>tb_name = ''normalized_records'',
     tb_columns = [pk_col ''id'' BigIntCol,
       unique_col ''record_id'' UuidCol, fk_col ''parse_job_id'' BigIntCol (''parse_jobs'', ''id''),
       req_col ''record_kind'' TextCol, req_col ''payload'' JsonCol, req_col ''source_tier'' IntegerCol,
       now_col ''created_at''],
     tb_constraints = [
       Check ''normalized_records_kind_check'' (OneOf ''record_kind'' [''person'', ''office'', ''party'', ''committee'', ''bill'', ''membership'', ''vote'', ''sponsorship'', ''attendance'', ''source_document'']),
       Check ''normalized_records_source_tier_check'' (OneOfInt ''source_tier'' [1, 2, 3])]\<rparr>"

definition entity_candidates_table :: table where
  "entity_candidates_table = \<lparr>tb_name = ''entity_candidates'',
     tb_columns = [pk_col ''id'' BigIntCol,
       unique_col ''candidate_id'' UuidCol, req_col ''mention_text'' TextCol, null_col ''resolved_person_id'' UuidCol,
       req_col ''confidence'' RealCol, req_col ''method'' TextCol, default_col ''evidence'' JsonCol (Quoted ''{}''),
       now_col ''created_at''],
     tb_constraints = [Check ''entity_candidates_confidence_check'' (Between ''confidence'' 0 1)]\<rparr>"

definition review_tasks_table :: table where
  "review_tasks_table = \<lparr>tb_name = ''review_tasks'',
     tb_columns = [pk_col ''id'' BigIntCol,
       unique_col ''task_id'' UuidCol, req_col ''kind'' TextCol, req_col ''status'' TextCol,
       default_col ''priority'' IntegerCol (Plain ''0''), req_col ''payload'' JsonCol, null_col ''assigned_to'' TextCol,
       now_col ''created_at'', null_col ''resolved_at'' TimestampCol],
     tb_constraints = [
       Check ''review_tasks_kind_check'' (OneOf ''kind'' [''entity_resolution'', ''verdict'', ''conflict'']),
       Check ''review_tasks_status_check'' (OneOf ''status'' [''open'', ''claimed'', ''resolved'', ''escalated''])]\<rparr>"

definition review_actions_table :: table where
  "review_actions_table = \<lparr>tb_name = ''review_actions'',
     tb_columns = [pk_col ''id'' BigIntCol,
       unique_col ''action_id'' UuidCol, fk_col ''task_id'' BigIntCol (''review_tasks'', ''id''),
       req_col ''actor'' TextCol, req_col ''action'' TextCol, default_col ''diff'' JsonCol (Quoted ''{}''),
       now_col ''created_at''],
     tb_constraints = [
       Check ''review_actions_action_check'' (OneOf ''action'' [''approve'', ''reject'', ''relink'', ''annotate'', ''escalate''])]\<rparr>"

definition verification_runs_table :: table where
  "verification_runs_table = \<lparr>tb_name = ''verification_runs'',
     tb_columns = [pk_col ''id'' BigIntCol,
       unique_col ''run_id'' UuidCol, req_col ''claim_id'' UuidCol, req_col ''ruleset_version'' TextCol,
       null_col ''model_version'' TextCol, req_col ''verdict'' JsonCol,
       default_col ''needs_human_review'' BoolCol (Plain ''false''), now_col ''created_at''],
     tb_constraints = []\<rparr>"

definition verdict_exports_table :: table where
  "verdict_exports_table = \<lparr>tb_name = ''verdict_exports'',
     tb_columns = [pk_col ''id'' BigIntCol,
       unique_col ''verdict_id'' UuidCol, fk_col ''verification_run_id'' BigIntCol (''verification_runs'', ''id''),
       req_col ''exported_to'' TextCol, now_col ''exported_at'', req_col ''payload'' JsonCol],
     tb_constraints = []\<rparr>"

definition migration_0002 :: migration where
  "migration_0002 = \<lparr>mg_revision = ''0002'', mg_down_revision = Some ''0001'',
     mg_upgrade = [
       CreateTable ingest_runs_table, CreateTable raw_fetch_objects_table,
       CreateIndex ''idx_raw_fetch_objects_archive_uri'' ''raw_fetch_objects'' [Asc ''archive_uri''],
       CreateTable parse_jobs_table, CreateTable normalized_records_table,
       CreateIndex ''idx_normalized_records_kind'' ''normalized_records'' [Asc ''record_kind''],
       CreateTable entity_candidates_table, CreateTable review_tasks_table,
       CreateIndex ''idx_review_tasks_status_priority'' ''review_tasks'' [Asc ''status'', Desc ''priority''],
       CreateTable review_actions_table, CreateTable verification_runs_table,
       CreateIndex ''idx_verification_runs_claim_id'' ''verification_runs'' [Asc ''claim_id''],
       CreateTable verdict_exports_table],
     mg_downgrade = [DropTable ''verdict_exports'', DropIndex ''idx_verification_runs_claim_id'' ''verification_runs'',
       DropTable ''verification_runs'', DropTable ''review_actions'',
       DropIndex ''idx_review_tasks_status_priority'' ''review_tasks'', DropTable ''review_tasks'',
       DropTable ''entity_candidates'', DropIndex ''idx_normalized_records_kind'' ''normalized_records'',
       DropTable ''normalized_records'', DropTable ''parse_jobs'',
       DropIndex ''idx_raw_fetch_objects_archive_uri'' ''raw_fetch_objects'', DropTable ''raw_fetch_objects'',
       DropTable ''ingest_runs'']\<rparr>"

definition jobs_table :: table where
  "jobs_table = \<lparr>tb_name = ''jobs'',
     tb_columns = [pk_col ''id'' BigIntCol, unique_col ''job_id'' UuidCol,
       req_col ''kind'' TextCol, default_col ''payload'' JsonCol (Quoted ''{}''),
       default_col ''status'' TextCol (Quoted ''queued''), default_col ''priority'' SmallIntCol (Plain ''5''),
       default_col ''attempts'' SmallIntCol (Plain ''0''), null_col ''last_error'' TextCol, now_col ''run_after'',
       null_col ''ingest_run_id'' UuidCol, now_col ''created_at'', now_col ''updated_at''],
     tb_constraints = [Check ''jobs_kind_check'' (OneOf ''kind'' [''fetch'', ''parse'', ''normalize'', ''upsert'']),
       Check ''jobs_status_check'' (OneOf ''status'' [''queued'', ''running'', ''done'', ''failed'', ''dead_letter''])]\<rparr>"

definition migration_0003 :: migration where
  "migration_0003 = \<lparr>mg_revision = ''0003'', mg_down_revision = Some ''0002'',
     mg_upgrade = [
       CreateTable jobs_table, CreateIndex ''idx_jobs_claim'' ''jobs'' [Asc ''status'', Asc ''run_after''],
       CreateIndex ''idx_jobs_kind_status'' ''jobs'' [Asc ''kind'', Asc ''status'']],
     mg_downgrade = [DropIndex ''idx_jobs_kind_status'' ''jobs'', DropIndex ''idx_jobs_claim'' ''jobs'',
       DropTable ''jobs'']\<rparr>"

definition entity_aliases_table :: table where
  "entity_aliases_table = \<lparr>tb_name = ''entity_aliases'',
     tb_columns = [pk_col ''id'' BigIntCol,
       unique_col ''alias_id'' UuidCol, req_col ''entity_kind'' TextCol, req_col ''canonical_entity_id'' UuidCol,
       req_col ''alias_text'' TextCol, default_col ''alias_locale'' TextCol (Quoted ''he''),
       null_col ''alias_source'' TextCol, default_col ''confidence'' SmallIntCol (Plain ''100''),
       now_col ''created_at''],
     tb_constraints = [
       Check ''entity_aliases_kind_check'' (OneOf ''entity_kind'' [''person'', ''party'', ''office'', ''committee'', ''bill'']),
       Check ''entity_aliases_confidence_check'' (Between ''confidence'' 0 100),
       Unique ''uq_entity_aliases_triple'' [''entity_kind'', ''alias_text'', ''alias_locale'']]\<rparr>"

definition migration_0004 :: migration where
  "migration_0004 = \<lparr>mg_revision = ''0004'', mg_down_revision = Some ''0003'',
     mg_upgrade = [
       CreateTable entity_aliases_table,
       CreateIndex ''idx_entity_aliases_kind_text'' ''entity_aliases'' [Asc ''entity_kind'', Asc ''alias_text'']],
     mg_downgrade = [DropIndex ''idx_entity_aliases_kind_text'' ''entity_aliases'', DropTable ''entity_aliases'']\<rparr>"

definition migration_0005 :: migration where
  "migration_0005 = \<lparr>mg_revision = ''0005'', mg_down_revision = Some ''0004'',
     mg_upgrade = [
       RenameColumn ''entity_candidates'' ''resolved_person_id'' ''canonical_entity_id'',
       AddColumn ''entity_candidates'' (default_col ''entity_kind'' TextCol (Quoted ''person'')),
       AddConstraint ''entity_candidates'' (Check ''entity_candidates_kind_check'' (OneOf ''entity_kind'' [''person'', ''party'', ''office'', ''committee'', ''bill''])),
       CreateIndex ''idx_entity_candidates_kind_canonical'' ''entity_candidates'' [Asc ''entity_kind'', Asc ''canonical_entity_id'']],
     mg_downgrade = [DropIndex ''idx_entity_candidates_kind_canonical'' ''entity_candidates'',
       DropConstraint ''entity_candidates'' ''entity_candidates_kind_check'',
       DropColumn ''entity_candidates'' ''entity_kind'',
       RenameColumn ''entity_candidates'' ''canonical_entity_id'' ''resolved_person_id'']\<rparr>"

definition statements_table :: table where
  "statements_table = \<lparr>tb_name = ''statements'',
     tb_columns = [pk_col ''id'' BigIntCol,
       unique_col ''statement_id'' UuidCol, req_col ''raw_text'' TextCol, req_col ''language'' TextCol,
       null_col ''speaker_hint'' TextCol, null_col ''source_url'' TextCol, null_col ''source_family'' TextCol,
       now_col ''received_at'', default_col ''metadata'' JsonCol (Quoted ''{}'')],
     tb_constraints = [Check ''statements_language_check'' (OneOf ''language'' [''he'', ''en''])]\<rparr>"

definition statement_claims_table :: table where
  "statement_claims_table = \<lparr>tb_name = ''statement_claims'',
     tb_columns = [pk_col ''id'' BigIntCol,
       req_col ''statement_id'' UuidCol, req_col ''claim_id'' UuidCol, req_col ''claim_type'' TextCol,
       req_col ''checkability'' TextCol, req_col ''method'' TextCol, default_col ''slots'' JsonCol (Quoted ''{}''),
       default_col ''time_scope'' JsonCol (Quoted ''{}''), now_col ''created_at''],
     tb_constraints = [Unique ''uq_statement_claim'' [''statement_id'', ''claim_id''],
       Check ''statement_claims_type_check'' (OneOf ''claim_type'' [''vote_cast'', ''bill_sponsorship'', ''office_held'', ''committee_membership'', ''committee_attendance'', ''statement_about_formal_action'']),
       Check ''statement_claims_checkability_check'' (OneOf ''checkability'' [''checkable'', ''non_checkable'', ''insufficient_time_scope'', ''insufficient_entity_resolution'']),
       Check ''statement_claims_method_check'' (OneOf ''method'' [''rules'', ''llm'', ''rules+llm''])]\<rparr>"

definition migration_0006 :: migration where
  "migration_0006 = \<lparr>mg_revision = ''0006'', mg_down_revision = Some ''0005'',
     mg_upgrade = [
       CreateTable statements_table, CreateIndex ''idx_statements_received_at'' ''statements'' [Asc ''received_at''],
       CreateTable statement_claims_table,
       CreateIndex ''idx_statement_claims_statement_id'' ''statement_claims'' [Asc ''statement_id''],
       CreateIndex ''idx_statement_claims_claim_id'' ''statement_claims'' [Asc ''claim_id''],
       AddConstraint ''statement_claims'' (ForeignKey ''fk_statement_claims_statement'' [''statement_id''] ''statements'' [''statement_id''])],
     mg_downgrade = [DropConstraint ''statement_claims'' ''fk_statement_claims_statement'',
       DropIndex ''idx_statement_claims_claim_id'' ''statement_claims'',
       DropIndex ''idx_statement_claims_statement_id'' ''statement_claims'', DropTable ''statement_claims'',
       DropIndex ''idx_statements_received_at'' ''statements'', DropTable ''statements'']\<rparr>"

definition MIGRATIONS :: "migration list" where
  "MIGRATIONS = [migration_0001, migration_0002, migration_0003, migration_0004, migration_0005, migration_0006]"

text \<open>The values a check of the form \<open>column IN (...)\<close> admits.\<close>

definition checked_values :: "schema \<Rightarrow> string \<Rightarrow> string \<Rightarrow> string list" where
  "checked_values s n c =
     (case find_table s n of
        None \<Rightarrow> []
      | Some t \<Rightarrow> concat (map (\<lambda>k. case k of Check _ (OneOf d vs) \<Rightarrow> if d = c then vs else [] | _ \<Rightarrow> []) (tb_constraints t)))"

section \<open>Alembic\<close>

text \<open>
  The database: the revision it is at and its schema. All migrations of a run share one transaction, so one that raises
  leaves the database as it was.
\<close>

record database =
  db_revision :: "string option"
  db_schema :: schema

definition fresh_database :: database where
  "fresh_database = \<lparr>db_revision = None, db_schema = empty_schema\<rparr>"

definition next_migration :: "string option \<Rightarrow> migration option" where
  "next_migration r = find (\<lambda>m. mg_down_revision m = r) MIGRATIONS"

definition last_migration :: "string option \<Rightarrow> migration option" where
  "last_migration r = find (\<lambda>m. Some (mg_revision m) = r) MIGRATIONS"

text \<open>\<open>alembic upgrade +n\<close> and \<open>alembic downgrade -n\<close>.\<close>

fun upgrade :: "nat \<Rightarrow> database \<Rightarrow> pyerr + database" where
  "upgrade 0 db = Inr db"
| "upgrade (Suc n) db =
     (case next_migration (db_revision db) of
        None \<Rightarrow> Inl LookupError
      | Some m \<Rightarrow> bind_err (run_statements (mg_upgrade m) (db_schema db)) (\<lambda>s.
          upgrade n \<lparr>db_revision = Some (mg_revision m), db_schema = s\<rparr>))"

fun downgrade :: "nat \<Rightarrow> database \<Rightarrow> pyerr + database" where
  "downgrade 0 db = Inr db"
| "downgrade (Suc n) db =
     (case last_migration (db_revision db) of
        None \<Rightarrow> Inl LookupError
      | Some m \<Rightarrow> bind_err (run_statements (mg_downgrade m) (db_schema db)) (\<lambda>s.
          downgrade n \<lparr>db_revision = mg_down_revision m, db_schema = s\<rparr>))"

section \<open>The databases along the chain\<close>

definition idx :: "string \<Rightarrow> string \<Rightarrow> index_key list \<Rightarrow> table_index" where
  "idx n t keys = \<lparr>ix_name = n, ix_table = t, ix_keys = keys\<rparr>"

definition schema_1 :: schema where
  "schema_1 = \<lparr>sc_tables = [schema_migrations_info_table], sc_indexes = []\<rparr>"

definition schema_2 :: schema where
  "schema_2 = \<lparr>sc_tables = [schema_migrations_info_table, ingest_runs_table, raw_fetch_objects_table, parse_jobs_table,
       normalized_records_table, entity_candidates_table, review_tasks_table, review_actions_table, verification_runs_table,
       verdict_exports_table],
     sc_indexes = [idx ''idx_raw_fetch_objects_archive_uri'' ''raw_fetch_objects'' [Asc ''archive_uri''],
       idx ''idx_normalized_records_kind'' ''normalized_records'' [Asc ''record_kind''],
       idx ''idx_review_tasks_status_priority'' ''review_tasks'' [Asc ''status'', Desc ''priority''],
       idx ''idx_verification_runs_claim_id'' ''verification_runs'' [Asc ''claim_id'']]\<rparr>"

definition schema_3 :: schema where
  "schema_3 = \<lparr>sc_tables = sc_tables schema_2 @ [jobs_table],
     sc_indexes = sc_indexes schema_2 @ [idx ''idx_jobs_claim'' ''jobs'' [Asc ''status'', Asc ''run_after''],
       idx ''idx_jobs_kind_status'' ''jobs'' [Asc ''kind'', Asc ''status'']]\<rparr>"

definition schema_4 :: schema where
  "schema_4 = \<lparr>sc_tables = sc_tables schema_3 @ [entity_aliases_table],
     sc_indexes = sc_indexes schema_3 @ [idx ''idx_entity_aliases_kind_text'' ''entity_aliases'' [Asc ''entity_kind'', Asc ''alias_text'']]\<rparr>"

definition polymorphic_candidates :: "table \<Rightarrow> table" where
  "polymorphic_candidates t = (let t' = rename_in ''resolved_person_id'' ''canonical_entity_id'' t in
     t'\<lparr>tb_columns := tb_columns t' @ [default_col ''entity_kind'' TextCol (Quoted ''person'')],
        tb_constraints := tb_constraints t' @ [Check ''entity_candidates_kind_check''
          (OneOf ''entity_kind'' [''person'', ''party'', ''office'', ''committee'', ''bill''])]\<rparr>)"

definition schema_5 :: schema where
  "schema_5 = \<lparr>sc_tables = map (\<lambda>t. if tb_name t = ''entity_candidates'' then polymorphic_candidates t else t) (sc_tables schema_4),
     sc_indexes = sc_indexes schema_4 @
       [idx ''idx_entity_candidates_kind_canonical'' ''entity_candidates'' [Asc ''entity_kind'', Asc ''canonical_entity_id'']]\<rparr>"

definition schema_6 :: schema where
  "schema_6 = \<lparr>sc_tables = sc_tables schema_5 @ [statements_table, statement_claims_table\<lparr>tb_constraints :=
       tb_constraints statement_claims_table @ [ForeignKey ''fk_statement_claims_statement'' [''statement_id''] ''statements'' [''statement_id'']]\<rparr>],
     sc_indexes = sc_indexes schema_5 @ [idx ''idx_statements_received_at'' ''statements'' [Asc ''received_at''],
       idx ''idx_statement_claims_statement_id'' ''statement_claims'' [Asc ''statement_id''],
       idx ''idx_statement_claims_claim_id'' ''statement_claims'' [Asc ''claim_id'']]\<rparr>"

lemma step_1: "run_statements (mg_upgrade migration_0001) empty_schema = Inr schema_1"
  "run_statements (mg_downgrade migration_0001) schema_1 = Inr empty_schema"
  by code_simp+

lemma step_2: "run_statements (mg_upgrade migration_0002) schema_1 = Inr schema_2"
  "run_statements (mg_downgrade migration_0002) schema_2 = Inr schema_1"
  by code_simp+

lemma step_3: "run_statements (mg_upgrade migration_0003) schema_2 = Inr schema_3"
  "run_statements (mg_downgrade migration_0003) schema_3 = Inr schema_2"
  by code_simp+

lemma step_4: "run_statements (mg_upgrade migration_0004) schema_3 = Inr schema_4"
  "run_statements (mg_downgrade migration_0004) schema_4 = Inr schema_3"
  by code_simp+

lemma step_5: "run_statements (mg_upgrade migration_0005) schema_4 = Inr schema_5"
  "run_statements (mg_downgrade migration_0005) schema_5 = Inr schema_4"
  by code_simp+

lemma step_6: "run_statements (mg_upgrade migration_0006) schema_5 = Inr schema_6"
  "run_statements (mg_downgrade migration_0006) schema_6 = Inr schema_5"
  by code_simp+

text \<open>The databases at the seven points of the chain.\<close>

definition chain :: "database list" where
  "chain = [fresh_database, \<lparr>db_revision = Some ''0001'', db_schema = schema_1\<rparr>, \<lparr>db_revision = Some ''0002'', db_schema = schema_2\<rparr>,
     \<lparr>db_revision = Some ''0003'', db_schema = schema_3\<rparr>, \<lparr>db_revision = Some ''0004'', db_schema = schema_4\<rparr>,
     \<lparr>db_revision = Some ''0005'', db_schema = schema_5\<rparr>, \<lparr>db_revision = Some ''0006'', db_schema = schema_6\<rparr>]"

lemma chain_ok: "list_all (\<lambda>db. schema_ok (db_schema db)) chain"
  by code_simp

text \<open>The checks of the head that the components rely on.\<close>

lemma head_checks:
  "checked_values schema_6 ''jobs'' ''kind'' = [''fetch'', ''parse'', ''normalize'', ''upsert'']"
  "checked_values schema_6 ''review_tasks'' ''kind'' = [''entity_resolution'', ''verdict'', ''conflict'']"
  "checked_values schema_6 ''review_actions'' ''action'' = [''approve'', ''reject'', ''relink'', ''annotate'', ''escalate'']"
  "checked_values schema_6 ''statements'' ''language'' = [''he'', ''en'']"
  "checked_values schema_6 ''statement_claims'' ''claim_type'' =
     [''vote_cast'', ''bill_sponsorship'', ''office_held'', ''committee_membership'', ''committee_attendance'', ''statement_about_formal_action'']"
  "checked_values schema_6 ''statement_claims'' ''checkability'' =
     [''checkable'', ''non_checkable'', ''insufficient_time_scope'', ''insufficient_entity_resolution'']"
  "checked_values schema_6 ''statement_claims'' ''method'' = [''rules'', ''llm'', ''rules+llm'']"
  "checked_values schema_6 ''entity_candidates'' ''entity_kind'' = [''person'', ''party'', ''office'', ''committee'', ''bill'']"
  "checked_values schema_6 ''ingest_runs'' ''status'' = [''running'', ''succeeded'', ''failed'']"
  by code_simp+

lemma migrations_linked:
  "next_migration None = Some migration_0001" "next_migration (Some ''0001'') = Some migration_0002"
  "next_migration (Some ''0002'') = Some migration_0003" "next_migration (Some ''0003'') = Some migration_0004"
  "next_migration (Some ''0004'') = Some migration_0005" "next_migration (Some ''0005'') = Some migration_0006"
  "next_migration (Some ''0006'') = None"
  "last_migration None = None" "last_migration (Some ''0001'') = Some migration_0001"
  "last_migration (Some ''0002'') = Some migration_0002" "last_migration (Some ''0003'') = Some migration_0003"
  "last_migration (Some ''0004'') = Some migration_0004" "last_migration (Some ''0005'') = Some migration_0005"
  "last_migration (Some ''0006'') = Some migration_0006"
  by (simp_all add: next_migration_def last_migration_def MIGRATIONS_def migration_0001_def migration_0002_def migration_0003_def
      migration_0004_def migration_0005_def migration_0006_def)

lemma revisions:
  "mg_revision migration_0001 = ''0001''" "mg_revision migration_0002 = ''0002''" "mg_revision migration_0003 = ''0003''"
  "mg_revision migration_0004 = ''0004''" "mg_revision migration_0005 = ''0005''" "mg_revision migration_0006 = ''0006''"
  "mg_down_revision migration_0001 = None" "mg_down_revision migration_0002 = Some ''0001''"
  "mg_down_revision migration_0003 = Some ''0002''" "mg_down_revision migration_0004 = Some ''0003''"
  "mg_down_revision migration_0005 = Some ''0004''" "mg_down_revision migration_0006 = Some ''0005''"
  by (simp_all add: migration_0001_def migration_0002_def migration_0003_def migration_0004_def migration_0005_def migration_0006_def)

lemma less_6: "(i :: nat) < 6 \<longleftrightarrow> i = 0 \<or> i = 1 \<or> i = 2 \<or> i = 3 \<or> i = 4 \<or> i = 5"
  by auto

lemma chain_steps:
  assumes "i < 6"
  shows "upgrade 1 (chain ! i) = Inr (chain ! Suc i)" "downgrade 1 (chain ! Suc i) = Inr (chain ! i)"
  using assms unfolding less_6
  by (auto simp: chain_def fresh_database_def migrations_linked revisions step_1 step_2 step_3 step_4 step_5 step_6)

lemma upgrade_add: "upgrade (m + n) db = bind_err (upgrade m db) (upgrade n)"
  by (induction m db rule: upgrade.induct) (auto simp: bind_err_def split: option.split sum.split)

lemma downgrade_add: "downgrade (m + n) db = bind_err (downgrade m db) (downgrade n)"
  by (induction m db rule: downgrade.induct) (auto simp: bind_err_def split: option.split sum.split)

lemma upgrade_chain: "i + n \<le> 6 \<Longrightarrow> upgrade n (chain ! i) = Inr (chain ! (i + n))"
proof (induction n)
  case (Suc n)
  then show ?case using chain_steps(1) [of "i + n"] upgrade_add [of n 1] by simp
qed simp

lemma downgrade_chain: "i + n \<le> 6 \<Longrightarrow> downgrade n (chain ! (i + n)) = Inr (chain ! i)"
proof (induction n)
  case (Suc n)
  then show ?case using chain_steps(2) [of "i + n"] downgrade_add [of 1 n] by simp
qed simp

lemma upgrade_head: "upgrade (length MIGRATIONS) fresh_database = Inr \<lparr>db_revision = Some ''0006'', db_schema = schema_6\<rparr>"
proof -
  have "length MIGRATIONS = 6" by (simp add: MIGRATIONS_def)
  then show ?thesis using upgrade_chain [of 0 6] by (simp add: chain_def del: upgrade.simps)
qed

text \<open>
  Claim C38. The migrations run: from an empty database every point of the chain is reached, with distinct names, with
  every index on columns that exist and every foreign key on a key that exists. They are reversible: from any point, going
  up \<open>n\<close> migrations and down again gives back the very schema, and the head is the sixth.
\<close>

theorem migrations_reversible:
  assumes "i + n \<le> length MIGRATIONS"
  shows "\<exists>a b. upgrade i fresh_database = Inr a \<and> upgrade n a = Inr b \<and> downgrade n b = Inr a \<and> downgrade (i + n) b = Inr fresh_database \<and>
    schema_ok (db_schema a) \<and> schema_ok (db_schema b) \<and> (i + n = length MIGRATIONS \<longleftrightarrow> next_migration (db_revision b) = None)"
proof -
  have i: "i + n \<le> 6" using assms by (simp add: MIGRATIONS_def)
  have f: "fresh_database = chain ! 0" by (simp add: chain_def)
  have ok: "schema_ok (db_schema (chain ! k))" if "k \<le> 6" for k
    using chain_ok that by (simp add: list_all_length) (simp add: chain_def)
  have last: "next_migration (db_revision (chain ! k)) = None \<longleftrightarrow> k = 6" if "k \<le> 6" for k
  proof (cases "k = 6")
    case False
    then have "k < 6" using that by simp
    then show ?thesis unfolding less_6 by (auto simp: chain_def fresh_database_def migrations_linked)
  qed (simp add: chain_def migrations_linked)
  show ?thesis
    using upgrade_chain [of 0 i] upgrade_chain [OF i] downgrade_chain [OF i] downgrade_chain [of 0 "i + n"] i ok [of i] ok [of "i + n"]
      last [of "i + n"] by (auto simp: f MIGRATIONS_def)
qed

theorem migrations_reversible_witness:
  "\<exists>a b. upgrade 2 fresh_database = Inr a \<and> upgrade 4 a = Inr b \<and> downgrade 4 b = Inr a \<and> next_migration (db_revision b) = None"
  using migrations_reversible [of 2 4] by (auto simp: MIGRATIONS_def)

end
