(* ===== verification/Settings.thy ===== *)
theory Settings
  imports Job_Queue
begin

text \<open>
  What the processes read from their environment: the shared settings (\<open>packages/common/src/civic_common/settings.py\<close>),
  the worker's own (\<open>apps/worker/src/worker/settings.py\<close>), the connection string, the clients built from them
  (\<open>packages/clients\<close>), the address Alembic migrates (\<open>infra/migrations/env.py\<close>) and the logging of a process
  (\<open>civic_common/logging.py\<close>), and then the worker with both kinds of settings. How pydantic reads an integer and the
  constructors of the client libraries are parameters.
\<close>

section \<open>Settings\<close>

datatype setting_type = Text | Number | NullableText

record setting =
  sg_name :: string
  sg_alias :: string
  sg_type :: setting_type
  sg_default :: "pyval option"

definition SETTINGS :: "setting list" where
  "SETTINGS =
    [\<lparr>sg_name = ''postgres_host'', sg_alias = ''POSTGRES_HOST'', sg_type = Text, sg_default = (Some (PLit ''postgres''))\<rparr>,
     \<lparr>sg_name = ''postgres_port'', sg_alias = ''POSTGRES_PORT'', sg_type = Number, sg_default = (Some (PInt 5432))\<rparr>,
     \<lparr>sg_name = ''postgres_user'', sg_alias = ''POSTGRES_USER'', sg_type = Text, sg_default = None\<rparr>,
     \<lparr>sg_name = ''postgres_password'', sg_alias = ''POSTGRES_PASSWORD'', sg_type = Text, sg_default = None\<rparr>,
     \<lparr>sg_name = ''postgres_db'', sg_alias = ''POSTGRES_DB'', sg_type = Text, sg_default = None\<rparr>,
     \<lparr>sg_name = ''neo4j_uri'', sg_alias = ''NEO4J_URI'', sg_type = Text, sg_default = None\<rparr>,
     \<lparr>sg_name = ''neo4j_user'', sg_alias = ''NEO4J_USER'', sg_type = Text, sg_default = None\<rparr>,
     \<lparr>sg_name = ''neo4j_password'', sg_alias = ''NEO4J_PASSWORD'', sg_type = Text, sg_default = None\<rparr>,
     \<lparr>sg_name = ''opensearch_url'', sg_alias = ''OPENSEARCH_URL'', sg_type = Text, sg_default = None\<rparr>,
     \<lparr>sg_name = ''opensearch_user'', sg_alias = ''OPENSEARCH_USER'', sg_type = NullableText, sg_default = (Some PNone)\<rparr>,
     \<lparr>sg_name = ''opensearch_password'', sg_alias = ''OPENSEARCH_PASSWORD'', sg_type = NullableText, sg_default = (Some PNone)\<rparr>,
     \<lparr>sg_name = ''minio_endpoint'', sg_alias = ''MINIO_ENDPOINT'', sg_type = Text, sg_default = None\<rparr>,
     \<lparr>sg_name = ''minio_access_key'', sg_alias = ''MINIO_ACCESS_KEY'', sg_type = Text, sg_default = None\<rparr>,
     \<lparr>sg_name = ''minio_secret_key'', sg_alias = ''MINIO_SECRET_KEY'', sg_type = Text, sg_default = None\<rparr>,
     \<lparr>sg_name = ''minio_bucket_archive'', sg_alias = ''MINIO_BUCKET_ARCHIVE'', sg_type = Text, sg_default = (Some (PLit ''civic-archive''))\<rparr>,
     \<lparr>sg_name = ''api_host'', sg_alias = ''API_HOST'', sg_type = Text, sg_default = (Some (PLit ''0.0.0.0''))\<rparr>,
     \<lparr>sg_name = ''api_port'', sg_alias = ''API_PORT'', sg_type = Number, sg_default = (Some (PInt 8000))\<rparr>,
     \<lparr>sg_name = ''api_log_level'', sg_alias = ''API_LOG_LEVEL'', sg_type = Text, sg_default = (Some (PLit ''info''))\<rparr>,
     \<lparr>sg_name = ''env'', sg_alias = ''ENV'', sg_type = Text, sg_default = (Some (PLit ''dev''))\<rparr>]"

definition WORKER_SETTINGS :: "setting list" where
  "WORKER_SETTINGS =
    [\<lparr>sg_name = ''postgres_host'', sg_alias = ''POSTGRES_HOST'', sg_type = Text, sg_default = (Some (PLit ''postgres''))\<rparr>,
     \<lparr>sg_name = ''postgres_port'', sg_alias = ''POSTGRES_PORT'', sg_type = Number, sg_default = (Some (PInt 5432))\<rparr>,
     \<lparr>sg_name = ''postgres_user'', sg_alias = ''POSTGRES_USER'', sg_type = Text, sg_default = None\<rparr>,
     \<lparr>sg_name = ''postgres_password'', sg_alias = ''POSTGRES_PASSWORD'', sg_type = Text, sg_default = None\<rparr>,
     \<lparr>sg_name = ''postgres_db'', sg_alias = ''POSTGRES_DB'', sg_type = Text, sg_default = None\<rparr>,
     \<lparr>sg_name = ''neo4j_uri'', sg_alias = ''NEO4J_URI'', sg_type = Text, sg_default = None\<rparr>,
     \<lparr>sg_name = ''neo4j_user'', sg_alias = ''NEO4J_USER'', sg_type = Text, sg_default = None\<rparr>,
     \<lparr>sg_name = ''neo4j_password'', sg_alias = ''NEO4J_PASSWORD'', sg_type = Text, sg_default = None\<rparr>,
     \<lparr>sg_name = ''worker_tick_seconds'', sg_alias = ''WORKER_TICK_SECONDS'', sg_type = Number, sg_default = (Some (PInt 30))\<rparr>,
     \<lparr>sg_name = ''env'', sg_alias = ''ENV'', sg_type = Text, sg_default = (Some (PLit ''dev''))\<rparr>]"

text \<open>The variables of the process, in the order of \<open>os.environ\<close>; no two have the same name.\<close>

type_synonym environ = "(pystr \<times> pystr) list"

text \<open>\<open>case_sensitive=False\<close>: names are compared lowered, and the last variable of a lowered name counts.\<close>

definition environ_value :: "environ \<Rightarrow> string \<Rightarrow> pystr option" where
  "environ_value env name = map_of (rev (map (\<lambda>(k, v). (py_lower k, v)) env)) (py_lower (lit name))"

definition read_setting :: "(pystr \<Rightarrow> int option) \<Rightarrow> environ \<Rightarrow> setting \<Rightarrow> pyerr + pyval" where
  "read_setting int_of env f =
     (case environ_value env (sg_alias f) of
        None \<Rightarrow> (case sg_default f of None \<Rightarrow> Inl ValidationError | Some v \<Rightarrow> Inr v)
      | Some s \<Rightarrow>
          (case sg_type f of
             Number \<Rightarrow> (case int_of s of None \<Rightarrow> Inl ValidationError | Some i \<Rightarrow> Inr (PInt i))
           | _ \<Rightarrow> Inr (PStr s)))"

definition load_settings :: "(pystr \<Rightarrow> int option) \<Rightarrow> setting list \<Rightarrow> environ \<Rightarrow> pyerr + pyval dict" where
  "load_settings int_of fs env =
     collect (\<lambda>f. bind_err (read_setting int_of env f) (\<lambda>v. Inr (Some (lit (sg_name f), v)))) fs"

text \<open>\<open>lru_cache\<close> of a function without arguments: a value is kept, an exception is not.\<close>

definition cached :: "pyerr + 'a \<Rightarrow> 'a option \<Rightarrow> 'a option \<times> (pyerr + 'a)" where
  "cached load c =
     (case c of
        Some x \<Rightarrow> (c, Inr x)
      | None \<Rightarrow> (case load of Inl e \<Rightarrow> (None, Inl e) | Inr x \<Rightarrow> (Some x, Inr x)))"

definition get_settings :: "(pystr \<Rightarrow> int option) \<Rightarrow> environ \<Rightarrow> pyval dict option \<Rightarrow> pyval dict option \<times> (pyerr + pyval dict)" where
  "get_settings int_of env c = cached (load_settings int_of SETTINGS env) c"

definition get_worker_settings ::
    "(pystr \<Rightarrow> int option) \<Rightarrow> environ \<Rightarrow> pyval dict option \<Rightarrow> pyval dict option \<times> (pyerr + pyval dict)" where
  "get_worker_settings int_of env c = cached (load_settings int_of WORKER_SETTINGS env) c"

section \<open>Clients\<close>

text \<open>A setting in an f-string.\<close>

fun setting_text :: "pyval \<Rightarrow> pystr" where
  "setting_text (PStr s) = s"
| "setting_text (PInt i) = str_of_int i"
| "setting_text _ = lit ''None''"

definition build_conninfo :: "pyval dict \<Rightarrow> pystr" where
  "build_conninfo s =
     lit ''host='' @ setting_text (vget s (lit ''postgres_host'')) @ lit '' port='' @ setting_text (vget s (lit ''postgres_port'')) @
     lit '' dbname='' @ setting_text (vget s (lit ''postgres_db'')) @ lit '' user='' @ setting_text (vget s (lit ''postgres_user'')) @
     lit '' password='' @ setting_text (vget s (lit ''postgres_password''))"

definition make_connection ::
    "(pystr \<Rightarrow> int option) \<Rightarrow> environ \<Rightarrow> (pystr \<Rightarrow> pyerr + 'c) \<Rightarrow> pyval dict option \<Rightarrow> pyval dict option \<times> (pyerr + 'c)" where
  "make_connection int_of env connect c =
     (case get_settings int_of env c of (c', r) \<Rightarrow> (c', bind_err r (\<lambda>s. connect (build_conninfo s))))"

text \<open>\<open>ping\<close> of any client: whether the client is made and the probe answers.\<close>

definition ping :: "('c \<Rightarrow> pyerr + bool) \<Rightarrow> pyerr + 'c \<Rightarrow> bool" where
  "ping probe client = (bind_err client probe = Inr True)"

definition opensearch_args :: "pyval dict \<Rightarrow> pyval list \<times> (pyval \<times> pyval) option" where
  "opensearch_args s =
     ([vget s (lit ''opensearch_url'')],
      (if truthy (vget s (lit ''opensearch_user''))
       then Some (vget s (lit ''opensearch_user''),
         if truthy (vget s (lit ''opensearch_password'')) then vget s (lit ''opensearch_password'') else PStr [])
       else None))"

definition neo4j_args :: "pyval dict \<Rightarrow> pyval \<times> pyval \<times> pyval" where
  "neo4j_args s = (vget s (lit ''neo4j_uri''), vget s (lit ''neo4j_user''), vget s (lit ''neo4j_password''))"

definition minio_args :: "pyval dict \<Rightarrow> pyval \<times> pyval \<times> pyval" where
  "minio_args s = (vget s (lit ''minio_endpoint''), vget s (lit ''minio_access_key''), vget s (lit ''minio_secret_key''))"

text \<open>The cached clients of a process beside its cached settings.\<close>

definition make_client ::
    "(pystr \<Rightarrow> int option) \<Rightarrow> environ \<Rightarrow> (pyval dict \<Rightarrow> 'a) \<Rightarrow> ('a \<Rightarrow> pyerr + 'c) \<Rightarrow> pyval dict option \<times> 'c option \<Rightarrow>
     (pyval dict option \<times> 'c option) \<times> (pyerr + 'c)" where
  "make_client int_of env args new st =
     (case st of
        (c, Some client) \<Rightarrow> (st, Inr client)
      | (c, None) \<Rightarrow>
          (case get_settings int_of env c of
             (c', r) \<Rightarrow> (case cached (bind_err r (\<lambda>s. new (args s))) None of (k, out) \<Rightarrow> ((c', k), out))))"

definition make_opensearch ::
    "(pystr \<Rightarrow> int option) \<Rightarrow> environ \<Rightarrow> (pyval list \<times> (pyval \<times> pyval) option \<Rightarrow> pyerr + 'c) \<Rightarrow> pyval dict option \<times> 'c option \<Rightarrow>
     (pyval dict option \<times> 'c option) \<times> (pyerr + 'c)" where
  "make_opensearch int_of env new st = make_client int_of env opensearch_args new st"

definition make_driver ::
    "(pystr \<Rightarrow> int option) \<Rightarrow> environ \<Rightarrow> (pyval \<times> pyval \<times> pyval \<Rightarrow> pyerr + 'c) \<Rightarrow> pyval dict option \<times> 'c option \<Rightarrow>
     (pyval dict option \<times> 'c option) \<times> (pyerr + 'c)" where
  "make_driver int_of env new st = make_client int_of env neo4j_args new st"

definition make_minio ::
    "(pystr \<Rightarrow> int option) \<Rightarrow> environ \<Rightarrow> (pyval \<times> pyval \<times> pyval \<Rightarrow> pyerr + 'c) \<Rightarrow> pyval dict option \<times> 'c option \<Rightarrow>
     (pyval dict option \<times> 'c option) \<times> (pyerr + 'c)" where
  "make_minio int_of env new st = make_client int_of env minio_args new st"

text \<open>
  \<open>put_index_templates\<close>: the stems of the files in the order of their paths and what their JSON reads as, or the
  exception of reading it; \<open>put\<close> is the call of the cluster.
\<close>

fun put_templates ::
    "(pystr \<Rightarrow> pyval \<Rightarrow> 's \<Rightarrow> 's \<times> (pyerr + pyval)) \<Rightarrow> (pystr \<times> (pyerr + pyval)) list \<Rightarrow> pyval dict \<Rightarrow> 's \<Rightarrow>
     's \<times> (pyerr + pyval dict)" where
  "put_templates put [] out st = (st, Inr out)"
| "put_templates put ((name, json) # files) out st =
     (case json of
        Inl e \<Rightarrow> (st, Inl e)
      | Inr body \<Rightarrow>
          (case put name body st of
             (st', Inl e) \<Rightarrow> (st', Inl e)
           | (st', Inr answer) \<Rightarrow> put_templates put files (dset out name answer) st'))"

definition put_index_templates ::
    "(pystr \<Rightarrow> pyval \<Rightarrow> 's \<Rightarrow> 's \<times> (pyerr + pyval)) \<Rightarrow> pyerr + unit \<Rightarrow> (pystr \<times> (pyerr + pyval)) list \<Rightarrow> 's \<Rightarrow>
     's \<times> (pyerr + pyval dict)" where
  "put_index_templates put client files st =
     (case client of Inl e \<Rightarrow> (st, Inl e) | Inr _ \<Rightarrow> put_templates put files [] st)"

text \<open>The address of the database in \<open>infra/migrations/env.py\<close>, read from \<open>os.environ\<close> itself.\<close>

definition environ_item :: "environ \<Rightarrow> string \<Rightarrow> pyerr + pystr" where
  "environ_item env name = (case map_of env (lit name) of None \<Rightarrow> Inl KeyError | Some v \<Rightarrow> Inr v)"

definition environ_get :: "environ \<Rightarrow> string \<Rightarrow> string \<Rightarrow> pystr" where
  "environ_get env name dflt = (case map_of env (lit name) of None \<Rightarrow> lit dflt | Some v \<Rightarrow> v)"

definition build_url :: "environ \<Rightarrow> pyerr + pystr" where
  "build_url env =
     bind_err (environ_item env ''POSTGRES_USER'') (\<lambda>user.
     bind_err (environ_item env ''POSTGRES_PASSWORD'') (\<lambda>pwd.
     bind_err (environ_item env ''POSTGRES_DB'') (\<lambda>db.
     Inr (lit ''postgresql+psycopg://'' @ user @ lit '':'' @ pwd @ lit ''@'' @ environ_get env ''POSTGRES_HOST'' ''postgres'' @
       lit '':'' @ environ_get env ''POSTGRES_PORT'' ''5432'' @ lit ''/'' @ db))))"

section \<open>Logging\<close>

datatype renderer = ConsoleRenderer | JSONRenderer
datatype log_handler = StreamWith renderer | ForeignHandler nat
datatype log_level = DEBUG | INFO

record log_state =
  root_handlers :: "log_handler list"
  root_level :: "log_level option"

definition configure_logging :: "(string \<Rightarrow> pystr option) \<Rightarrow> log_state \<Rightarrow> log_state" where
  "configure_logging env st =
     (let name = (case env ''ENV'' of None \<Rightarrow> lit ''dev'' | Some v \<Rightarrow> v);
          level = (if name = lit ''dev'' then DEBUG else INFO);
          handler = StreamWith (if name = lit ''dev'' then ConsoleRenderer else JSONRenderer)
      in \<lparr>root_handlers = (if root_handlers st = [] then root_handlers st @ [handler] else [handler]), root_level = Some level\<rparr>)"

text \<open>Configuring again is not without effect: whatever handlers were added since are gone.\<close>

lemma configure_logging_replaces:
  "length (root_handlers (configure_logging env st)) = 1"
  "configure_logging env (configure_logging env st \<lparr>root_handlers := hs\<rparr>) = configure_logging env st"
  by (simp_all add: configure_logging_def Let_def)

section \<open>When settings load\<close>

definition setting_loads :: "(pystr \<Rightarrow> int option) \<Rightarrow> environ \<Rightarrow> setting \<Rightarrow> bool" where
  "setting_loads int_of env f \<longleftrightarrow>
     (case environ_value env (sg_alias f) of
        None \<Rightarrow> sg_default f \<noteq> None
      | Some s \<Rightarrow> sg_type f = Number \<longrightarrow> int_of s \<noteq> None)"

lemma read_setting_iff: "(\<exists>v. read_setting int_of env f = Inr v) \<longleftrightarrow> setting_loads int_of env f"
  by (auto simp: read_setting_def setting_loads_def split: option.splits setting_type.splits)

lemma load_settings_Cons:
  "load_settings int_of (f # fs) env =
     bind_err (read_setting int_of env f) (\<lambda>v. bind_err (load_settings int_of fs env) (\<lambda>s. Inr ((lit (sg_name f), v) # s)))"
  by (cases "read_setting int_of env f") (simp_all add: load_settings_def)

lemma load_settings_Nil [simp]: "load_settings int_of [] env = Inr []"
  by (simp add: load_settings_def)

text \<open>Settings load when every variable that is required is set and every number is one; nothing else matters.\<close>

lemma load_settings_iff: "(\<exists>s. load_settings int_of fs env = Inr s) \<longleftrightarrow> list_all (setting_loads int_of env) fs"
proof (induction fs)
  case (Cons f fs)
  then show ?case unfolding load_settings_Cons by (auto simp: bind_err_Inr read_setting_iff [symmetric])
qed simp

lemma load_settings_get:
  "load_settings int_of fs env = Inr s \<Longrightarrow> f \<in> set fs \<Longrightarrow> distinct (map sg_name fs) \<Longrightarrow>
     read_setting int_of env f = Inr (vget s (lit (sg_name f)))"
proof (induction fs arbitrary: s)
  case (Cons g gs)
  then obtain v t where g: "read_setting int_of env g = Inr v" "load_settings int_of gs env = Inr t" "s = (lit (sg_name g), v) # t"
    unfolding load_settings_Cons by (auto simp: bind_err_Inr)
  show ?case
  proof (cases "f = g")
    case True
    then show ?thesis using g by (simp add: vget_def dget_def)
  next
    case False
    then have f: "f \<in> set gs" using Cons.prems(2) by simp
    then have "sg_name f \<in> sg_name ` set gs" by (rule imageI)
    then have "sg_name f \<noteq> sg_name g" using Cons.prems(3) by auto
    then show ?thesis using Cons.IH [OF g(2) f] Cons.prems(3) g(3) by (simp add: vget_def dget_def)
  qed
qed simp

text \<open>
  The worker's settings are the shared ones of the same name and one of its own: where the shared settings load, the
  worker's do too unless \<open>WORKER_TICK_SECONDS\<close> is no number, and with the same values.
\<close>

lemma worker_settings_shared:
  "filter (\<lambda>f. sg_name f \<noteq> ''worker_tick_seconds'') WORKER_SETTINGS = filter (\<lambda>f. f \<in> set SETTINGS) WORKER_SETTINGS"
  "distinct (map sg_name SETTINGS)" "distinct (map sg_name WORKER_SETTINGS)"
  by code_simp+

lemma settings_agree:
  assumes "load_settings int_of SETTINGS env = Inr s" "load_settings int_of WORKER_SETTINGS env = Inr w"
    and "f \<in> set WORKER_SETTINGS" "sg_name f \<noteq> ''worker_tick_seconds''"
  shows "vget w (lit (sg_name f)) = vget s (lit (sg_name f))"
proof -
  have "f \<in> set (filter (\<lambda>f. sg_name f \<noteq> ''worker_tick_seconds'') WORKER_SETTINGS)" using assms(3,4) by simp
  then have "f \<in> set SETTINGS" unfolding worker_settings_shared(1) by simp
  then show ?thesis
    using load_settings_get [OF assms(1) _ worker_settings_shared(2)] load_settings_get [OF assms(2,3) worker_settings_shared(3)]
    by fastforce
qed

text \<open>A template that is installed was read, and the answer of the cluster is reported under its name.\<close>

lemma put_templates_reported:
  "put_templates put files out st = (st', Inr out') \<Longrightarrow>
     set (map fst out') = set (map fst out) \<union> fst ` set files \<and> list_all (\<lambda>(_, json). \<exists>body. json = Inr body) files"
proof (induction put files out st arbitrary: st' out' rule: put_templates.induct)
  case (2 put name json files out st)
  then obtain body st1 answer where b: "json = Inr body" "put name body st = (st1, Inr answer)"
    by (auto split: sum.splits prod.splits)
  have "set (map fst (dset out name answer)) = insert name (set (map fst out))"
    by (induction out name answer rule: dset.induct) auto
  then show ?case using 2 b by auto
qed simp

section \<open>The worker and its two kinds of settings\<close>

text \<open>
  The worker reads its own settings, while the connection is made from the shared ones; what the latter raises is taken for
  a database that cannot be reached. \<open>accepts\<close> is the server's answer to a connection string while it is up.
\<close>

record worker_process =
  wp_own :: "pyval dict option"
  wp_shared :: "pyval dict option"
  wp_jobs :: jobs

definition worker_once ::
    "(pystr \<Rightarrow> int option) \<Rightarrow> environ \<Rightarrow> (pystr \<Rightarrow> bool) \<Rightarrow> (pyerr \<Rightarrow> pystr) \<Rightarrow> registry \<Rightarrow> tick_env \<Rightarrow> worker_process \<Rightarrow>
     worker_process \<times> (pyerr + tick_status)" where
  "worker_once int_of env accepts rp reg tick wp =
     (case get_worker_settings int_of env (wp_own wp) of
        (own, Inl e) \<Rightarrow> (wp\<lparr>wp_own := own\<rparr>, Inl e)
      | (own, Inr _) \<Rightarrow>
          (case make_connection int_of env
                (\<lambda>conninfo. if tk_connected tick \<and> accepts conninfo then Inr () else Inl DatabaseError) (wp_shared wp) of
             (shared, conn) \<Rightarrow>
               (case run_once rp (tick\<lparr>tk_connected := (conn = Inr ())\<rparr>) reg (wp_jobs wp) of
                  (db, r) \<Rightarrow> (\<lparr>wp_own = own, wp_shared = shared, wp_jobs = db\<rparr>, r))))"

fun worker_loop ::
    "(pystr \<Rightarrow> int option) \<Rightarrow> environ \<Rightarrow> (pystr \<Rightarrow> bool) \<Rightarrow> (pyerr \<Rightarrow> pystr) \<Rightarrow> registry \<Rightarrow> tick_env list \<Rightarrow> worker_process \<Rightarrow>
     worker_process \<times> pyerr option" where
  "worker_loop int_of env accepts rp reg [] wp = (wp, None)"
| "worker_loop int_of env accepts rp reg (tick # ticks) wp =
     (case worker_once int_of env accepts rp reg tick wp of
        (wp', Inl e) \<Rightarrow> (wp', Some e)
      | (wp', Inr _) \<Rightarrow> worker_loop int_of env accepts rp reg ticks wp')"

definition worker_main ::
    "(pystr \<Rightarrow> int option) \<Rightarrow> environ \<Rightarrow> (pystr \<Rightarrow> bool) \<Rightarrow> (pyerr \<Rightarrow> pystr) \<Rightarrow> registry \<Rightarrow> tick_env list \<Rightarrow> jobs \<Rightarrow>
     jobs \<times> pyerr option" where
  "worker_main int_of env accepts rp reg ticks db =
     (case get_worker_settings int_of env None of
        (_, Inl e) \<Rightarrow> (db, Some e)
      | (own, Inr _) \<Rightarrow>
          (case worker_loop int_of env accepts rp reg ticks \<lparr>wp_own = own, wp_shared = None, wp_jobs = db\<rparr> of
             (wp, r) \<Rightarrow> (wp_jobs wp, r)))"

lemma worker_loop_idle:
  assumes "load_settings int_of SETTINGS env = Inl e"
  shows "worker_loop int_of env accepts rp reg ticks \<lparr>wp_own = Some w, wp_shared = None, wp_jobs = db\<rparr> =
     (\<lparr>wp_own = Some w, wp_shared = None, wp_jobs = db\<rparr>, None)"
  by (induction ticks)
    (simp_all add: assms worker_once_def get_worker_settings_def make_connection_def get_settings_def cached_def run_once_def)

definition reachable :: "(pystr \<Rightarrow> bool) \<Rightarrow> pyval dict \<Rightarrow> tick_env \<Rightarrow> tick_env" where
  "reachable accepts s tick = tick\<lparr>tk_connected := tk_connected tick \<and> accepts (build_conninfo s)\<rparr>"

lemma worker_loop_live:
  assumes "load_settings int_of SETTINGS env = Inr s" "shared = None \<or> shared = Some s"
  shows "\<exists>wp. worker_loop int_of env accepts rp reg ticks \<lparr>wp_own = Some w, wp_shared = shared, wp_jobs = db\<rparr> =
     (wp, snd (run_forever rp reg (map (reachable accepts s) ticks) db)) \<and>
     wp_jobs wp = fst (run_forever rp reg (map (reachable accepts s) ticks) db)"
  using assms(2)
proof (induction ticks arbitrary: shared db)
  case (Cons tick ticks)
  obtain db1 r where run: "run_once rp (reachable accepts s tick) reg db = (db1, r)" by fastforce
  then have once: "worker_once int_of env accepts rp reg tick \<lparr>wp_own = Some w, wp_shared = shared, wp_jobs = db\<rparr> =
     (\<lparr>wp_own = Some w, wp_shared = Some s, wp_jobs = db1\<rparr>, r)"
    using Cons.prems assms(1)
    by (auto simp: worker_once_def get_worker_settings_def make_connection_def get_settings_def cached_def reachable_def if_distrib
        cong: if_cong)
  show ?case using Cons.IH [of "Some s" db1] by (cases r) (simp_all add: once run)
qed simp

text \<open>An environment with what the worker names and nothing else.\<close>

definition worker_only_environ :: environ where
  "worker_only_environ = map (\<lambda>(k, v). (lit k, lit v))
     [(''POSTGRES_USER'', ''civic''), (''POSTGRES_PASSWORD'', ''pw''), (''POSTGRES_DB'', ''civic''), (''NEO4J_URI'', ''bolt://neo4j:7687''),
      (''NEO4J_USER'', ''neo4j''), (''NEO4J_PASSWORD'', ''pw'')]"

lemma lowered_names:
  "py_lower (lit ''POSTGRES_HOST'') = lit ''postgres_host''"
  "py_lower (lit ''POSTGRES_PORT'') = lit ''postgres_port''"
  "py_lower (lit ''WORKER_TICK_SECONDS'') = lit ''worker_tick_seconds''"
  "py_lower (lit ''ENV'') = lit ''env''"
  "py_lower (lit ''OPENSEARCH_URL'') = lit ''opensearch_url''"
  "py_lower (lit ''POSTGRES_USER'') = lit ''postgres_user''"
  "py_lower (lit ''POSTGRES_PASSWORD'') = lit ''postgres_password''"
  "py_lower (lit ''POSTGRES_DB'') = lit ''postgres_db''"
  "py_lower (lit ''NEO4J_URI'') = lit ''neo4j_uri''"
  "py_lower (lit ''NEO4J_USER'') = lit ''neo4j_user''"
  "py_lower (lit ''NEO4J_PASSWORD'') = lit ''neo4j_password''"
  "py_lower (lit ''OPENSEARCH_USER'') = lit ''opensearch_user''"
  "py_lower (lit ''OPENSEARCH_PASSWORD'') = lit ''opensearch_password''"
  "py_lower (lit ''MINIO_ENDPOINT'') = lit ''minio_endpoint''"
  "py_lower (lit ''MINIO_ACCESS_KEY'') = lit ''minio_access_key''"
  "py_lower (lit ''MINIO_SECRET_KEY'') = lit ''minio_secret_key''"
  "py_lower (lit ''MINIO_BUCKET_ARCHIVE'') = lit ''minio_bucket_archive''"
  "py_lower (lit ''API_HOST'') = lit ''api_host''"
  "py_lower (lit ''API_PORT'') = lit ''api_port''"
  "py_lower (lit ''API_LOG_LEVEL'') = lit ''api_log_level''"
  by (simp_all add: py_lower_def lit_def lower_char_def)

lemma worker_only_loads:
  "list_all (setting_loads int_of worker_only_environ) WORKER_SETTINGS"
  "\<not> list_all (setting_loads int_of worker_only_environ) SETTINGS"
  by (simp_all add: setting_loads_def WORKER_SETTINGS_def SETTINGS_def environ_value_def worker_only_environ_def lowered_names)

text \<open>
  Claim C40. What the worker does depends on settings it does not read itself. It ends at once when its own settings do not
  load. When they load and the shared ones do not, it runs for ever without an error and without touching the queue. When
  both load it is the worker loop, connected as the server accepts the connection string of the shared settings. The second
  case is real: the variables the worker names are not enough for the shared settings.
\<close>

theorem worker_needs_shared_settings:
  "worker_main int_of env accepts rp reg ticks db =
     (case load_settings int_of WORKER_SETTINGS env of
        Inl e \<Rightarrow> (db, Some e)
      | Inr _ \<Rightarrow>
          (case load_settings int_of SETTINGS env of
             Inl _ \<Rightarrow> (db, None)
           | Inr s \<Rightarrow> run_forever rp reg (map (reachable accepts s) ticks) db)) \<and>
   worker_main int_of worker_only_environ accepts rp reg ticks db = (db, None)"
proof -
  have main: "worker_main int_of env' accepts rp reg ticks db =
     (case load_settings int_of WORKER_SETTINGS env' of
        Inl e \<Rightarrow> (db, Some e)
      | Inr _ \<Rightarrow>
          (case load_settings int_of SETTINGS env' of
             Inl _ \<Rightarrow> (db, None)
           | Inr s \<Rightarrow> run_forever rp reg (map (reachable accepts s) ticks) db))" for env'
  proof (cases "load_settings int_of WORKER_SETTINGS env'")
    case own: (Inr w)
    show ?thesis
    proof (cases "load_settings int_of SETTINGS env'")
      case (Inr s)
      obtain wp where "worker_loop int_of env' accepts rp reg ticks \<lparr>wp_own = Some w, wp_shared = None, wp_jobs = db\<rparr> =
          (wp, snd (run_forever rp reg (map (reachable accepts s) ticks) db))"
        "wp_jobs wp = fst (run_forever rp reg (map (reachable accepts s) ticks) db)"
        using worker_loop_live [OF Inr, of None] by blast
      then show ?thesis by (simp add: worker_main_def get_worker_settings_def cached_def own Inr)
    qed (simp add: worker_main_def get_worker_settings_def cached_def own worker_loop_idle)
  qed (simp add: worker_main_def get_worker_settings_def cached_def)
  obtain w where "load_settings int_of WORKER_SETTINGS worker_only_environ = Inr w"
    using worker_only_loads(1) by (auto simp: load_settings_iff [symmetric])
  moreover obtain e where "load_settings int_of SETTINGS worker_only_environ = Inl e"
    using worker_only_loads(2) unfolding load_settings_iff [symmetric] by (metis sum.exhaust)
  ultimately show ?thesis using main [of env] main [of worker_only_environ] by simp
qed

end
