(* ===== verification/Spec2Isabelle.thy ===== *)
theory Spec2Isabelle
  imports Persistence Job_Queue Attribution Elections Eval Local_Load Fixture_Gen Reviewer_Ui Freshness Recording Api_App
    Adapter_Cli Indexing Providers Enrichment Migrations Settings
begin

text \<open>
  A verification library for civic-proof-il, a fact-checking pipeline for Hebrew and English statements about the formal
  actions of members of the Knesset. The paths below are relative to the root of the repository.

  \<^bold>\<open>The program.\<close> A statement arrives at the API (\<open>apps/api\<close>). It is decomposed into atomic claims by rule templates, with a
  language model as a fallback (\<open>services/claim_decomposition\<close>); every candidate claim passes the slot validator of the
  ontology (\<open>packages/ontology\<close>). Time phrases become time scopes (\<open>services/normalization\<close>), names become entities of the
  graph (\<open>services/entity_resolution\<close>), evidence is retrieved from the graph and from the search index and ranked
  (\<open>services/retrieval\<close>), and a deterministic engine decides the verdict, which leaves with its provenance
  (\<open>services/verification\<close>). Conflicts and declarations become tasks of a review queue (\<open>services/review\<close>), which a web
  interface shows (\<open>apps/reviewer_ui\<close>). The graph is filled by adapters that fetch, archive, parse, normalize and upsert
  public records inside an ingest run (\<open>services/ingestion\<close>, \<open>services/archival\<close>), and by jobs a worker takes from a queue
  (\<open>apps/worker\<close>). The tables come from migrations (\<open>infra/migrations\<close>); scripts seed, load, index, record and evaluate
  (\<open>scripts\<close>).

  \<^bold>\<open>The library.\<close>

  \<^item> Python: \<open>Py_Prelude\<close> (strings as code points, values, dictionaries, exceptions, rounding), \<open>Py_Regex\<close> and
    \<open>Py_Regex_Props\<close> (the regular expressions of \<open>re\<close>, with the matcher proved against a declarative semantics), \<open>Py_Uuid\<close>,
    \<open>Py_Lines\<close>.
  \<^item> From a statement to claims: \<open>Claim_Slots\<close> (\<open>claim_slots.py\<close>), \<open>Claim_Rules\<close> (\<open>rules.py\<close>, one definition per template),
    \<open>Temporal\<close> (\<open>civic_temporal\<close>), \<open>Decomposer\<close> (\<open>decomposer.py\<close>), \<open>Providers\<close> (\<open>llm.py\<close>, the prompt cards), \<open>Checkability\<close>
    (\<open>checkability.py\<close> and the declarations), \<open>Persistence\<close> (\<open>persistence.py\<close> over its two tables).
  \<^item> From claims to verdicts: \<open>Entity_Resolution\<close>, \<open>Retrieval\<close> (\<open>graph.py\<close>, \<open>lexical.py\<close>, \<open>rerank.py\<close>), \<open>Verdict\<close>
    (\<open>confidence.py\<close>, \<open>engine.py\<close>), \<open>Provenance\<close>, \<open>Pipeline\<close> (\<open>routers/pipeline.py\<close>, which composes them), \<open>Attribution\<close>
    (\<open>declaration_verifier.py\<close>, \<open>attribution_judge.py\<close>).
  \<^item> Review and process: \<open>Review_Queue\<close> (\<open>civic_review\<close> and \<open>routers/review.py\<close>), \<open>Reviewer_Ui\<close>, \<open>Api_App\<close> (\<open>main.py\<close>,
    \<open>health.py\<close>, \<open>routers/persons.py\<close>, \<open>routers/claims.py\<close>), \<open>Job_Queue\<close> (\<open>queue.py\<close>, \<open>handlers.py\<close>, \<open>worker/main.py\<close>),
    \<open>Settings\<close> (\<open>civic_common\<close>, \<open>worker/settings.py\<close>, the connections and clients made from them, and the worker on top).
  \<^item> Ingestion: \<open>Archive\<close> (URIs, object store, archiver, fetcher), \<open>Graph_Store\<close> (the Cypher templates as data and what they
    do to a graph), \<open>Ingest_Rows\<close> and \<open>Ingest_Upserts\<close> (the eight Knesset adapters), \<open>Ingest\<close> (\<open>odata.py\<close>, \<open>adapter.py\<close>),
    \<open>Ingest_Run\<close> (\<open>orchestrator.py\<close>, \<open>seed_demo.py\<close>), \<open>Gov_Decisions\<close>, \<open>Elections\<close>, \<open>Adapter_Cli\<close> (\<open>manifest.py\<close> and the
    command lines), \<open>Enrichment\<close> (\<open>enrich_vote_bills.py\<close>), \<open>Indexing\<close> (\<open>index_evidence.py\<close>).
  \<^item> Schemas and scripts: \<open>Ontology\<close> (\<open>models\<close>, \<open>schemas.py\<close>), \<open>Migrations\<close>, \<open>Fixture_Gen\<close>, \<open>Local_Load\<close>, \<open>Eval\<close>,
    \<open>Freshness\<close>, \<open>Recording\<close> (\<open>record-statements.py\<close>, the capture command).

  A theory holds, in this order, the data of its component, one definition per function of the code, the lemmas and, under
  a claim number, its properties with their witnesses.

  \<^bold>\<open>How state and effects are modelled.\<close> A database, a graph, an index or a process is a record that the operations take and
  return. A fallible operation returns \<open>pyerr + 'a\<close>; where the state survives the exception the pair of both is returned.
  A Python generator is the list of what it yields and the exception that ends it. Concurrency is explicit: the workers of the
  job queue are a step relation over the table, the locks and the jobs being run (\<open>queue_step\<close>), the reviewers two over the
  review tables: \<open>review_step\<close>, whose steps are transactions, and \<open>api_step\<close>, whose steps are the single statements of the
  requests on the autocommit connection of the API; the invariants are proved by rule induction. What an operation that is not
  atomic does by itself is one function; a call of the archiver on a connection of its own does not see what the caller has not committed
  (\<open>archive_call\<close>). Interfaces are locales, each interpreted on the model of
  the code: \<open>review_repository\<close> (Postgres and empty), \<open>job_queue\<close>, \<open>weighting\<close>, \<open>keyed_store\<close>.

  \<^bold>\<open>Numbers.\<close> Python integers are \<open>int\<close>; the one machine width that matters, the \<open>smallint\<close> columns of the job table, is a
  range check where the database makes it. A float is the rational its decimal literal denotes. This is exact for the scores, because every
  weight and axis is a multiple of 1/20 and every overall score is rounded to four decimals; the election threshold 0.0325 is
  the rational 13/400; the gates of the benchmark keep their tolerance. \<open>py_lower\<close> lowers the letters the program's inputs
  have: ASCII, Latin-1, Hebrew (which has no case).

  \<^bold>\<open>Loops.\<close> Loops over data are structural recursion. The adapter loop and the loop over the pages of government decisions
  follow links and may run for ever: they are \<open>partial_function (option)\<close>, where \<open>None\<close> means not returning, and
  \<open>run_adapter_terminates\<close> says when they do. \<open>odata_pages\<close> has fuel; with a page limit, the limit is enough
  (\<open>odata_pages_enough\<close>).

  \<^bold>\<open>What the properties show.\<close> The verdict and decomposition properties say that no verdict is given without
  evidence of the right kind and no claim leaves the decomposer unless it validates; those of the queues, that audit trails
  are complete and decisions final when operations are transactions (and what is left of that on the connection of the API), jobs
  exclusive and retries bounded; those of the archive and the ingestion, that archiving known bytes again changes nothing, that seeding is idempotent and dry runs forecast real ones; those of the
  schemas, that the migrations are reversible and that the checks of the database are the ones the components assume. Where the code
  does not do what it means to, the property states what it does: the declaration review that is never opened, the
  resolver that raises on government decisions, the local loader and the fixture generator that cannot succeed, the API process left on a closed
  connection, the worker that idles for want of settings it does not name.

  \<^bold>\<open>Parameters.\<close> Code that is not in the repository is an argument of the definitions that use it: the drivers of Neo4j, OpenSearch,
  MinIO and HTTP (what a call answers, and whether it raises), \<open>uuid4\<close> and \<open>uuid5\<close>, SHA-256, UTF-8 and Unicode normal form, \<open>rapidfuzz\<close>,
  \<open>json\<close>, \<open>csv\<close> and YAML readers, \<open>urlparse\<close> and \<open>urljoin\<close>, the URL check of pydantic, the Draft 2020-12 validator, \<open>repr\<close> of
  values, the clock. Nothing is assumed of them but what a property names.

  \<^bold>\<open>Not modelled.\<close> Test doubles and tests. The parsing of command-line arguments, printing and log lines. The
  constructors of the client libraries, which are parameters of \<open>Settings\<close>. The coercions pydantic
  makes of request bodies beyond the checks named in the theories. The HTML templates of the reviewer interface. The text of the read queries
  under \<open>infra/neo4j/retrieval\<close>, whose rows are parameters of the graph retriever. \<open>PromptCard.render\<close>, which is \<open>str.format\<close> and which
  nothing calls. How Alembic runs (the rest of \<open>env.py\<close>); its transaction
  is the one in \<open>Migrations\<close>. The re-exporting
  \<open>__init__.py\<close> files. The shell scripts, which start these programs.
\<close>

section \<open>The schema the components assume\<close>

text \<open>
  Claim C39. The checks the components are modelled with are those of the schema at the head of the migrations: on the kinds of jobs, review
  tasks and entity candidates, on statements and their claims. The actions of the audit log and the results of the
  checkability classifier are exactly the values their columns admit. The claim types are not: the column leaves out two of
  the types that have a slot template.
\<close>

theorem schema_checks_agree:
  "\<exists>db. upgrade (length MIGRATIONS) fresh_database = Inr db \<and> next_migration (db_revision db) = None \<and>
   (\<forall>k. jobs_kind_check k \<longleftrightarrow> k \<in> lit ` set (checked_values (db_schema db) ''jobs'' ''kind'')) \<and>
   (\<forall>k. review_kind_check k \<longleftrightarrow> k \<in> lit ` set (checked_values (db_schema db) ''review_tasks'' ''kind'')) \<and>
   range action_name = lit ` set (checked_values (db_schema db) ''review_actions'' ''action'') \<and>
   (\<forall>r. candidate_check r \<longleftrightarrow> 0 \<le> cr_confidence r \<and> cr_confidence r \<le> 1 \<and>
      cr_entity_kind r \<in> lit ` set (checked_values (db_schema db) ''entity_candidates'' ''entity_kind'')) \<and>
   (\<forall>r. statements_check r \<longleftrightarrow> sr_language r \<in> lit ` set (checked_values (db_schema db) ''statements'' ''language'')) \<and>
   range checkability_name = lit ` set (checked_values (db_schema db) ''statement_claims'' ''checkability'') \<and>
   (\<forall>r. statement_claims_check r \<longleftrightarrow> scr_claim_type r \<in> lit ` set (checked_values (db_schema db) ''statement_claims'' ''claim_type'') \<and>
      scr_checkability r \<in> range checkability_name \<and> scr_method r \<in> lit ` set (checked_values (db_schema db) ''statement_claims'' ''method'')) \<and>
   set (map fst SLOT_TEMPLATES) - lit ` set (checked_values (db_schema db) ''statement_claims'' ''claim_type'') =
     {lit ''election_result'', lit ''government_decision''}"
proof -
  have actions: "range action_name = action_name ` {Approve, Reject, review_action.Relink, Annotate, Escalate}"
    by (rule arg_cong [of _ _ "image action_name"]) (auto, metis review_action.exhaust)
  have results: "range checkability_name =
      checkability_name ` {Checkable, NonCheckable, InsufficientTimeScope, InsufficientEntityResolution}"
    by (rule arg_cong [of _ _ "image checkability_name"]) (auto, metis checkability.exhaust)
  have types: "set (map fst SLOT_TEMPLATES) - lit ` set (checked_values schema_6 ''statement_claims'' ''claim_type'') =
     {lit ''election_result'', lit ''government_decision''}"
    unfolding SLOT_TEMPLATES_keys head_checks by (auto simp: CLAIM_TYPES_def)
  note checks = jobs_kind_check_def review_kind_check_def candidate_check_def statements_check_def statement_claims_check_def
  show ?thesis
    by (rule exI [of _ "\<lparr>db_revision = Some ''0006'', db_schema = schema_6\<rparr>"], intro conjI allI)
      (simp_all only: database.simps upgrade_head migrations_linked types, simp_all only: head_checks actions results checks, auto)
qed

end
